(* ===== verification/Fenice_Prelude.thy ===== *)
theory Fenice_Prelude
  imports Complex_Main "HOL-Library.Word" "HOL-Library.Monad_Syntax"
begin

text \<open>
  Shared vocabulary of the development: the C integer types of
  \<^verbatim>\<open>include/fenice/types.h\<close>, the error codes of \<^verbatim>\<open>include/fenice/utils.h\<close>, the network
  byte order conversions of the C library, a few generic list and word lemmas, the
  development's theorem collections, and the locale that turns one-step preservation
  into an invariant of every reachable state.
\<close>

section \<open>C types and error codes\<close>

type_synonym uint8 = "8 word"
type_synonym uint16 = "16 word"
type_synonym uint32 = "32 word"
type_synonym uint64 = "64 word"

text \<open>C \<open>double\<close> and \<open>float\<close> values are real numbers here: every computation of the code
  that the properties depend on stays within the integers a double represents exactly.\<close>

type_synonym cdouble = real

text \<open>\<^verbatim>\<open>TRUE\<close> and \<^verbatim>\<open>FALSE\<close> of \<^verbatim>\<open>types.h\<close> are HOL's booleans. The error codes are the
  integers of \<^verbatim>\<open>utils.h\<close>.\<close>

definition ERR_NOERROR :: int where "ERR_NOERROR = 0"
definition ERR_GENERIC :: int where "ERR_GENERIC = - 1"
definition ERR_NOT_FOUND :: int where "ERR_NOT_FOUND = - 2"
definition ERR_PARSE :: int where "ERR_PARSE = - 3"
definition ERR_ALLOC :: int where "ERR_ALLOC = - 4"
definition ERR_INPUT_PARAM :: int where "ERR_INPUT_PARAM = - 5"
definition ERR_NOT_SD :: int where "ERR_NOT_SD = - 6"
definition ERR_UNSUPPORTED_PT :: int where "ERR_UNSUPPORTED_PT = - 7"
definition ERR_EOF :: int where "ERR_EOF = - 8"
definition ERR_FATAL :: int where "ERR_FATAL = - 9"
definition ERR_CONNECTION_CLOSE :: int where "ERR_CONNECTION_CLOSE = - 10"

lemmas err_defs = ERR_NOERROR_def ERR_GENERIC_def ERR_NOT_FOUND_def ERR_PARSE_def ERR_ALLOC_def
  ERR_INPUT_PARAM_def ERR_NOT_SD_def ERR_UNSUPPORTED_PT_def ERR_EOF_def ERR_FATAL_def
  ERR_CONNECTION_CLOSE_def

section \<open>Theorem collections\<close>

named_theorems ring_facts \<open>facts about the slot ring of a buffer\<close>
named_theorems unlocked_facts \<open>operations that leave the buffer mutex released\<close>
named_theorems field_facts \<open>fields an operation does not touch\<close>

section \<open>Lists\<close>

lemma takeWhile_neq_append [simp]:
  "c \<notin> set xs \<Longrightarrow> takeWhile (\<lambda>x. x \<noteq> c) (xs @ c # ys) = xs"
  by (induction xs) auto

lemma dropWhile_neq_append [simp]:
  "c \<notin> set xs \<Longrightarrow> dropWhile (\<lambda>x. x \<noteq> c) (xs @ c # ys) = c # ys"
  by (induction xs) auto

lemma nth_update_if: "i < length xs \<Longrightarrow> xs[i := v] ! j = (if j = i then v else xs ! j)"
  by (cases "j = i") auto

lemma sum_list_update_nat:
  fixes f :: "'a \<Rightarrow> nat"
  assumes "i < length xs"
  shows "(\<Sum>x\<leftarrow>xs[i := v]. f x) + f (xs ! i) = (\<Sum>x\<leftarrow>xs. f x) + f v"
  using assms
proof (induction xs arbitrary: i)
  case Nil
  then show ?case by simp
next
  case (Cons a xs)
  show ?case
  proof (cases i)
    case 0
    then show ?thesis by simp
  next
    case (Suc j)
    with Cons.prems have "j < length xs" by simp
    from Cons.IH [OF this] Suc show ?thesis by simp
  qed
qed

section \<open>Transition systems and their invariants\<close>

text \<open>The one-step laws of a component and what follows for every run of it: what holds at the
  start and is kept by each step holds in every state that steps can reach.\<close>

locale step_system =
  fixes init :: "'s \<Rightarrow> bool"
    and step :: "'s \<Rightarrow> 's \<Rightarrow> bool"
    and inv :: "'s \<Rightarrow> bool"
  assumes init_inv: "init s \<Longrightarrow> inv s"
    and step_inv: "inv s \<Longrightarrow> step s t \<Longrightarrow> inv t"
begin

lemma steps_inv: "rtranclp step s t \<Longrightarrow> inv s \<Longrightarrow> inv t"
  by (induction rule: rtranclp_induct) (auto intro: step_inv)

lemma reachable_inv: "init s \<Longrightarrow> rtranclp step s t \<Longrightarrow> inv t"
  by (blast intro: steps_inv init_inv)

end

end
