(* ===== verification/Bufferpool.thy ===== *)
theory Bufferpool
  imports Fenice_Prelude
begin

text \<open>
  The buffer pool of \<^verbatim>\<open>bufferpool/\<close>: a ring of packet slots linked by index, one
  producer (\<open>OMSbuff_getslot\<close>, \<open>OMSbuff_write\<close>), any number of consumers
  (\<open>OMSbuff_ref\<close>, \<open>OMSbuff_getreader\<close>, \<open>OMSbuff_gotreader\<close>, \<open>OMSbuff_read\<close>,
  \<open>OMSbuff_unref\<close>), and the growth of the ring by pages. A pointer to a slot is its index in
  the slot array, \<open>NULL\<close> is \<open>-1\<close> (\<open>OMStoSlot\<close>, \<open>OMStoSlotPtr\<close>). The mutex of the
  control block is a flag; a call that blocks on a mutex nobody will release, or that loops
  for ever, is \<open>None\<close>. What the operating system answers to the shared-memory calls
  is an argument (\<open>shm_env\<close>).
\<close>

section \<open>Data\<close>

definition OMSBUFF_MEM_PAGE :: nat where "OMSBUFF_MEM_PAGE = 9"
definition OMSSLOT_DATASIZE :: nat where "OMSSLOT_DATASIZE = 65000"

datatype OMSBufferType = buff_local | buff_shm

record OMSSlot =
  refs :: uint16
  slot_seq :: uint64
  timestamp :: cdouble
  sendts :: cdouble
  slot_data :: "uint8 list"
  data_size :: uint32
  marker :: uint8
  next_slot :: int

record OMSControl =
  ctl_refs :: uint16
  nslots :: uint32
  write_pos :: int
  valid_read_pos :: int
  syn :: bool

record OMSBuffer =
  buf_type :: OMSBufferType
  control :: OMSControl
  slots :: "OMSSlot list"
  known_slots :: uint32
  buf_filename :: string

record OMSConsumer =
  read_pos :: int
  last_read_pos :: int
  last_seq :: uint64
  frames :: "32 word"
  firstts :: cdouble

text \<open>A slot as \<open>calloc\<close> leaves it. The data bytes of a fresh slot are zero.\<close>

definition zero_slot :: OMSSlot where
  "zero_slot = \<lparr>refs = 0, slot_seq = 0, timestamp = 0, sendts = 0, slot_data = [],
     data_size = 0, marker = 0, next_slot = 0\<rparr>"

text \<open>\<open>slot_data\<close> keeps the written prefix of the data array; the array's remaining bytes are
  never read because \<open>data_size\<close> bounds every reader. Access to slot \<open>p\<close> of a buffer, and the
  update of one slot.\<close>

definition slot_at :: "OMSBuffer \<Rightarrow> int \<Rightarrow> OMSSlot" where
  "slot_at b p = slots b ! nat p"

definition upd_slot :: "int \<Rightarrow> (OMSSlot \<Rightarrow> OMSSlot) \<Rightarrow> OMSBuffer \<Rightarrow> OMSBuffer" where
  "upd_slot p f b = b\<lparr>slots := (slots b)[nat p := f (slots b ! nat p)]\<rparr>"

definition OMStoSlot :: "int \<Rightarrow> int option" where
  "OMStoSlot p = (if p < 0 then None else Some p)"

definition OMStoSlotPtr :: "int option \<Rightarrow> int" where
  "OMStoSlotPtr p = (case p of None \<Rightarrow> - 1 | Some i \<Rightarrow> i)"

section \<open>The mutex\<close>

text \<open>A default mutex locked again by its holder is never granted: the call does not return.\<close>

definition OMSbuff_lock :: "OMSBuffer \<Rightarrow> OMSBuffer option" where
  "OMSbuff_lock b = (if syn (control b) then None else Some (b\<lparr>control := (control b)\<lparr>syn := True\<rparr>\<rparr>))"

definition OMSbuff_unlock :: "OMSBuffer \<Rightarrow> OMSBuffer" where
  "OMSbuff_unlock b = b\<lparr>control := (control b)\<lparr>syn := False\<rparr>\<rparr>"

section \<open>Shared memory: growing and remapping the slot array\<close>

text \<open>What the system calls of one operation answer. The content of a new mapping, and of the
  memory a \<open>realloc\<close> adds, is whatever the system provides. The size \<open>fstat\<close> reports is counted
  in slots; \<open>None\<close> is a size that is not a whole number of slots.\<close>

record shm_env =
  env_name :: bool
  env_open :: bool
  env_fstat :: bool
  env_size :: "nat option"
  env_trunc :: bool
  env_munmap :: bool
  env_mmap :: "OMSSlot list option"
  env_moved :: bool
  env_realloc :: "OMSSlot list option"

text \<open>The initialisation loop of a page: \<open>k\<close> slots from \<open>i\<close> on are linked to their successors, the
  next one is linked to \<open>x\<close>.\<close>

fun init_page :: "nat \<Rightarrow> nat \<Rightarrow> int \<Rightarrow> OMSSlot list \<Rightarrow> OMSSlot list" where
  "init_page i 0 x ss = ss[i := (ss ! i)\<lparr>refs := 0, slot_seq := 0, next_slot := x\<rparr>]"
| "init_page i (Suc k) x ss =
     init_page (Suc i) k x (ss[i := (ss ! i)\<lparr>refs := 0, slot_seq := 0, next_slot := int (Suc i)\<rparr>])"

definition OMSbuff_shm_remap :: "shm_env \<Rightarrow> OMSBuffer \<Rightarrow> OMSBuffer \<times> int" where
  "OMSbuff_shm_remap e b =
    (if \<not> env_name e then (b, 1)
     else if \<not> env_open e then (b, 1)
     else if \<not> env_fstat e then (b, 1)
     else if env_size e \<noteq> Some (unat (nslots (control b))) then (b, 1)
     else if \<not> env_munmap e then (b, 1)
     else (case env_mmap e of
             None \<Rightarrow> (b, 1)
           | Some ss \<Rightarrow> (b\<lparr>slots := ss, known_slots := nslots (control b)\<rparr>, 0)))"

definition OMSbuff_shm_refresh :: "shm_env \<Rightarrow> OMSBuffer \<Rightarrow> OMSBuffer \<times> int" where
  "OMSbuff_shm_refresh e b =
    (if buf_type b = buff_shm \<and> known_slots b \<noteq> nslots (control b)
     then OMSbuff_shm_remap e b else (b, 0))"

text \<open>\<open>OMSbuff_write\<close> and \<open>OMSbuff_getslot\<close> take pointers to slots before they refresh the mapping and use them behind it: they dangle when
  \<open>mmap\<close> has put the slots at another address (\<open>env_moved\<close>).\<close>

definition slots_moved :: "shm_env \<Rightarrow> OMSBuffer \<Rightarrow> bool" where
  "slots_moved e b \<longleftrightarrow> buf_type b = buff_shm \<and> known_slots b \<noteq> nslots (control b) \<and> env_moved e"

definition OMSbuff_shm_addpage :: "shm_env \<Rightarrow> OMSBuffer \<Rightarrow> OMSBuffer \<times> int option" where
  "OMSbuff_shm_addpage e b =
    (if \<not> env_name e then (b, None)
     else if \<not> env_open e then (b, None)
     else if \<not> env_fstat e then (b, None)
     else if env_size e \<noteq> Some (unat (nslots (control b))) then (b, None)
     else if \<not> env_trunc e then (b, None)
     else if \<not> env_munmap e then (b, None)
     else (case env_mmap e of
             None \<Rightarrow> (b, None)
           | Some ss \<Rightarrow>
               (let n = unat (nslots (control b));
                    ns = nslots (control b) + of_nat OMSBUFF_MEM_PAGE
                in (b\<lparr>slots := init_page n (OMSBUFF_MEM_PAGE - 1) (- 1) ss,
                      control := (control b)\<lparr>nslots := ns\<rparr>, known_slots := ns\<rparr>,
                    Some (int n)))))"

text \<open>\<open>OMSbuff_addpage\<close>: a page of nine slots is linked behind \<open>prev\<close>. The shared-memory
  branch does not look at the result of \<open>OMSbuff_shm_addpage\<close> before it relinks.\<close>

definition OMSbuff_addpage :: "shm_env \<Rightarrow> OMSBuffer \<Rightarrow> int \<Rightarrow> OMSBuffer \<times> int option" where
  "OMSbuff_addpage e b prev =
    (case buf_type b of
       buff_shm \<Rightarrow>
         (let (b1, added) = OMSbuff_shm_addpage e b;
              b2 = upd_slot (int (unat (known_slots b1 - 1)))
                     (\<lambda>s. s\<lparr>next_slot := next_slot (slot_at b1 prev)\<rparr>) b1
          in (upd_slot prev (\<lambda>s. s\<lparr>next_slot := OMStoSlotPtr added\<rparr>) b2, added))
     | buff_local \<Rightarrow>
         (case env_realloc e of
            None \<Rightarrow> (b, None)
          | Some fresh \<Rightarrow>
              (let n = unat (nslots (control b));
                   ns = nslots (control b) + of_nat OMSBUFF_MEM_PAGE;
                   ss = init_page n (OMSBUFF_MEM_PAGE - 1) (next_slot (slot_at b prev))
                          (slots b @ fresh);
                   b1 = b\<lparr>slots := ss, control := (control b)\<lparr>nslots := ns\<rparr>, known_slots := ns\<rparr>
               in (upd_slot prev (\<lambda>s. s\<lparr>next_slot := OMStoSlotPtr (Some (int n))\<rparr>) b1,
                   Some (int n)))))"

section \<open>Creation\<close>

definition OMSbuff_new :: "uint32 \<Rightarrow> OMSBuffer option" where
  "OMSbuff_new buffer_size =
    (if buffer_size = 0 then None
     else
       (let n = unat buffer_size;
            ss = map (\<lambda>i. zero_slot\<lparr>next_slot := int (Suc i)\<rparr>) [0..<n - 1] @ [zero_slot\<lparr>next_slot := 0\<rparr>]
        in Some \<lparr>buf_type = buff_local,
                 control = \<lparr>ctl_refs = 0, nslots = buffer_size, write_pos = int (unat (buffer_size - 1)),
                            valid_read_pos = 0, syn = False\<rparr>,
                 slots = ss, known_slots = buffer_size, buf_filename = []\<rparr>))"

section \<open>Consumers\<close>

text \<open>The loop of \<open>OMSbuff_ref\<close> follows the links until it meets the write position; it does not
  return when the links never lead there.\<close>

partial_function (option) ref_loop :: "OMSBuffer \<Rightarrow> int \<Rightarrow> OMSBuffer option" where
  "ref_loop b i =
    (if i = write_pos (control b)
     then Some (upd_slot i (\<lambda>s. s\<lparr>refs := refs s + 1\<rparr>) b)
     else ref_loop (upd_slot i (\<lambda>s. s\<lparr>refs := refs s + 1\<rparr>) b) (next_slot (slot_at b i)))"

definition OMSbuff_ref :: "OMSBuffer \<Rightarrow> (OMSBuffer \<times> OMSConsumer) option" where
  "OMSbuff_ref b0 =
    do {
      b \<leftarrow> OMSbuff_lock b0;
      let c = \<lparr>read_pos = valid_read_pos (control b), last_read_pos = - 1, last_seq = 0,
               frames = 0, firstts = - 1\<rparr>;
      b1 \<leftarrow> (if slot_seq (slot_at b (read_pos c)) \<noteq> 0 then ref_loop b (read_pos c) else Some b);
      let b2 = b1\<lparr>control := (control b1)\<lparr>ctl_refs := ctl_refs (control b1) + 1\<rparr>\<rparr>;
      Some (OMSbuff_unlock b2, c)
    }"

text \<open>The choice of the next slot to read, the same in \<open>OMSbuff_read\<close>, \<open>OMSbuff_getreader\<close>,
  \<open>OMSbuff_gotreader\<close>, \<open>OMSbuff_nextts\<close> and \<open>OMSbuff_isempty\<close>: the slot at the read position, or
  the one linked behind the last read slot when that was added meanwhile.\<close>

definition select_next :: "OMSBuffer \<Rightarrow> OMSConsumer \<Rightarrow> int option" where
  "select_next b c =
    (let next = read_pos c; last_read = OMStoSlot (last_read_pos c)
     in if refs (slot_at b next) = 0 \<or> slot_seq (slot_at b next) < last_seq c
        then (case last_read of
                None \<Rightarrow> None
              | Some l \<Rightarrow>
                  (let ln = next_slot (slot_at b l)
                   in if refs (slot_at b ln) \<noteq> 0 \<and> last_seq c < slot_seq (slot_at b ln)
                      then Some ln else None))
        else (case last_read of
                None \<Rightarrow> Some next
              | Some l \<Rightarrow>
                  (let ln = next_slot (slot_at b l)
                   in if slot_seq (slot_at b ln) < slot_seq (slot_at b next)
                      then Some ln else Some next)))"

definition OMSbuff_getreader ::
    "shm_env \<Rightarrow> OMSBuffer \<Rightarrow> OMSConsumer \<Rightarrow> (OMSBuffer \<times> OMSConsumer \<times> int option) option" where
  "OMSbuff_getreader e b0 c =
    do {
      b1 \<leftarrow> OMSbuff_lock b0;
      let b = fst (OMSbuff_shm_refresh e b1);
      case select_next b c of
        None \<Rightarrow> Some (OMSbuff_unlock b, c, None)
      | Some n \<Rightarrow>
          Some (OMSbuff_unlock b,
                (if firstts c = - 1 then c\<lparr>firstts := timestamp (slot_at b n)\<rparr> else c), Some n)
    }"

definition OMSbuff_gotreader ::
    "shm_env \<Rightarrow> OMSBuffer \<Rightarrow> OMSConsumer \<Rightarrow> (OMSBuffer \<times> OMSConsumer \<times> int) option" where
  "OMSbuff_gotreader e b0 c =
    do {
      b1 \<leftarrow> OMSbuff_lock b0;
      let (b, r) = OMSbuff_shm_refresh e b1;
      if r \<noteq> 0 then Some (OMSbuff_unlock b, c, 1)
      else
        case select_next b c of
          None \<Rightarrow> Some (OMSbuff_unlock b, c, 1)
        | Some n \<Rightarrow>
            (let b2 = upd_slot n (\<lambda>s. s\<lparr>refs := refs s - 1\<rparr>) b;
                 c2 = c\<lparr>last_seq := slot_seq (slot_at b n), last_read_pos := OMStoSlotPtr (Some n),
                        read_pos := next_slot (slot_at b n)\<rparr>
             in Some (OMSbuff_unlock b2, c2, 0))
    }"

definition OMSbuff_isempty :: "shm_env \<Rightarrow> OMSBuffer \<Rightarrow> OMSConsumer \<Rightarrow> (OMSBuffer \<times> int) option" where
  "OMSbuff_isempty e b0 c =
    do {
      b1 \<leftarrow> OMSbuff_lock b0;
      let b = fst (OMSbuff_shm_refresh e b1);
      Some (OMSbuff_unlock b, (case select_next b c of None \<Rightarrow> 1 | Some _ \<Rightarrow> 0))
    }"

definition OMSbuff_nextts :: "shm_env \<Rightarrow> OMSBuffer \<Rightarrow> OMSConsumer \<Rightarrow> (OMSBuffer \<times> cdouble) option" where
  "OMSbuff_nextts e b0 c =
    do {
      b1 \<leftarrow> OMSbuff_lock b0;
      let b = fst (OMSbuff_shm_refresh e b1);
      Some (OMSbuff_unlock b, (case select_next b c of None \<Rightarrow> - 1 | Some n \<Rightarrow> timestamp (slot_at b n)))
    }"

text \<open>The out parameters of \<open>OMSbuff_read\<close>; \<open>out_size\<close> is also the size of the caller's buffer.\<close>

record read_out =
  out_timestamp :: uint32
  out_marker :: uint8
  out_data :: "uint8 list"
  out_size :: uint32

definition omsbuff_min :: "uint32 \<Rightarrow> uint32 \<Rightarrow> uint32" where
  "omsbuff_min x y = (if x < y then x else y)"

definition memcpy :: "'a list \<Rightarrow> 'a list \<Rightarrow> nat \<Rightarrow> 'a list" where
  "memcpy dst src n = take n src @ drop n dst"

definition OMSbuff_read ::
    "shm_env \<Rightarrow> OMSBuffer \<Rightarrow> OMSConsumer \<Rightarrow> read_out \<Rightarrow> (OMSBuffer \<times> OMSConsumer \<times> read_out \<times> int) option" where
  "OMSbuff_read e b0 c out =
    do {
      b1 \<leftarrow> OMSbuff_lock b0;
      let b = fst (OMSbuff_shm_refresh e b1);
      case select_next b c of
        None \<Rightarrow> Some (OMSbuff_unlock b, c, out, - 1)
      | Some n \<Rightarrow>
          (let s = slot_at b n;
               cpy_size = omsbuff_min (out_size out) (data_size s);
               b2 = upd_slot n (\<lambda>s. s\<lparr>refs := refs s - 1\<rparr>) b;
               c2 = c\<lparr>last_seq := slot_seq s, read_pos := next_slot s,
                      last_read_pos := OMStoSlotPtr (Some n)\<rparr>;
               out2 = \<lparr>out_timestamp = word_of_int \<lfloor>timestamp s\<rfloor>, out_marker = marker s,
                       out_data = memcpy (out_data out) (slot_data s) (unat cpy_size),
                       out_size = cpy_size\<rparr>
           in Some (OMSbuff_unlock b2, c2, out2, (if cpy_size = data_size s then 0 else 1)))
    }"

text \<open>A consumer that goes away first reads everything it still has to read.\<close>

partial_function (option) drain :: "shm_env \<Rightarrow> OMSBuffer \<Rightarrow> OMSConsumer \<Rightarrow> OMSBuffer option" where
  "drain e b c =
    (case OMSbuff_gotreader e b c of
       None \<Rightarrow> None
     | Some (b', c', r) \<Rightarrow> (if r = 0 then drain e b' c' else Some b'))"

definition OMSbuff_unref :: "shm_env \<Rightarrow> OMSBuffer \<Rightarrow> OMSConsumer \<Rightarrow> OMSBuffer option" where
  "OMSbuff_unref e b0 c =
    do {
      b \<leftarrow> OMSbuff_lock b0;
      if 0 < ctl_refs (control b)
      then drain e (OMSbuff_unlock (b\<lparr>control := (control b)\<lparr>ctl_refs := ctl_refs (control b) - 1\<rparr>\<rparr>)) c
      else Some (OMSbuff_unlock b)
    }"

section \<open>The producer\<close>

text \<open>When the write position catches up with the position offered to new consumers, that position
  is pushed past the packets with the same time stamp. \<open>OMSbuff_getslot\<close> stops at the end of the
  written packets; \<open>OMSbuff_write\<close> only stops at a slot that was never written or at another time
  stamp.\<close>

partial_function (option) push_getslot :: "OMSBuffer \<Rightarrow> cdouble \<Rightarrow> int \<Rightarrow> int option" where
  "push_getslot b ts v =
    (if slot_seq (slot_at b v) < slot_seq (slot_at b (next_slot (slot_at b v)))
        \<and> ts = timestamp (slot_at b v)
     then push_getslot b (timestamp (slot_at b v)) (next_slot (slot_at b v))
     else Some v)"

partial_function (option) push_write :: "OMSBuffer \<Rightarrow> cdouble \<Rightarrow> int \<Rightarrow> int option" where
  "push_write b ts v =
    (if slot_seq (slot_at b (next_slot (slot_at b v))) \<noteq> 0 \<and> ts = timestamp (slot_at b v)
     then push_write b (timestamp (slot_at b v)) (next_slot (slot_at b v))
     else Some v)"

declare ref_loop.simps [code] drain.simps [code] push_getslot.simps [code] push_write.simps [code]

definition set_valid_read_pos :: "int \<Rightarrow> OMSBuffer \<Rightarrow> OMSBuffer" where
  "set_valid_read_pos v b = b\<lparr>control := (control b)\<lparr>valid_read_pos := v\<rparr>\<rparr>"

definition OMSbuff_getslot :: "shm_env \<Rightarrow> OMSBuffer \<Rightarrow> (OMSBuffer \<times> int option) option" where
  "OMSbuff_getslot e b0 =
    do {
      let w = write_pos (control b0);
      let v = valid_read_pos (control b0);
      b1 \<leftarrow> OMSbuff_lock b0;
      let (b, r) = OMSbuff_shm_refresh e b1;
      if r \<noteq> 0 then Some (b, None)
      else if slots_moved e b1 then None
      else if 0 < refs (slot_at b (next_slot (slot_at b w)))
      then (case OMSbuff_addpage e b w of
              (b2, None) \<Rightarrow> Some (OMSbuff_unlock b2, None)
            | (b2, Some s) \<Rightarrow> Some (OMSbuff_unlock b2, Some s))
      else
        (let s = next_slot (slot_at b w)
         in if slot_seq (slot_at b v) \<noteq> 0 \<and> v = s
            then do {
                   v' \<leftarrow> push_getslot b (timestamp (slot_at b v)) v;
                   Some (OMSbuff_unlock (set_valid_read_pos v' b), Some s)
                 }
            else Some (OMSbuff_unlock b, Some s))
    }"

text \<open>The data argument of \<open>OMSbuff_write\<close> is either the data array of a slot, as \<open>OMSbuff_getslot\<close>
  hands it out, or memory of the caller.\<close>

datatype data_ptr = Slot_data int | Caller_data "uint8 list"

definition data_bytes :: "OMSBuffer \<Rightarrow> data_ptr \<Rightarrow> uint8 list" where
  "data_bytes b d = (case d of Slot_data i \<Rightarrow> slot_data (slot_at b i) | Caller_data bs \<Rightarrow> bs)"

definition commit_slot :: "uint64 \<Rightarrow> uint32 \<Rightarrow> uint8 \<Rightarrow> uint32 \<Rightarrow> int \<Rightarrow> OMSBuffer \<Rightarrow> OMSBuffer" where
  "commit_slot sq ts mk sz p b =
    (let b1 = upd_slot p (\<lambda>s. s\<lparr>timestamp := real (unat ts), marker := mk, data_size := sz,
                                refs := ctl_refs (control b), slot_seq := sq\<rparr>) b
     in b1\<lparr>control := (control b1)\<lparr>write_pos := p\<rparr>\<rparr>)"

definition OMSbuff_write ::
    "shm_env \<Rightarrow> OMSBuffer \<Rightarrow> uint64 \<Rightarrow> uint32 \<Rightarrow> uint8 \<Rightarrow> data_ptr \<Rightarrow> uint32 \<Rightarrow> (OMSBuffer \<times> int) option" where
  "OMSbuff_write e b0 seq ts mk d sz =
    do {
      let w = write_pos (control b0);
      let curr_seq = slot_seq (slot_at b0 w);
      let v = valid_read_pos (control b0);
      let sq = (if seq \<noteq> 0 then seq else curr_seq + 1);
      b1 \<leftarrow> OMSbuff_lock b0;
      let (b, r) = OMSbuff_shm_refresh e b1;
      let nx = next_slot (slot_at b w);
      if r \<noteq> 0 then Some (b, ERR_ALLOC)
      else if slots_moved e b1 then None
      else if d = Slot_data nx
      then Some (OMSbuff_unlock (commit_slot sq ts mk sz nx b), ERR_NOERROR)
      else if 0 < refs (slot_at b nx)
      then (case OMSbuff_addpage e b w of
              (b2, None) \<Rightarrow> Some (OMSbuff_unlock b2, ERR_ALLOC)
            | (b2, Some s) \<Rightarrow>
                (let b3 = upd_slot s (\<lambda>x. x\<lparr>slot_data := memcpy (slot_data x) (data_bytes b2 d) (unat sz)\<rparr>) b2
                 in Some (OMSbuff_unlock (commit_slot sq ts mk sz s b3), ERR_NOERROR)))
      else
        do {
          b2 \<leftarrow> (if slot_seq (slot_at b v) \<noteq> 0 \<and> v = nx
                 then do { v' \<leftarrow> push_write b (timestamp (slot_at b v)) v; Some (set_valid_read_pos v' b) }
                 else Some b);
          let b3 = upd_slot nx (\<lambda>x. x\<lparr>slot_data := memcpy (slot_data x) (data_bytes b2 d) (unat sz)\<rparr>) b2;
          Some (OMSbuff_unlock (commit_slot sq ts mk sz nx b3), ERR_NOERROR)
        }
    }"

end
