(* ===== verification/Bufferpool_Ring.thy ===== *)
theory Bufferpool_Ring
  imports Bufferpool
begin

text \<open>
  The shape every operation relies on and keeps: the \<open>next_slot\<close> links join all slots in one
  cycle. The ring order of a buffer lists the slots from the one behind the write position
  (the oldest) to the write position itself (the newest). Here: the invariant, its
  preservation by creation, growth and commit, and the mutex being released.
\<close>

section \<open>The ring invariant\<close>

text \<open>\<open>xs\<close> visits every slot once, each is linked to the next one and the last to the first.\<close>

definition ring_links :: "int list \<Rightarrow> nat list \<Rightarrow> bool" where
  "ring_links ls xs \<longleftrightarrow> xs \<noteq> [] \<and> distinct xs \<and> set xs = {..<length ls} \<and>
     (\<forall>i < length xs. ls ! (xs ! i) = int (xs ! (Suc i mod length xs)))"

definition links :: "OMSBuffer \<Rightarrow> int list" where
  "links b = map next_slot (slots b)"

definition ring :: "OMSBuffer \<Rightarrow> nat list \<Rightarrow> bool" where
  "ring b xs \<longleftrightarrow> ring_links (links b) xs \<and> write_pos (control b) = int (last xs) \<and>
     unat (nslots (control b)) = length (slots b)"

text \<open>The ring order computed by following the links from behind the write position.\<close>

fun follow :: "OMSBuffer \<Rightarrow> nat \<Rightarrow> int \<Rightarrow> nat list" where
  "follow b 0 p = []"
| "follow b (Suc k) p = nat p # follow b k (next_slot (slot_at b p))"

definition ring_order :: "OMSBuffer \<Rightarrow> nat list" where
  "ring_order b = follow b (length (slots b)) (next_slot (slot_at b (write_pos (control b))))"

definition ring_ok :: "OMSBuffer \<Rightarrow> bool" where
  "ring_ok b \<longleftrightarrow> ring b (ring_order b)"

section \<open>Cyclic lists of links\<close>

lemma ring_links_nonempty [simp]: "ring_links ls xs \<Longrightarrow> xs \<noteq> []"
  by (simp add: ring_links_def)

lemma ring_links_length: "ring_links ls xs \<Longrightarrow> length xs = length ls"
  by (metis card_lessThan distinct_card ring_links_def)

lemma ring_links_mem: "ring_links ls xs \<Longrightarrow> x \<in> set xs \<longleftrightarrow> x < length ls"
  by (auto simp: ring_links_def)

lemma ring_links_next_last: "ring_links ls xs \<Longrightarrow> ls ! last xs = int (hd xs)"
proof -
  assume R: "ring_links ls xs"
  then have ne: "xs \<noteq> []" and "length xs - 1 < length xs"
    by (auto simp: ring_links_def)
  with R have "ls ! (xs ! (length xs - 1)) = int (xs ! (Suc (length xs - 1) mod length xs))"
    unfolding ring_links_def by blast
  with ne show "ls ! last xs = int (hd xs)"
    by (simp add: last_conv_nth hd_conv_nth)
qed

lemma ring_links_next_mid:
  assumes "ring_links ls (ys @ x # z # zs)"
  shows "ls ! x = int z"
proof -
  have "ls ! ((ys @ x # z # zs) ! length ys) =
      int ((ys @ x # z # zs) ! (Suc (length ys) mod length (ys @ x # z # zs)))"
  proof -
    have "length ys < length (ys @ x # z # zs)" by simp
    with assms show ?thesis unfolding ring_links_def by blast
  qed
  then show ?thesis by (simp add: nth_append)
qed

lemma ring_linksI:
  assumes "distinct xs" "set xs = {..<length ls}" "xs \<noteq> []"
    and mid: "\<And>ys x z zs. xs = ys @ x # z # zs \<Longrightarrow> ls ! x = int z"
    and last: "ls ! last xs = int (hd xs)"
  shows "ring_links ls xs"
  unfolding ring_links_def
proof (intro conjI allI impI)
  fix i assume i: "i < length xs"
  show "ls ! (xs ! i) = int (xs ! (Suc i mod length xs))"
  proof (cases "Suc i = length xs")
    case True
    then have "xs ! i = last xs" by (metis assms(3) diff_Suc_1 last_conv_nth)
    with True last assms(3) show ?thesis by (simp add: hd_conv_nth)
  next
    case False
    with i have si: "Suc i < length xs" by simp
    have "xs = take i xs @ xs ! i # xs ! Suc i # drop (Suc (Suc i)) xs"
      using si by (metis Cons_nth_drop_Suc i id_take_nth_drop)
    from mid [OF this] si show ?thesis by simp
  qed
qed (use assms in auto)

lemma ring_links_rotate:
  assumes "ring_links ls (y # ys)"
  shows "ring_links ls (ys @ [y])"
proof (cases ys)
  case Nil
  with assms show ?thesis by simp
next
  case (Cons z zs)
  note R = assms
  show ?thesis
  proof (rule ring_linksI)
    show "distinct (ys @ [y])" "set (ys @ [y]) = {..<length ls}" "ys @ [y] \<noteq> []"
      using R by (auto simp: ring_links_def)
    show "ls ! last (ys @ [y]) = int (hd (ys @ [y]))"
      using ring_links_next_mid [of ls "[]" y z zs] R Cons by simp
    fix as x w bs
    assume split: "ys @ [y] = as @ x # w # bs"
    show "ls ! x = int w"
    proof (cases bs rule: rev_cases)
      case Nil
      with split have "w = y" "ys = as @ [x]" by auto
      then show ?thesis using ring_links_next_last [OF R] by simp
    next
      case (snoc cs c)
      with split have "y # ys = (y # as) @ x # w # cs" by simp
      with R show ?thesis by (metis ring_links_next_mid)
    qed
  qed
qed

section \<open>Initialising a page\<close>

lemma init_page_length [simp]: "length (init_page i k x ss) = length ss"
  by (induction i k x ss rule: init_page.induct) auto

lemma init_page_outside: "j < i \<or> i + k < j \<Longrightarrow> init_page i k x ss ! j = ss ! j"
  by (induction i k x ss rule: init_page.induct) auto

lemma init_page_inside:
  "i \<le> j \<Longrightarrow> j \<le> i + k \<Longrightarrow> i + k < length ss \<Longrightarrow>
     refs (init_page i k x ss ! j) = 0 \<and> slot_seq (init_page i k x ss ! j) = 0 \<and>
     next_slot (init_page i k x ss ! j) = (if j = i + k then x else int (Suc j))"
proof (induction i k x ss rule: init_page.induct)
  case (1 i x ss)
  then show ?case by simp
next
  case (2 i k x ss)
  show ?case
  proof (cases "j = i")
    case True
    then show ?thesis using "2.prems" by (simp add: init_page_outside)
  next
    case False
    then show ?thesis using "2.IH" "2.prems" by simp
  qed
qed

section \<open>Growth keeps the ring\<close>

text \<open>A page of \<open>Suc k\<close> slots linked behind the write position comes first in the new ring order.\<close>

lemma ring_links_extend:
  assumes R: "ring_links ls xs" and n: "n = length ls" and len: "length ms = n + Suc k"
    and last: "ms ! last xs = int n"
    and old: "\<And>j. j < n \<Longrightarrow> j \<noteq> last xs \<Longrightarrow> ms ! j = ls ! j"
    and page: "\<And>j. n \<le> j \<Longrightarrow> j < n + k \<Longrightarrow> ms ! j = int (Suc j)"
    and close: "ms ! (n + k) = int (hd xs)"
  shows "ring_links ms ([n..<n + Suc k] @ xs)"
  unfolding ring_links_def
proof (intro conjI allI impI)
  have ne: "xs \<noteq> []" and dist: "distinct xs" and set: "set xs = {..<n}"
    using R n by (auto simp: ring_links_def)
  show "[n..<n + Suc k] @ xs \<noteq> []" by simp
  show "distinct ([n..<n + Suc k] @ xs)"
    using dist by (simp add: set del: upt_Suc) (simp add: disjoint_iff)
  show "set ([n..<n + Suc k] @ xs) = {..<length ms}"
    unfolding set_append set_upt set len by auto
  have lenxs: "length xs = n" using ring_links_length [OF R] n by simp
  fix i assume i: "i < length ([n..<n + Suc k] @ xs)"
  let ?zs = "[n..<n + Suc k] @ xs"
  have lz: "length ?zs = n + Suc k" using lenxs by simp
  consider "i < k" | "i = k" | "Suc k \<le> i" "Suc i < n + Suc k" | "Suc i = n + Suc k" "0 < n"
    using i lz by force
  then show "ms ! (?zs ! i) = int (?zs ! (Suc i mod length ?zs))"
  proof cases
    case 1
    have "?zs ! i = n + i" "?zs ! Suc i = Suc (n + i)" "Suc i mod length ?zs = Suc i"
      using 1 lz by (auto simp: nth_append simp del: upt_Suc)
    then show ?thesis using page [of "n + i"] 1 by simp
  next
    case 2
    have "?zs ! i = n + k" using 2 by (simp add: nth_append del: upt_Suc)
    moreover have "0 < n" using ne lenxs by auto
    then have "Suc i mod length ?zs = Suc k" using 2 lz by simp
    moreover have "?zs ! Suc k = hd xs" using ne by (simp add: nth_append hd_conv_nth del: upt_Suc)
    ultimately show ?thesis using close by simp
  next
    case 3
    define j where "j = i - Suc k"
    have j: "Suc j < length xs" using 3 lenxs by (simp add: j_def)
    have zi: "?zs ! i = xs ! j" "?zs ! Suc i = xs ! Suc j" "Suc i mod length ?zs = Suc i"
      using 3 lz by (auto simp: nth_append j_def Suc_diff_Suc simp del: upt_Suc)
    have "xs ! j \<noteq> last xs"
      using j dist ne nth_eq_iff_index_eq [OF dist, of j "length xs - 1"] by (simp add: last_conv_nth)
    moreover have "xs ! j < n" using j set by (metis Suc_lessD lessThan_iff nth_mem)
    ultimately have "ms ! (xs ! j) = ls ! (xs ! j)" by (rule old [rotated])
    also have "\<dots> = int (xs ! Suc j)"
    proof -
      have "ls ! (xs ! j) = int (xs ! (Suc j mod length xs))"
        using R j unfolding ring_links_def by (meson Suc_lessD)
      with j show ?thesis by simp
    qed
    finally show ?thesis using zi by simp
  next
    case 4
    have "?zs ! i = last xs"
      using 4 lenxs ne by (auto simp: nth_append last_conv_nth simp del: upt_Suc intro: arg_cong [where f = "(!) xs"])
    moreover have "Suc i mod length ?zs = 0" unfolding lz 4(1) by simp
    moreover have "?zs ! 0 = n" by (simp add: nth_append del: upt_Suc)
    ultimately show ?thesis using last by simp
  qed
qed

lemma upd_slot_simps [simp]:
  "control (upd_slot p f b) = control b"
  "buf_type (upd_slot p f b) = buf_type b"
  "known_slots (upd_slot p f b) = known_slots b"
  "length (slots (upd_slot p f b)) = length (slots b)"
  by (simp_all add: upd_slot_def)

lemma slot_at_upd_slot:
  "nat p < length (slots b) \<Longrightarrow>
     slot_at (upd_slot p f b) q = (if nat q = nat p then f (slot_at b p) else slot_at b q)"
  by (simp add: slot_at_def upd_slot_def nth_update_if)

lemma links_upd_slot:
  "(\<And>s. next_slot (f s) = next_slot s) \<Longrightarrow> links (upd_slot p f b) = links b"
  by (cases "nat p < length (slots b)")
    (simp_all add: links_def upd_slot_def map_update list_update_same_conv list_update_beyond)

lemma ring_cong:
  "links b' = links b \<Longrightarrow> write_pos (control b') = write_pos (control b) \<Longrightarrow>
   nslots (control b') = nslots (control b) \<Longrightarrow> ring b' xs = ring b xs"
  unfolding ring_def by (metis length_map links_def)

lemma ring_length: "ring b xs \<Longrightarrow> length xs = length (slots b)"
  by (auto simp: ring_def links_def dest: ring_links_length)

lemma ring_in_range: "ring b xs \<Longrightarrow> x \<in> set xs \<longleftrightarrow> x < length (slots b)"
  by (auto simp: ring_def links_def ring_links_def)

lemma ring_distinct: "ring b xs \<Longrightarrow> distinct xs"
  by (simp add: ring_def ring_links_def)

lemma ring_nonempty: "ring b xs \<Longrightarrow> xs \<noteq> []"
  by (simp add: ring_def ring_links_def)

lemma ring_write_pos: "ring b xs \<Longrightarrow> nat (write_pos (control b)) = last xs"
  by (simp add: ring_def)

lemma ring_next_write_pos:
  "ring b xs \<Longrightarrow> next_slot (slot_at b (write_pos (control b))) = int (hd xs)"
  using ring_links_next_last [of "links b" xs] ring_in_range [of b xs "last xs"]
  by (auto simp: ring_def slot_at_def links_def dest: ring_links_nonempty)

lemma ring_next:
  assumes "ring b (ys @ x # z # zs)"
  shows "next_slot (slot_at b (int x)) = int z"
proof -
  have "x < length (slots b)" using ring_in_range [OF assms, of x] by simp
  then show ?thesis
    using assms ring_links_next_mid [of "links b" ys x z zs] by (simp add: ring_def slot_at_def links_def)
qed

text \<open>Extending a local buffer: the new slots come first in ring order, unread and unwritten.\<close>

definition fresh_page :: "shm_env \<Rightarrow> bool" where
  "fresh_page e \<longleftrightarrow> (\<exists>f. env_realloc e = Some f \<and> length f = OMSBUFF_MEM_PAGE)"

lemma addpage_local:
  assumes R: "ring b xs" and loc: "buf_type b = buff_local" and fr: "fresh_page e"
    and room: "unat (nslots (control b)) + 9 < 2 ^ 32"
  obtains b' where "OMSbuff_addpage e b (write_pos (control b)) = (b', Some (int (length (slots b))))"
    and "ring b' ([length (slots b)..<length (slots b) + 9] @ xs)"
    and "control b' = (control b)\<lparr>nslots := nslots (control b) + 9\<rparr>"
    and "buf_type b' = buff_local" and "known_slots b' = nslots (control b')"
    and "\<And>j. j < length (slots b) \<Longrightarrow>
           slots b' ! j = (slots b ! j)\<lparr>next_slot := next_slot (slots b' ! j)\<rparr>"
    and "\<And>j. length (slots b) \<le> j \<Longrightarrow> j < length (slots b) + 9 \<Longrightarrow>
           refs (slots b' ! j) = 0 \<and> slot_seq (slots b' ! j) = 0"
    and "\<And>j. j < length (slots b) \<Longrightarrow> next_slot (slots b' ! j) =
           (if j = last xs then int (length (slots b)) else next_slot (slots b ! j))"
proof -
  from fr obtain f where f: "env_realloc e = Some f" "length f = 9"
    by (auto simp: fresh_page_def OMSBUFF_MEM_PAGE_def)
  define n where "n = length (slots b)"
  define w where "w = last xs"
  have wn: "w < n" using ring_in_range [OF R, of w] ring_nonempty [OF R] by (simp add: w_def n_def)
  have wp: "write_pos (control b) = int w" using R by (simp add: ring_def w_def)
  have un: "unat (nslots (control b)) = n" using R by (simp add: ring_def n_def)
  define x where "x = next_slot (slot_at b (int w))"
  have x: "x = int (hd xs)" using ring_next_write_pos [OF R] wp by (simp add: x_def)
  define ss where "ss = init_page n 8 x (slots b @ f)"
  define b' where "b' = upd_slot (int w) (\<lambda>s. s\<lparr>next_slot := int n\<rparr>)
     (b\<lparr>slots := ss, control := (control b)\<lparr>nslots := nslots (control b) + 9\<rparr>,
        known_slots := nslots (control b) + 9\<rparr>)"
  have lss: "length ss = n + 9" using f by (simp add: ss_def n_def)
  have add: "OMSbuff_addpage e b (write_pos (control b)) = (b', Some (int n))"
    using loc f un wp
    by (simp add: OMSbuff_addpage_def OMSBUFF_MEM_PAGE_def Let_def b'_def ss_def x_def OMStoSlotPtr_def n_def)
  have sl: "slots b' = ss[w := (ss ! w)\<lparr>next_slot := int n\<rparr>]"
    by (simp add: b'_def upd_slot_def)
  have old: "ss ! j = slots b ! j" if "j < n" for j
    using that by (simp add: ss_def init_page_outside n_def nth_append)
  have new: "refs (ss ! j) = 0 \<and> slot_seq (ss ! j) = 0 \<and>
      next_slot (ss ! j) = (if j = n + 8 then x else int (Suc j))" if "n \<le> j" "j < n + 9" for j
    using init_page_inside [of n j 8 "slots b @ f" x] that f by (simp add: ss_def n_def)
  have RL: "ring_links (links b) xs" using R by (simp add: ring_def)
  have "ring_links (links b') ([n..<n + Suc 8] @ xs)"
  proof (rule ring_links_extend [OF RL])
    show "n = length (links b)" by (simp add: n_def links_def)
    show "length (links b') = n + Suc 8" using lss by (simp add: links_def sl)
    show "links b' ! last xs = int n" using wn lss by (simp add: links_def sl w_def)
    show "links b' ! j = links b ! j" if "j < n" "j \<noteq> last xs" for j
      using that old [of j] lss by (simp add: links_def sl w_def n_def)
    show "links b' ! j = int (Suc j)" if "n \<le> j" "j < n + 8" for j
      using that new [of j] lss wn by (simp add: links_def sl)
    show "links b' ! (n + 8) = int (hd xs)"
      using new [of "n + 8"] lss wn x by (simp add: links_def sl)
  qed
  moreover have "unat (nslots (control b) + 9) = n + 9"
  proof -
    have "unat (nslots (control b)) + unat (9 :: 32 word) < 2 ^ LENGTH(32)" using room by simp
    then have "unat (nslots (control b) + 9) = unat (nslots (control b)) + unat (9 :: 32 word)"
      using unat_add_lem [of "nslots (control b)" 9] by blast
    then show ?thesis using un by simp
  qed
  ultimately have ring': "ring b' ([n..<n + 9] @ xs)"
    using wp ring_nonempty [OF R] lss by (simp add: ring_def b'_def upd_slot_def w_def)
  show ?thesis
  proof (rule that [of b'])
    show "OMSbuff_addpage e b (write_pos (control b)) = (b', Some (int (length (slots b))))"
      using add by (simp add: n_def)
    show "ring b' ([length (slots b)..<length (slots b) + 9] @ xs)" using ring' by (simp add: n_def)
    show "control b' = (control b)\<lparr>nslots := nslots (control b) + 9\<rparr>"
      "buf_type b' = buff_local" "known_slots b' = nslots (control b')"
      using loc by (simp_all add: b'_def)
    show "slots b' ! j = (slots b ! j)\<lparr>next_slot := next_slot (slots b' ! j)\<rparr>"
      if "j < length (slots b)" for j
      using that old [of j] old [of w] lss wn
      by (cases "j = w") (auto simp: sl n_def)
    show "refs (slots b' ! j) = 0 \<and> slot_seq (slots b' ! j) = 0"
      if "length (slots b) \<le> j" "j < length (slots b) + 9" for j
      using that new [of j] lss wn by (simp add: sl n_def)
    show "next_slot (slots b' ! j) =
        (if j = last xs then int (length (slots b)) else next_slot (slots b ! j))"
      if "j < length (slots b)" for j
      using that old [of j] lss wn by (simp add: sl n_def w_def nth_list_update)
  qed
qed

section \<open>The ring order is determined by the buffer\<close>

lemma ring_next_index:
  assumes R: "ring b xs" and i: "Suc i < length xs"
  shows "next_slot (slot_at b (int (xs ! i))) = int (xs ! Suc i)"
proof -
  have "xs = take i xs @ xs ! i # xs ! Suc i # drop (Suc (Suc i)) xs"
    using i by (metis Cons_nth_drop_Suc Suc_lessD id_take_nth_drop)
  with R show ?thesis by (metis ring_next)
qed

lemma follow_ring:
  "ring b xs \<Longrightarrow> i + k = length xs \<Longrightarrow> 0 < k \<Longrightarrow> follow b k (int (xs ! i)) = drop i xs"
proof (induction k arbitrary: i)
  case 0
  then show ?case by simp
next
  case (Suc k)
  show ?case
  proof (cases k)
    case 0
    with Suc.prems have "drop i xs = [xs ! i]"
      by (metis Cons_nth_drop_Suc add_Suc_right add.right_neutral drop_all le_refl lessI)
    with 0 show ?thesis by simp
  next
    case (Suc m)
    have "next_slot (slot_at b (int (xs ! i))) = int (xs ! Suc i)"
      using ring_next_index [OF Suc.prems(1)] Suc.prems(2) Suc by simp
    moreover have "follow b k (int (xs ! Suc i)) = drop (Suc i) xs"
      using Suc.IH [of "Suc i"] Suc.prems Suc by simp
    ultimately show ?thesis
      using Suc.prems(2) by (simp add: Cons_nth_drop_Suc)
  qed
qed

lemma ring_order_eq: "ring b xs \<Longrightarrow> ring_order b = xs"
  using follow_ring [of b xs 0 "length xs"] ring_nonempty [of b xs] ring_length [of b xs, symmetric]
  by (simp add: ring_order_def ring_next_write_pos hd_conv_nth)

lemma ring_ok_iff: "ring_ok b \<longleftrightarrow> (\<exists>xs. ring b xs)"
  unfolding ring_ok_def using ring_order_eq by blast

lemma ring_next_range:
  assumes R: "ring b xs" and v: "0 \<le> v" "nat v < length (slots b)"
  shows "0 \<le> next_slot (slot_at b v) \<and> nat (next_slot (slot_at b v)) < length (slots b)"
proof -
  from v obtain i where i: "i < length xs" "xs ! i = nat v"
    using ring_in_range [OF R, of "nat v"] by (metis in_set_conv_nth)
  show ?thesis
  proof (cases "Suc i < length xs")
    case True
    then have "next_slot (slot_at b v) = int (xs ! Suc i)"
      using ring_next_index [OF R True] i v by simp
    then show ?thesis using ring_in_range [OF R, of "xs ! Suc i"] True by simp
  next
    case False
    with i have "last xs = nat v"
      by (metis Suc_lessI diff_Suc_1 last_conv_nth list.size(3) not_less_zero)
    then have "slot_at b v = slot_at b (write_pos (control b))"
      using ring_write_pos [OF R] by (simp add: slot_at_def)
    then show ?thesis
      using ring_next_write_pos [OF R] ring_in_range [OF R, of "hd xs"] ring_nonempty [OF R] by simp
  qed
qed

section \<open>Creation, locking and commit\<close>

lemma ring_new:
  assumes "OMSbuff_new n = Some b"
  shows "ring b [0..<unat n]"
proof -
  from assms have n: "n \<noteq> 0" and b: "slots b =
      map (\<lambda>i. zero_slot\<lparr>next_slot := int (Suc i)\<rparr>) [0..<unat n - 1] @ [zero_slot\<lparr>next_slot := 0\<rparr>]"
    and c: "control b = \<lparr>ctl_refs = 0, nslots = n, write_pos = int (unat (n - 1)),
                            valid_read_pos = 0, syn = False\<rparr>"
    by (auto simp: OMSbuff_new_def Let_def split: if_splits)
  have pos: "0 < unat n" using n by (simp add: unat_gt_0)
  have pred: "unat (n - 1) = unat n - 1" using n by (rule unat_minus_one)
  have "ring_links (links b) [0..<unat n]"
    unfolding ring_links_def
  proof (intro conjI allI impI)
    show "[0..<unat n] \<noteq> []" "distinct [0..<unat n]" using pos by auto
    show "set [0..<unat n] = {..<length (links b)}" using pos b by (auto simp: links_def)
    fix i assume i: "i < length [0..<unat n]"
    show "links b ! ([0..<unat n] ! i) = int ([0..<unat n] ! (Suc i mod length [0..<unat n]))"
    proof (cases "Suc i = unat n")
      case True
      then have "i = unat n - 1" by simp
      with True show ?thesis using b by (simp add: links_def nth_append)
    next
      case False
      with i have "Suc i < unat n" "i < unat n - 1" by auto
      then show ?thesis using b by (simp add: links_def nth_append)
    qed
  qed
  moreover have "last [0..<unat n] = unat n - 1" using pos by simp
  moreover have "length (slots b) = unat n" using pos b by simp
  ultimately show ?thesis using c pred by (simp add: ring_def)
qed

lemma lock_simps [simp]:
  "slots (OMSbuff_unlock b) = slots b" "buf_type (OMSbuff_unlock b) = buf_type b"
  "known_slots (OMSbuff_unlock b) = known_slots b"
  "control (OMSbuff_unlock b) = (control b)\<lparr>syn := False\<rparr>"
  "slot_at (OMSbuff_unlock b) p = slot_at b p"
  by (simp_all add: OMSbuff_unlock_def slot_at_def)

lemma lock_Some:
  "\<not> syn (control b) \<Longrightarrow> OMSbuff_lock b = Some (b\<lparr>control := (control b)\<lparr>syn := True\<rparr>\<rparr>)"
  by (simp add: OMSbuff_lock_def)

lemma moved_local [simp]: "buf_type b = buff_local \<Longrightarrow> \<not> slots_moved e b"
  by (simp add: slots_moved_def)

lemma refresh_local [simp]:
  "buf_type b = buff_local \<Longrightarrow> OMSbuff_shm_refresh e b = (b, 0)"
  by (simp add: OMSbuff_shm_refresh_def)

lemma slot_at_control [simp]: "slot_at (b\<lparr>control := k\<rparr>) p = slot_at b p"
  by (simp add: slot_at_def)

lemma ring_control [simp]:
  "write_pos k = write_pos (control b) \<Longrightarrow> nslots k = nslots (control b) \<Longrightarrow>
   ring (b\<lparr>control := k\<rparr>) xs = ring b xs"
  by (rule ring_cong) (simp_all add: links_def)

lemma select_next_control [simp]: "select_next (b\<lparr>control := k\<rparr>) c = select_next b c"
  unfolding select_next_def slot_at_control ..

lemma commit_slot_control:
  "control (commit_slot sq ts mk sz p b) = (control b)\<lparr>write_pos := p\<rparr>"
  by (simp add: commit_slot_def Let_def)

lemma commit_slot_simps [simp]:
  "buf_type (commit_slot sq ts mk sz p b) = buf_type b"
  "known_slots (commit_slot sq ts mk sz p b) = known_slots b"
  "length (slots (commit_slot sq ts mk sz p b)) = length (slots b)"
  by (simp_all add: commit_slot_def Let_def)

lemma slots_commit_slot:
  "slots (commit_slot sq ts mk sz p b) =
     (slots b)[nat p := (slots b ! nat p)\<lparr>timestamp := real (unat ts), marker := mk, data_size := sz,
        refs := ctl_refs (control b), slot_seq := sq\<rparr>]"
  by (simp add: commit_slot_def Let_def upd_slot_def)

lemma links_commit_slot [simp]: "links (commit_slot sq ts mk sz p b) = links b"
  using links_upd_slot [of "\<lambda>s. s\<lparr>timestamp := real (unat ts), marker := mk, data_size := sz,
        refs := ctl_refs (control b), slot_seq := sq\<rparr>" p b]
  by (simp add: commit_slot_def Let_def links_def)

text \<open>Committing the slot behind the write position moves it to the end of the ring order.\<close>

lemma ring_commit:
  assumes "ring b (y # ys)"
  shows "ring (commit_slot sq ts mk sz (int y) b) (ys @ [y])"
  using assms ring_links_rotate [of "links b" y ys]
  by (simp add: ring_def commit_slot_control)

lemma push_getslot_total:
  assumes R: "ring b xs"
  shows "0 \<le> v \<Longrightarrow> nat v < length (slots b) \<Longrightarrow>
    \<exists>v'. push_getslot b ts v = Some v' \<and> 0 \<le> v' \<and> nat v' < length (slots b)"
proof (induction "2 ^ 64 - unat (slot_seq (slot_at b v))" arbitrary: v ts rule: less_induct)
  case less
  let ?n = "next_slot (slot_at b v)"
  show ?case
  proof (cases "slot_seq (slot_at b v) < slot_seq (slot_at b ?n) \<and> ts = timestamp (slot_at b v)")
    case True
    have "unat (slot_seq (slot_at b ?n)) < 2 ^ 64"
      using unsigned_less [of "slot_seq (slot_at b ?n)"] by simp
    then have "2 ^ 64 - unat (slot_seq (slot_at b ?n)) < 2 ^ 64 - unat (slot_seq (slot_at b v))"
      using True by (simp only: word_less_nat_alt) linarith
    note IH = less.hyps [OF this]
    have "push_getslot b ts v = push_getslot b (timestamp (slot_at b v)) ?n"
      using True by (subst push_getslot.simps) simp
    then show ?thesis using IH ring_next_range [OF R less.prems] by simp
  next
    case False
    with less.prems show ?thesis by (auto simp: push_getslot.simps [of b ts v])
  qed
qed

end
