(* ===== verification/Bufferpool_Fifo.thy ===== *)
theory Bufferpool_Fifo
  imports Bufferpool_Ring
begin

text \<open>
  What the buffer pool promises a single consumer (the case of every stored, unicast
  stream, where each session has a buffer of its own): a first-in-first-out channel. The
  contract is a locale over an abstract queue; the operations the server composes
  (\<open>OMSbuff_getslot\<close>, filling the slot and \<open>OMSbuff_write\<close> on one side, \<open>OMSbuff_getreader\<close> and
  \<open>OMSbuff_gotreader\<close> on the other) implement it, whatever the number of pages the ring grows by.
\<close>

section \<open>The channel contract\<close>

datatype ('e, 'a) chan_op = Put 'e 'a | Get 'e

fun puts :: "('e, 'a) chan_op list \<Rightarrow> 'a list" where
  "puts [] = []"
| "puts (Put e a # xs) = a # puts xs"
| "puts (Get e # xs) = puts xs"

fun envs :: "('e, 'a) chan_op list \<Rightarrow> 'e list" where
  "envs [] = []"
| "envs (Put e a # xs) = e # envs xs"
| "envs (Get e # xs) = e # envs xs"

text \<open>A run of operations; \<open>None\<close> when one of them fails or does not return.\<close>

fun run_ops ::
    "('e \<Rightarrow> 'a \<Rightarrow> 's \<Rightarrow> 's option) \<Rightarrow> ('e \<Rightarrow> 's \<Rightarrow> ('s \<times> 'a option) option) \<Rightarrow>
     ('e, 'a) chan_op list \<Rightarrow> 's \<Rightarrow> ('s \<times> 'a list) option" where
  "run_ops put get [] s = Some (s, [])"
| "run_ops put get (Put e a # xs) s = do { s' \<leftarrow> put e a s; run_ops put get xs s' }"
| "run_ops put get (Get e # xs) s =
     do {
       (s', r) \<leftarrow> get e s;
       (s'', rs) \<leftarrow> run_ops put get xs s';
       Some (s'', (case r of None \<Rightarrow> rs | Some a \<Rightarrow> a # rs))
     }"

locale fifo_channel =
  fixes inv :: "'s \<Rightarrow> bool"
    and abs :: "'s \<Rightarrow> 'a list"
    and cap :: "'s \<Rightarrow> nat"
    and good_env :: "'e \<Rightarrow> bool"
    and good_item :: "'a \<Rightarrow> bool"
    and put :: "'e \<Rightarrow> 'a \<Rightarrow> 's \<Rightarrow> 's option"
    and get :: "'e \<Rightarrow> 's \<Rightarrow> ('s \<times> 'a option) option"
  assumes put: "inv s \<Longrightarrow> 0 < cap s \<Longrightarrow> good_env e \<Longrightarrow> good_item a \<Longrightarrow>
      \<exists>s'. put e a s = Some s' \<and> inv s' \<and> abs s' = abs s @ [a] \<and> cap s \<le> Suc (cap s')"
    and get_empty: "inv s \<Longrightarrow> abs s = [] \<Longrightarrow>
      \<exists>s'. get e s = Some (s', None) \<and> inv s' \<and> abs s' = [] \<and> cap s' = cap s"
    and get_some: "inv s \<Longrightarrow> abs s = a # q \<Longrightarrow>
      \<exists>s'. get e s = Some (s', Some a) \<and> inv s' \<and> abs s' = q \<and> cap s' = cap s"
begin

lemma run_fifo:
  "inv s \<Longrightarrow> (\<And>e. e \<in> set (envs xs) \<Longrightarrow> good_env e) \<Longrightarrow> (\<And>a. a \<in> set (puts xs) \<Longrightarrow> good_item a) \<Longrightarrow>
   length (puts xs) \<le> cap s \<Longrightarrow>
   \<exists>s' outs. run_ops put get xs s = Some (s', outs) \<and> inv s' \<and> outs @ abs s' = abs s @ puts xs"
proof (induction xs arbitrary: s)
  case Nil
  then show ?case by simp
next
  case (Cons x xs)
  show ?case
  proof (cases x)
    case (Put e a)
    with Cons.prems have "0 < cap s" "good_env e" "good_item a" by auto
    with put [OF Cons.prems(1)] obtain s' where s': "put e a s = Some s'" "inv s'"
      "abs s' = abs s @ [a]" "cap s \<le> Suc (cap s')" by blast
    with Cons.IH [of s'] Cons.prems Put show ?thesis by auto
  next
    case (Get e)
    show ?thesis
    proof (cases "abs s")
      case Nil
      from get_empty [OF Cons.prems(1) Nil] obtain s' where
        s': "get e s = Some (s', None)" "inv s'" "abs s' = []" "cap s' = cap s" by blast
      with Cons.IH [of s'] Cons.prems Get Nil show ?thesis by auto
    next
      case (Cons a q)
      from get_some [OF Cons.prems(1) Cons] obtain s' where
        s': "get e s = Some (s', Some a)" "inv s'" "abs s' = q" "cap s' = cap s" by blast
      with Cons.IH [of s'] Cons.prems Get Cons show ?thesis by auto
    qed
  qed
qed

end

section \<open>Packets\<close>

record packet =
  pkt_ts :: uint32
  pkt_marker :: uint8
  pkt_bytes :: "uint8 list"

text \<open>What a reader sees in a slot: \<open>data_size\<close> bytes of the data array, the marker and the time
  stamp. \<open>read_media\<close> fills a slot by writing its data array and its \<open>data_size\<close>.\<close>

definition slot_packet :: "OMSSlot \<Rightarrow> packet" where
  "slot_packet s = \<lparr>pkt_ts = word_of_int \<lfloor>timestamp s\<rfloor>, pkt_marker = marker s,
     pkt_bytes = take (unat (data_size s)) (slot_data s)\<rparr>"

definition fill_slot :: "int \<Rightarrow> uint8 list \<Rightarrow> OMSBuffer \<Rightarrow> OMSBuffer" where
  "fill_slot p bs b = upd_slot p (\<lambda>s. s\<lparr>slot_data := memcpy (slot_data s) bs (length bs),
     data_size := of_nat (length bs)\<rparr>) b"

text \<open>One packet stored the way \<open>get_frame\<close> does it. Without a slot \<open>get_frame\<close> would follow a null
  pointer; that, and a failing write, is \<open>None\<close>.\<close>

definition put_packet :: "shm_env \<Rightarrow> packet \<Rightarrow> OMSBuffer \<times> OMSConsumer \<Rightarrow> (OMSBuffer \<times> OMSConsumer) option" where
  "put_packet e p bc =
    do {
      let (b, c) = bc;
      (b1, so) \<leftarrow> OMSbuff_getslot e b;
      s \<leftarrow> so;
      (b2, r) \<leftarrow> OMSbuff_write e (fill_slot s (pkt_bytes p) b1) 0 (pkt_ts p) (pkt_marker p)
                  (Slot_data s) (of_nat (length (pkt_bytes p)));
      if r = ERR_NOERROR then Some (b2, c) else None
    }"

text \<open>One packet fetched the way \<open>RTP_send_packet\<close> does it.\<close>

definition get_packet :: "shm_env \<Rightarrow> OMSBuffer \<times> OMSConsumer \<Rightarrow> ((OMSBuffer \<times> OMSConsumer) \<times> packet option) option" where
  "get_packet e bc =
    do {
      let (b, c) = bc;
      (b1, c1, n) \<leftarrow> OMSbuff_getreader e b c;
      case n of
        None \<Rightarrow> Some ((b1, c1), None)
      | Some s \<Rightarrow>
          do {
            (b2, c2, r) \<leftarrow> OMSbuff_gotreader e b1 c1;
            Some ((b2, c2), Some (slot_packet (slot_at b1 s)))
          }
    }"

section \<open>The single-consumer invariant\<close>

definition seq_at :: "OMSBuffer \<Rightarrow> nat \<Rightarrow> nat" where
  "seq_at b i = unat (slot_seq (slots b ! i))"

text \<open>In ring order the slots that were read (\<open>ys\<close>, no references) come before those that wait for
  the consumer (\<open>ps\<close>, one reference each, with growing sequence numbers).\<close>

definition split_at :: "OMSBuffer \<Rightarrow> nat list \<Rightarrow> nat list \<Rightarrow> bool" where
  "split_at b ys ps \<longleftrightarrow> ring b (ys @ ps) \<and>
     (\<forall>y \<in> set ys. refs (slots b ! y) = 0) \<and> (\<forall>p \<in> set ps. refs (slots b ! p) = 1) \<and>
     sorted_wrt (\<lambda>x y. seq_at b x < seq_at b y) ps \<and>
     (\<forall>x \<in> set (ys @ ps). seq_at b x \<le> seq_at b (last (ys @ ps)))"

definition consumer_at :: "OMSBuffer \<Rightarrow> OMSConsumer \<Rightarrow> nat list \<Rightarrow> nat list \<Rightarrow> bool" where
  "consumer_at b c ys ps \<longleftrightarrow>
     read_pos c = int (hd (ps @ ys)) \<and>
     unat (last_seq c) \<le> seq_at b (if ps = [] then last ys else hd ps) \<and>
     (last_read_pos c = - 1 \<or>
      (\<exists>l. last_read_pos c = int l \<and> l < length (slots b) \<and>
           (if ps = [] then l = last ys else (\<exists>q \<in> set ps. next_slot (slots b ! l) = int q))))"

definition local_unlocked :: "OMSBuffer \<Rightarrow> bool" where
  "local_unlocked b \<longleftrightarrow> buf_type b = buff_local \<and> \<not> syn (control b) \<and>
     0 \<le> valid_read_pos (control b) \<and> nat (valid_read_pos (control b)) < length (slots b)"

definition chan_inv :: "OMSBuffer \<times> OMSConsumer \<Rightarrow> bool" where
  "chan_inv bc \<longleftrightarrow> (case bc of (b, c) \<Rightarrow> local_unlocked b \<and> ctl_refs (control b) = 1 \<and>
     (\<exists>ys ps. split_at b ys ps \<and> consumer_at b c ys ps))"

text \<open>The abstract queue: the packets in the slots that still carry a reference, in ring order.\<close>

definition pending :: "OMSBuffer \<Rightarrow> nat list" where
  "pending b = filter (\<lambda>i. refs (slots b ! i) \<noteq> 0) (ring_order b)"

definition chan_queue :: "OMSBuffer \<times> OMSConsumer \<Rightarrow> packet list" where
  "chan_queue bc = map (\<lambda>i. slot_packet (slots (fst bc) ! i)) (pending (fst bc))"

text \<open>How many packets can be stored before the 32-bit slot count or the 64-bit sequence number
  runs out.\<close>

definition chan_room :: "OMSBuffer \<times> OMSConsumer \<Rightarrow> nat" where
  "chan_room bc = min ((2 ^ 32 - 1 - unat (nslots (control (fst bc)))) div 9)
     (2 ^ 64 - 1 - seq_at (fst bc) (nat (write_pos (control (fst bc)))))"

definition good_packet :: "packet \<Rightarrow> bool" where
  "good_packet p \<longleftrightarrow> length (pkt_bytes p) \<le> OMSSLOT_DATASIZE"

lemma split_at_pending:
  assumes "split_at b ys ps"
  shows "pending b = ps"
proof -
  have "ring_order b = ys @ ps" using assms by (simp add: split_at_def ring_order_eq)
  moreover have "filter (\<lambda>i. refs (slots b ! i) \<noteq> 0) ys = []"
    using assms by (auto simp: split_at_def filter_empty_conv)
  moreover have "filter (\<lambda>i. refs (slots b ! i) \<noteq> 0) ps = ps"
    using assms by (auto simp: split_at_def filter_id_conv)
  ultimately show ?thesis by (simp add: pending_def)
qed

section \<open>Reading\<close>

lemma unlock_same: "\<not> syn (control b) \<Longrightarrow> OMSbuff_unlock b = b"
  by (cases b; cases "control b") (simp add: OMSbuff_unlock_def)

lemma unlock_lock [simp]:
  "\<not> syn (control b) \<Longrightarrow> OMSbuff_unlock (b\<lparr>control := (control b)\<lparr>syn := True\<rparr>\<rparr>) = b"
  by (cases b; cases "control b") (simp add: OMSbuff_unlock_def)

lemma unlock_upd_lock [simp]:
  "\<not> syn (control b) \<Longrightarrow> OMSbuff_unlock (upd_slot p f (b\<lparr>control := (control b)\<lparr>syn := True\<rparr>\<rparr>)) = upd_slot p f b"
  by (cases b; cases "control b") (simp add: OMSbuff_unlock_def upd_slot_def)

lemma getreader_local:
  "buf_type b = buff_local \<Longrightarrow> \<not> syn (control b) \<Longrightarrow> OMSbuff_getreader e b c =
     Some (b, (case select_next b c of None \<Rightarrow> c
               | Some n \<Rightarrow> if firstts c = - 1 then c\<lparr>firstts := timestamp (slot_at b n)\<rparr> else c),
           select_next b c)"
  by (simp add: OMSbuff_getreader_def lock_Some split: option.splits)

lemma gotreader_local:
  "buf_type b = buff_local \<Longrightarrow> \<not> syn (control b) \<Longrightarrow> OMSbuff_gotreader e b c =
     Some (case select_next b c of None \<Rightarrow> (b, c, 1)
           | Some n \<Rightarrow> (upd_slot n (\<lambda>s. s\<lparr>refs := refs s - 1\<rparr>) b,
                c\<lparr>last_seq := slot_seq (slot_at b n), last_read_pos := n, read_pos := next_slot (slot_at b n)\<rparr>, 0))"
  by (simp add: OMSbuff_gotreader_def lock_Some OMStoSlotPtr_def Let_def split: option.splits)

lemma select_next_firstts [simp]: "select_next b (c\<lparr>firstts := t\<rparr>) = select_next b c"
  unfolding select_next_def Let_def by (simp split: option.split)

lemma consumer_at_firstts [simp]: "consumer_at b (c\<lparr>firstts := t\<rparr>) ys ps = consumer_at b c ys ps"
  by (simp add: consumer_at_def)

lemma select_next_pending:
  assumes S: "split_at b ys (p # ps)" and C: "consumer_at b c ys (p # ps)"
  shows "select_next b c = Some (int p)"
proof -
  have rp: "read_pos c = int p" using C by (simp add: consumer_at_def)
  have ref: "refs (slot_at b (int p)) \<noteq> 0" using S by (simp add: split_at_def slot_at_def)
  have ge: "\<not> slot_seq (slot_at b (int p)) < last_seq c"
    using C by (simp add: consumer_at_def seq_at_def slot_at_def word_less_nat_alt)
  have later: "\<not> slot_seq (slot_at b (int q)) < slot_seq (slot_at b (int p))" if "q \<in> set (p # ps)" for q
    using S that by (auto simp: split_at_def seq_at_def slot_at_def word_less_nat_alt)
  from C consider "last_read_pos c = - 1"
    | l q where "last_read_pos c = int l" "q \<in> set (p # ps)" "next_slot (slot_at b (int l)) = int q"
    by (auto simp: consumer_at_def slot_at_def)
  then show ?thesis
  proof cases
    case 1
    with rp ref ge show ?thesis by (simp add: select_next_def OMStoSlot_def)
  next
    case 2
    with rp ref ge later [OF 2(2)] show ?thesis by (simp add: select_next_def OMStoSlot_def)
  qed
qed

lemma select_next_empty:
  assumes S: "split_at b ys []" and C: "consumer_at b c ys []"
  shows "select_next b c = None"
proof -
  have R: "ring b ys" using S by (simp add: split_at_def)
  have ne: "ys \<noteq> []" by (rule ring_nonempty [OF R])
  have rp: "read_pos c = int (hd ys)" using C by (simp add: consumer_at_def)
  have ref: "refs (slot_at b (int (hd ys))) = 0" using S ne by (simp add: split_at_def slot_at_def)
  from C consider "last_read_pos c = - 1" | "last_read_pos c = int (last ys)"
    by (auto simp: consumer_at_def)
  then show ?thesis
  proof cases
    case 1
    with rp ref show ?thesis by (simp add: select_next_def OMStoSlot_def)
  next
    case 2
    have "next_slot (slot_at b (int (last ys))) = int (hd ys)"
      using ring_next_write_pos [OF R] R by (simp add: ring_def)
    with 2 rp ref show ?thesis by (simp add: select_next_def OMStoSlot_def)
  qed
qed

lemma seq_at_upd_slot:
  "(\<And>s. slot_seq (f s) = slot_seq s) \<Longrightarrow> seq_at (upd_slot p f b) i = seq_at b i"
  by (cases "nat p < length (slots b)")
    (auto simp: seq_at_def upd_slot_def nth_list_update list_update_beyond)

text \<open>Reading moves the oldest waiting slot to the slots that were read.\<close>

lemma read_split_at:
  assumes S: "split_at b ys (p # ps)" and C: "consumer_at b c ys (p # ps)"
  defines "b' \<equiv> upd_slot (int p) (\<lambda>s. s\<lparr>refs := refs s - 1\<rparr>) b"
  defines "c' \<equiv> c\<lparr>last_seq := slot_seq (slot_at b (int p)), last_read_pos := int p,
     read_pos := next_slot (slot_at b (int p))\<rparr>"
  shows "split_at b' (ys @ [p]) ps" and "consumer_at b' c' (ys @ [p]) ps"
proof -
  have R: "ring b (ys @ p # ps)" using S by (simp add: split_at_def)
  have p: "p < length (slots b)" using ring_in_range [OF R, of p] by simp
  have dist: "distinct (ys @ p # ps)" by (rule ring_distinct [OF R])
  have R': "ring b' (ys @ p # ps)"
    unfolding b'_def by (subst ring_cong [of _ b]) (simp_all add: links_upd_slot R)
  have sq: "seq_at b' = seq_at b" unfolding b'_def by (rule ext) (simp add: seq_at_upd_slot)
  have refs': "refs (slots b' ! i) = (if i = p then refs (slots b ! p) - 1 else refs (slots b ! i))" for i
    using p by (simp add: b'_def upd_slot_def nth_update_if)
  show "split_at b' (ys @ [p]) ps"
    using S R' dist by (auto simp: split_at_def sq refs')
  have len: "length (slots b') = length (slots b)" by (simp add: b'_def)
  have nx: "next_slot (slots b' ! i) = next_slot (slots b ! i)" for i
    using p by (simp add: b'_def upd_slot_def nth_update_if)
  show "consumer_at b' c' (ys @ [p]) ps"
  proof (cases ps)
    case Nil
    have "next_slot (slot_at b (int p)) = int (hd (ys @ [p]))"
      using ring_next_write_pos [OF R] R Nil by (simp add: ring_def)
    with Nil p show ?thesis
      by (simp add: consumer_at_def c'_def sq len) (simp add: seq_at_def slot_at_def)
  next
    case (Cons q qs)
    have "next_slot (slot_at b (int p)) = int q"
      using ring_next [of b ys p q qs] R Cons by simp
    moreover have "seq_at b p \<le> seq_at b q" using S Cons by (simp add: split_at_def)
    ultimately show ?thesis using p Cons
      by (simp add: consumer_at_def c'_def sq len nx) (simp add: seq_at_def slot_at_def)
  qed
qed

lemma map_pending_upd:
  assumes "p \<notin> set ps" "p < length (slots b)"
  shows "map (\<lambda>i. slot_packet (slots (upd_slot (int p) f b) ! i)) ps = map (\<lambda>i. slot_packet (slots b ! i)) ps"
  using assms by (auto simp: upd_slot_def nth_update_if)

lemma get_packet_empty:
  assumes I: "chan_inv (b, c)" and Q: "chan_queue (b, c) = []"
  shows "get_packet e (b, c) = Some ((b, c), None)"
proof -
  from I obtain ys ps where S: "split_at b ys ps" and C: "consumer_at b c ys ps"
    and L: "local_unlocked b" by (auto simp: chan_inv_def)
  have "ps = []" using Q split_at_pending [OF S] by (simp add: chan_queue_def)
  with S C have "select_next b c = None" by (simp add: select_next_empty)
  with L show ?thesis by (simp add: get_packet_def getreader_local local_unlocked_def)
qed

lemma get_packet_some:
  assumes I: "chan_inv (b, c)" and Q: "chan_queue (b, c) = a # q"
  shows "\<exists>s'. get_packet e (b, c) = Some (s', Some a) \<and> chan_inv s' \<and> chan_queue s' = q \<and>
    chan_room s' = chan_room (b, c)"
proof -
  from I obtain ys ps where S: "split_at b ys ps" and C: "consumer_at b c ys ps"
    and L: "local_unlocked b" and one: "ctl_refs (control b) = 1" by (auto simp: chan_inv_def)
  from Q split_at_pending [OF S] obtain p ps' where ps: "ps = p # ps'"
    and a: "a = slot_packet (slots b ! p)" and q: "q = map (\<lambda>i. slot_packet (slots b ! i)) ps'"
    by (auto simp: chan_queue_def)
  have sel: "select_next b c = Some (int p)" using S C ps select_next_pending by simp
  define c1 where "c1 = (if firstts c = - 1 then c\<lparr>firstts := timestamp (slot_at b (int p))\<rparr> else c)"
  have C1: "consumer_at b c1 ys (p # ps')" using C ps by (simp add: c1_def)
  have sel1: "select_next b c1 = Some (int p)" using sel by (simp add: c1_def)
  define b' where "b' = upd_slot (int p) (\<lambda>s. s\<lparr>refs := refs s - 1\<rparr>) b"
  define c' where "c' = c1\<lparr>last_seq := slot_seq (slot_at b (int p)), last_read_pos := int p,
     read_pos := next_slot (slot_at b (int p))\<rparr>"
  have get: "get_packet e (b, c) = Some ((b', c'), Some a)"
    using L sel sel1 by (simp add: get_packet_def getreader_local gotreader_local local_unlocked_def
        c1_def [symmetric] b'_def c'_def a slot_at_def)
  have S': "split_at b' (ys @ [p]) ps'" and C': "consumer_at b' c' (ys @ [p]) ps'"
    using read_split_at [of b ys p ps' c1] S C1 ps by (simp_all add: b'_def c'_def)
  have R: "ring b (ys @ p # ps')" using S ps by (simp add: split_at_def)
  have "p < length (slots b)" "p \<notin> set ps'"
    using ring_in_range [OF R, of p] ring_distinct [OF R] by simp_all
  then have "chan_queue (b', c') = q"
    using split_at_pending [OF S'] q by (simp add: chan_queue_def b'_def map_pending_upd)
  moreover have "chan_inv (b', c')"
    using S' C' L one by (auto simp: chan_inv_def local_unlocked_def b'_def)
  moreover have "chan_room (b', c') = chan_room (b, c)"
    by (simp add: chan_room_def b'_def seq_at_upd_slot)
  ultimately show ?thesis using get by blast
qed

section \<open>Writing\<close>

text \<open>The buffer after the slot \<open>y\<close> behind the write position was filled and committed.\<close>

definition committed :: "packet \<Rightarrow> nat \<Rightarrow> OMSBuffer \<Rightarrow> OMSBuffer" where
  "committed p y b =
     commit_slot (slot_seq (slot_at b (write_pos (control b))) + 1) (pkt_ts p) (pkt_marker p)
       (of_nat (length (pkt_bytes p))) (int y) (fill_slot (int y) (pkt_bytes p) b)"

lemma fill_slot_simps [simp]:
  "control (fill_slot p bs b) = control b" "buf_type (fill_slot p bs b) = buf_type b"
  "length (slots (fill_slot p bs b)) = length (slots b)" "links (fill_slot p bs b) = links b"
  by (simp_all add: fill_slot_def links_upd_slot)

lemma slots_committed:
  assumes "y < length (slots b)"
  shows "slots (committed p y b) ! i = (if i = y then
     (slots b ! y)\<lparr>slot_data := memcpy (slot_data (slots b ! y)) (pkt_bytes p) (length (pkt_bytes p)),
        data_size := of_nat (length (pkt_bytes p)), timestamp := real (unat (pkt_ts p)),
        marker := pkt_marker p, refs := ctl_refs (control b),
        slot_seq := slot_seq (slot_at b (write_pos (control b))) + 1\<rparr> else slots b ! i)"
  using assms by (simp add: committed_def slots_commit_slot fill_slot_def upd_slot_def nth_update_if)

lemma committed_simps [simp]:
  "control (committed p y b) = (control b)\<lparr>write_pos := int y\<rparr>"
  "buf_type (committed p y b) = buf_type b"
  "length (slots (committed p y b)) = length (slots b)"
  by (simp_all add: committed_def commit_slot_control)

lemma floor_unat_word [simp]: "word_of_int \<lfloor>unsigned (w :: 'a::len word) :: real\<rfloor> = w"
proof -
  have "\<lfloor>unsigned w :: real\<rfloor> = int (unat w)"
    by (metis floor_of_nat of_nat_unat)
  then show ?thesis by simp
qed

lemma slot_packet_committed:
  assumes "y < length (slots b)" "good_packet p"
  shows "slot_packet (slots (committed p y b) ! y) = p"
proof -
  have "unat (of_nat (length (pkt_bytes p)) :: 32 word) = length (pkt_bytes p)"
    using assms(2) by (simp add: unat_of_nat good_packet_def OMSSLOT_DATASIZE_def)
  then show ?thesis using assms(1)
    by (cases p) (simp add: slots_committed slot_packet_def memcpy_def)
qed

lemma write_filled:
  assumes L: "local_unlocked b" and R: "ring b (y # zs)"
  shows "OMSbuff_write e (fill_slot (int y) (pkt_bytes p) b) 0 (pkt_ts p) (pkt_marker p) (Slot_data (int y))
      (of_nat (length (pkt_bytes p))) = Some (committed p y b, ERR_NOERROR)"
proof -
  have y: "y < length (slots b)" using ring_in_range [OF R, of y] by simp
  have fz: "slot_seq (slot_at (fill_slot (int y) bs b) q) = slot_seq (slot_at b q)"
    "next_slot (slot_at (fill_slot (int y) bs b) q) = next_slot (slot_at b q)" for bs q
    using y by (auto simp: fill_slot_def slot_at_upd_slot) (simp_all add: slot_at_def)
  have nx: "next_slot (slot_at b (write_pos (control b))) = int y"
    using ring_next_write_pos [OF R] by simp
  have un: "OMSbuff_unlock (commit_slot sq ts mk sz q (d\<lparr>control := k\<lparr>syn := True\<rparr>\<rparr>)) =
      commit_slot sq ts mk sz q d" if "\<not> syn k" "control d = k" for sq ts mk sz q d k
    using that by (cases d; cases k) (simp add: commit_slot_def Let_def upd_slot_def OMSbuff_unlock_def)
  from L show ?thesis
    by (simp add: OMSbuff_write_def lock_Some local_unlocked_def fz nx un committed_def Let_def)
qed

lemma seq_at_committed:
  assumes R: "ring b (y # zs)" and N: "seq_at b (last (y # zs)) + 1 < 2 ^ 64"
  shows "seq_at (committed p y b) i = (if i = y then seq_at b (last (y # zs)) + 1 else seq_at b i)"
proof -
  have y: "y < length (slots b)" using ring_in_range [OF R, of y] by simp
  have w: "slot_at b (write_pos (control b)) = slots b ! last (y # zs)"
    using ring_write_pos [OF R] by (simp add: slot_at_def)
  have "unat (slot_seq (slots b ! last (y # zs)) + 1) = seq_at b (last (y # zs)) + 1"
    using N unat_add_lem [of "slot_seq (slots b ! last (y # zs))" 1] by (simp add: seq_at_def)
  then show ?thesis using y w by (simp add: seq_at_def slots_committed)
qed

lemma committed_split_at:
  assumes R: "ring b (y # ys @ ps)" and z: "\<forall>x \<in> set ys. refs (slots b ! x) = 0"
    and o: "\<forall>x \<in> set ps. refs (slots b ! x) = 1" and s: "sorted_wrt (\<lambda>x y. seq_at b x < seq_at b y) ps"
    and m: "\<forall>x \<in> set (ys @ ps). seq_at b x \<le> seq_at b (last (y # ys @ ps))"
    and N: "seq_at b (last (y # ys @ ps)) + 1 < 2 ^ 64" and one: "ctl_refs (control b) = 1"
  shows "split_at (committed p y b) ys (ps @ [y])"
proof -
  have y: "y < length (slots b)" "y \<notin> set (ys @ ps)"
    using ring_in_range [OF R, of y] ring_distinct [OF R] by simp_all
  have "ring (committed p y b) ((ys @ ps) @ [y])"
    unfolding committed_def
    by (rule ring_commit) (use R in \<open>simp add: ring_cong [of "fill_slot (int y) (pkt_bytes p) b" b]\<close>)
  moreover have "sorted_wrt (\<lambda>u v. seq_at (committed p y b) u < seq_at (committed p y b) v) (ps @ [y])"
  proof -
    have "sorted_wrt (\<lambda>u v. seq_at (committed p y b) u < seq_at (committed p y b) v) ps"
      using s y(2) by (rule_tac sorted_wrt_mono_rel [OF _ s]) (auto simp: seq_at_committed [OF R N])
    moreover have "seq_at (committed p y b) u < seq_at (committed p y b) y" if "u \<in> set ps" for u
      using m y(2) that by (auto simp: seq_at_committed [OF R N] intro: le_imp_less_Suc)
    ultimately show ?thesis by (simp add: sorted_wrt_append)
  qed
  moreover have "\<forall>x \<in> set ys. refs (slots (committed p y b) ! x) = 0"
    using z y by (auto simp: slots_committed)
  moreover have "\<forall>x \<in> set (ps @ [y]). refs (slots (committed p y b) ! x) = 1"
    using o y one by (auto simp: slots_committed)
  moreover have "\<forall>x \<in> set (ys @ ps @ [y]). seq_at (committed p y b) x \<le> seq_at (committed p y b) y"
    using m y by (auto simp: seq_at_committed [OF R N] intro: le_SucI)
  ultimately show ?thesis by (simp add: split_at_def)
qed

lemma committed_consumer_at:
  assumes C: "consumer_at b0 c ys0 ps" and R: "ring b (y # ys @ ps)"
    and N: "seq_at b (last (y # ys @ ps)) + 1 < 2 ^ 64"
    and empty: "ps = [] \<Longrightarrow> ys0 = y # ys \<and> b0 = b"
    and len: "length (slots b0) \<le> length (slots b)"
    and sq: "\<And>x. x \<in> set ps \<Longrightarrow> seq_at b x = seq_at b0 x"
    and nx: "\<And>l. l < length (slots b0) \<Longrightarrow>
        next_slot (slots b ! l) = next_slot (slots b0 ! l) \<or> next_slot (slots b ! l) = int y"
  shows "consumer_at (committed p y b) c ys (ps @ [y])"
proof -
  have y: "y < length (slots b)" "y \<notin> set (ys @ ps)"
    using ring_in_range [OF R, of y] ring_distinct [OF R] by simp_all
  have nxt: "next_slot (slots (committed p y b) ! l) = next_slot (slots b ! l)" for l
    using y by (simp add: slots_committed)
  show ?thesis
  proof (cases "ps = []")
    case True
    then have e: "ys0 = y # ys" "b0 = b" using empty by auto
    have "next_slot (slots b ! last (y # ys)) = int y"
      using ring_next_write_pos [OF R] ring_write_pos [OF R] True by (simp add: slot_at_def)
    then show ?thesis using C True e
      by (auto simp: consumer_at_def seq_at_committed [OF R N] nxt)
  next
    case False
    then have "hd ps \<in> set ps" by simp
    then have "hd ps \<noteq> y" using y(2) by auto
    with False C sq [OF \<open>hd ps \<in> set ps\<close>] show ?thesis
      using len nx by (fastforce simp: consumer_at_def seq_at_committed [OF R N] nxt)
  qed
qed

lemma set_valid_simps [simp]:
  "slots (set_valid_read_pos v b) = slots b" "buf_type (set_valid_read_pos v b) = buf_type b"
  "links (set_valid_read_pos v b) = links b" "seq_at (set_valid_read_pos v b) = seq_at b"
  "slot_at (set_valid_read_pos v b) = slot_at b" "known_slots (set_valid_read_pos v b) = known_slots b"
  "control (set_valid_read_pos v b) = (control b)\<lparr>valid_read_pos := v\<rparr>"
  by (auto simp: set_valid_read_pos_def links_def seq_at_def slot_at_def fun_eq_iff)

lemma ring_set_valid [simp]: "ring (set_valid_read_pos v b) xs = ring b xs"
  by (simp add: ring_def)

lemma split_at_set_valid [simp]: "split_at (set_valid_read_pos v b) ys ps = split_at b ys ps"
  by (simp add: split_at_def)

lemma consumer_at_set_valid [simp]: "consumer_at (set_valid_read_pos v b) c ys ps = consumer_at b c ys ps"
  by (simp add: consumer_at_def)

lemma unlock_valid_lock [simp]:
  "\<not> syn (control b) \<Longrightarrow>
   OMSbuff_unlock (set_valid_read_pos v (b\<lparr>control := (control b)\<lparr>syn := True\<rparr>\<rparr>)) = set_valid_read_pos v b"
  by (cases b; cases "control b") (simp add: OMSbuff_unlock_def set_valid_read_pos_def)

lemma getslot_free:
  assumes L: "local_unlocked b" and R: "ring b (y # zs)" and z: "refs (slots b ! y) = 0"
  shows "\<exists>v. OMSbuff_getslot e b = Some (set_valid_read_pos v b, Some (int y)) \<and>
    0 \<le> v \<and> nat v < length (slots b)"
proof -
  let ?v = "valid_read_pos (control b)"
  let ?l = "b\<lparr>control := (control b)\<lparr>syn := True\<rparr>\<rparr>"
  have nx: "next_slot (slot_at b (write_pos (control b))) = int y"
    using ring_next_write_pos [OF R] by simp
  have z': "refs (slot_at b (int y)) = 0" using z by (simp add: slot_at_def)
  have same: "set_valid_read_pos ?v b = b"
    by (cases b; cases "control b") (simp add: set_valid_read_pos_def)
  have "ring ?l (y # zs)" using R by simp
  from push_getslot_total [OF this, of ?v "timestamp (slot_at b ?v)"] L
  obtain v' where v': "push_getslot ?l (timestamp (slot_at b ?v)) ?v = Some v'" "0 \<le> v'"
    "nat v' < length (slots b)" by (auto simp: local_unlocked_def)
  show ?thesis
  proof (cases "slot_seq (slot_at b ?v) \<noteq> 0 \<and> ?v = int y")
    case True
    then have "OMSbuff_getslot e b = Some (set_valid_read_pos v' b, Some (int y))"
      using L v' z' by (elim conjE) (simp add: OMSbuff_getslot_def lock_Some local_unlocked_def Let_def nx)
    with v' show ?thesis by blast
  next
    case False
    then have "OMSbuff_getslot e b = Some (set_valid_read_pos ?v b, Some (int y))"
      using L z' by (auto simp: OMSbuff_getslot_def lock_Some local_unlocked_def Let_def nx same)
    with L show ?thesis unfolding local_unlocked_def by blast
  qed
qed

text \<open>When every slot waits for the consumer the ring grows by a page, whose first slot is handed out.\<close>
lemma getslot_full:
  assumes L: "local_unlocked b" and R: "ring b xs" and z: "refs (slots b ! hd xs) \<noteq> 0"
    and fr: "fresh_page e" and room: "unat (nslots (control b)) + 9 < 2 ^ 32"
  obtains b' where "OMSbuff_getslot e b = Some (b', Some (int (length (slots b))))"
    and "local_unlocked b'" and "ring b' ([length (slots b)..<length (slots b) + 9] @ xs)"
    and "control b' = (control b)\<lparr>nslots := nslots (control b) + 9\<rparr>"
    and "\<And>j. j < length (slots b) \<Longrightarrow>
           slots b' ! j = (slots b ! j)\<lparr>next_slot := next_slot (slots b' ! j)\<rparr>"
    and "\<And>j. length (slots b) \<le> j \<Longrightarrow> j < length (slots b) + 9 \<Longrightarrow>
           refs (slots b' ! j) = 0 \<and> slot_seq (slots b' ! j) = 0"
    and "\<And>j. j < length (slots b) \<Longrightarrow> next_slot (slots b' ! j) =
           (if j = last xs then int (length (slots b)) else next_slot (slots b ! j))"
proof -
  let ?l = "b\<lparr>control := (control b)\<lparr>syn := True\<rparr>\<rparr>"
  have nx: "0 < refs (slot_at b (next_slot (slot_at b (write_pos (control b)))))"
    using ring_next_write_pos [OF R] z by (simp add: slot_at_def word_gt_0)
  have R': "ring ?l xs" using R by simp
  show thesis
  proof (rule addpage_local [OF R' _ fr])
    show "buf_type ?l = buff_local" using L by (simp add: local_unlocked_def)
    show "unat (nslots (control ?l)) + 9 < 2 ^ 32" using room by simp
  next
    fix b'
    assume A: "OMSbuff_addpage e ?l (write_pos (control ?l)) = (b', Some (int (length (slots ?l))))"
      "ring b' ([length (slots ?l)..<length (slots ?l) + 9] @ xs)"
      "control b' = (control ?l)\<lparr>nslots := nslots (control ?l) + 9\<rparr>" "buf_type b' = buff_local"
    assume B: "\<And>j. j < length (slots ?l) \<Longrightarrow> slots b' ! j = (slots ?l ! j)\<lparr>next_slot := next_slot (slots b' ! j)\<rparr>"
      "\<And>j. length (slots ?l) \<le> j \<Longrightarrow> j < length (slots ?l) + 9 \<Longrightarrow>
           refs (slots b' ! j) = 0 \<and> slot_seq (slots b' ! j) = 0"
      "\<And>j. j < length (slots ?l) \<Longrightarrow> next_slot (slots b' ! j) =
           (if j = last xs then int (length (slots ?l)) else next_slot (slots ?l ! j))"
    have len: "length (slots b') = length (slots b) + 9 " using ring_length [OF A(2)] ring_length [OF R] by simp
    show thesis
    proof (rule that [of "OMSbuff_unlock b'"])
      show "OMSbuff_getslot e b = Some (OMSbuff_unlock b', Some (int (length (slots b))))"
        using L nx A(1) by (simp add: OMSbuff_getslot_def lock_Some local_unlocked_def Let_def)
      show "local_unlocked (OMSbuff_unlock b')"
        using L A len by (simp add: local_unlocked_def)
      show "ring (OMSbuff_unlock b') ([length (slots b)..<length (slots b) + 9] @ xs)"
        using A(2) by (simp add: OMSbuff_unlock_def)
      show "control (OMSbuff_unlock b') = (control b)\<lparr>nslots := nslots (control b) + 9\<rparr>"
        using A(3) L by (simp add: local_unlocked_def)
    qed (use B in auto)
  qed
qed

text \<open>Storing a packet once a slot was handed out.\<close>

lemma put_committed:
  assumes G: "OMSbuff_getslot e b = Some (b1, Some (int y))" and L: "local_unlocked b1"
    and R: "ring b1 (y # ys @ ps)"
  shows "put_packet e p (b, c) = Some (committed p y b1, c)"
  using G write_filled [OF L R] by (simp add: put_packet_def)

lemma queue_committed:
  assumes R: "ring b1 (y # ys @ ps)" and S: "split_at (committed p y b1) ys (ps @ [y])"
    and P: "good_packet p"
  shows "chan_queue (committed p y b1, c) = map (\<lambda>i. slot_packet (slots b1 ! i)) ps @ [p]"
proof -
  have y: "y < length (slots b1)" "y \<notin> set ps"
    using ring_in_range [OF R, of y] ring_distinct [OF R] by simp_all
  have "slots (committed p y b1) ! i = slots b1 ! i" if "i \<in> set ps" for i
    using y that slots_committed [OF y(1)] by metis
  then show ?thesis
    using split_at_pending [OF S] slot_packet_committed [OF y(1) P] by (simp add: chan_queue_def)
qed

lemma put_packet_fifo:
  assumes I: "chan_inv (b, c)" and room: "0 < chan_room (b, c)" and fr: "fresh_page e"
    and P: "good_packet p"
  shows "\<exists>s'. put_packet e p (b, c) = Some s' \<and> chan_inv s' \<and>
    chan_queue s' = chan_queue (b, c) @ [p] \<and> chan_room (b, c) \<le> Suc (chan_room s')"
proof -
  from I obtain ys ps where S: "split_at b ys ps" and C: "consumer_at b c ys ps"
    and L: "local_unlocked b" and one: "ctl_refs (control b) = 1" by (auto simp: chan_inv_def)
  have R: "ring b (ys @ ps)" using S by (simp add: split_at_def)
  have Q: "chan_queue (b, c) = map (\<lambda>i. slot_packet (slots b ! i)) ps"
    using split_at_pending [OF S] by (simp add: chan_queue_def)
  have last: "seq_at b (last (ys @ ps)) + 1 < 2 ^ 64" "unat (nslots (control b)) + 9 < 2 ^ 32"
    using room ring_write_pos [OF R] by (auto simp: chan_room_def div_greater_zero_iff)
  show ?thesis
  proof (cases ys)
    case (Cons y ys')
    have Ry: "ring b (y # ys' @ ps)" using R Cons by simp
    obtain v where v: "OMSbuff_getslot e b = Some (set_valid_read_pos v b, Some (int y))"
      "0 \<le> v" "nat v < length (slots b)"
      using getslot_free [OF L Ry, of e] S Cons by (auto simp: split_at_def simp del: split_paired_Ex)
    define b1 where "b1 = set_valid_read_pos v b"
    have R1: "ring b1 (y # ys' @ ps)" and L1: "local_unlocked b1"
      using Ry L v by (simp_all add: b1_def local_unlocked_def)
    have N: "seq_at b1 (last (y # ys' @ ps)) + 1 < 2 ^ 64" using last Cons by (simp add: b1_def)
    have S1: "split_at (committed p y b1) ys' (ps @ [y])"
      by (rule committed_split_at [OF R1 _ _ _ _ N])
        (use S Cons one in \<open>auto simp: split_at_def b1_def\<close>)
    have C1: "consumer_at (committed p y b1) c ys' (ps @ [y])"
      by (rule committed_consumer_at [of b1 c ys, OF _ R1 N]) (use C Cons in \<open>auto simp: b1_def\<close>)
    have "put_packet e p (b, c) = Some (committed p y b1, c)"
      by (rule put_committed [OF _ L1 R1]) (use v in \<open>simp add: b1_def\<close>)
    moreover have "chan_inv (committed p y b1, c)"
      using S1 C1 L1 one by (auto simp: chan_inv_def local_unlocked_def b1_def)
    moreover have "chan_queue (committed p y b1, c) = chan_queue (b, c) @ [p]"
      using queue_committed [OF R1 S1 P] Q by (simp add: b1_def)
    moreover have "chan_room (b, c) \<le> Suc (chan_room (committed p y b1, c))"
      using seq_at_committed [OF R1 N, of p y] ring_write_pos [OF R] Cons
      by (simp add: chan_room_def b1_def)
    ultimately show ?thesis by blast
  next
    case Nil
    then have ps: "ps \<noteq> []" "ring b ps" using R ring_nonempty [OF R] by auto
    have full: "refs (slots b ! hd ps) \<noteq> 0" using S ps(1) by (simp add: split_at_def)
    define n where "n = length (slots b)"
    obtain b1 where G: "OMSbuff_getslot e b = Some (b1, Some (int n))" and L1: "local_unlocked b1"
      and R0: "ring b1 ([n..<n + 9] @ ps)"
      and ctl: "control b1 = (control b)\<lparr>nslots := nslots (control b) + 9\<rparr>"
      and old: "\<And>j. j < n \<Longrightarrow> slots b1 ! j = (slots b ! j)\<lparr>next_slot := next_slot (slots b1 ! j)\<rparr>"
      and new: "\<And>j. n \<le> j \<Longrightarrow> j < n + 9 \<Longrightarrow> refs (slots b1 ! j) = 0 \<and> slot_seq (slots b1 ! j) = 0"
      and nx: "\<And>j. j < n \<Longrightarrow> next_slot (slots b1 ! j) = (if j = last ps then int n else next_slot (slots b ! j))"
      using getslot_full [OF L ps(2) full fr last(2)] unfolding n_def by blast
    have R1: "ring b1 (n # [Suc n..<n + 9] @ ps)" using R0 by (simp add: upt_conv_Cons)
    have in_n: "x < n" if "x \<in> set ps" for x using ring_in_range [OF ps(2), of x] that by (simp add: n_def)
    have keep: "refs (slots b1 ! x) = refs (slots b ! x)" "seq_at b1 x = seq_at b x"
      "slot_packet (slots b1 ! x) = slot_packet (slots b ! x)" if "x \<in> set ps" for x
      using arg_cong [OF old [OF in_n [OF that]], of refs] arg_cong [OF old [OF in_n [OF that]], of slot_seq]
        arg_cong [OF old [OF in_n [OF that]], of slot_packet]
      by (simp_all add: seq_at_def) (simp_all add: slot_packet_def)
    have fresh: "refs (slots b1 ! x) = 0" "seq_at b1 x = 0" if "x \<in> set [Suc n..<n + 9]" for x
      using new [of x] that by (simp_all add: seq_at_def)
    have N: "seq_at b1 (last (n # [Suc n..<n + 9] @ ps)) + 1 < 2 ^ 64"
      using last(1) Nil ps(1) keep(2) [of "last ps"] by simp
    have top: "seq_at b x \<le> seq_at b (last ps)" "refs (slots b ! x) = 1" if "x \<in> set ps" for x
      using S Nil that ps(1) by (auto simp: split_at_def)
    have srt: "sorted_wrt (\<lambda>x y. seq_at b1 x < seq_at b1 y) ps"
      using S by (rule_tac sorted_wrt_mono_rel [of ps "\<lambda>x y. seq_at b x < seq_at b y"])
        (auto simp: split_at_def keep)
    have S1: "split_at (committed p n b1) [Suc n..<n + 9] (ps @ [n])"
    proof (rule committed_split_at [OF R1 _ _ srt _ N])
      show "\<forall>x \<in> set [Suc n..<n + 9]. refs (slots b1 ! x) = 0" using fresh(1) by blast
      show "\<forall>x \<in> set ps. refs (slots b1 ! x) = 1" using keep(1) top(2) by simp
      show "\<forall>x \<in> set ([Suc n..<n + 9] @ ps). seq_at b1 x \<le> seq_at b1 (last (n # [Suc n..<n + 9] @ ps))"
        using fresh(2) keep(2) top(1) ps(1) by (auto simp del: set_upt)
      show "ctl_refs (control b1) = 1" using one ctl by simp
    qed
    have C1: "consumer_at (committed p n b1) c [Suc n..<n + 9] (ps @ [n])"
    proof (rule committed_consumer_at [OF C R1 N])
      show "length (slots b) \<le> length (slots b1)" using ring_length [OF R1] ring_length [OF ps(2)] by simp
      show "next_slot (slots b1 ! l) = next_slot (slots b ! l) \<or> next_slot (slots b1 ! l) = int n"
        if "l < length (slots b)" for l using nx [of l] that by (simp add: n_def)
    qed (use ps keep in auto)
    have "put_packet e p (b, c) = Some (committed p n b1, c)" by (rule put_committed [OF G L1 R1])
    moreover have "chan_inv (committed p n b1, c)"
      using S1 C1 L1 one ctl by (auto simp: chan_inv_def local_unlocked_def)
    moreover have "chan_queue (committed p n b1, c) = chan_queue (b, c) @ [p]"
      using queue_committed [OF R1 S1 P] Q keep(3) by simp
    moreover have "chan_room (b, c) \<le> Suc (chan_room (committed p n b1, c))"
    proof -
      have "unat (nslots (control b) + 9) = unat (nslots (control b)) + 9"
        using last(2) unat_add_lem [of "nslots (control b)" 9] by simp
      then show ?thesis
        using seq_at_committed [OF R1 N, of p n] ring_write_pos [OF ps(2)] keep(2) [of "last ps"] ps(1) ctl
        by (simp add: chan_room_def)
    qed
    ultimately show ?thesis by blast
  qed
qed

section \<open>The buffer is a channel\<close>

interpretation omsbuff: fifo_channel chan_inv chan_queue chan_room fresh_page good_packet put_packet get_packet
proof (unfold_locales, goal_cases)
  case (1 s e a)
  then show ?case by (cases s) (simp only: put_packet_fifo)
next
  case (2 s e)
  then show ?case using get_packet_empty [of "fst s" "snd s" e] by simp
next
  case (3 s a q e)
  then show ?case by (cases s) (simp only: get_packet_some)
qed

text \<open>The channel a session opens: a new buffer with one reference.\<close>

lemma new_slots:
  assumes "OMSbuff_new n = Some b"
  shows "length (slots b) = unat n" "control b = \<lparr>ctl_refs = 0, nslots = n,
      write_pos = int (unat (n - 1)), valid_read_pos = 0, syn = False\<rparr>" "0 < unat n"
    "i < unat n \<Longrightarrow> refs (slots b ! i) = 0 \<and> slot_seq (slots b ! i) = 0" "buf_type b = buff_local"
  using assms
  by (auto simp: OMSbuff_new_def Let_def nth_append zero_slot_def unat_gt_0 split: if_splits)

lemma ref_new:
  assumes "OMSbuff_new n = Some b0"
  obtains b c where "OMSbuff_ref b0 = Some (b, c)" "chan_inv (b, c)" "chan_queue (b, c) = []"
    "chan_room (b, c) = (2 ^ 32 - 1 - unat n) div 9"
proof -
  note N = new_slots [OF assms]
  define c where "c = \<lparr>read_pos = 0, last_read_pos = - 1, last_seq = 0, frames = 0, firstts = - 1\<rparr>"
  define b where "b = b0\<lparr>control := (control b0)\<lparr>ctl_refs := 1\<rparr>\<rparr>"
  have R: "ring b0 [0..<unat n]" by (rule ring_new [OF assms])
  then have Rb: "ring b [0..<unat n]" by (simp add: b_def)
  have "slot_seq (slot_at b0 0) = 0" using N(3) N(4) [of 0] by (simp add: slot_at_def)
  then have "OMSbuff_ref b0 = Some (b, c)" using N(2)
    by (simp add: OMSbuff_ref_def lock_Some OMSbuff_unlock_def b_def c_def)
  moreover have S: "split_at b [0..<unat n] []"
    using Rb N(3,4) by (auto simp: split_at_def seq_at_def b_def)
  moreover have "consumer_at b c [0..<unat n] []" using N(3) by (simp add: consumer_at_def c_def)
  moreover have "local_unlocked b" using N by (simp add: local_unlocked_def b_def)
  moreover have "chan_queue (b, c) = []" using split_at_pending [OF S] by (simp add: chan_queue_def)
  moreover have "chan_room (b, c) = (2 ^ 32 - 1 - unat n) div 9"
  proof -
    have w: "nat (write_pos (control b)) = unat n - 1" using ring_write_pos [OF Rb] N(3) by simp
    have "slot_seq (slots b ! (unat n - 1)) = 0" using N(4) [of "unat n - 1"] N(3) by (simp add: b_def)
    moreover have "(2 ^ 32 - 1 - unat n) div 9 \<le> (2 ^ 64 - 1 :: nat)"
      by (rule order_trans [of _ "2 ^ 32 - 1 - unat n"]) auto
    ultimately show ?thesis using w N(2) by (simp add: chan_room_def seq_at_def) (simp add: b_def)
  qed
  ultimately show thesis using N(2) by (intro that [of b c]) (auto simp: chan_inv_def b_def)
qed

text \<open>C1: a packet stored into a session's buffer is fetched exactly once, complete and in order: whatever
  interleaving of stores (getslot, fill, write) and fetches (getreader, gotreader) a session performs on a
  new buffer with one consumer, every call returns, and what was fetched followed by what still waits is what
  was stored. The number of stores is bounded by the 32-bit slot counter only.\<close>

theorem single_consumer_fifo:
  assumes "OMSbuff_new n = Some b0" and "OMSbuff_ref b0 = Some (b, c)"
    and "\<And>e. e \<in> set (envs xs) \<Longrightarrow> fresh_page e"
    and "\<And>p. p \<in> set (puts xs) \<Longrightarrow> good_packet p"
    and "length (puts xs) \<le> (2 ^ 32 - 1 - unat n) div 9"
  shows "\<exists>s outs. run_ops put_packet get_packet xs (b, c) = Some (s, outs) \<and> outs @ chan_queue s = puts xs"
proof -
  from ref_new [OF assms(1)] assms(2) have "chan_inv (b, c)" "chan_queue (b, c) = []"
    "chan_room (b, c) = (2 ^ 32 - 1 - unat n) div 9" by (metis Pair_inject option.inject)+
  with omsbuff.run_fifo [of "(b, c)" xs] assms(3-5) show ?thesis by auto
qed

definition page_env :: shm_env where
  "page_env = \<lparr>env_name = True, env_open = True, env_fstat = True, env_size = None, env_trunc = True,
     env_munmap = True, env_mmap = None, env_moved = False, env_realloc = Some (replicate 9 zero_slot)\<rparr>"

definition sample_pkt :: "nat \<Rightarrow> packet" where
  "sample_pkt k = \<lparr>pkt_ts = of_nat k, pkt_marker = 0, pkt_bytes = [of_nat k]\<rparr>"

lemma page_env_fresh [simp]: "fresh_page page_env"
  by (simp add: fresh_page_def page_env_def OMSBUFF_MEM_PAGE_def)

lemma pkt_good [simp]: "good_packet (sample_pkt k)"
  by (simp add: good_packet_def sample_pkt_def OMSSLOT_DATASIZE_def)

theorem single_consumer_fifo_witness:
  "\<exists>b0 b c s outs. OMSbuff_new 1 = Some b0 \<and> OMSbuff_ref b0 = Some (b, c) \<and>
     run_ops put_packet get_packet [Put page_env (sample_pkt 5), Put page_env (sample_pkt 6), Get page_env, Get page_env, Get page_env]
       (b, c) = Some (s, outs) \<and> outs @ chan_queue s = [sample_pkt 5, sample_pkt 6]"
proof -
  obtain b0 where n: "OMSbuff_new 1 = Some b0" by (simp add: OMSbuff_new_def)
  obtain b c where r: "OMSbuff_ref b0 = Some (b, c)" by (rule ref_new [OF n])
  from single_consumer_fifo [OF n r, of "[Put page_env (sample_pkt 5), Put page_env (sample_pkt 6), Get page_env, Get page_env, Get page_env]"]
  show ?thesis using n r by fastforce
qed

end
