(* ===== verification/Bufferpool_Safety.thy ===== *)
theory Bufferpool_Safety
  imports Bufferpool_Fifo
begin

text \<open>
  The buffer pool with any number of consumers, whose positions may be arbitrary: every
  operation keeps the slots in one closed ring, with the write position on it and the mutex
  released, and every call but the copying branch of \<open>OMSbuff_write\<close> returns. The theory closes
  with the behaviours that the code does not protect against: a buffer left locked, a page that is
  handed out but not committed, a second consumer that loses packets, and a write that never
  returns.
\<close>

section \<open>The operations as steps\<close>

text \<open>The growth of the ring either fails or adds a page that the slot counter can count.\<close>

definition pages_ok :: "shm_env \<Rightarrow> OMSBuffer \<Rightarrow> bool" where
  "pages_ok e b \<longleftrightarrow> env_realloc e = None \<or> fresh_page e \<and> unat (nslots (control b)) + 9 < 2 ^ 32"

inductive bp_step :: "OMSBuffer \<Rightarrow> OMSBuffer \<Rightarrow> bool" where
  ref: "OMSbuff_ref b = Some (b', c) \<Longrightarrow> bp_step b b'"
| unref: "OMSbuff_unref e b c = Some b' \<Longrightarrow> bp_step b b'"
| getreader: "OMSbuff_getreader e b c = Some (b', c', n) \<Longrightarrow> bp_step b b'"
| gotreader: "OMSbuff_gotreader e b c = Some (b', c', r) \<Longrightarrow> bp_step b b'"
| isempty: "OMSbuff_isempty e b c = Some (b', r) \<Longrightarrow> bp_step b b'"
| nextts: "OMSbuff_nextts e b c = Some (b', t) \<Longrightarrow> bp_step b b'"
| read: "OMSbuff_read e b c out = Some (b', c', out', r) \<Longrightarrow> bp_step b b'"
| getslot: "OMSbuff_getslot e b = Some (b', s) \<Longrightarrow> pages_ok e b \<Longrightarrow> bp_step b b'"
| store: "OMSbuff_write e b sq ts mk d sz = Some (b', r) \<Longrightarrow> pages_ok e b \<Longrightarrow> bp_step b b'"
| fill: "bp_step b (fill_slot p bs b)"

definition ring_inv :: "OMSBuffer \<Rightarrow> bool" where
  "ring_inv b \<longleftrightarrow> local_unlocked b \<and> ring_ok b"

definition new_buffer :: "OMSBuffer \<Rightarrow> bool" where
  "new_buffer b \<longleftrightarrow> (\<exists>n. OMSbuff_new n = Some b)"

text \<open>The locked buffer that an operation works on between its lock and its unlock.\<close>

definition locked :: "OMSBuffer \<Rightarrow> OMSBuffer" where
  "locked b = b\<lparr>control := (control b)\<lparr>syn := True\<rparr>\<rparr>"

definition ring_work :: "OMSBuffer \<Rightarrow> bool" where
  "ring_work b \<longleftrightarrow> buf_type b = buff_local \<and> 0 \<le> valid_read_pos (control b) \<and>
     nat (valid_read_pos (control b)) < length (slots b) \<and> ring_ok b"

lemma ring_inv_iff: "ring_inv b \<longleftrightarrow> \<not> syn (control b) \<and> ring_work b"
  by (auto simp: ring_inv_def ring_work_def local_unlocked_def)

lemma ring_work_locked [simp]: "ring_work (locked b) = ring_work b"
  by (simp add: ring_work_def ring_ok_iff locked_def)

lemma ring_inv_unlock [simp]: "ring_inv (OMSbuff_unlock b) = ring_work b"
  by (simp add: ring_inv_iff ring_work_def ring_ok_iff OMSbuff_unlock_def)

lemma ring_work_refs:
  assumes "\<And>s. next_slot (f s) = next_slot s"
  shows "ring_work (upd_slot p f b) = ring_work b"
proof -
  have "ring (upd_slot p f b) xs = ring b xs" for xs
    by (rule ring_cong) (simp_all add: links_upd_slot assms)
  then show ?thesis by (simp add: ring_work_def ring_ok_iff)
qed

lemma ring_work_upd [simp]:
  "ring_work (upd_slot p (\<lambda>s. s\<lparr>refs := g s\<rparr>) b) = ring_work b"
  "ring_work (upd_slot p (\<lambda>s. s\<lparr>slot_data := h s\<rparr>) b) = ring_work b"
  "ring_work (fill_slot p bs b) = ring_work b"
  by (simp_all add: ring_work_refs fill_slot_def)

lemma ring_work_control [simp]:
  "write_pos k = write_pos (control b) \<Longrightarrow> nslots k = nslots (control b) \<Longrightarrow>
   valid_read_pos k = valid_read_pos (control b) \<Longrightarrow> ring_work (b\<lparr>control := k\<rparr>) = ring_work b"
  by (simp add: ring_work_def ring_ok_iff)

lemma lock_locked: "\<not> syn (control b) \<Longrightarrow> OMSbuff_lock b = Some (locked b)"
  by (simp add: OMSbuff_lock_def locked_def)

lemma locked_simps [simp]:
  "control (locked b) = (control b)\<lparr>syn := True\<rparr>" "buf_type (locked b) = buf_type b"
  "slots (locked b) = slots b" "slot_at (locked b) = slot_at b"
  by (simp_all add: locked_def fun_eq_iff)

lemma moved_work [simp]: "ring_work b \<Longrightarrow> \<not> slots_moved e b"
  by (simp add: ring_work_def)

lemma refresh_work [simp]: "ring_work b \<Longrightarrow> OMSbuff_shm_refresh e b = (b, 0)"
  by (simp add: ring_work_def)

section \<open>Every operation keeps the ring\<close>

lemma ref_loop_ring:
  "ring b xs \<Longrightarrow> k < length xs \<Longrightarrow> \<exists>b'. ref_loop b (int (xs ! k)) = Some b' \<and> ring b' xs \<and>
     control b' = control b \<and> buf_type b' = buff_local = (buf_type b = buff_local) \<and>
     length (slots b') = length (slots b)"
proof (induction "length xs - k" arbitrary: b k)
  case 0
  then show ?case by simp
next
  case (Suc m)
  let ?b = "upd_slot (int (xs ! k)) (\<lambda>s. s\<lparr>refs := refs s + 1\<rparr>) b"
  have R: "ring ?b xs" by (subst ring_cong [of _ b]) (simp_all add: links_upd_slot Suc.prems)
  have last: "write_pos (control b) = int (last xs)" using Suc.prems(1) by (simp add: ring_def)
  show ?case
  proof (cases "Suc k = length xs")
    case True
    then have "xs ! k = last xs" using ring_nonempty [OF Suc.prems(1)] by (simp add: last_conv_nth flip: True)
    then show ?thesis using R last by (subst ref_loop.simps) auto
  next
    case False
    with Suc.prems have k: "Suc k < length xs" by simp
    have "xs ! k \<noteq> last xs"
      using ring_distinct [OF Suc.prems(1)] k
      by (metis Suc_lessD Suc_lessI diff_Suc_1 ring_nonempty [OF Suc.prems(1)] last_conv_nth
          length_greater_0_conv lessI less_irrefl nat_neq_iff not_less_eq nth_eq_iff_index_eq Suc_pred)
    then have "ref_loop b (int (xs ! k)) = ref_loop ?b (int (xs ! Suc k))"
      using last ring_next_index [OF Suc.prems(1) k] by (subst ref_loop.simps) simp
    with Suc.hyps(1) [OF _ R k] Suc.hyps(2) show ?thesis by (simp add: upd_slot_def)
  qed
qed

lemma ref_loop_work:
  assumes W: "ring_work b" and v: "v = valid_read_pos (control b)"
  shows "\<exists>b'. ref_loop b v = Some b' \<and> ring_work b' \<and> control b' = control b"
proof -
  from W obtain xs where R: "ring b xs" by (auto simp: ring_work_def ring_ok_iff)
  have "nat v \<in> set xs" using W v ring_in_range [OF R, of "nat v"] by (simp add: ring_work_def)
  then obtain k where "k < length xs" "xs ! k = nat v" by (auto simp: in_set_conv_nth)
  with ref_loop_ring [OF R] W v show ?thesis
    by (fastforce simp: ring_work_def ring_ok_iff)
qed

lemma ref_inv:
  assumes "ring_inv b"
  shows "\<exists>b' c. OMSbuff_ref b = Some (b', c) \<and> ring_inv b'"
proof -
  let ?v = "valid_read_pos (control b)"
  have W: "ring_work (locked b)" and u: "\<not> syn (control b)" using assms by (simp_all add: ring_inv_iff)
  from ref_loop_work [OF W, of ?v] obtain b1 where
    b1: "ref_loop (locked b) ?v = Some b1" "ring_work b1" by (auto simp: locked_def)
  show ?thesis
    using b1 W u by (auto simp: OMSbuff_ref_def lock_locked Let_def)
qed

lemma reader_inv:
  assumes "ring_inv b"
  shows "\<exists>b' c' n. OMSbuff_getreader e b c = Some (b', c', n) \<and> ring_inv b'"
    and "\<exists>b' c' r. OMSbuff_gotreader e b c = Some (b', c', r) \<and> ring_inv b'"
    and "\<exists>b' r. OMSbuff_isempty e b c = Some (b', r) \<and> ring_inv b'"
    and "\<exists>b' t. OMSbuff_nextts e b c = Some (b', t) \<and> ring_inv b'"
    and "\<exists>b' c' out' r. OMSbuff_read e b c out = Some (b', c', out', r) \<and> ring_inv b'"
  using assms
  by (simp_all add: ring_inv_iff [of b] lock_locked OMSbuff_getreader_def OMSbuff_gotreader_def
      OMSbuff_isempty_def OMSbuff_nextts_def OMSbuff_read_def Let_def split: option.split)

lemma drain_inv:
  assumes "drain e b c = Some b'"
  shows "ring_inv b \<longrightarrow> ring_inv b'"
proof (rule drain.raw_induct [OF _ assms, of "\<lambda>e b c b'. ring_inv b \<longrightarrow> ring_inv b'"], goal_cases)
  case (1 drain e b c b')
  show ?case
  proof
    assume I: "ring_inv b"
    from reader_inv(2) [OF I, of e c] obtain b1 c1 r where
      "OMSbuff_gotreader e b c = Some (b1, c1, r)" "ring_inv b1" by blast
    with 1 show "ring_inv b'" by (auto split: if_splits)
  qed
qed

lemma unref_inv: "OMSbuff_unref e b c = Some b' \<Longrightarrow> ring_inv b \<Longrightarrow> ring_inv b'"
  by (auto simp: OMSbuff_unref_def ring_inv_iff [of b] lock_locked bind_eq_Some_conv split: if_splits
      dest!: drain_inv)

lemma addpage_work:
  assumes W: "ring_work b" and P: "pages_ok e b"
  shows "\<exists>b' s. OMSbuff_addpage e b (write_pos (control b)) = (b', s) \<and> ring_work b' \<and>
     (\<forall>x. s = Some x \<longrightarrow> (\<exists>y zs. x = int y \<and> ring b' (y # zs)))"
proof (cases "env_realloc e")
  case None
  with W show ?thesis by (simp add: OMSbuff_addpage_def ring_work_def)
next
  case (Some f)
  with P have fr: "fresh_page e" and room: "unat (nslots (control b)) + 9 < 2 ^ 32" by (auto simp: pages_ok_def)
  from W obtain xs where R: "ring b xs" by (auto simp: ring_work_def ring_ok_iff)
  have loc: "buf_type b = buff_local" using W by (simp add: ring_work_def)
  obtain b' where A: "OMSbuff_addpage e b (write_pos (control b)) = (b', Some (int (length (slots b))))"
    and R': "ring b' ([length (slots b)..<length (slots b) + 9] @ xs)"
    and ctl: "control b' = (control b)\<lparr>nslots := nslots (control b) + 9\<rparr>" and loc': "buf_type b' = buff_local"
    by (rule addpage_local [OF R loc fr room])
  have "length (slots b') = length (slots b) + 9"
    using ring_length [OF R'] ring_length [OF R] by simp
  then have "ring_work b'" using W R' ctl loc' by (auto simp: ring_work_def ring_ok_iff)
  then show ?thesis using A R' by (auto simp: upt_conv_Cons)
qed

lemma pages_ok_locked [simp]: "pages_ok e (locked b) = pages_ok e b"
  by (simp add: pages_ok_def locked_def)

lemma commit_work:
  "ring_work b \<Longrightarrow> ring b (y # zs) \<Longrightarrow> ring_work (commit_slot sq ts mk sz (int y) b)"
  using ring_commit [of b y zs sq ts mk sz]
  by (auto simp: ring_work_def ring_ok_iff commit_slot_control)

lemma set_valid_work:
  "ring_work b \<Longrightarrow> 0 \<le> v \<Longrightarrow> nat v < length (slots b) \<Longrightarrow> ring_work (set_valid_read_pos v b)"
  by (simp add: ring_work_def ring_ok_iff)

lemma getslot_inv:
  assumes I: "ring_inv b" and P: "pages_ok e b"
  shows "\<exists>b' s. OMSbuff_getslot e b = Some (b', s) \<and> ring_inv b'"
proof -
  let ?v = "valid_read_pos (control b)"
  have W: "ring_work (locked b)" and u: "\<not> syn (control b)" using I by (simp_all add: ring_inv_iff)
  from W obtain xs where R: "ring (locked b) xs" by (auto simp: ring_work_def ring_ok_iff)
  from addpage_work [OF W, of e] P obtain b1 s where
    A: "OMSbuff_addpage e (locked b) (write_pos (control b)) = (b1, s)" "ring_work b1" by auto
  from push_getslot_total [OF R, of ?v] W obtain v' where
    v': "push_getslot (locked b) (timestamp (slot_at b ?v)) ?v = Some v'"
    "0 \<le> v'" "nat v' < length (slots b)" by (auto simp: ring_work_def)
  have "ring_work (set_valid_read_pos v' (locked b))" using W v' by (simp add: set_valid_work)
  then show ?thesis using A W u v'
    by (auto simp: OMSbuff_getslot_def lock_locked Let_def split: option.split)
qed

lemma push_write_range:
  assumes "push_write b ts v = Some v'" and R: "ring b xs"
  shows "0 \<le> v \<and> nat v < length (slots b) \<longrightarrow> 0 \<le> v' \<and> nat v' < length (slots b)"
proof (rule push_write.raw_induct [OF _ assms(1),
    of "\<lambda>c ts v v'. c = b \<longrightarrow> 0 \<le> v \<and> nat v < length (slots b) \<longrightarrow> 0 \<le> v' \<and> nat v' < length (slots b)",
    THEN mp], goal_cases)
  case (1 push_write c ts v v')
  then show ?case using ring_next_range [OF R] by (auto split: if_splits)
qed simp

lemma write_inv:
  assumes S: "OMSbuff_write e b sq ts mk d sz = Some (b', r)" and I: "ring_inv b" and P: "pages_ok e b"
  shows "ring_inv b'"
proof -
  let ?v = "valid_read_pos (control b)" and ?n = "next_slot (slot_at b (write_pos (control b)))"
  have W: "ring_work (locked b)" and u: "\<not> syn (control b)" using I by (simp_all add: ring_inv_iff)
  from W obtain xs where R: "ring (locked b) xs" by (auto simp: ring_work_def ring_ok_iff)
  then obtain y zs where R: "ring (locked b) (y # zs)" using ring_nonempty by (metis list.exhaust)
  have n: "?n = int y" using ring_next_write_pos [OF R] by simp
  from addpage_work [OF W, of e] P obtain b1 s where
    A: "OMSbuff_addpage e (locked b) (write_pos (control b)) = (b1, s)" "ring_work b1"
       "\<And>x. s = Some x \<Longrightarrow> \<exists>y zs. x = int y \<and> ring b1 (y # zs)" by auto
  have data: "ring_work (upd_slot p (\<lambda>x. x\<lparr>slot_data := g x\<rparr>) c) = ring_work c"
    "ring (upd_slot p (\<lambda>x. x\<lparr>slot_data := g x\<rparr>) c) zs = ring c zs" for p g c zs
    by simp (rule ring_cong, simp_all add: links_upd_slot)
  have commit: "ring_inv (OMSbuff_unlock (commit_slot q t m z (int y) c))"
    if "ring_work c" "ring c (y # zs)" for q t m z c y zs
    using commit_work [OF that] by simp
  note commit_y = commit [where y = y and zs = zs]
  have Rv: "ring (set_valid_read_pos v (locked b)) (y # zs)" for v using R by simp
  have y: "y < length (slots b)" using ring_in_range [OF R, of y] by simp
  have valid: "ring_work (set_valid_read_pos v' (locked b))"
    if "push_write (locked b) t v = Some v'" "0 \<le> v" "nat v < length (slots b)" for t v v'
  proof (rule set_valid_work [OF W])
    show "0 \<le> v'" "nat v' < length (slots (locked b))"
      using push_write_range [OF that(1) R] that by simp_all
  qed
  show ?thesis
  proof (cases s)
    case None
    with S u W A y show ?thesis
      by (auto simp: OMSbuff_write_def lock_locked Let_def n bind_eq_Some_conv data split: if_splits
          intro!: commit_y R Rv valid)
  next
    case (Some x)
    from A(3) [OF Some] obtain z ws where z: "x = int z" "ring b1 (z # ws)" by blast
    have cz: "ring_inv (OMSbuff_unlock (commit_slot q t m k (int z) (upd_slot p (\<lambda>x. x\<lparr>slot_data := g x\<rparr>) b1)))"
      for q t m k p g using A(2) z(2) by (intro commit [of _ z ws]) (simp_all add: data)
    from z Some S u W A y show ?thesis
      by (auto simp: OMSbuff_write_def lock_locked Let_def n bind_eq_Some_conv data split: if_splits
          intro!: cz commit_y R Rv valid)
  qed
qed

text \<open>A call that commits the slot \<open>OMSbuff_getslot\<close> hands out returns.\<close>

lemma commit_returns:
  assumes "ring_inv b"
  shows "\<exists>b'. OMSbuff_write e b sq ts mk (Slot_data (next_slot (slot_at b (write_pos (control b))))) sz = Some (b', ERR_NOERROR)"
proof -
  have W: "ring_work (locked b)" and u: "\<not> syn (control b)" using assms by (simp_all add: ring_inv_iff)
  then show ?thesis by (simp add: OMSbuff_write_def lock_locked Let_def)
qed

section \<open>Reachable buffers\<close>

lemma new_inv: "new_buffer b \<Longrightarrow> ring_inv b"
  using ring_new new_slots
  by (fastforce simp: new_buffer_def ring_inv_def local_unlocked_def ring_ok_iff)

lemma bp_step_inv: "bp_step b b' \<Longrightarrow> ring_inv b \<Longrightarrow> ring_inv b'"
proof (induction rule: bp_step.induct)
  case (ref b b' c)
  with ref_inv [of b] show ?case by auto
next
  case (unref e b c b')
  then show ?case by (rule unref_inv)
next
  case (getreader e b c b' c' n)
  with reader_inv(1) [of b e c] show ?case by auto
next
  case (gotreader e b c b' c' r)
  with reader_inv(2) [of b e c] show ?case by auto
next
  case (isempty e b c b' r)
  with reader_inv(3) [of b e c] show ?case by auto
next
  case (nextts e b c b' t)
  with reader_inv(4) [of b e c] show ?case by auto
next
  case (read e b c out b' c' out' r)
  with reader_inv(5) [of b e c out] show ?case by auto
next
  case (getslot e b b' s)
  with getslot_inv [of b e] show ?case by auto
next
  case (store e b sq ts mk d sz b' r)
  then show ?case by (blast intro: write_inv)
next
  case (fill b p bs)
  then show ?case by (auto simp: ring_inv_iff)
qed

interpretation bufpool: step_system new_buffer bp_step ring_inv
  by unfold_locales (simp_all add: new_inv bp_step_inv)

text \<open>C8: whatever the producer and any number of consumers do with a local buffer by calls that return, in whatever
  order and with whatever consumer positions, the slots stay one closed ring that contains the write position, the
  position for new consumers stays inside the array and the mutex is released; and in every such buffer
  the calls of a consumer (\<open>OMSbuff_ref\<close>, \<open>OMSbuff_getreader\<close>, \<open>OMSbuff_gotreader\<close>, \<open>OMSbuff_isempty\<close>, \<open>OMSbuff_nextts\<close>,
  \<open>OMSbuff_read\<close>), \<open>OMSbuff_getslot\<close> and the call of \<open>OMSbuff_write\<close> that commits the next slot return. The copying call of
  \<open>OMSbuff_write\<close> is not among them: it need not return (\<open>push_write_diverges\<close> below).\<close>

theorem buffer_ring_reachable:
  assumes "OMSbuff_new n = Some b0" and "rtranclp bp_step b0 b"
  shows "ring_inv b \<and> (\<exists>b' c. OMSbuff_ref b = Some (b', c)) \<and>
    (\<exists>b' c' s. OMSbuff_getreader e b c = Some (b', c', s)) \<and>
    (\<exists>b' c' r. OMSbuff_gotreader e b c = Some (b', c', r)) \<and>
    (\<exists>b' r. OMSbuff_isempty e b c = Some (b', r)) \<and>
    (\<exists>b' t. OMSbuff_nextts e b c = Some (b', t)) \<and>
    (\<exists>b' c' out' r. OMSbuff_read e b c out = Some (b', c', out', r)) \<and>
    (pages_ok e b \<longrightarrow> (\<exists>b' s. OMSbuff_getslot e b = Some (b', s))) \<and>
    (\<exists>b'. OMSbuff_write e b sq ts mk (Slot_data (next_slot (slot_at b (write_pos (control b))))) sz = Some (b', ERR_NOERROR))"
proof -
  have I: "ring_inv b" using assms by (intro bufpool.reachable_inv [of b0]) (auto simp: new_buffer_def)
  from ref_inv [OF I] have ref: "\<exists>b' c. OMSbuff_ref b = Some (b', c)" by blast
  from reader_inv(1) [OF I, of e c] have get: "\<exists>b' c' s. OMSbuff_getreader e b c = Some (b', c', s)" by blast
  from reader_inv(2) [OF I, of e c] have got: "\<exists>b' c' r. OMSbuff_gotreader e b c = Some (b', c', r)" by blast
  from reader_inv(3) [OF I, of e c] have empty: "\<exists>b' r. OMSbuff_isempty e b c = Some (b', r)" by blast
  from reader_inv(4) [OF I, of e c] have nextts: "\<exists>b' t. OMSbuff_nextts e b c = Some (b', t)" by blast
  from reader_inv(5) [OF I, of e c out] have read: "\<exists>b' c' out' r. OMSbuff_read e b c out = Some (b', c', out', r)" by blast
  from getslot_inv [OF I, of e] have slot: "pages_ok e b \<longrightarrow> (\<exists>b' s. OMSbuff_getslot e b = Some (b', s))" by blast
  show ?thesis using I ref get got empty nextts read slot commit_returns [OF I] by (intro conjI)
qed

theorem buffer_ring_reachable_witness:
  "\<exists>b0 b c. OMSbuff_new 2 = Some b0 \<and> rtranclp bp_step b0 b \<and> OMSbuff_ref b0 = Some (b, c) \<and>
     ring_inv b \<and> (\<exists>b' s. OMSbuff_getslot page_env b = Some (b', s))"
proof -
  obtain b0 where n: "OMSbuff_new 2 = Some b0" by (simp add: OMSbuff_new_def)
  obtain b c where r: "OMSbuff_ref b0 = Some (b, c)" by (rule ref_new [OF n])
  then have s: "rtranclp bp_step b0 b" by (blast intro: bp_step.ref)
  have "nslots (control b) = 2"
    using r new_slots(2,3) [OF n] new_slots(4) [OF n, of 0]
    by (auto simp: OMSbuff_ref_def lock_Some Let_def slot_at_def)
  then have "pages_ok page_env b" by (simp add: pages_ok_def)
  with buffer_ring_reachable [OF n s, of page_env] n r s show ?thesis by blast
qed

text \<open>Draining a single consumer: \<open>OMSbuff_unref\<close> returns and leaves no slot with a reference.\<close>

lemma drain_single:
  "local_unlocked b \<Longrightarrow> split_at b ys ps \<Longrightarrow> consumer_at b c ys ps \<Longrightarrow>
   \<exists>b'. drain e b c = Some b' \<and> pending b' = [] \<and> control b' = control b"
proof (induction ps arbitrary: b c ys)
  case Nil
  have "select_next b c = None" by (rule select_next_empty [OF Nil(2,3)])
  with Nil show ?case
    by (subst drain.simps) (simp add: gotreader_local local_unlocked_def split_at_pending)
next
  case (Cons p ps)
  have sel: "select_next b c = Some (int p)" by (rule select_next_pending [OF Cons.prems(2,3)])
  note next_state = read_split_at [OF Cons.prems(2,3)]
  from Cons.IH [OF _ next_state] Cons.prems(1) sel show ?case
    by (subst drain.simps) (simp add: gotreader_local local_unlocked_def)
qed

text \<open>A consumer whose buffer holds no uncommitted slot lets go of all of it.\<close>

lemma unref_drains:
  assumes "chan_inv (b, c)"
  shows "\<exists>b'. OMSbuff_unref e b c = Some b' \<and> pending b' = [] \<and> ctl_refs (control b') = 0 \<and> ring_inv b'"
proof -
  from assms obtain ys ps where S: "split_at b ys ps" and C: "consumer_at b c ys ps"
    and L: "local_unlocked b" and one: "ctl_refs (control b) = 1" by (auto simp: chan_inv_def)
  define b1 where "b1 = b\<lparr>control := (control b)\<lparr>ctl_refs := 0\<rparr>\<rparr>"
  have sq: "seq_at b1 = seq_at b" by (simp add: fun_eq_iff b1_def seq_at_def)
  have sl: "slots b1 = slots b" by (simp add: b1_def)
  have S1: "split_at b1 ys ps" using S by (simp add: split_at_def sq) (simp add: b1_def)
  have C1: "consumer_at b1 c ys ps" using C unfolding consumer_at_def sq sl .
  have L1: "local_unlocked b1" using L by (simp add: local_unlocked_def b1_def)
  from drain_single [OF L1 S1 C1, of e] obtain b' where
    d: "drain e b1 c = Some b'" "pending b' = []" "control b' = control b1" by blast
  have u: "OMSbuff_unref e b c = drain e b1 c"
    using L one by (cases "control b"; cases b)
      (simp add: OMSbuff_unref_def lock_Some local_unlocked_def b1_def OMSbuff_unlock_def)
  have "ring_inv b" using S L by (auto simp: ring_inv_def ring_ok_iff split_at_def)
  with unref_inv [of e b c b'] u d show ?thesis by (simp add: b1_def)
qed

lemma pending_none:
  assumes "ring_inv b" and "pending b = []"
  shows "\<forall>sl \<in> set (slots b). refs sl = 0"
proof
  fix sl assume "sl \<in> set (slots b)"
  then obtain i where i: "i < length (slots b)" "sl = slots b ! i" by (auto simp: in_set_conv_nth)
  from assms(1) have "ring b (ring_order b)" by (simp add: ring_inv_def ring_ok_def)
  then have "i \<in> set (ring_order b)" using ring_in_range i(1) by blast
  with assms(2) i(2) show "refs sl = 0" by (auto simp: pending_def filter_empty_conv)
qed

text \<open>C30: a session that closes lets go of its buffer: after any run of stores, each of which commits the slot it took, and of
  fetches on a new buffer with one consumer, the call by which this consumer unreferences the buffer returns, also when packets still
  wait, no slot keeps a reference, the reference count is zero and the ring is intact.\<close>

theorem unref_releases:
  assumes "OMSbuff_new n = Some b0" and "OMSbuff_ref b0 = Some (b, c)"
    and "\<And>e. e \<in> set (envs xs) \<Longrightarrow> fresh_page e"
    and "\<And>p. p \<in> set (puts xs) \<Longrightarrow> good_packet p"
    and "length (puts xs) \<le> (2 ^ 32 - 1 - unat n) div 9"
  shows "\<exists>b1 c1 outs b'. run_ops put_packet get_packet xs (b, c) = Some ((b1, c1), outs) \<and> OMSbuff_unref e b1 c1 = Some b' \<and>
    (\<forall>sl \<in> set (slots b'). refs sl = 0) \<and> ctl_refs (control b') = 0 \<and> ring_inv b'"
proof -
  from ref_new [OF assms(1)] assms(2) have "chan_inv (b, c)" "chan_queue (b, c) = []"
    "chan_room (b, c) = (2 ^ 32 - 1 - unat n) div 9" by (metis Pair_inject option.inject)+
  with omsbuff.run_fifo [of "(b, c)" xs] assms(3-5) obtain b1 c1 outs where
    r: "run_ops put_packet get_packet xs (b, c) = Some ((b1, c1), outs)" "chan_inv (b1, c1)" by auto
  from unref_drains [OF r(2), of e] obtain b' where
    u: "OMSbuff_unref e b1 c1 = Some b'" "pending b' = []" "ctl_refs (control b') = 0" "ring_inv b'" by blast
  from r(1) u(1,3,4) pending_none [OF u(4,2)] show ?thesis by blast
qed

text \<open>Two packets are stored, one is fetched, and the other still waits when the session closes.\<close>

theorem unref_releases_witness:
  "\<exists>b0 b c b1 c1 outs b'. OMSbuff_new 3 = Some b0 \<and> OMSbuff_ref b0 = Some (b, c) \<and>
     run_ops put_packet get_packet [Put page_env (sample_pkt 5), Put page_env (sample_pkt 6), Get page_env] (b, c) = Some ((b1, c1), outs) \<and>
     OMSbuff_unref page_env b1 c1 = Some b' \<and> (\<forall>sl \<in> set (slots b'). refs sl = 0) \<and> ctl_refs (control b') = 0"
proof -
  obtain b0 where n: "OMSbuff_new 3 = Some b0" by (simp add: OMSbuff_new_def)
  obtain b c where r: "OMSbuff_ref b0 = Some (b, c)" by (rule ref_new [OF n])
  from unref_releases [OF n r, of "[Put page_env (sample_pkt 5), Put page_env (sample_pkt 6), Get page_env]" page_env]
  show ?thesis using n r by fastforce
qed

section \<open>What the buffer does not protect against\<close>

text \<open>A run of stores into a buffer, with whatever consumers it has.\<close>

fun put_all :: "packet list \<Rightarrow> OMSBuffer \<Rightarrow> OMSBuffer option" where
  "put_all [] b = Some b"
| "put_all (p # ps) b =
     do {
       (b1, so) \<leftarrow> OMSbuff_getslot page_env b;
       s \<leftarrow> so;
       (b2, r) \<leftarrow> OMSbuff_write page_env (fill_slot s (pkt_bytes p) b1) 0 (pkt_ts p) (pkt_marker p)
                   (Slot_data s) (of_nat (length (pkt_bytes p)));
       if r = ERR_NOERROR then put_all ps b2 else None
     }"

definition two_consumer_run :: "(nat option list \<times> nat option list) option" where
  "two_consumer_run =
     do {
       b \<leftarrow> OMSbuff_new 2;
       (b, x) \<leftarrow> OMSbuff_ref b;
       (b, y) \<leftarrow> OMSbuff_ref b;
       b \<leftarrow> put_all (map sample_pkt [1, 2]) b;
       ((b, x), x1) \<leftarrow> get_packet page_env (b, x);
       ((b, x), x2) \<leftarrow> get_packet page_env (b, x);
       b \<leftarrow> put_all (map sample_pkt [3, 4, 5, 6, 7, 8, 9, 10, 11]) b;
       ((b, y), y1) \<leftarrow> get_packet page_env (b, y);
       ((b, y), y2) \<leftarrow> get_packet page_env (b, y);
       b \<leftarrow> put_all (map sample_pkt [12, 13, 14]) b;
       ((b, x), x3) \<leftarrow> get_packet page_env (b, x);
       Some (map (map_option (\<lambda>p. unat (pkt_ts p))) [x1, x2, x3], map (map_option (\<lambda>p. unat (pkt_ts p))) [y1, y2])
     }"

text \<open>With two consumers the channel contract fails: after fourteen stores into a buffer of two slots, and
  reads of both consumers, the consumer that has read packets 1 and 2 is given packet 12 next, not packet 3.\<close>

theorem second_consumer_breaks_order:
  "two_consumer_run = Some ([Some 1, Some 2, Some 12], [Some 1, Some 2])"
  by code_simp

definition uncommitted_run :: "(uint64 list \<times> int option \<times> uint64 \<times> uint16) option" where
  "uncommitted_run =
     do {
       b \<leftarrow> OMSbuff_new 2;
       (b, c) \<leftarrow> OMSbuff_ref b;
       b \<leftarrow> put_all (map sample_pkt [1, 2]) b;
       ((b, c), p) \<leftarrow> get_packet page_env (b, c);
       b \<leftarrow> put_all [sample_pkt 3] b;
       (b, s) \<leftarrow> OMSbuff_getslot page_env b;
       (b, c, n) \<leftarrow> OMSbuff_getreader page_env b c;
       (b2, c2, r) \<leftarrow> OMSbuff_gotreader page_env b c;
       n' \<leftarrow> n;
       Some (map slot_seq (take 3 (slots b)), n, slot_seq (slot_at b n'), refs (slot_at b2 n'))
     }"

text \<open>A slot that was handed out on a new page but not committed (the media file ended) is offered to
  the reader although it was never written (sequence number 0), and its reference count wraps around to 65535
  when the reader takes it.\<close>

theorem uncommitted_slot_is_read:
  "uncommitted_run = Some ([3, 2, 0], Some 2, 0, 65535)"
  by code_simp

text \<open>C33: when the shared memory of a buffer cannot be remapped \<open>OMSbuff_write\<close> reports an allocation error
  and leaves the mutex locked: no later call on the buffer that takes the mutex, of the producer or of a consumer, ever returns, and
  that is every operation on a buffer in use.\<close>

theorem failed_refresh_leaves_locked:
  assumes "\<not> syn (control b)" "buf_type b = buff_shm" "known_slots b \<noteq> nslots (control b)"
    and "OMSbuff_shm_remap e (b\<lparr>control := (control b)\<lparr>syn := True\<rparr>\<rparr>) = (b1, 1)"
  shows "OMSbuff_write e b sq ts mk d sz = Some (b1, ERR_ALLOC) \<and>
    OMSbuff_write e' b1 sq' ts' mk' d' sz' = None \<and> OMSbuff_getslot e' b1 = None \<and>
    OMSbuff_ref b1 = None \<and> OMSbuff_unref e' b1 c = None \<and>
    OMSbuff_getreader e' b1 c = None \<and> OMSbuff_gotreader e' b1 c = None \<and>
    OMSbuff_isempty e' b1 c = None \<and> OMSbuff_nextts e' b1 c = None \<and> OMSbuff_read e' b1 c out = None"
proof -
  have "b1 = b\<lparr>control := (control b)\<lparr>syn := True\<rparr>\<rparr>"
    using assms(4) by (auto simp: OMSbuff_shm_remap_def split: if_splits option.splits)
  then have locked: "OMSbuff_lock b1 = None" by (simp add: OMSbuff_lock_def)
  have "OMSbuff_write e b sq ts mk d sz = Some (b1, ERR_ALLOC)"
    using assms by (simp add: OMSbuff_write_def lock_Some OMSbuff_shm_refresh_def Let_def)
  then show ?thesis using locked
    by (simp add: OMSbuff_write_def [of e'] OMSbuff_getslot_def OMSbuff_getreader_def OMSbuff_gotreader_def OMSbuff_ref_def
        OMSbuff_unref_def OMSbuff_isempty_def OMSbuff_nextts_def OMSbuff_read_def Let_def)
qed

theorem failed_refresh_leaves_locked_witness:
  "\<exists>b b1 c. OMSbuff_write (page_env\<lparr>env_open := False\<rparr>) b 0 0 0 (Caller_data []) 0 = Some (b1, ERR_ALLOC) \<and>
     OMSbuff_getreader page_env b1 c = None"
proof -
  define b where "b = (case OMSbuff_new 2 of Some b \<Rightarrow> b\<lparr>buf_type := buff_shm, known_slots := 1\<rparr>)"
  have "\<not> syn (control b)" "buf_type b = buff_shm" "known_slots b \<noteq> nslots (control b)"
    "OMSbuff_shm_remap (page_env\<lparr>env_open := False\<rparr>) (b\<lparr>control := (control b)\<lparr>syn := True\<rparr>\<rparr>) =
      (b\<lparr>control := (control b)\<lparr>syn := True\<rparr>\<rparr>, 1)"
    by (simp_all add: b_def OMSbuff_new_def Let_def OMSbuff_shm_remap_def page_env_def)
  from failed_refresh_leaves_locked [OF this, of 0 0 0 "Caller_data []" 0 page_env] show ?thesis by blast
qed

text \<open>The copying branch looks for a slot with another time stamp, or one that was never written.\<close>

lemma push_write_diverges:
  assumes R: "ring b xs"
    and eq: "\<And>i. i < length (slots b) \<Longrightarrow> timestamp (slots b ! i) = ts \<and> slot_seq (slots b ! i) \<noteq> 0"
    and v: "0 \<le> v" "nat v < length (slots b)"
  shows "push_write b ts v = None"
proof (rule ccontr)
  assume "push_write b ts v \<noteq> None"
  then obtain v' where "push_write b ts v = Some v'" by blast
  then have "b = b \<longrightarrow> ts = ts \<longrightarrow> 0 \<le> v \<and> nat v < length (slots b) \<longrightarrow> False"
  proof (rule push_write.raw_induct [rotated, of _ _ _ _
      "\<lambda>c t v v'. c = b \<longrightarrow> t = ts \<longrightarrow> 0 \<le> v \<and> nat v < length (slots b) \<longrightarrow> False"], goal_cases)
    case (1 push_write c t v v')
    show ?case
    proof (intro impI)
      assume c: "c = b" and t: "t = ts" and v: "0 \<le> v \<and> nat v < length (slots b)"
      let ?n = "next_slot (slot_at b v)"
      from ring_next_range [OF R] v have n: "0 \<le> ?n \<and> nat ?n < length (slots b)" by blast
      have "slot_seq (slot_at b ?n) \<noteq> 0" "timestamp (slot_at b v) = ts"
        using eq n v by (simp_all add: slot_at_def)
      with 1(2) c t have "push_write b ts ?n = Some v'" by simp
      with 1(1) n show False by blast
    qed
  qed
  with v show False by simp
qed

text \<open>C34: when every slot was written with one time stamp and the slot to overwrite is the first one offered to
  new consumers, the copying branch of \<open>OMSbuff_write\<close> does not return: it searches the ring for another
  time stamp for ever, with the mutex held.\<close>

theorem equal_timestamps_block_write:
  assumes "ring_inv b" "\<forall>s \<in> set (slots b). timestamp s = ts \<and> slot_seq s \<noteq> 0"
    and "valid_read_pos (control b) = next_slot (slot_at b (write_pos (control b)))"
    and "refs (slot_at b (valid_read_pos (control b))) = 0"
  shows "OMSbuff_write e b sq ts' mk (Caller_data bs) sz = None"
proof -
  let ?v = "valid_read_pos (control b)"
  have W: "ring_work (locked b)" and u: "\<not> syn (control b)" using assms(1) by (simp_all add: ring_inv_iff)
  from W obtain xs where R: "ring (locked b) xs" by (auto simp: ring_work_def ring_ok_iff)
  have all: "timestamp (slots b ! i) = ts \<and> slot_seq (slots b ! i) \<noteq> 0" if "i < length (slots b)" for i
    using assms(2) that by auto
  have v: "0 \<le> ?v" "nat ?v < length (slots b)" using W by (simp_all add: ring_work_def)
  have "push_write (locked b) ts ?v = None" by (rule push_write_diverges [OF R]) (use all v in auto)
  then show ?thesis using assms(3,4) all [OF v(2)] u W
    by (simp add: OMSbuff_write_def lock_locked Let_def slot_at_def)
qed

text \<open>Two packets with time stamp 7, written without a consumer, fill a buffer of two slots.\<close>

definition same_stamp_buffer :: OMSBuffer where
  "same_stamp_buffer = the (do {
     b \<leftarrow> OMSbuff_new 2;
     (b, _) \<leftarrow> OMSbuff_write page_env b 0 7 0 (Caller_data [1]) 1;
     (b, _) \<leftarrow> OMSbuff_write page_env b 0 7 0 (Caller_data [2]) 1;
     Some b })"

theorem equal_timestamps_block_write_witness:
  "OMSbuff_write page_env same_stamp_buffer 0 7 0 (Caller_data [3]) 1 = None"
proof (rule equal_timestamps_block_write [where ts = 7])
  show "ring_inv same_stamp_buffer"
    by code_simp
  show "\<forall>s \<in> set (slots same_stamp_buffer). timestamp s = 7 \<and> slot_seq s \<noteq> 0" by code_simp
  show "valid_read_pos (control same_stamp_buffer) =
      next_slot (slot_at same_stamp_buffer (write_pos (control same_stamp_buffer)))" by code_simp
  show "refs (slot_at same_stamp_buffer (valid_read_pos (control same_stamp_buffer))) = 0" by code_simp
qed

end
