(* ===== verification/Media_Types.thy ===== *)
theory Media_Types
  imports Bufferpool_Safety
begin

text \<open>
  The data model of \<^verbatim>\<open>include/fenice/mediainfo.h\<close>: the description of one media stream
  (\<open>media_entry\<close>, whose nested anonymous structure is \<open>media_descr\<close>) and of one presentation
  (\<open>SD_descr\<close>). A media entry is polymorphic in the private state of its reader, the \<open>void *stat\<close>
  of the code. Flag fields are 32-bit words, the flags their single bits. A string is its
  characters up to the terminating NUL; a null pointer is \<open>None\<close>.
\<close>

section \<open>Enumerations and flags\<close>

datatype description_format = df_SDP_format
datatype media_source = stored | live
datatype media_type = audio | video | application | data | control_media
datatype media_file_type = FILE_NONE | FILE_MP3 | FILE_MPEG | FILE_H264
datatype media_coding = undefined_coding | frame | sample

text \<open>The bytes of the array that takes the description of a presentation.\<close>

definition MAX_DESCR_LENGTH :: nat where "MAX_DESCR_LENGTH = 4096"

definition ME_FILENAME :: uint32 where "ME_FILENAME = 1"
definition ME_DESCR_FORMAT :: uint32 where "ME_DESCR_FORMAT = 4"
definition ME_AGGREGATE :: uint32 where "ME_AGGREGATE = 8"
definition ME_RESERVED :: uint32 where "ME_RESERVED = 16"
definition ME_FD :: uint32 where "ME_FD = 32"

definition SD_FL_TWIN :: uint32 where "SD_FL_TWIN = 1"
definition SD_FL_MULTICAST :: uint32 where "SD_FL_MULTICAST = 2"
definition SD_FL_MULTICAST_PORT :: uint32 where "SD_FL_MULTICAST_PORT = 4"

definition MED_MTYPE :: uint32 where "MED_MTYPE = 1"
definition MED_MSOURCE :: uint32 where "MED_MSOURCE = 2"
definition MED_PAYLOAD_TYPE :: uint32 where "MED_PAYLOAD_TYPE = 4"
definition MED_CLOCK_RATE :: uint32 where "MED_CLOCK_RATE = 8"
definition MED_ENCODING_NAME :: uint32 where "MED_ENCODING_NAME = 16"
definition MED_AUDIO_CHANNELS :: uint32 where "MED_AUDIO_CHANNELS = 32"
definition MED_SAMPLE_RATE :: uint32 where "MED_SAMPLE_RATE = 64"
definition MED_BIT_PER_SAMPLE :: uint32 where "MED_BIT_PER_SAMPLE = 128"
definition MED_CODING_TYPE :: uint32 where "MED_CODING_TYPE = 256"
definition MED_FRAME_LEN :: uint32 where "MED_FRAME_LEN = 512"
definition MED_BITRATE :: uint32 where "MED_BITRATE = 1024"
definition MED_PKT_LEN :: uint32 where "MED_PKT_LEN = 2048"
definition MED_PRIORITY :: uint32 where "MED_PRIORITY = 4096"
definition MED_TYPE :: uint32 where "MED_TYPE = 8192"
definition MED_FRAME_RATE :: uint32 where "MED_FRAME_RATE = 16384"
definition MED_BYTE_PER_PCKT :: uint32 where "MED_BYTE_PER_PCKT = 32768"
definition MED_LICENSE :: uint32 where "MED_LICENSE = 65536"
definition MED_RDF_PAGE :: uint32 where "MED_RDF_PAGE = 131072"
definition MED_TITLE :: uint32 where "MED_TITLE = 262144"
definition MED_CREATOR :: uint32 where "MED_CREATOR = 524288"
definition MED_ID3 :: uint32 where "MED_ID3 = 1048576"
definition MED_FORCE_FRAME_RATE :: uint32 where "MED_FORCE_FRAME_RATE = 2097152"

lemmas me_flag_defs = ME_FILENAME_def ME_DESCR_FORMAT_def ME_AGGREGATE_def ME_RESERVED_def ME_FD_def
lemmas sd_flag_defs = SD_FL_TWIN_def SD_FL_MULTICAST_def SD_FL_MULTICAST_PORT_def
lemmas med_flag_defs = MED_MTYPE_def MED_MSOURCE_def MED_PAYLOAD_TYPE_def MED_CLOCK_RATE_def
  MED_ENCODING_NAME_def MED_AUDIO_CHANNELS_def MED_SAMPLE_RATE_def MED_BIT_PER_SAMPLE_def
  MED_CODING_TYPE_def MED_FRAME_LEN_def MED_BITRATE_def MED_PKT_LEN_def MED_PRIORITY_def MED_TYPE_def
  MED_FRAME_RATE_def MED_BYTE_PER_PCKT_def MED_LICENSE_def MED_RDF_PAGE_def MED_TITLE_def
  MED_CREATOR_def MED_ID3_def MED_FORCE_FRAME_RATE_def

text \<open>The C tests and updates \<open>fl & F\<close>, \<open>fl |= F\<close> and \<open>fl &= ~F\<close>.\<close>

definition has_flag :: "uint32 \<Rightarrow> uint32 \<Rightarrow> bool" where
  "has_flag fl f \<longleftrightarrow> and fl f \<noteq> 0"

definition set_flag :: "uint32 \<Rightarrow> uint32 \<Rightarrow> uint32" where
  "set_flag fl f = or fl f"

definition clear_flag :: "uint32 \<Rightarrow> uint32 \<Rightarrow> uint32" where
  "clear_flag fl f = and fl (not f)"

lemma has_set_flag [simp]: "f \<noteq> 0 \<Longrightarrow> has_flag (set_flag fl f) f"
  by (simp add: has_flag_def set_flag_def bit.conj_disj_distrib2)

lemma has_clear_flag [simp]: "\<not> has_flag (clear_flag fl f) f"
  by (auto simp: has_flag_def clear_flag_def bit_eq_iff bit_simps)

lemma has_flag_zero [simp]: "\<not> has_flag 0 f"
  by (simp add: has_flag_def)

section \<open>Descriptions\<close>

record media_descr =
  commons_dead :: string
  rdf_page :: string
  title :: string
  author :: string
  tag_dim :: int
  d_flags :: uint32
  msource :: media_source
  mtype :: media_type
  ftype :: media_file_type
  payload_type :: int
  clock_rate :: int
  sample_rate :: int
  audio_channels :: int
  bit_per_sample :: int
  encoding_name :: string
  coding_type :: media_coding
  frame_len :: int
  bitrate :: int
  priority :: int
  pkt_len :: cdouble
  delta_mtime :: cdouble
  frame_rate :: int
  byte_per_pckt :: int

record 'st media_entry =
  me_flags :: uint32
  fd :: int
  media_stat :: "'st option"
  media_handler :: "media_file_type option"
  data_chunk :: uint32
  buff_data :: "uint8 list"
  buff_size :: uint32
  pkt_buffer :: "OMSBuffer option"
  mtime :: cdouble
  mstart :: cdouble
  mstart_offset :: cdouble
  h264_time :: cdouble
  play_offset :: cdouble
  prev_mstart_offset :: cdouble
  rtp_multicast_port :: int
  reserved :: int
  me_filename :: string
  aggregate :: string
  descr_format :: description_format
  description :: media_descr

record 'st SD_descr =
  sd_filename :: string
  me_list :: "'st media_entry list"
  last_change :: int
  sd_flags :: uint32
  multicast :: string
  ttl :: string
  twin :: string

text \<open>A structure cleared by \<open>memset\<close> or \<open>calloc\<close>.\<close>

definition zero_descr :: media_descr where
  "zero_descr = \<lparr>commons_dead = [], rdf_page = [], title = [], author = [], tag_dim = 0, d_flags = 0,
     msource = stored, mtype = audio, ftype = FILE_NONE, payload_type = 0, clock_rate = 0, sample_rate = 0,
     audio_channels = 0, bit_per_sample = 0, encoding_name = [], coding_type = frame, frame_len = 0,
     bitrate = 0, priority = 0, pkt_len = 0, delta_mtime = 0, frame_rate = 0, byte_per_pckt = 0\<rparr>"

definition zero_media :: "'st media_entry" where
  "zero_media = \<lparr>me_flags = 0, fd = 0, media_stat = None, media_handler = None, data_chunk = 0,
     buff_data = replicate 10 0, buff_size = 0, pkt_buffer = None, mtime = 0, mstart = 0, mstart_offset = 0,
     h264_time = 0, play_offset = 0, prev_mstart_offset = 0, rtp_multicast_port = 0, reserved = 0,
     me_filename = [], aggregate = [], descr_format = df_SDP_format, description = zero_descr\<rparr>"

definition zero_SD_descr :: "'st SD_descr" where
  "zero_SD_descr = \<lparr>sd_filename = [], me_list = [], last_change = 0, sd_flags = 0, multicast = [],
     ttl = [], twin = []\<rparr>"

abbreviation med_flag :: "'st media_entry \<Rightarrow> uint32 \<Rightarrow> bool" where
  "med_flag me f \<equiv> has_flag (d_flags (description me)) f"

section \<open>Opening and reading a medium\<close>

text \<open>What the file system answers: the descriptor \<open>open\<close> returns for a path (with or without
  \<open>O_NONBLOCK\<close>), and whether a path names a FIFO.\<close>

record os_files =
  os_open :: "string \<Rightarrow> bool \<Rightarrow> int"
  os_isfifo :: "string \<Rightarrow> bool"

definition media_path :: "string \<Rightarrow> string \<Rightarrow> string" where
  "media_path rootdir name = take 254 (rootdir @ (if rootdir \<noteq> [] \<and> last rootdir = CHR ''/'' then [] else ''/'') @ name)"

definition mediaopen :: "string \<Rightarrow> os_files \<Rightarrow> 'st media_entry \<Rightarrow> 'st media_entry \<times> int" where
  "mediaopen rootdir os me =
    (if \<not> has_flag (me_flags me) ME_FILENAME then (me, ERR_INPUT_PARAM)
     else
       (let thefile = media_path rootdir (me_filename me);
            nonblock = (msource (description me) = live \<and> os_isfifo os thefile);
            d = os_open os thefile nonblock;
            me1 = me\<lparr>fd := d\<rparr>
        in if d = - 1 then (me1, ERR_NOT_FOUND)
           else (me1\<lparr>me_flags := set_flag (me_flags me) ME_FD\<rparr>, d)))"

text \<open>\<open>mediaclose\<close> also frees the reader's state; \<open>close_ret\<close> is what \<open>close\<close> returns.\<close>

definition mediaclose :: "int \<Rightarrow> 'st media_entry \<Rightarrow> 'st media_entry \<times> int" where
  "mediaclose close_ret me =
     (me\<lparr>fd := - 1, me_flags := clear_flag (me_flags me) ME_FD, buff_size := 0, media_stat := None\<rparr>,
      (if 0 < fd me then close_ret else 0))"

text \<open>The outcome of one call of a reader (\<open>media_fn.read_media\<close>): the entry, the result, the data it
  left in the slot (\<open>None\<close> when it did not touch the slot's size), the time stamp, the request to be
  called again and the marker.\<close>

record 'st read_result =
  rd_me :: "'st media_entry"
  rd_res :: int
  rd_data :: "uint8 list option"
  rd_mtime :: cdouble
  rd_recall :: bool
  rd_marker :: uint8

section \<open>Time conversions\<close>

text \<open>C truncates towards zero when a \<open>double\<close> becomes an integer.\<close>

definition c_trunc :: "cdouble \<Rightarrow> int" where
  "c_trunc x = (if 0 \<le> x then \<lfloor>x\<rfloor> else \<lceil>x\<rceil>)"

definition msec2tick :: "cdouble \<Rightarrow> 'st media_entry \<Rightarrow> int" where
  "msec2tick t me = (if med_flag me MED_CLOCK_RATE
     then c_trunc (real_of_int (clock_rate (description me)) * t / 1000) else ERR_GENERIC)"

definition tick2msec :: "uint64 \<Rightarrow> 'st media_entry \<Rightarrow> cdouble" where
  "tick2msec rtp_time me = (if med_flag me MED_CLOCK_RATE
     then real (unat (rtp_time * 1000 div word_of_int (clock_rate (description me))))
     else real_of_int ERR_GENERIC)"

lemma c_trunc_of_int [simp]: "c_trunc (real_of_int i) = i"
  by (simp add: c_trunc_def)

text \<open>Converting ticks to milliseconds and back loses less than one millisecond's worth of ticks.\<close>

lemma unat_word_of_int_small:
  assumes "0 \<le> r" "r < 2 ^ 31"
  shows "unat (word_of_int r :: 64 word) = nat r"
proof -
  have "uint (word_of_int r :: 64 word) = r" using assms by (simp add: uint_word_of_int take_bit_int_eq_self)
  then show ?thesis by (metis nat_uint_eq)
qed

lemma int_div_bounds:
  fixes r x :: int
  assumes "0 < r"
  shows "r * (x div r) \<le> x" "x < r * (x div r) + r"
  using assms pos_mod_sign [OF assms, of x] pos_mod_bound [OF assms, of x] minus_div_mult_eq_mod [of x r]
  by (simp_all add: mult.commute)

lemma tick2msec_div:
  assumes "med_flag me MED_CLOCK_RATE" and r: "0 < clock_rate (description me)"
    and "clock_rate (description me) < 2 ^ 31" and "unat w * 1000 < 2 ^ 64"
  shows "tick2msec w me = real_of_int (int (unat w * 1000) div clock_rate (description me))"
proof -
  let ?r = "clock_rate (description me)"
  have "unat (w * 1000) = unat w * 1000"
    using assms(4) unat_mult_lem [of w "1000 :: uint64"] by simp
  moreover have "unat (word_of_int ?r :: uint64) = nat ?r"
    using assms(2,3) by (intro unat_word_of_int_small) simp_all
  ultimately have "unat (w * 1000 div word_of_int ?r) = unat w * 1000 div nat ?r"
    by (simp only: unat_div_distrib)
  moreover have "int (unat w * 1000 div nat ?r) = int (unat w * 1000) div ?r"
    using r by (simp add: zdiv_int)
  ultimately show ?thesis using assms(1) unfolding tick2msec_def by (metis of_int_of_nat_eq)
qed

lemma msec2tick_tick2msec:
  assumes fl: "med_flag me MED_CLOCK_RATE" and r: "0 < clock_rate (description me)"
    and b: "clock_rate (description me) < 2 ^ 31" "unat w * 1000 < 2 ^ 64"
  shows "msec2tick (tick2msec w me) me \<le> int (unat w)"
    and "int (unat w) < msec2tick (tick2msec w me) me + clock_rate (description me) div 1000 + 2"
proof -
  let ?r = "clock_rate (description me)" and ?n = "int (unat w)"
  let ?q = "int (unat w * 1000) div ?r"
  have q: "0 \<le> ?q" using r by (simp add: pos_imp_zdiv_nonneg_iff)
  have eq: "msec2tick (tick2msec w me) me = (?r * ?q) div 1000"
  proof -
    have "real_of_int ?r * real_of_int ?q / 1000 = real_of_int (?r * ?q) / real_of_int 1000" by simp
    then have "\<lfloor>real_of_int ?r * real_of_int ?q / 1000\<rfloor> = (?r * ?q) div 1000"
      by (simp only: floor_divide_of_int_eq)
    moreover have "0 \<le> real_of_int ?r * real_of_int ?q / 1000"
      using r q by (intro divide_nonneg_nonneg mult_nonneg_nonneg) simp_all
    ultimately show ?thesis using fl unfolding tick2msec_div [OF fl r b] by (simp add: msec2tick_def c_trunc_def)
  qed
  have qr: "?r * ?q \<le> 1000 * ?n" "1000 * ?n < ?r * ?q + ?r"
    using int_div_bounds [OF r, of "int (unat w * 1000)"] by (simp_all add: mult.commute)
  show "msec2tick (tick2msec w me) me \<le> ?n"
    unfolding eq using qr(1) by linarith
  show "?n < msec2tick (tick2msec w me) me + ?r div 1000 + 2"
    unfolding eq using qr(2) by linarith
qed

end
