(* ===== verification/H264.thy ===== *)
theory H264
  imports Media_Types "HOL-Library.Sublist"
begin

text \<open>
  The H.264 reader of \<^verbatim>\<open>mediainfo/read_h264.c\<close> with the structures of
  \<^verbatim>\<open>include/fenice/itu_h264.h\<close>: it cuts the byte stream of an Annex B file into NAL units and sends a unit
  whole or, when its payload is larger than 1400 bytes, as a sequence of FU-A fragments. The C
  stream is its bytes, the position and the end-of-file indicator. The array into which a unit is read and the block
  that keeps its payload have \<open>MAX_FRAME_ZISE\<close> bytes, and neither bound is tested: a byte written behind one of them is
  \<open>None\<close>, like a copy of a negative length, which the C code turns into a huge one.
\<close>

section \<open>Data\<close>

definition UDP_MAX_SIZE :: nat where "UDP_MAX_SIZE = 1400"
definition MAX_FRAME_ZISE :: nat where "MAX_FRAME_ZISE = 100000"
definition TYPE_FU_A :: uint8 where "TYPE_FU_A = 28"
definition H264_SHARDING_PACKET :: uint32 where "H264_SHARDING_PACKET = 1"
definition H264_NOT_SHARDING :: uint32 where "H264_NOT_SHARDING = 0"

record c_file =
  f_bytes :: "uint8 list"
  f_pos :: nat
  f_eof :: bool

text \<open>\<open>nalu_buf\<close> are the bytes of the block from its beginning, of which the block has \<open>max_size\<close>.\<close>

record NALU_t =
  nalu_len :: nat
  max_size :: nat
  forbidden_bit :: uint8
  nal_reference_idc :: uint8
  nal_unit_type :: uint8
  nalu_buf :: "uint8 list"

record static_h264 =
  sharding_packet :: uint32
  nalu :: NALU_t
  packet_num :: nat
  last_packet_byte :: nat
  current_packet :: nat
  h264_file :: c_file

text \<open>Standard input: reading bytes sets the indicator when the end is met, seeking clears it. \<open>EOF\<close>
  stored into a \<open>char\<close> is 255.\<close>

definition c_fread :: "nat \<Rightarrow> c_file \<Rightarrow> uint8 list \<times> c_file" where
  "c_fread n f =
     (let got = take n (drop (f_pos f) (f_bytes f))
      in (got, f\<lparr>f_pos := f_pos f + length got, f_eof := f_eof f \<or> length got < n\<rparr>))"

definition c_fgetc :: "c_file \<Rightarrow> uint8 \<times> c_file" where
  "c_fgetc f = (if f_pos f < length (f_bytes f)
     then (f_bytes f ! f_pos f, f\<lparr>f_pos := Suc (f_pos f)\<rparr>)
     else (255, f\<lparr>f_eof := True\<rparr>))"

definition c_seek :: "nat \<Rightarrow> c_file \<Rightarrow> c_file" where
  "c_seek p f = f\<lparr>f_pos := p, f_eof := False\<rparr>"

section \<open>Cutting the stream into units\<close>

definition is_start_code_3bit :: "uint8 list \<Rightarrow> bool" where
  "is_start_code_3bit d = (if d ! 0 \<noteq> 0 \<or> d ! 1 \<noteq> 0 \<or> d ! 2 \<noteq> 1 then False else True)"

definition is_start_code_4bit :: "uint8 list \<Rightarrow> bool" where
  "is_start_code_4bit d = (if d ! 0 \<noteq> 0 \<or> d ! 1 \<noteq> 0 \<or> d ! 2 \<noteq> 0 \<or> d ! 3 \<noteq> 1 then False else True)"

text \<open>The unit made of the bytes of \<open>buff\<close> behind a start code of \<open>scl\<close> bytes, \<open>l\<close> bytes after the
  header byte; they are copied into a block of \<open>MAX_FRAME_ZISE\<close> bytes.\<close>

definition set_nalu :: "uint8 list \<Rightarrow> nat \<Rightarrow> nat \<Rightarrow> NALU_t \<Rightarrow> NALU_t option" where
  "set_nalu buff scl l n =
     (if MAX_FRAME_ZISE < l then None
      else Some (n\<lparr>forbidden_bit := and (buff ! scl) 0x80, nal_reference_idc := and (buff ! scl) 0x60,
       nal_unit_type := and (buff ! scl) 0x1F, nalu_len := l,
       nalu_buf := memcpy (nalu_buf n) (drop (scl + 1) buff) l\<rparr>))"

text \<open>The loop that looks for the next start code. At the end of the file it seeks to the beginning and goes
  on. The result is the stream, the buffer and the length of the code it found; \<open>buff[pos++]\<close> behind the array is no
  result.\<close>

partial_function (option) scan_nalu ::
    "c_file \<Rightarrow> uint8 list \<Rightarrow> nat \<Rightarrow> NALU_t \<Rightarrow> (c_file \<times> uint8 list \<times> nat \<times> NALU_t) option" where
  "scan_nalu f buff scl n =
    do {
      n1 \<leftarrow> (if f_eof f then set_nalu buff scl (length buff - scl - 1) n else Some n);
      let f1 = (if f_eof f then c_seek 0 f else f);
      let (c, f2) = c_fgetc f1;
      let buff' = buff @ [c];
      if MAX_FRAME_ZISE < length buff' then None
      else if is_start_code_4bit (drop (length buff' - 4) buff') then Some (f2, buff', 4, n1)
      else if is_start_code_3bit (drop (length buff' - 3) buff') then Some (f2, buff', 3, n1)
      else scan_nalu f2 buff' scl n1
    }"

declare scan_nalu.simps [code]

definition get_one_NALU_payload :: "c_file \<Rightarrow> NALU_t \<Rightarrow> (c_file \<times> NALU_t \<times> int) option" where
  "get_one_NALU_payload f n =
    (let (b, f1) = c_fread 3 f
     in if length b \<noteq> 3 then Some (f1, n, ERR_EOF)
        else
          (let start =
             (if is_start_code_3bit b then Inr (b, f1)
              else (let (c, f2) = c_fread 1 f1
                    in if length c \<noteq> 1 then Inl (f2, n, ERR_EOF)
                       else if is_start_code_4bit (b @ c) then Inr (b @ c, f2)
                       else Inl (f2, n, ERR_NOT_FOUND)))
           in case start of
                Inl r \<Rightarrow> Some r
              | Inr (buff, f3) \<Rightarrow>
                  (let scl = length buff
                   in do {
                        (f4, buff', rewind, n1) \<leftarrow> scan_nalu f3 buff scl n;
                        if length buff' < scl + rewind + 1 then None
                        else do {
                          n2 \<leftarrow> set_nalu buff' scl (length buff' - scl - rewind - 1) n1;
                          Some (c_seek (f_pos f4 - rewind) f4, n2, ERR_NOERROR)
                        }
                      })))"

section \<open>Reading a packet\<close>

text \<open>The bit fields of \<open>FU_indicator\<close> and \<open>FU_header\<close>; an assignment keeps the low bits of the value.\<close>

definition FU_indicator :: "uint8 \<Rightarrow> uint8 \<Rightarrow> uint8 \<Rightarrow> uint8" where
  "FU_indicator fb nri ty = or (push_bit 7 (and fb 1)) (or (push_bit 5 (and nri 3)) (and ty 0x1F))"

definition FU_header :: "uint8 \<Rightarrow> uint8 \<Rightarrow> uint8 \<Rightarrow> uint8 \<Rightarrow> uint8" where
  "FU_header s e r ty = or (push_bit 7 (and s 1)) (or (push_bit 6 (and e 1)) (or (push_bit 5 (and r 1)) (and ty 0x1F)))"

text \<open>\<open>malloc\<close> leaves the members arbitrary (\<open>raw\<close>); only the stream and the unit's block are set, whose
  \<open>MAX_FRAME_ZISE\<close> bytes are arbitrary as well.\<close>

definition init_static_h264 :: "static_h264 \<Rightarrow> uint8 list \<Rightarrow> static_h264" where
  "init_static_h264 raw bytes =
     raw\<lparr>h264_file := \<lparr>f_bytes = bytes, f_pos = 0, f_eof = False\<rparr>,
         nalu := (nalu raw)\<lparr>max_size := MAX_FRAME_ZISE, nalu_buf := take MAX_FRAME_ZISE (nalu_buf (nalu raw))\<rparr>\<rparr>"

definition start_unit :: "static_h264 media_entry \<Rightarrow> static_h264 \<Rightarrow> cdouble \<Rightarrow> bool \<Rightarrow> static_h264 read_result option" where
  "start_unit me s mt rc =
    do {
      (f, n, r) \<leftarrow> get_one_NALU_payload (h264_file s) (nalu s);
      let s1 = s\<lparr>h264_file := f, nalu := n\<rparr>;
      let fail = \<lparr>rd_me = me\<lparr>media_stat := Some s1\<rparr>, rd_res = ERR_EOF, rd_data = None, rd_mtime = mt,
                  rd_recall = rc, rd_marker = 1\<rparr>;
      if r \<noteq> ERR_NOERROR then Some fail
      else if nalu_len n = 0 then Some fail
      else
        (let t = h264_time me + 1000 / real_of_int (frame_rate (description me));
             nri = drop_bit 5 (nal_reference_idc n)
         in if nalu_len n \<le> UDP_MAX_SIZE
            then Some \<lparr>rd_me = me\<lparr>h264_time := t,
                          media_stat := Some (s1\<lparr>sharding_packet := H264_NOT_SHARDING\<rparr>)\<rparr>,
                       rd_res = ERR_NOERROR,
                       rd_data = Some (FU_indicator (forbidden_bit n) nri (nal_unit_type n)
                                       # take (nalu_len n) (nalu_buf n)),
                       rd_mtime = t, rd_recall = False, rd_marker = 1\<rparr>
            else Some \<lparr>rd_me = me\<lparr>h264_time := t,
                          media_stat := Some (s1\<lparr>sharding_packet := H264_SHARDING_PACKET,
                             packet_num := nalu_len n div UDP_MAX_SIZE,
                             last_packet_byte := nalu_len n mod UDP_MAX_SIZE,
                             current_packet := 0 + 1\<rparr>)\<rparr>,
                       rd_res = ERR_NOERROR,
                       rd_data = Some (FU_indicator (forbidden_bit n) nri TYPE_FU_A
                                       # FU_header 1 0 0 (nal_unit_type n)
                                       # take UDP_MAX_SIZE (nalu_buf n)),
                       rd_mtime = t, rd_recall = True, rd_marker = 0\<rparr>)
    }"

definition next_fragment :: "static_h264 media_entry \<Rightarrow> static_h264 \<Rightarrow> cdouble \<Rightarrow> bool \<Rightarrow> static_h264 read_result" where
  "next_fragment me s mt rc =
    (let n = nalu s;
         ind = FU_indicator (forbidden_bit n) (drop_bit 5 (nal_reference_idc n)) TYPE_FU_A
     in if current_packet s < packet_num s
        then \<lparr>rd_me = me\<lparr>media_stat := Some (s\<lparr>current_packet := current_packet s + 1\<rparr>)\<rparr>,
              rd_res = ERR_NOERROR,
              rd_data = Some (ind # FU_header 0 0 0 (nal_unit_type n)
                              # take UDP_MAX_SIZE (drop (current_packet s * 1400) (nalu_buf n))),
              rd_mtime = h264_time me, rd_recall = True, rd_marker = 0\<rparr>
        else if current_packet s = packet_num s
        then \<lparr>rd_me = me\<lparr>media_stat := Some (s\<lparr>sharding_packet := H264_NOT_SHARDING\<rparr>)\<rparr>,
              rd_res = ERR_NOERROR,
              rd_data = Some (ind # FU_header 0 1 0 (nal_unit_type n)
                              # take (last_packet_byte s) (drop (current_packet s * 1400) (nalu_buf n))),
              rd_mtime = h264_time me, rd_recall = True, rd_marker = 1\<rparr>
        else \<lparr>rd_me = me, rd_res = ERR_EOF, rd_data = None, rd_mtime = mt, rd_recall = rc, rd_marker = 1\<rparr>)"

text \<open>\<open>read_h264\<close>: \<open>mt\<close> and \<open>rc\<close> are the values the out parameters hold before the call. A missing reader
  state is a null pointer dereference.\<close>

definition read_h264 ::
    "string \<Rightarrow> os_files \<Rightarrow> static_h264 \<Rightarrow> uint8 list \<Rightarrow> static_h264 media_entry \<Rightarrow> cdouble \<Rightarrow> bool \<Rightarrow>
     static_h264 read_result option" where
  "read_h264 rootdir os raw bytes me mt rc =
    (let opened =
       (if \<not> has_flag (me_flags me) ME_FD
        then (let (me1, ret) = mediaopen rootdir os me
              in if ret < 0 then Inl \<lparr>rd_me = me1, rd_res = ret, rd_data = None, rd_mtime = mt,
                                      rd_recall = rc, rd_marker = 1\<rparr>
                 else Inr (me1\<lparr>media_stat := Some (init_static_h264 raw bytes)\<rparr>))
        else Inr me)
     in case opened of
          Inl r \<Rightarrow> Some r
        | Inr me1 \<Rightarrow>
            do {
              s \<leftarrow> media_stat me1;
              if sharding_packet s = H264_NOT_SHARDING then start_unit me1 s mt rc
              else Some (next_fragment me1 s mt rc)
            })"

definition load_h264 :: "string \<Rightarrow> os_files \<Rightarrow> int \<Rightarrow> 'st media_entry \<Rightarrow> 'st media_entry \<times> int" where
  "load_h264 rootdir os close_ret me =
    (let (me1, ret) = (if \<not> has_flag (me_flags me) ME_FD then mediaopen rootdir os me else (me, 0))
     in if ret < 0 then (me1, ret)
        else
          (let me2 = fst (mediaclose close_ret me1); d = description me2
           in if \<not> has_flag (d_flags d) MED_PKT_LEN \<and> \<not> has_flag (d_flags d) MED_FRAME_RATE
              then (me2, ERR_PARSE)
              else
                (let d1 = (if \<not> has_flag (d_flags d) MED_PKT_LEN
                           then d\<lparr>pkt_len := 1 / real_of_int (frame_rate d) * 1000,
                                  d_flags := set_flag (d_flags d) MED_PKT_LEN\<rparr>
                           else d)
                 in (me2\<lparr>description := d1\<lparr>delta_mtime := pkt_len d1\<rparr>\<rparr>, ERR_NOERROR))))"

section \<open>The scanner finds the units\<close>

lemma length3: "length xs = 3 \<Longrightarrow> \<exists>a b c. xs = [a, b, c]"
  by (auto simp: numeral_eq_Suc length_Suc_conv)

lemma length4: "length xs = 4 \<Longrightarrow> \<exists>a b c d. xs = [a, b, c, d]"
  by (auto simp: numeral_eq_Suc length_Suc_conv)

lemma start3_suffix:
  "3 \<le> length xs \<Longrightarrow> is_start_code_3bit (drop (length xs - 3) xs) \<longleftrightarrow> suffix [0, 0, 1] xs"
proof -
  assume l: "3 \<le> length xs"
  let ?d = "drop (length xs - 3) xs"
  have "length ?d = 3" using l by simp
  then obtain a b c where d: "?d = [a, b, c]" using length3 by blast
  then have "xs = take (length xs - 3) xs @ [a, b, c]" by (metis append_take_drop_id)
  then have "suffix [0, 0, 1] xs \<longleftrightarrow> [a, b, c] = [0, 0, 1 :: uint8]"
    by (metis append_eq_append_conv length_Cons list.size(3) suffix_def)
  then show ?thesis using d by (simp add: is_start_code_3bit_def)
qed

lemma start4_suffix:
  "4 \<le> length xs \<Longrightarrow> is_start_code_4bit (drop (length xs - 4) xs) \<longleftrightarrow> suffix [0, 0, 0, 1] xs"
proof -
  assume l: "4 \<le> length xs"
  let ?d = "drop (length xs - 4) xs"
  have "length ?d = 4" using l by simp
  then obtain a b c e where d: "?d = [a, b, c, e]" using length4 by blast
  then have "xs = take (length xs - 4) xs @ [a, b, c, e]" by (metis append_take_drop_id)
  then have "suffix [0, 0, 0, 1] xs \<longleftrightarrow> [a, b, c, e] = [0, 0, 0, 1 :: uint8]"
    by (metis append_eq_append_conv length_Cons list.size(3) suffix_def)
  then show ?thesis using d by (simp add: is_start_code_4bit_def)
qed

text \<open>A unit's bytes contain no start code and do not end in a zero byte.\<close>

definition start_code :: "uint8 list \<Rightarrow> bool" where
  "start_code sc \<longleftrightarrow> sc = [0, 0, 1] \<or> sc = [0, 0, 0, 1]"

definition unit_bytes :: "uint8 list \<Rightarrow> bool" where
  "unit_bytes u \<longleftrightarrow> u \<noteq> [] \<and> last u \<noteq> 0 \<and> \<not> sublist [0, 0, 1] u"

lemma suffix_snoc2: "suffix (xs @ [a]) (ys @ [b]) \<longleftrightarrow> a = b \<and> suffix xs ys"
  by (auto simp: suffix_def)

lemma no_code_inside:
  assumes sc: "start_code sc" and u: "\<not> sublist [0, 0, 1] (p @ [c])"
  shows "\<not> suffix [0, 0, 1] (sc @ p @ [c])"
proof
  assume s: "suffix [0, 0, 1] (sc @ p @ [c])"
  show False
  proof (cases p rule: rev_cases)
    case Nil
    with s sc show False
      using suffix_snoc2 [of "[0, 0]" 1 sc c] by (auto simp: start_code_def suffix_def Cons_eq_append_conv)
  next
    case (snoc q d)
    show False
    proof (cases q rule: rev_cases)
      case Nil
      with s sc snoc show False
        by (auto simp: start_code_def suffix_def Cons_eq_append_conv append_eq_Cons_conv)
    next
      case (snoc r e)
      with s \<open>p = q @ [d]\<close> have "[e, d, c] = [0, 0, 1]"
        by (auto simp: suffix_def)
      then have "sublist [0, 0, 1] (p @ [c])" using snoc \<open>p = q @ [d]\<close> by (auto simp: sublist_def)
      with u show False by simp
    qed
  qed
qed

lemma suffix4_3: "suffix [0, 0, 0, 1] xs \<Longrightarrow> suffix [0, 0, 1] xs"
  by (auto simp: suffix_def)

lemma sublist_prefix: "\<not> sublist xs (ys @ zs) \<Longrightarrow> \<not> sublist xs ys"
  unfolding sublist_def by (metis append_assoc)

text \<open>One step of the loop that finds nothing.\<close>

lemma scan_step:
  assumes "f_pos f < length (f_bytes f)" "\<not> f_eof f" "3 \<le> length buff" "length buff < MAX_FRAME_ZISE"
    and "\<not> suffix [0, 0, 1] (buff @ [f_bytes f ! f_pos f])"
  shows "scan_nalu f buff scl n = scan_nalu (f\<lparr>f_pos := Suc (f_pos f)\<rparr>) (buff @ [f_bytes f ! f_pos f]) scl n"
proof -
  let ?b = "buff @ [f_bytes f ! f_pos f]"
  have "\<not> is_start_code_3bit (drop (length ?b - 3) ?b)" using assms(3,5) start3_suffix [of ?b] by simp
  moreover have "\<not> is_start_code_4bit (drop (length ?b - 4) ?b)"
  proof -
    have "\<not> suffix [0, 0, 0, 1] ?b" using assms(5) suffix4_3 by blast
    moreover have "4 \<le> length ?b" using assms(3) by simp
    ultimately show ?thesis using start4_suffix by blast
  qed
  ultimately show ?thesis using assms(1,2,4)
    by (subst scan_nalu.simps) (simp add: c_fgetc_def Let_def)
qed

lemma scan_inside:
  assumes sc: "start_code sc" and u: "\<not> sublist [0, 0, 1] (p @ q)"
  shows "\<not> f_eof f \<Longrightarrow> drop (f_pos f) (f_bytes f) = q @ rest \<Longrightarrow> length sc + length p + length q \<le> MAX_FRAME_ZISE \<Longrightarrow>
    scan_nalu f (sc @ p) scl n = scan_nalu (f\<lparr>f_pos := f_pos f + length q\<rparr>) (sc @ p @ q) scl n"
  using u
proof (induction q arbitrary: f p)
  case Nil
  then show ?case by simp
next
  case (Cons c q)
  have lt: "f_pos f < length (f_bytes f)" using Cons.prems(2) by (cases "f_pos f < length (f_bytes f)") auto
  have c: "f_bytes f ! f_pos f = c" using Cons.prems(2) lt by (metis Cons_nth_drop_Suc append_Cons list.inject)
  have d: "drop (Suc (f_pos f)) (f_bytes f) = q @ rest"
    using Cons.prems(2) lt by (metis Cons_nth_drop_Suc append_Cons list.inject)
  have "\<not> sublist [0, 0, 1] ((p @ [c]) @ q)" using Cons.prems(4) by simp
  note nc = no_code_inside [OF sc sublist_prefix [OF this]]
  have "3 \<le> length (sc @ p)" using sc by (auto simp: start_code_def)
  then have "scan_nalu f (sc @ p) scl n = scan_nalu (f\<lparr>f_pos := Suc (f_pos f)\<rparr>) (sc @ p @ [c]) scl n"
    using scan_step [of f "sc @ p" scl n] lt Cons.prems(1,3) nc by (simp add: c)
  also have "\<dots> = scan_nalu (f\<lparr>f_pos := f_pos f + length (c # q)\<rparr>) (sc @ p @ c # q) scl n"
    using Cons.IH [of "f\<lparr>f_pos := Suc (f_pos f)\<rparr>" "p @ [c]"] d Cons.prems by simp
  finally show ?case .
qed

text \<open>The loop stops at the start code behind the unit.\<close>

lemma scan_at_code:
  assumes e: "\<not> f_eof f" and b: "3 \<le> length b" "last b \<noteq> 0" and sc: "start_code sc"
    and d: "drop (f_pos f) (f_bytes f) = sc @ rest" and m: "length b + length sc \<le> MAX_FRAME_ZISE"
  shows "scan_nalu f b scl n = Some (f\<lparr>f_pos := f_pos f + length sc\<rparr>, b @ sc, length sc, n)"
proof -
  obtain b0 x where bx: "b = b0 @ [x]" "x \<noteq> 0" using b by (metis append_butlast_last_id length_0_conv not_numeral_le_zero)
  have len: "f_pos f + length sc \<le> length (f_bytes f)"
    using arg_cong [OF d, of length] sc by (auto simp: start_code_def)
  have at: "f_bytes f ! (f_pos f + i) = sc ! i" if "i < length sc" for i
  proof -
    have "drop (f_pos f) (f_bytes f) ! i = f_bytes f ! (f_pos f + i)" using len by (intro nth_drop) simp
    then show ?thesis using that by (simp add: d nth_append)
  qed
  from sc consider "sc = [0, 0, 1]" | "sc = [0, 0, 0, 1]" by (auto simp: start_code_def)
  then show ?thesis
  proof cases
    case 1
    have a: "f_bytes f ! f_pos f = 0" "f_bytes f ! Suc (f_pos f) = 0" "f_bytes f ! Suc (Suc (f_pos f)) = 1"
      using at [of 0] at [of 1] at [of 2] 1 by simp_all
    have "scan_nalu f b scl n = scan_nalu (f\<lparr>f_pos := Suc (f_pos f)\<rparr>) (b @ [0]) scl n"
      using scan_step [of f b scl n] e len b(1) m 1 a(1) suffix_snoc2 [of "[0, 0]" 1 b 0] by simp
    also have "\<dots> = scan_nalu (f\<lparr>f_pos := Suc (Suc (f_pos f))\<rparr>) (b @ [0, 0]) scl n"
      using scan_step [of "f\<lparr>f_pos := Suc (f_pos f)\<rparr>" "b @ [0]" scl n] e len b(1) m 1 a(2)
        suffix_snoc2 [of "[0, 0]" 1 "b @ [0]" 0] by simp
    also have "\<dots> = Some (f\<lparr>f_pos := f_pos f + length sc\<rparr>, b @ sc, length sc, n)"
    proof -
      let ?b = "b @ [0, 0, 1]"
      have "\<not> suffix [0, 0, 0, 1] ?b"
        using suffix_snoc2 [of "[0, 0, 0]" 1 "b @ [0, 0]" 1] suffix_snoc2 [of "[0, 0]" 0 "b @ [0]" 0]
          suffix_snoc2 [of "[0]" 0 b 0] suffix_snoc2 [of "[]" 0 b0 x] bx by simp
      moreover have "suffix [0, 0, 1] ?b" by (simp add: suffix_def)
      ultimately show ?thesis using e len b(1) m 1 a(3) start4_suffix [of ?b] start3_suffix [of ?b]
        by (subst scan_nalu.simps) (simp add: c_fgetc_def Let_def)
    qed
    finally show ?thesis .
  next
    case 2
    have a: "f_bytes f ! f_pos f = 0" "f_bytes f ! Suc (f_pos f) = 0" "f_bytes f ! Suc (Suc (f_pos f)) = 0"
      "f_bytes f ! Suc (Suc (Suc (f_pos f))) = 1"
      using at [of 0] at [of 1] at [of 2] at [of 3] 2 by (simp_all add: eval_nat_numeral)
    have "scan_nalu f b scl n = scan_nalu (f\<lparr>f_pos := Suc (f_pos f)\<rparr>) (b @ [0]) scl n"
      using scan_step [of f b scl n] e len b(1) m 2 a(1) suffix_snoc2 [of "[0, 0]" 1 b 0] by simp
    also have "\<dots> = scan_nalu (f\<lparr>f_pos := Suc (Suc (f_pos f))\<rparr>) (b @ [0, 0]) scl n"
      using scan_step [of "f\<lparr>f_pos := Suc (f_pos f)\<rparr>" "b @ [0]" scl n] e len b(1) m 2 a(2)
        suffix_snoc2 [of "[0, 0]" 1 "b @ [0]" 0] by simp
    also have "\<dots> = scan_nalu (f\<lparr>f_pos := Suc (Suc (Suc (f_pos f)))\<rparr>) (b @ [0, 0, 0]) scl n"
      using scan_step [of "f\<lparr>f_pos := Suc (Suc (f_pos f))\<rparr>" "b @ [0, 0]" scl n] e len b(1) m 2 a(3)
        suffix_snoc2 [of "[0, 0]" 1 "b @ [0, 0]" 0] by simp
    also have "\<dots> = Some (f\<lparr>f_pos := f_pos f + length sc\<rparr>, b @ sc, length sc, n)"
    proof -
      let ?b = "b @ [0, 0, 0, 1]"
      have "suffix [0, 0, 0, 1] ?b" by (simp add: suffix_def)
      then show ?thesis using e len b(1) m 2 a(4) start4_suffix [of ?b]
        by (subst scan_nalu.simps) (simp add: c_fgetc_def Let_def)
    qed
    finally show ?thesis .
  qed
qed

lemma scan_unit:
  assumes sc: "start_code sc" and u: "unit_bytes u" and sc2: "start_code sc2" and e: "\<not> f_eof f"
    and d: "drop (f_pos f) (f_bytes f) = u @ sc2 @ rest" and m: "length sc + length u + length sc2 \<le> MAX_FRAME_ZISE"
  shows "scan_nalu f sc scl n =
    Some (f\<lparr>f_pos := f_pos f + length u + length sc2\<rparr>, sc @ u @ sc2, length sc2, n)"
proof -
  have "scan_nalu f (sc @ []) scl n = scan_nalu (f\<lparr>f_pos := f_pos f + length u\<rparr>) (sc @ [] @ u) scl n"
    using scan_inside [OF sc _ e d, of "[]" scl n] u m by (simp add: unit_bytes_def)
  moreover have "drop (f_pos f + length u) (f_bytes f) = sc2 @ rest"
    using d by (metis add.commute append_eq_conv_conj drop_drop)
  ultimately show ?thesis
    using scan_at_code [of "f\<lparr>f_pos := f_pos f + length u\<rparr>" "sc @ u" sc2 rest scl n] e sc2 u sc m
    by (auto simp: unit_bytes_def start_code_def)
qed

lemma set_nalu_unit:
  assumes "u \<noteq> []" and "length u \<le> MAX_FRAME_ZISE"
  shows "set_nalu (sc @ u @ x) (length sc) (length u - 1) n =
    Some (n\<lparr>forbidden_bit := and (hd u) 0x80, nal_reference_idc := and (hd u) 0x60,
      nal_unit_type := and (hd u) 0x1F, nalu_len := length u - 1,
      nalu_buf := tl u @ drop (length u - 1) (nalu_buf n)\<rparr>)"
  using assms by (cases u) (simp_all add: set_nalu_def memcpy_def nth_append)

lemma eof_same: "\<not> f_eof f \<Longrightarrow> f\<lparr>f_pos := p, f_eof := False\<rparr> = f\<lparr>f_pos := p\<rparr>"
  by (cases f) simp

text \<open>The first three or four bytes of a unit.\<close>

lemma read_start:
  assumes sc: "start_code sc" and d: "drop (f_pos f) (f_bytes f) = sc @ u @ rest" and u: "u \<noteq> []"
    and e: "\<not> f_eof f"
  shows "get_one_NALU_payload f n =
    (do { (f4, buff', rewind, n1) \<leftarrow> scan_nalu (f\<lparr>f_pos := f_pos f + length sc\<rparr>) sc (length sc) n;
          if length buff' < length sc + rewind + 1 then None
          else do { n2 \<leftarrow> set_nalu buff' (length sc) (length buff' - length sc - rewind - 1) n1;
                    Some (c_seek (f_pos f4 - rewind) f4, n2, ERR_NOERROR) } })"
proof -
  from sc consider "sc = [0, 0, 1]" | "sc = [0, 0, 0, 1]" by (auto simp: start_code_def)
  then show ?thesis
  proof cases
    case 1
    show ?thesis using d e unfolding 1
      by (simp add: get_one_NALU_payload_def c_fread_def Let_def is_start_code_3bit_def eof_same cong: if_cong)
  next
    case 2
    have d3: "drop (Suc (Suc (Suc (f_pos f)))) (f_bytes f) = 1 # u @ rest"
      using arg_cong [OF d, of "drop 3"] 2 by (simp add: eval_nat_numeral)
    have l: "Suc (Suc (Suc (f_pos f))) < length (f_bytes f)"
      using d3 by (cases "Suc (Suc (Suc (f_pos f))) < length (f_bytes f)") auto
    then have m: "min (length (f_bytes f) - Suc (Suc (Suc (f_pos f)))) (Suc 0) = Suc 0" by simp
    show ?thesis using d e d3 l m unfolding 2
      by (simp add: get_one_NALU_payload_def c_fread_def Let_def is_start_code_3bit_def
          is_start_code_4bit_def eof_same eval_nat_numeral cong: if_cong)
  qed
qed

text \<open>A unit between two start codes.\<close>

lemma unit_read:
  assumes "start_code sc" and "start_code sc2" and "unit_bytes u" and "\<not> f_eof f"
    and "drop (f_pos f) (f_bytes f) = sc @ u @ sc2 @ rest" and "length sc + length u + length sc2 \<le> MAX_FRAME_ZISE"
  shows "get_one_NALU_payload f n =
    Some (f\<lparr>f_pos := f_pos f + length sc + length u\<rparr>,
      n\<lparr>forbidden_bit := and (hd u) 0x80, nal_reference_idc := and (hd u) 0x60,
        nal_unit_type := and (hd u) 0x1F, nalu_len := length u - 1,
        nalu_buf := tl u @ drop (length u - 1) (nalu_buf n)\<rparr>, ERR_NOERROR)"
proof -
  let ?f = "f\<lparr>f_pos := f_pos f + length sc\<rparr>"
  have "drop (f_pos ?f) (f_bytes ?f) = u @ sc2 @ rest"
    using assms(5) by simp (metis add.commute append_eq_conv_conj drop_drop)
  from scan_unit [OF assms(1,3,2) _ this assms(6), of "length sc" n] assms(4) have
    s: "scan_nalu ?f sc (length sc) n =
      Some (f\<lparr>f_pos := f_pos f + length sc + length u + length sc2\<rparr>, sc @ u @ sc2, length sc2, n)" by simp
  have u: "u \<noteq> []" "length u \<le> MAX_FRAME_ZISE" "0 < length u" using assms(3,6) by (auto simp: unit_bytes_def)
  have f: "c_seek (f_pos f + length sc + length u + length sc2 - length sc2)
      (f\<lparr>f_pos := f_pos f + length sc + length u + length sc2\<rparr>) = f\<lparr>f_pos := f_pos f + length sc + length u\<rparr>"
    using assms(4) by (cases f) (simp add: c_seek_def)
  show ?thesis
    using read_start [OF assms(1,5) u(1) assms(4), of n] s u f set_nalu_unit [OF u(1,2), of sc sc2 n]
    by (simp add: Let_def)
qed

text \<open>C23: the reader cuts a unit out of the stream exactly: between two start codes, of three or four
  bytes each, the unit's header fields and payload are those in the file and the stream is left at the
  second start code, for every unit that fits into the array of 100000 bytes with the two start codes.\<close>

theorem nalu_between_codes:
  assumes "start_code sc" and "start_code sc2" and "unit_bytes u" and "\<not> f_eof f"
    and "drop (f_pos f) (f_bytes f) = sc @ u @ sc2 @ rest" and "length sc + length u + length sc2 \<le> MAX_FRAME_ZISE"
  shows "get_one_NALU_payload f n =
    Some (f\<lparr>f_pos := f_pos f + length sc + length u\<rparr>,
      n\<lparr>forbidden_bit := and (hd u) 0x80, nal_reference_idc := and (hd u) 0x60,
        nal_unit_type := and (hd u) 0x1F, nalu_len := length u - 1,
        nalu_buf := tl u @ drop (length u - 1) (nalu_buf n)\<rparr>, ERR_NOERROR)"
  by (rule unit_read [OF assms])

theorem nalu_between_codes_witness:
  "\<exists>n. get_one_NALU_payload \<lparr>f_bytes = [0, 0, 0, 1, 0x65, 7, 8, 0, 0, 1, 0x41], f_pos = 0, f_eof = False\<rparr> n =
     Some (\<lparr>f_bytes = [0, 0, 0, 1, 0x65, 7, 8, 0, 0, 1, 0x41], f_pos = 7, f_eof = False\<rparr>,
       n\<lparr>forbidden_bit := 0, nal_reference_idc := 0x60, nal_unit_type := 5, nalu_len := 2, nalu_buf := [7, 8]\<rparr>,
       ERR_NOERROR)"
proof -
  define n where "n = \<lparr>nalu_len = 0, max_size = MAX_FRAME_ZISE, forbidden_bit = 0, nal_reference_idc = 0, nal_unit_type = 0, nalu_buf = []\<rparr>"
  have u: "unit_bytes [0x65, 7, 8]" by (simp add: unit_bytes_def sublist_code)
  from nalu_between_codes [OF _ _ u, of "[0, 0, 0, 1]" "[0, 0, 1]" "\<lparr>f_bytes = [0, 0, 0, 1, 0x65, 7, 8, 0, 0, 1, 0x41],
      f_pos = 0, f_eof = False\<rparr>" "[0x41]" n]
  show ?thesis by (intro exI [of _ n]) (simp add: start_code_def n_def MAX_FRAME_ZISE_def)
qed

section \<open>Fragmentation and reassembly\<close>

text \<open>The receiver of RFC 6184: fragments of one unit carry type 28, the start bit is set on the first and
  the end bit on the last one only, and the unit is its reconstructed header and the fragments' payloads.\<close>

definition fu_ok :: "uint8 list \<Rightarrow> bool" where
  "fu_ok p \<longleftrightarrow> 2 \<le> length p \<and> and (p ! 0) 0x1F = 28"

definition fu_bits :: "uint8 list \<Rightarrow> bool \<times> bool" where
  "fu_bits p = (bit (p ! 1) 7, bit (p ! 1) 6)"

definition defragment :: "uint8 list list \<Rightarrow> uint8 list option" where
  "defragment ps =
     (if 2 \<le> length ps \<and> list_all fu_ok ps \<and> fu_bits (hd ps) = (True, False) \<and>
         fu_bits (last ps) = (False, True) \<and> list_all (\<lambda>p. fu_bits p = (False, False)) (butlast (tl ps))
      then Some (or (and (hd ps ! 0) 0xE0) (and (hd ps ! 1) 0x1F) # concat (map (drop 2) ps))
      else None)"

text \<open>Repeated calls of the reader, as \<open>get_frame\<close> makes them while it is asked to.\<close>

fun read_calls ::
    "string \<Rightarrow> os_files \<Rightarrow> static_h264 \<Rightarrow> uint8 list \<Rightarrow> nat \<Rightarrow> static_h264 media_entry \<Rightarrow>
     (uint8 list list \<times> static_h264 media_entry) option" where
  "read_calls rootdir os raw bytes 0 me = Some ([], me)"
| "read_calls rootdir os raw bytes (Suc k) me =
     do {
       r \<leftarrow> read_h264 rootdir os raw bytes me 0 False;
       d \<leftarrow> rd_data r;
       (ds, me') \<leftarrow> read_calls rootdir os raw bytes k (rd_me r);
       Some (d # ds, me')
     }"

lemma le7_cases: "(n :: nat) < 8 \<Longrightarrow> n = 0 \<or> n = 1 \<or> n = 2 \<or> n = 3 \<or> n = 4 \<or> n = 5 \<or> n = 6 \<or> n = 7"
  by linarith

lemmas fu_defs = FU_indicator_def FU_header_def TYPE_FU_A_def

lemma fu_indicator_type: "and (FU_indicator fb nri TYPE_FU_A) 0x1F = 28"
proof (rule bit_word_eqI)
  fix n assume "n < LENGTH(8)"
  then have "n < 8" by simp
  then show "bit (and (FU_indicator fb nri TYPE_FU_A) 0x1F) n = bit (28 :: uint8) n"
    using le7_cases [of n] by (auto simp: fu_defs bit_simps)
qed

lemma fu_header_rebuilt:
  "or (and (FU_indicator (and h 0x80) (drop_bit 5 (and h 0x60)) TYPE_FU_A) 0xE0)
      (and (FU_header 1 0 0 (and h 0x1F)) 0x1F) = and h 0x7F"
proof (rule bit_word_eqI)
  fix n assume "n < LENGTH(8)"
  then have "n < 8" by simp
  then show "bit (or (and (FU_indicator (and h 0x80) (drop_bit 5 (and h 0x60)) TYPE_FU_A) 0xE0)
      (and (FU_header 1 0 0 (and h 0x1F)) 0x1F)) n = bit (and h 0x7F) n"
    using le7_cases [of n] by (auto simp: fu_defs bit_simps)
qed

lemma fu_header_bits:
  "bit (FU_header s e r ty) 7 = bit s 0" "bit (FU_header s e r ty) 6 = bit e 0"
  by (auto simp: fu_defs bit_simps)

definition middle_fragment :: "static_h264 \<Rightarrow> nat \<Rightarrow> uint8 list" where
  "middle_fragment s k =
     FU_indicator (forbidden_bit (nalu s)) (drop_bit 5 (nal_reference_idc (nalu s))) TYPE_FU_A
     # FU_header 0 0 0 (nal_unit_type (nalu s)) # take UDP_MAX_SIZE (drop (k * 1400) (nalu_buf (nalu s)))"

definition last_fragment :: "static_h264 \<Rightarrow> uint8 list" where
  "last_fragment s =
     FU_indicator (forbidden_bit (nalu s)) (drop_bit 5 (nal_reference_idc (nalu s))) TYPE_FU_A
     # FU_header 0 1 0 (nal_unit_type (nalu s))
     # take (last_packet_byte s) (drop (packet_num s * 1400) (nalu_buf (nalu s)))"

lemma read_fragments:
  assumes "media_stat me = Some s" "has_flag (me_flags me) ME_FD" "sharding_packet s = H264_SHARDING_PACKET"
    and "current_packet s \<le> packet_num s"
  shows "\<exists>me'. read_calls rootdir os raw bytes (Suc (packet_num s - current_packet s)) me =
      Some (map (middle_fragment s) [current_packet s..<packet_num s] @ [last_fragment s], me') \<and>
    media_stat me' = Some (s\<lparr>current_packet := packet_num s, sharding_packet := H264_NOT_SHARDING\<rparr>) \<and>
    has_flag (me_flags me') ME_FD"
  using assms
proof (induction "packet_num s - current_packet s" arbitrary: me s)
  case 0
  then have "current_packet s = packet_num s" by simp
  with 0 show ?case
    by (cases s) (simp add: read_h264_def next_fragment_def last_fragment_def Let_def H264_SHARDING_PACKET_def
        H264_NOT_SHARDING_def)
next
  case (Suc m)
  have lt: "current_packet s < packet_num s" using Suc.hyps(2) by simp
  define s1 where "s1 = s\<lparr>current_packet := current_packet s + 1\<rparr>"
  define me1 where "me1 = me\<lparr>media_stat := Some s1\<rparr>"
  have hyp: "m = packet_num s1 - current_packet s1" using Suc.hyps(2) by (simp add: s1_def)
  from Suc.hyps(1) [OF hyp, of me1] obtain me' where
    IH: "read_calls rootdir os raw bytes (Suc (packet_num s1 - current_packet s1)) me1 =
      Some (map (middle_fragment s1) [current_packet s1..<packet_num s1] @ [last_fragment s1], me')"
      "media_stat me' = Some (s1\<lparr>current_packet := packet_num s1, sharding_packet := H264_NOT_SHARDING\<rparr>)"
      "has_flag (me_flags me') ME_FD"
    using Suc.prems lt by (auto simp: me1_def s1_def)
  have same: "middle_fragment s1 = middle_fragment s" "last_fragment s1 = last_fragment s"
    "packet_num s1 = packet_num s" "current_packet s1 = Suc (current_packet s)"
    by (auto simp: fun_eq_iff middle_fragment_def last_fragment_def s1_def)
  have n: "packet_num s - current_packet s = Suc (packet_num s1 - current_packet s1)"
    using lt by (simp add: same)
  have first: "read_h264 rootdir os raw bytes me 0 False =
      Some \<lparr>rd_me = me1, rd_res = ERR_NOERROR, rd_data = Some (middle_fragment s (current_packet s)),
            rd_mtime = h264_time me, rd_recall = True, rd_marker = 0\<rparr>"
    using Suc.prems lt by (simp add: read_h264_def next_fragment_def middle_fragment_def Let_def
        H264_SHARDING_PACKET_def H264_NOT_SHARDING_def me1_def s1_def)
  have "[current_packet s..<packet_num s] = current_packet s # [current_packet s1..<packet_num s1]"
    using lt by (simp add: upt_conv_Cons same)
  moreover have "s1\<lparr>current_packet := packet_num s1, sharding_packet := H264_NOT_SHARDING\<rparr> =
      s\<lparr>current_packet := packet_num s, sharding_packet := H264_NOT_SHARDING\<rparr>" by (simp add: s1_def)
  moreover have "read_calls rootdir os raw bytes (Suc (Suc (packet_num s1 - current_packet s1))) me =
      Some (middle_fragment s (current_packet s) # map (middle_fragment s1) [current_packet s1..<packet_num s1] @
        [last_fragment s1], me')"
    unfolding read_calls.simps(2) [of _ _ _ _ "Suc (packet_num s1 - current_packet s1)"]
    by (simp only: first IH(1) bind.bind_lunit read_result.simps prod.case append_Cons)
  ultimately show ?case using IH(2,3) unfolding n by (simp add: same del: upt_Suc read_calls.simps)
qed

lemma concat_chunks:
  assumes "k \<le> L div c" "0 < c"
  shows "concat (map (\<lambda>i. take c (drop (i * c) b)) [k..<L div c]) @ take (L mod c) (drop (L div c * c) b) =
    take (L - k * c) (drop (k * c) b)"
  using assms(1)
proof (induction "L div c - k" arbitrary: k)
  case 0
  then show ?case using minus_div_mult_eq_mod [of L c] by simp
next
  case (Suc m)
  then have lt: "k < L div c" by simp
  have kc: "Suc k * c \<le> L"
    using lt by (metis Suc_leI div_times_less_eq_dividend le_trans mult_le_mono1)
  have "[k..<L div c] = k # [Suc k..<L div c]" using lt by (rule upt_conv_Cons)
  then have "concat (map (\<lambda>i. take c (drop (i * c) b)) [k..<L div c]) @ take (L mod c) (drop (L div c * c) b) =
      take c (drop (k * c) b) @ take (L - Suc k * c) (drop (Suc k * c) b)"
    using Suc.hyps(1) [of "Suc k"] Suc.hyps(2) lt by simp
  also have "drop (Suc k * c) b = drop c (drop (k * c) b)" by simp
  also have "L - Suc k * c = (L - k * c) - c" by simp
  also have "take c (drop (k * c) b) @ take ((L - k * c) - c) (drop c (drop (k * c) b)) = take (L - k * c) (drop (k * c) b)"
    using kc take_add [of c "(L - k * c) - c" "drop (k * c) b"] by simp
  finally show ?case .
qed

definition first_fragment :: "NALU_t \<Rightarrow> uint8 list" where
  "first_fragment n = FU_indicator (forbidden_bit n) (drop_bit 5 (nal_reference_idc n)) TYPE_FU_A
     # FU_header 1 0 0 (nal_unit_type n) # take UDP_MAX_SIZE (nalu_buf n)"

lemma defragment_fragments:
  assumes n: "nal_reference_idc (nalu s) = and h 0x60" "forbidden_bit (nalu s) = and h 0x80"
      "nal_unit_type (nalu s) = and h 0x1F"
    and L: "packet_num s = L div 1400" "last_packet_byte s = L mod 1400" "1400 < L" "L \<le> length (nalu_buf (nalu s))"
  shows "defragment (first_fragment (nalu s) # map (middle_fragment s) [1..<packet_num s] @ [last_fragment s]) =
    Some (and h 0x7F # take L (nalu_buf (nalu s)))"
proof -
  let ?b = "nalu_buf (nalu s)"
  have num: "1 \<le> L div 1400" using L(3) by linarith
  have bits: "fu_bits (first_fragment (nalu s)) = (True, False)" "fu_bits (middle_fragment s k) = (False, False)"
    "fu_bits (last_fragment s) = (False, True)" for k
    by (simp_all add: fu_bits_def first_fragment_def middle_fragment_def last_fragment_def fu_header_bits)
  have ok: "fu_ok (first_fragment (nalu s))" "fu_ok (middle_fragment s k)" "fu_ok (last_fragment s)" for k
    by (simp_all add: fu_ok_def first_fragment_def middle_fragment_def last_fragment_def fu_indicator_type)
  have "concat (map (\<lambda>i. take 1400 (drop (i * 1400) ?b)) [1..<L div 1400]) @ take (L mod 1400) (drop (L div 1400 * 1400) ?b) =
      take (L - 1 * 1400) (drop (1 * 1400) ?b)"
    by (rule concat_chunks) (use num in simp_all)
  moreover have "take 1400 ?b @ take (L - 1400) (drop 1400 ?b) = take L ?b"
    using L(3) take_add [of 1400 "L - 1400" ?b] by simp
  ultimately have "concat (map (drop 2) (first_fragment (nalu s) # map (middle_fragment s) [1..<packet_num s] @ [last_fragment s])) =
      take L ?b"
    by (simp add: first_fragment_def middle_fragment_def last_fragment_def L(1,2) UDP_MAX_SIZE_def comp_def)
  moreover have "or (and (first_fragment (nalu s) ! 0) 0xE0) (and (first_fragment (nalu s) ! 1) 0x1F) = and h 0x7F"
    using fu_header_rebuilt [of h] by (simp add: first_fragment_def n)
  ultimately show ?thesis
    by (simp add: defragment_def bits ok list_all_iff)
qed

text \<open>C5: fragmentation loses nothing: a unit of the file with more than 1400 bytes of payload is read in
  \<open>length div 1400 + 1\<close> calls, no packet exceeds 1402 bytes, and a receiver that follows RFC 6184 rebuilds
  the unit from the packets: its header byte (without the forbidden bit, which the code drops) and its
  payload. The unit fits into the reader's array of 100000 bytes together with the start codes around it; a longer one
  runs over its end (\<open>large_unit_overflows\<close>).\<close>

theorem fua_roundtrip:
  assumes "media_stat me = Some s" and "has_flag (me_flags me) ME_FD" and "sharding_packet s = H264_NOT_SHARDING"
    and "start_code sc" and "start_code sc2" and "unit_bytes (h # payload)" and "\<not> f_eof (h264_file s)"
    and "drop (f_pos (h264_file s)) (f_bytes (h264_file s)) = sc @ (h # payload) @ sc2 @ rest"
    and "1400 < length payload" and "length sc + length (h # payload) + length sc2 \<le> MAX_FRAME_ZISE"
  shows "\<exists>ps me'. read_calls rootdir os raw bytes (Suc (length payload div 1400)) me = Some (ps, me') \<and>
    defragment ps = Some (and h 0x7F # payload) \<and> (\<forall>p \<in> set ps. length p \<le> 1402)"
proof -
  let ?f = "h264_file s" and ?L = "length payload"
  define n where "n = (nalu s)\<lparr>forbidden_bit := and h 0x80, nal_reference_idc := and h 0x60,
      nal_unit_type := and h 0x1F, nalu_len := ?L, nalu_buf := payload @ drop ?L (nalu_buf (nalu s))\<rparr>"
  define f where "f = ?f\<lparr>f_pos := f_pos ?f + length sc + length (h # payload)\<rparr>"
  have g: "get_one_NALU_payload ?f (nalu s) = Some (f, n, ERR_NOERROR)"
    using unit_read [OF assms(4-8,10), of "nalu s"] by (simp add: n_def f_def)
  define s1 where "s1 = s\<lparr>h264_file := f, nalu := n, sharding_packet := H264_SHARDING_PACKET,
      packet_num := ?L div 1400, last_packet_byte := ?L mod 1400, current_packet := 1\<rparr>"
  define t where "t = h264_time me + 1000 / real_of_int (frame_rate (description me))"
  define me1 where "me1 = me\<lparr>h264_time := t, media_stat := Some s1\<rparr>"
  have s1: "nalu s1 = n" "packet_num s1 = ?L div 1400" "last_packet_byte s1 = ?L mod 1400" "current_packet s1 = 1"
    by (simp_all add: s1_def)
  have num: "1 \<le> ?L div 1400" using assms(9) by linarith
  have first: "read_h264 rootdir os raw bytes me 0 False =
      Some \<lparr>rd_me = me1, rd_res = ERR_NOERROR, rd_data = Some (first_fragment n), rd_mtime = t, rd_recall = True,
            rd_marker = 0\<rparr>"
    using assms(1-3,9) g by (simp add: read_h264_def start_unit_def Let_def UDP_MAX_SIZE_def first_fragment_def
        me1_def s1_def t_def) (simp add: n_def)
  obtain me' where rest: "read_calls rootdir os raw bytes (Suc (packet_num s1 - current_packet s1)) me1 =
      Some (map (middle_fragment s1) [current_packet s1..<packet_num s1] @ [last_fragment s1], me')"
    using read_fragments [of me1 s1 rootdir os raw bytes] assms(2) num by (auto simp: me1_def s1_def)
  let ?ps = "first_fragment n # map (middle_fragment s1) [1..<packet_num s1] @ [last_fragment s1]"
  have k: "?L div 1400 = Suc (packet_num s1 - 1)" using num by (simp add: s1)
  have calls: "read_calls rootdir os raw bytes (Suc (?L div 1400)) me = Some (?ps, me')"
    unfolding read_calls.simps(2) [of _ _ _ _ "?L div 1400"] unfolding k
    by (simp only: first rest [unfolded s1(4)] bind.bind_lunit read_result.simps prod.case append_Cons)
  have "defragment ?ps = Some (and h 0x7F # take ?L (nalu_buf n))"
    using defragment_fragments [of s1 h ?L] assms(9) by (simp add: s1) (simp add: n_def)
  moreover have "take ?L (nalu_buf n) = payload" by (simp add: n_def)
  moreover have "\<forall>p \<in> set ?ps. length p \<le> 1402"
    by (auto simp: first_fragment_def middle_fragment_def last_fragment_def UDP_MAX_SIZE_def s1
        intro!: order_trans [OF min.cobounded2] less_imp_le)
  ultimately show ?thesis using calls by auto
qed

text \<open>A file of one unit with a payload of 1401 bytes, followed by another unit.\<close>

definition sample_reader :: static_h264 where
  "sample_reader = \<lparr>sharding_packet = 0,
     nalu = \<lparr>nalu_len = 0, max_size = MAX_FRAME_ZISE, forbidden_bit = 0, nal_reference_idc = 0, nal_unit_type = 0, nalu_buf = []\<rparr>,
     packet_num = 0, last_packet_byte = 0, current_packet = 0,
     h264_file = \<lparr>f_bytes = [0, 0, 0, 1, 0x65] @ replicate 1401 7 @ [0, 0, 1, 0x41], f_pos = 0, f_eof = False\<rparr>\<rparr>"

definition sample_media :: "static_h264 media_entry" where
  "sample_media = zero_media\<lparr>me_flags := ME_FD, media_stat := Some sample_reader\<rparr>"

theorem fua_roundtrip_witness:
  "\<exists>ps me'. read_calls [] \<lparr>os_open = \<lambda>_ _. 0, os_isfifo = \<lambda>_. False\<rparr> sample_reader [] (Suc (1401 div 1400)) sample_media = Some (ps, me') \<and>
     defragment ps = Some (0x65 # replicate 1401 7)"
proof -
  have u: "unit_bytes (0x65 # replicate 1401 7)"
    by (auto simp: unit_bytes_def sublist_def Cons_eq_append_conv dest!: arg_cong [of _ _ set])
  have "drop (f_pos (h264_file sample_reader)) (f_bytes (h264_file sample_reader)) =
      [0, 0, 0, 1] @ (0x65 # replicate 1401 7) @ [0, 0, 1] @ [0x41]" by (simp add: sample_reader_def)
  moreover have "media_stat sample_media = Some sample_reader" "has_flag (me_flags sample_media) ME_FD"
    "sharding_packet sample_reader = H264_NOT_SHARDING" "\<not> f_eof (h264_file sample_reader)"
    by (simp_all add: sample_media_def sample_reader_def has_flag_def ME_FD_def H264_NOT_SHARDING_def)
  moreover have "start_code [0, 0, 0, 1]" "start_code [0, 0, 1]" "1400 < length (replicate 1401 (7 :: uint8))"
    "length [0 :: uint8, 0, 0, 1] + length (0x65 # replicate 1401 (7 :: uint8)) + length [0 :: uint8, 0, 1] \<le> MAX_FRAME_ZISE"
    by (simp_all add: start_code_def MAX_FRAME_ZISE_def)
  ultimately have "\<exists>ps me'. read_calls [] \<lparr>os_open = \<lambda>_ _. 0, os_isfifo = \<lambda>_. False\<rparr> sample_reader []
      (Suc (length (replicate 1401 (7 :: uint8)) div 1400)) sample_media = Some (ps, me') \<and>
      defragment ps = Some (and 0x65 0x7F # replicate 1401 7) \<and> (\<forall>p \<in> set ps. length p \<le> 1402)"
    using u by (intro fua_roundtrip)
  moreover have "and 0x65 0x7F = (0x65 :: uint8)" by simp
  ultimately show ?thesis unfolding length_replicate by metis
qed

section \<open>The end of the file\<close>

lemma scan_eof:
  assumes "f_eof f"
  shows "scan_nalu f buff scl n =
    do { n1 \<leftarrow> set_nalu buff scl (length buff - scl - 1) n; scan_nalu (c_seek 0 f) buff scl n1 }"
  using assms by (subst (1 2) scan_nalu.simps) (simp add: c_seek_def Let_def)

lemma set_nalu_twice:
  "l \<le> length buff - Suc scl \<Longrightarrow> set_nalu buff scl l n = Some n1 \<Longrightarrow> set_nalu (buff @ x) scl l n1 = set_nalu (buff @ x) scl l n"
  by (auto simp: set_nalu_def memcpy_def split: if_splits)

text \<open>The reader never reports the end of a file that starts with a start code. The last unit is
  returned with a byte 255 appended to its payload (the end-of-file value stored as a byte) and the stream
  goes back to the beginning: the film plays in a loop.\<close>

theorem last_nalu_padded_and_looped:
  assumes "start_code sc0" and "f_bytes f = sc0 @ w" and "start_code sc" and "unit_bytes u" and "\<not> f_eof f"
    and "drop (f_pos f) (f_bytes f) = sc @ u" and "length sc + length u + 1 + length sc0 \<le> MAX_FRAME_ZISE"
  shows "get_one_NALU_payload f n =
    Some (c_seek 0 f,
      n\<lparr>forbidden_bit := and (hd u) 0x80, nal_reference_idc := and (hd u) 0x60,
        nal_unit_type := and (hd u) 0x1F, nalu_len := length u,
        nalu_buf := tl u @ 255 # drop (length u) (nalu_buf n)\<rparr>, ERR_NOERROR)"
proof -
  let ?f = "f\<lparr>f_pos := f_pos f + length sc\<rparr>"
  let ?e = "f\<lparr>f_pos := length (f_bytes f), f_eof := True\<rparr>"
  let ?b = "sc @ u @ [255]"
  have u: "u \<noteq> []" "\<not> sublist [0, 0, 1] u" using assms(4) by (auto simp: unit_bytes_def)
  have pos: "f_pos f + length sc + length u = length (f_bytes f)"
    using arg_cong [OF assms(6), of length] u(1) by (cases u) auto
  obtain n1 where n1: "set_nalu ?b (length sc) (length u) n = Some n1" using assms(7) by (simp add: set_nalu_def)
  have "drop (f_pos f + length sc) (f_bytes f) = u"
    using assms(6) by (metis add.commute append_eq_conv_conj drop_drop)
  then have "scan_nalu ?f (sc @ []) (length sc) n = scan_nalu (?f\<lparr>f_pos := f_pos ?f + length u\<rparr>) (sc @ [] @ u) (length sc) n"
    using scan_inside [OF assms(3), of "[]" u ?f "[]" "length sc" n] assms(5,7) u(2) by simp
  also have "\<dots> = scan_nalu ?e ?b (length sc) n"
  proof -
    have l: "3 \<le> length (sc @ u)" using assms(3) by (auto simp: start_code_def)
    have "\<not> suffix [0, 0, 1] ?b" using suffix_snoc2 [of "[0, 0]" 1 "sc @ u" 255] by simp
    moreover from this have "\<not> suffix [0, 0, 0, 1] ?b" using suffix4_3 by blast
    ultimately have "\<not> is_start_code_3bit (drop (length ?b - 3) ?b)" "\<not> is_start_code_4bit (drop (length ?b - 4) ?b)"
      using start3_suffix [of ?b] start4_suffix [of ?b] l by simp_all
    then show ?thesis using assms(5,7) pos by (subst scan_nalu.simps) (simp add: c_fgetc_def Let_def)
  qed
  also have "\<dots> = scan_nalu (c_seek 0 f) ?b (length sc) n1"
    by (subst scan_eof) (simp_all add: c_seek_def n1)
  also have "\<dots> = Some (f\<lparr>f_pos := length sc0, f_eof := False\<rparr>, ?b @ sc0, length sc0, n1)"
    using scan_at_code [of "c_seek 0 f" ?b sc0 w] assms(1,2,7) by (simp add: c_seek_def Suc_le_eq)
      (use assms(3) in \<open>auto simp: start_code_def c_seek_def\<close>)
  finally have s: "scan_nalu ?f sc (length sc) n =
      Some (f\<lparr>f_pos := length sc0, f_eof := False\<rparr>, ?b @ sc0, length sc0, n1)" by simp
  have "set_nalu (?b @ sc0) (length sc) (length u) n1 =
      set_nalu (?b @ sc0) (length sc) (length u) n" by (rule set_nalu_twice [OF _ n1]) simp
  also have "\<dots> = Some (n\<lparr>forbidden_bit := and (hd u) 0x80, nal_reference_idc := and (hd u) 0x60,
        nal_unit_type := and (hd u) 0x1F, nalu_len := length u,
        nalu_buf := tl u @ 255 # drop (length u) (nalu_buf n)\<rparr>)"
    using set_nalu_unit [of "u @ [255]" sc sc0 n] u(1) assms(7) by simp
  finally show ?thesis
    using read_start [OF assms(3), of f u "[]" n] assms(5,6) s u(1)
    by (simp add: Let_def c_seek_def)
qed

theorem last_nalu_padded_and_looped_witness:
  "\<exists>n. get_one_NALU_payload \<lparr>f_bytes = [0, 0, 1, 0x65, 7], f_pos = 0, f_eof = False\<rparr> n =
     Some (\<lparr>f_bytes = [0, 0, 1, 0x65, 7], f_pos = 0, f_eof = False\<rparr>,
       n\<lparr>forbidden_bit := 0, nal_reference_idc := 0x60, nal_unit_type := 5, nalu_len := 2, nalu_buf := [7, 255]\<rparr>,
       ERR_NOERROR)"
proof -
  define n where "n = \<lparr>nalu_len = 0, max_size = MAX_FRAME_ZISE, forbidden_bit = 0, nal_reference_idc = 0, nal_unit_type = 0, nalu_buf = []\<rparr>"
  have u: "unit_bytes [0x65, 7]" by (simp add: unit_bytes_def sublist_code)
  from last_nalu_padded_and_looped [OF _ _ _ u, of "[0, 0, 1]" "\<lparr>f_bytes = [0, 0, 1, 0x65, 7], f_pos = 0, f_eof = False\<rparr>"
      "[0x65, 7]" "[0, 0, 1]" n]
  show ?thesis by (intro exI [of _ n]) (simp add: start_code_def n_def c_seek_def MAX_FRAME_ZISE_def)
qed

text \<open>A unit that fills the array before the next start code is read past its end.\<close>

theorem large_unit_overflows:
  assumes "start_code sc" and "\<not> sublist [0, 0, 1] u" and "u \<noteq> []" and "\<not> f_eof f"
    and "drop (f_pos f) (f_bytes f) = sc @ u @ rest" and "MAX_FRAME_ZISE < length sc + length u"
  shows "get_one_NALU_payload f n = None"
proof -
  let ?m = "MAX_FRAME_ZISE - length sc" and ?f = "f\<lparr>f_pos := f_pos f + length sc\<rparr>"
  have sc: "length sc < MAX_FRAME_ZISE" "3 \<le> length sc" using assms(1) by (auto simp: start_code_def MAX_FRAME_ZISE_def)
  define p where "p = take ?m u"
  define q where "q = drop ?m u"
  have u: "u = p @ q" "length p = ?m" "q \<noteq> []" using assms(6) sc by (auto simp: p_def q_def)
  have d: "drop (f_pos f + length sc) (f_bytes f) = p @ q @ rest"
    using assms(5) u(1) by (metis add.commute append_assoc append_eq_conv_conj drop_drop)
  have p: "\<not> sublist [0, 0, 1] ([] @ p)" using assms(2) u(1) sublist_prefix by auto
  let ?e = "f\<lparr>f_pos := f_pos f + length sc + length p\<rparr>"
  have "scan_nalu ?f (sc @ []) (length sc) n = scan_nalu ?e (sc @ [] @ p) (length sc) n"
    using scan_inside [OF assms(1) p, of ?f "q @ rest" "length sc" n] assms(4) d sc u(2) by (simp add: add.assoc)
  also have "\<dots> = None"
    using assms(4) sc u(2) by (subst scan_nalu.simps) (simp add: c_fgetc_def Let_def split: prod.split)
  finally have s: "scan_nalu ?f sc (length sc) n = None" by simp
  show ?thesis using read_start [OF assms(1) assms(5) assms(3) assms(4), of n] s by simp
qed

end
