(* ===== verification/Md5.thy ===== *)
theory Md5
  imports Fenice_Prelude
begin

text \<open>
  The message digest (\<^verbatim>\<open>md5/md5c.c\<close>) behind the random numbers of the server
  (\<^verbatim>\<open>src/random32.c\<close>). The code works on \<open>UINT4\<close>, which \<^verbatim>\<open>md5global.h\<close> defines as an
  \<^verbatim>\<open>unsigned long\<close>: 32 bits on some machines, 64 on others. The width is a parameter of the model. A message
  has less than \<open>2 ^ 32 - 64\<close> bytes, so that the index of the loop over its blocks does not wrap around.
\<close>

unbundle bit_operations_syntax

section \<open>The transformation\<close>

text \<open>Each step of a round reads one word of the block, rotates by \<open>s\<close> and adds a constant. The four macros differ in
  their function; the roles of the four state words rotate from a step to the next.\<close>

definition F :: "'w::len word \<Rightarrow> 'w word \<Rightarrow> 'w word \<Rightarrow> 'w word" where
  "F x y z = (x AND y) OR (NOT x AND z)"

definition G :: "'w::len word \<Rightarrow> 'w word \<Rightarrow> 'w word \<Rightarrow> 'w word" where
  "G x y z = (x AND z) OR (y AND NOT z)"

definition H :: "'w::len word \<Rightarrow> 'w word \<Rightarrow> 'w word \<Rightarrow> 'w word" where
  "H x y z = x XOR y XOR z"

definition I :: "'w::len word \<Rightarrow> 'w word \<Rightarrow> 'w word \<Rightarrow> 'w word" where
  "I x y z = y XOR (x OR NOT z)"

definition ROTATE_LEFT :: "'w::len word \<Rightarrow> nat \<Rightarrow> 'w word" where
  "ROTATE_LEFT x n = push_bit n x OR drop_bit (32 - n) x"

definition md5_round1 :: "(nat \<times> nat \<times> 'w::len word) list" where
  "md5_round1 =
    [(0, 7, 0xD76AA478), (1, 12, 0xE8C7B756), (2, 17, 0x242070DB), (3, 22, 0xC1BDCEEE),
     (4, 7, 0xF57C0FAF), (5, 12, 0x4787C62A), (6, 17, 0xA8304613), (7, 22, 0xFD469501),
     (8, 7, 0x698098D8), (9, 12, 0x8B44F7AF), (10, 17, 0xFFFF5BB1), (11, 22, 0x895CD7BE),
     (12, 7, 0x6B901122), (13, 12, 0xFD987193), (14, 17, 0xA679438E), (15, 22, 0x49B40821)]"

definition md5_round2 :: "(nat \<times> nat \<times> 'w::len word) list" where
  "md5_round2 =
    [(1, 5, 0xF61E2562), (6, 9, 0xC040B340), (11, 14, 0x265E5A51), (0, 20, 0xE9B6C7AA),
     (5, 5, 0xD62F105D), (10, 9, 0x2441453), (15, 14, 0xD8A1E681), (4, 20, 0xE7D3FBC8),
     (9, 5, 0x21E1CDE6), (14, 9, 0xC33707D6), (3, 14, 0xF4D50D87), (8, 20, 0x455A14ED),
     (13, 5, 0xA9E3E905), (2, 9, 0xFCEFA3F8), (7, 14, 0x676F02D9), (12, 20, 0x8D2A4C8A)]"

definition md5_round3 :: "(nat \<times> nat \<times> 'w::len word) list" where
  "md5_round3 =
    [(5, 4, 0xFFFA3942), (8, 11, 0x8771F681), (11, 16, 0x6D9D6122), (14, 23, 0xFDE5380C),
     (1, 4, 0xA4BEEA44), (4, 11, 0x4BDECFA9), (7, 16, 0xF6BB4B60), (10, 23, 0xBEBFBC70),
     (13, 4, 0x289B7EC6), (0, 11, 0xEAA127FA), (3, 16, 0xD4EF3085), (6, 23, 0x4881D05),
     (9, 4, 0xD9D4D039), (12, 11, 0xE6DB99E5), (15, 16, 0x1FA27CF8), (2, 23, 0xC4AC5665)]"

definition md5_round4 :: "(nat \<times> nat \<times> 'w::len word) list" where
  "md5_round4 =
    [(0, 6, 0xF4292244), (7, 10, 0x432AFF97), (14, 15, 0xAB9423A7), (5, 21, 0xFC93A039),
     (12, 6, 0x655B59C3), (3, 10, 0x8F0CCC92), (10, 15, 0xFFEFF47D), (1, 21, 0x85845DD1),
     (8, 6, 0x6FA87E4F), (15, 10, 0xFE2CE6E0), (6, 15, 0xA3014314), (13, 21, 0x4E0811A1),
     (4, 6, 0xF7537E82), (11, 10, 0xBD3AF235), (2, 15, 0x2AD7D2BB), (9, 21, 0xEB86D391)]"


type_synonym 'v md5_state = "'v \<times> 'v \<times> 'v \<times> 'v"

definition md5_step ::
    "('w::len word \<Rightarrow> 'w word \<Rightarrow> 'w word \<Rightarrow> 'w word) \<Rightarrow> 'w word list \<Rightarrow> nat \<times> nat \<times> 'w word \<Rightarrow> 'w word md5_state \<Rightarrow> 'w word md5_state" where
  "md5_step f x row st =
    (case (row, st) of ((k, s, ac), (a, b, c, d)) \<Rightarrow> (d, ROTATE_LEFT (a + (f b c d + x ! k + ac)) s + b, b, c))"

definition Encode :: "'w::len word list \<Rightarrow> uint8 list" where
  "Encode ws = concat (map (\<lambda>w. map (\<lambda>n. ucast (drop_bit n w)) [0, 8, 16, 24]) ws)"

text \<open>Every four bytes make a word.\<close>

fun Decode :: "uint8 list \<Rightarrow> 'w::len word list" where
  "Decode (b0 # b1 # b2 # b3 # bs) =
     (ucast b0 OR push_bit 8 (ucast b1) OR push_bit 16 (ucast b2) OR push_bit 24 (ucast b3)) # Decode bs"
| "Decode bs = []"

definition MD5Transform :: "'w::len word md5_state \<Rightarrow> uint8 list \<Rightarrow> 'w word md5_state" where
  "MD5Transform st block =
    (let x = Decode block;
         (a, b, c, d) = fold (md5_step I x) md5_round4 (fold (md5_step H x) md5_round3
                          (fold (md5_step G x) md5_round2 (fold (md5_step F x) md5_round1 st)))
     in case st of (a0, b0, c0, d0) \<Rightarrow> (a0 + a, b0 + b, c0 + c, d0 + d))"

section \<open>The context\<close>

record 'v MD5_CTX =
  md_state :: "'v md5_state"
  count0 :: 'v
  count1 :: 'v
  md_buffer :: "uint8 list"

text \<open>\<open>junk\<close> is what the buffer holds before anything is written to it.\<close>

definition MD5Init :: "uint8 list \<Rightarrow> 'w::len word MD5_CTX" where
  "MD5Init junk =
    \<lparr>md_state = (0x67452301, 0xEFCDAB89, 0x98BADCFE, 0x10325476), count0 = 0, count1 = 0, md_buffer = junk\<rparr>"

text \<open>The loop over the whole blocks, with what is left.\<close>

function md5_blocks :: "'w::len word md5_state \<Rightarrow> uint8 list \<Rightarrow> 'w word md5_state \<times> uint8 list" where
  "md5_blocks st xs = (if 64 \<le> length xs then md5_blocks (MD5Transform st (take 64 xs)) (drop 64 xs) else (st, xs))"
  by pat_completeness auto
termination by (relation "measure (\<lambda>(st, xs). length xs)") auto

declare md5_blocks.simps [simp del]

definition MD5Update :: "uint8 list \<Rightarrow> 'w::len word MD5_CTX \<Rightarrow> 'w word MD5_CTX" where
  "MD5Update input ctx =
    (let index = unat (drop_bit 3 (count0 ctx) AND 0x3F);
         n = length input; len = (of_nat n :: uint32);
         bits = push_bit 3 (ucast len);
         c0 = count0 ctx + bits;
         c1 = (if c0 < bits then count1 ctx + 1 else count1 ctx) + drop_bit 29 (ucast len);
         ctx1 = ctx\<lparr>count0 := c0, count1 := c1\<rparr>;
         part_len = 64 - index
     in if part_len \<le> n
        then (let block = take index (md_buffer ctx) @ take part_len input;
                  (st, rest) = md5_blocks (MD5Transform (md_state ctx) block) (drop part_len input)
              in ctx1\<lparr>md_state := st, md_buffer := rest @ drop (length rest) block\<rparr>)
        else ctx1\<lparr>md_buffer := take index (md_buffer ctx) @ input @ drop (index + n) (md_buffer ctx)\<rparr>)"

definition PADDING :: "uint8 list" where
  "PADDING = 0x80 # replicate 63 0"

definition MD5Final :: "'w::len word MD5_CTX \<Rightarrow> uint8 list" where
  "MD5Final ctx =
    (let bits = Encode [count0 ctx, count1 ctx];
         index = unat (drop_bit 3 (count0 ctx) AND 0x3F);
         pad_len = (if index < 56 then 56 - index else 120 - index)
     in case md_state (MD5Update bits (MD5Update (take pad_len PADDING) ctx)) of (a, b, c, d) \<Rightarrow> Encode [a, b, c, d])"

section \<open>Random numbers\<close>

text \<open>Only the first three of the four words of the digest are combined. \<open>s\<close> are the bytes of the structure with the
  time, the process and the machine.\<close>

definition md_32 :: "uint8 list \<Rightarrow> 'w::len itself \<Rightarrow> uint8 list \<Rightarrow> uint32" where
  "md_32 junk _ s =
    (let x = (Decode (MD5Final (MD5Update s (MD5Init junk :: 'w word MD5_CTX))) :: uint32 list)
     in fold (\<lambda>i r. r XOR x ! i) [0..<3] 0)"

definition random32 :: "uint8 list \<Rightarrow> 'w::len itself \<Rightarrow> uint8 list \<Rightarrow> uint32" where
  "random32 junk w s = md_32 junk w s"

section \<open>The incremental code computes the digest of the padded message\<close>

text \<open>The reference: the message, a one bit, zeros up to eight bytes before the end of a block, the number of bits;
  then one transformation for each block.\<close>

definition md5_pad :: "uint8 list \<Rightarrow> uint8 list" where
  "md5_pad m = m @ [0x80] @ replicate ((119 - length m mod 64) mod 64) 0 @ Encode [of_nat (8 * length m) :: uint32, 0]"

definition blocks_of :: "uint8 list \<Rightarrow> uint8 list list" where
  "blocks_of xs = map (\<lambda>i. take 64 (drop (64 * i) xs)) [0..<length xs div 64]"

definition md5_reference :: "'w::len itself \<Rightarrow> uint8 list \<Rightarrow> uint8 list" where
  "md5_reference _ m =
    (case foldl MD5Transform (md_state (MD5Init [] :: 'w word MD5_CTX)) (blocks_of (md5_pad m)) of
       (a, b, c, d) \<Rightarrow> Encode [a, b, c, d])"

lemma blocks_short: "length xs < 64 \<Longrightarrow> md5_blocks st xs = (st, xs)"
  by (subst md5_blocks.simps) simp

lemma blocks_step: "64 \<le> length xs \<Longrightarrow> md5_blocks st xs = md5_blocks (MD5Transform st (take 64 xs)) (drop 64 xs)"
  by (subst md5_blocks.simps) simp

lemma blocks_fold: "fst (md5_blocks st xs) = foldl MD5Transform st (blocks_of xs)"
proof (induction st xs rule: md5_blocks.induct)
  case (1 st xs)
  show ?case
  proof (cases "64 \<le> length xs")
    case True
    then obtain k where k: "length xs = 64 + k" using le_Suc_ex by blast
    have "[0..<Suc (k div 64)] = 0 # map Suc [0..<k div 64]" by (simp add: upt_conv_Cons map_Suc_upt del: upt_Suc)
    then have "blocks_of xs = take 64 xs # blocks_of (drop 64 xs)"
      by (simp add: blocks_of_def k add.commute del: upt_Suc)
    then show ?thesis using "1.IH" [OF True] blocks_step [OF True, of st] by simp
  next
    case False
    then show ?thesis by (simp add: blocks_short blocks_of_def)
  qed
qed

lemma blocks_append: "md5_blocks st (xs @ ys) = (case md5_blocks st xs of (st', rest) \<Rightarrow> md5_blocks st' (rest @ ys))"
proof (induction st xs rule: md5_blocks.induct)
  case (1 st xs)
  show ?case
  proof (cases "64 \<le> length xs")
    case True
    then show ?thesis using "1.IH" [OF True] by (simp add: blocks_step)
  next
    case False
    then show ?thesis by (simp add: blocks_short)
  qed
qed

lemma blocks_rest: "length (snd (md5_blocks st xs)) = length xs mod 64"
proof (induction st xs rule: md5_blocks.induct)
  case (1 st xs)
  show ?case
  proof (cases "64 \<le> length xs")
    case True
    then obtain k where "length xs = 64 + k" using le_Suc_ex by blast
    then show ?thesis using "1.IH" [OF True] blocks_step [OF True, of st] by simp
  qed (simp add: blocks_short)
qed

text \<open>What a context stands for: the message so far. The rest of the buffer is of no concern.\<close>

definition holds :: "uint8 list \<Rightarrow> 'w::len word MD5_CTX \<Rightarrow> bool" where
  "holds m ctx \<longleftrightarrow> length m < 2 ^ 29 \<and> length (md_buffer ctx) = 64 \<and>
     count0 ctx = of_nat (8 * length m) \<and> count1 ctx = 0 \<and>
     md5_blocks (md_state (MD5Init [] :: 'w word MD5_CTX)) m = (md_state ctx, take (length m mod 64) (md_buffer ctx))"

lemma holds_init: "length junk = 64 \<Longrightarrow> holds [] (MD5Init junk)"
  by (simp add: holds_def blocks_short MD5Init_def)

lemma unat_small: "k < 2 ^ LENGTH('w) \<Longrightarrow> unat (of_nat k :: 'w::len word) = k"
  by (simp add: unat_of_nat take_bit_eq_mod)

lemma index_of:
  fixes ctx :: "'w::len word MD5_CTX"
  assumes "holds m ctx" and "32 \<le> LENGTH('w)"
  shows "unat (drop_bit 3 (count0 ctx) AND 0x3F) = length m mod 64"
proof -
  define N where "N = 8 * length m"
  have c: "count0 ctx = of_nat N" using assms(1) by (simp add: holds_def N_def)
  have "N < 2 ^ 32" using assms(1) by (simp add: holds_def N_def)
  also have "(2::nat) ^ 32 \<le> 2 ^ LENGTH('w)" using assms(2) by (rule power_increasing) simp
  finally have u: "unat (of_nat N :: 'w word) = N" by (rule unat_small)
  have "(0x3F :: 'w word) = mask 6" by (simp add: mask_eq_exp_minus_1)
  then have "unat (drop_bit 3 (count0 ctx) AND 0x3F) = unat (take_bit 6 (drop_bit 3 (of_nat N :: 'w word)))"
    by (simp add: c take_bit_eq_mask)
  also have "\<dots> = take_bit 6 (drop_bit 3 (unat (of_nat N :: 'w word)))"
    by (simp add: unsigned_take_bit_eq unsigned_drop_bit_eq take_bit_nat_eq_self del: of_nat_unat)
  also have "\<dots> = length m mod 64" unfolding u by (simp add: N_def drop_bit_eq_div take_bit_eq_mod)
  finally show ?thesis .
qed

lemma counts:
  fixes c0 :: "'w::len word"
  assumes "a + n < 2 ^ 29" and "32 \<le> LENGTH('w)" and "c0 = of_nat (8 * a)"
  shows "c0 + push_bit 3 (ucast (of_nat n :: uint32)) = of_nat (8 * (a + n))"
    and "\<not> c0 + push_bit 3 (ucast (of_nat n :: uint32)) < (push_bit 3 (ucast (of_nat n :: uint32)) :: 'w word)"
    and "drop_bit 29 (ucast (of_nat n :: uint32)) = (0 :: 'w word)"
proof -
  have pw: "(2::nat) ^ 32 \<le> 2 ^ LENGTH('w)" using assms(2) by (rule power_increasing) simp
  have n: "unat (of_nat n :: uint32) = n" using assms(1) by (intro unat_small) simp
  have uc: "(ucast (of_nat n :: uint32) :: 'w word) = of_nat n"
    by (metis n of_nat_unat)
  show sum: "c0 + push_bit 3 (ucast (of_nat n :: uint32)) = of_nat (8 * (a + n))"
    by (simp add: assms(3) uc push_bit_eq_mult algebra_simps)
  have p3: "(push_bit 3 (ucast (of_nat n :: uint32)) :: 'w word) = of_nat (8 * n)" by (simp add: uc push_bit_eq_mult)
  have b: "8 * (a + n) < 2 ^ LENGTH('w)" "8 * n < 2 ^ LENGTH('w)" "n < 2 ^ LENGTH('w)" using pw assms(1) by simp_all
  show "\<not> c0 + push_bit 3 (ucast (of_nat n :: uint32)) < (push_bit 3 (ucast (of_nat n :: uint32)) :: 'w word)"
    unfolding sum unfolding p3 word_less_nat_alt unat_small [OF b(1)] unat_small [OF b(2)] by simp
  have "unat (drop_bit 29 (of_nat n :: 'w word)) = drop_bit 29 (unat (of_nat n :: 'w word))" 
    unfolding unsigned_drop_bit_eq unat_small [OF b(3)] using b(3) by (simp add: take_bit_nat_eq_self)
  also have "\<dots> = 0" unfolding unat_small [OF b(3)] using assms(1) by (simp add: drop_bit_eq_div)
  finally show "drop_bit 29 (ucast (of_nat n :: uint32)) = (0 :: 'w word)" unfolding uc by (simp add: unat_eq_zero)
qed

lemma holds_update:
  fixes ctx :: "'w::len word MD5_CTX"
  assumes h: "holds m ctx" and w: "32 \<le> LENGTH('w)" and len: "length (m @ input) < 2 ^ 29"
  shows "holds (m @ input) (MD5Update input ctx)"
proof -
  let ?i = "length m mod 64" and ?r = "take (length m mod 64) (md_buffer ctx)"
  let ?st = "md5_blocks (md_state (MD5Init [] :: 'w word MD5_CTX))"
  have L: "length (md_buffer ctx) = 64" and B: "?st m = (md_state ctx, ?r)" using h by (simp_all add: holds_def)
  have run: "?st (m @ input) = md5_blocks (md_state ctx) (?r @ input)"
    by (simp only: blocks_append [of _ m input] B split_conv)
  have c: "count0 ctx = of_nat (8 * length m)" "count1 ctx = 0" using h by (simp_all add: holds_def)
  have len2: "length m + length input < 2 ^ 29" using len by simp
  note cs = counts [OF len2 w c(1)]
  note idx = index_of [OF h w]
  show ?thesis
  proof (cases "64 - ?i \<le> length input")
    case True
    define block where "block = ?r @ take (64 - ?i) input"
    have bl: "length block = 64" using True L by (simp add: block_def)
    obtain st rest where run2: "md5_blocks (MD5Transform (md_state ctx) block) (drop (64 - ?i) input) = (st, rest)" by fastforce
    have "take 64 (?r @ input) = block" "drop 64 (?r @ input) = drop (64 - ?i) input" "64 \<le> length (?r @ input)"
      using True L by (simp_all add: block_def min_absorb1 less_imp_le)
    then have run3: "?st (m @ input) = (st, rest)" unfolding run using run2 by (simp add: blocks_step)
    have "length rest = length (m @ input) mod 64" using blocks_rest [of "md_state (MD5Init [] :: 'w word MD5_CTX)" "m @ input"] by (simp add: run3)
    moreover have "length rest < 64" using calculation by simp
    moreover have "MD5Update input ctx = ctx\<lparr>count0 := of_nat (8 * (length m + length input)), count1 := 0, md_state := st,
        md_buffer := rest @ drop (length rest) block\<rparr>"
      unfolding MD5Update_def Let_def idx block_def [symmetric] using True run2 cs c by simp
    ultimately show ?thesis using run3 bl len unfolding holds_def by simp
  next
    case False
    then have small: "?i + length input < 64" by simp
    then have "(length m + length input) mod 64 = ?i + length input" by (metis mod_add_left_eq mod_less)
    moreover have "?st (m @ input) = (md_state ctx, ?r @ input)" unfolding run using small L by (intro blocks_short) simp
    moreover have "MD5Update input ctx = ctx\<lparr>count0 := of_nat (8 * (length m + length input)), count1 := 0,
        md_buffer := ?r @ input @ drop (?i + length input) (md_buffer ctx)\<rparr>"
      unfolding MD5Update_def Let_def idx using False cs c by simp
    ultimately show ?thesis using len L small unfolding holds_def by simp
  qed
qed

lemma holds_updates:
  fixes ctx :: "'w::len word MD5_CTX"
  assumes "32 \<le> LENGTH('w)"
  shows "holds m ctx \<Longrightarrow> length (m @ concat ms) < 2 ^ 29 \<Longrightarrow> holds (m @ concat ms) (fold MD5Update ms ctx)"
proof (induction ms arbitrary: m ctx)
  case (Cons x xs)
  have "holds (m @ x) (MD5Update x ctx)" using Cons.prems by (intro holds_update [OF _ assms]) simp_all
  then show ?case using Cons.IH [of "m @ x" "MD5Update x ctx"] Cons.prems by simp
qed simp

text \<open>Only the low 32 bits of a word are encoded.\<close>

lemma byte_of_nat: "n < 2 ^ LENGTH('w) \<Longrightarrow> (ucast (drop_bit j (of_nat n :: 'w::len word)) :: uint8) = of_nat (drop_bit j n)"
proof -
  assume n: "n < 2 ^ LENGTH('w)"
  have "unat (drop_bit j (of_nat n :: 'w word)) = drop_bit j n"
    unfolding unsigned_drop_bit_eq unat_small [OF n] using n by (simp add: take_bit_nat_eq_self)
  then show ?thesis by (metis of_nat_unat)
qed

lemma encode_width:
  assumes "32 \<le> LENGTH('w)" and "n < 2 ^ 32"
  shows "Encode [of_nat n :: 'w::len word, 0] = Encode [of_nat n :: uint32, 0]"
proof -
  have "(2::nat) ^ 32 \<le> 2 ^ LENGTH('w)" using assms(1) by (rule power_increasing) simp
  then have "n < 2 ^ LENGTH('w)" using assms(2) by simp
  note bytes = byte_of_nat [OF this] byte_of_nat [of n, where 'w = 32, simplified, OF assms(2) [simplified]]
  show ?thesis unfolding Encode_def list.map bytes by simp
qed

lemma pad_arith:
  fixes n :: nat
  defines "k \<equiv> if n mod 64 < 56 then 56 - n mod 64 else 120 - n mod 64"
  shows "k \<le> 64" and "0 < k" and "k - 1 = (119 - n mod 64) mod 64" and "(n + k) mod 64 = 56"
proof -
  define q r where "q = n div 64" and "r = n mod 64"
  have n: "n = 64 * q + r" and r: "r < 64" by (simp_all add: q_def r_def)
  have k: "k = (if r < 56 then 56 - r else 120 - r)" by (simp add: k_def r_def)
  show "k \<le> 64" "0 < k" using r by (auto simp: k)
  have "(55 - r + 64) mod 64 = 55 - r" if "r < 56" by (subst mod_add_self2) simp
  moreover have "r < 56 \<Longrightarrow> 55 - r + 64 = 119 - r" by simp
  ultimately show "k - 1 = (119 - n mod 64) mod 64"
    unfolding r_def [symmetric] using r by (cases "r < 56") (simp_all add: k)
  have "n + k = 56 + 64 * (if r < 56 then q else Suc q)" using r by (simp add: k n)
  then show "(n + k) mod 64 = 56" by simp
qed

lemma final_pads:
  fixes ctx :: "'w::len word MD5_CTX"
  assumes h: "holds m ctx" and w: "32 \<le> LENGTH('w)" and len: "length m < 2 ^ 28"
  shows "MD5Final ctx = md5_reference TYPE('w) m"
proof -
  let ?st = "md5_blocks (md_state (MD5Init [] :: 'w word MD5_CTX))"
  define k where "k = (if length m mod 64 < 56 then 56 - length m mod 64 else 120 - length m mod 64)"
  define bits where "bits = Encode [count0 ctx, count1 ctx]"
  have k: "k \<le> 64" "0 < k" "k - 1 = (119 - length m mod 64) mod 64" "(length m + k) mod 64 = 56"
    unfolding k_def by (rule pad_arith)+
  have count: "count0 ctx = of_nat (8 * length m)" "count1 ctx = 0" using h by (simp_all add: holds_def)
  have "take k PADDING = 0x80 # replicate (k - 1) 0" using k(1,2) by (cases k) (simp_all add: PADDING_def min_def)
  moreover have "bits = Encode [of_nat (8 * length m) :: uint32, 0]" unfolding bits_def count using w len by (intro encode_width) simp_all
  ultimately have pad: "md5_pad m = (m @ take k PADDING) @ bits" unfolding md5_pad_def k(3) [symmetric] by simp
  have bl: "length bits = 8" by (simp add: bits_def Encode_def)
  have "holds ((m @ take k PADDING) @ bits) (MD5Update bits (MD5Update (take k PADDING) ctx))"
    using len k(1) bl by (intro holds_update h w) (simp_all add: PADDING_def)
  moreover have "length ((m @ take k PADDING) @ bits) mod 64 = 0"
    using k(1,4) bl mod_add_left_eq [of "length m + k" 64 8] by (simp add: PADDING_def add.assoc)
  ultimately have "?st (md5_pad m) = (md_state (MD5Update bits (MD5Update (take k PADDING) ctx)), [])"
    unfolding pad holds_def by simp
  then have "md_state (MD5Update bits (MD5Update (take k PADDING) ctx)) = fst (?st (md5_pad m))" by simp
  then show ?thesis
    unfolding MD5Final_def md5_reference_def index_of [OF h w] Let_def k_def [symmetric] bits_def [symmetric]
    by (simp only: blocks_fold)
qed

section \<open>Properties\<close>

text \<open>C7: However a message of less than \<open>2 ^ 28\<close> bytes is cut into pieces for \<open>MD5Update\<close>, and whatever the
  uninitialised buffer held, the incremental code computes the digest that the reference defines: the transformation
  of the blocks of the padded message, one after the other.\<close>
theorem md5_any_chunks:
  assumes "32 \<le> LENGTH('w::len)" and "length (concat ms) < 2 ^ 28" and "length junk = 64"
  shows "MD5Final (fold MD5Update ms (MD5Init junk :: 'w word MD5_CTX)) = md5_reference TYPE('w) (concat ms)"
proof -
  have "holds ([] @ concat ms) (fold MD5Update ms (MD5Init junk :: 'w word MD5_CTX))"
    using assms(2) by (intro holds_updates assms(1) holds_init assms(3)) simp
  then show ?thesis using final_pads [OF _ assms(1,2)] by simp
qed

theorem md5_any_chunks_witness:
  "MD5Final (fold MD5Update [[97], [], [98, 99]] (MD5Init (replicate 64 7) :: 32 word MD5_CTX)) =
     md5_reference TYPE(32) [97, 98, 99]"
  using md5_any_chunks [where 'w = 32, of "[[97], [], [98, 99]]" "replicate 64 7"] by simp

text \<open>The code computes MD5 only where an \<^verbatim>\<open>unsigned long\<close> has 32 bits: there the empty message has the digest of
  RFC 1321 (D4 1D 8C D9 and so on). Where it has 64 bits, the rotation keeps the high half and the digest is another one.\<close>
theorem md5_width:
  "MD5Final (MD5Init (replicate 64 0) :: 32 word MD5_CTX) =
      [0xD4, 0x1D, 0x8C, 0xD9, 0x8F, 0x00, 0xB2, 0x04, 0xE9, 0x80, 0x09, 0x98, 0xEC, 0xF8, 0x42, 0x7E] \<and>
   MD5Final (MD5Init (replicate 64 0) :: 64 word MD5_CTX) \<noteq>
      [0xD4, 0x1D, 0x8C, 0xD9, 0x8F, 0x00, 0xB2, 0x04, 0xE9, 0x80, 0x09, 0x98, 0xEC, 0xF8, 0x42, 0x7E]"
  by code_simp

end
