(* ===== verification/Mp3_Reader.thy ===== *)
theory Mp3_Reader
  imports Media_Types
begin

text \<open>
  What the readers of elementary streams share, and the reader of MPEG audio
  (\<^verbatim>\<open>mediainfo/read_MP3.c\<close>). These readers call \<open>read\<close> and \<open>lseek\<close> on the descriptor of the entry; the open
  file behind the descriptor, its bytes and the position, is kept in \<open>media_stat\<close>. Also here is the code for
  the length of an ID3 tag that nothing calls any more (\<^verbatim>\<open>mediainfo/calculate_skip.c\<close>, \<^verbatim>\<open>read_dim.c\<close>).
\<close>

section \<open>Files behind a descriptor\<close>

record os_file =
  file_bytes :: "uint8 list"
  file_pos :: nat

definition fd_read :: "nat \<Rightarrow> os_file \<Rightarrow> uint8 list \<times> os_file" where
  "fd_read n f = (let got = take n (drop (file_pos f) (file_bytes f)) in (got, f\<lparr>file_pos := file_pos f + length got\<rparr>))"

text \<open>\<open>lseek\<close> to a negative position fails and leaves the position.\<close>

definition fd_seek :: "int \<Rightarrow> os_file \<Rightarrow> os_file" where
  "fd_seek n f = (if 0 \<le> n then f\<lparr>file_pos := nat n\<rparr> else f)"

lemma fd_read_whole: "drop (file_pos f) (file_bytes f) = xs @ ys \<Longrightarrow> fd_read (length xs) f = (xs, f\<lparr>file_pos := file_pos f + length xs\<rparr>)"
  by (simp add: fd_read_def)

section \<open>MPEG audio\<close>

text \<open>The bytes of a frame, as the header read by \<open>load_MPA\<close> promises them.\<close>

definition mp3_len :: "media_descr \<Rightarrow> int" where
  "mp3_len d = c_trunc (real_of_int (frame_len d) * real_of_int (bitrate d) / real_of_int (sample_rate d) / 8)"

definition mp3_padding :: "uint8 list \<Rightarrow> int" where
  "mp3_padding b = (if b ! 0 = 0xFF \<and> and (b ! 1) 0xE0 = 0xE0 \<and> and (b ! 2) 0x02 \<noteq> 0 then 1 else 0)"

text \<open>\<open>junk\<close> is what the slot's memory held. \<open>None\<close> is a
  write past the end of the entry's ten byte buffer or of the slot, or a division by a sample rate of zero. A negative
  count makes \<open>read\<close> deliver as much as it can.\<close>

definition mp3_read :: "uint8 list \<Rightarrow> os_file media_entry \<Rightarrow> os_file \<Rightarrow> cdouble \<Rightarrow> os_file read_result option" where
  "mp3_read junk me f mt =
    (let d = description me;
         off = unat (buff_size me);
         (h, f1) = fd_read 4 f;
         buff = take off (buff_data me) @ h @ drop (off + length h) (buff_data me)
     in if length (buff_data me) < off + length h then None
        else if length h \<noteq> 4
        then Some \<lparr>rd_me = me\<lparr>buff_data := buff, media_stat := Some f1\<rparr>, rd_res = ERR_EOF, rd_data = None, rd_mtime = mt,
                    rd_recall = False, rd_marker = 0\<rparr>
        else if sample_rate d = 0 then None
        else
          (let N = mp3_len d + mp3_padding buff;
               (got, f2) = fd_read (if 4 \<le> N then nat (N - 4) else 0x7FFFF000) f1;
               written = [0, 0, 0, 0] @ take 4 buff @ got;
               fin = \<lparr>rd_me = me\<lparr>buff_data := buff, buff_size := 0, media_stat := Some f2\<rparr>, rd_res = ERR_NOERROR,
                       rd_data = Some written, rd_mtime = mt, rd_recall = False, rd_marker = 0\<rparr>
           in if OMSSLOT_DATASIZE < length written \<or> N + 4 < 0 then None
              else if int (length got) < N - 4
              then (if got = [] then Some (fin\<lparr>rd_res := ERR_EOF, rd_data := Some (take (nat (N + 4)) (written @ drop 8 junk))\<rparr>)
                    else Some fin)
              else Some (fin\<lparr>rd_data := Some (take (nat (N + 4)) written)\<rparr>)))"

text \<open>Moving to another position comes first.\<close>

definition mp3_packet :: "uint8 list \<Rightarrow> os_file media_entry \<Rightarrow> cdouble \<Rightarrow> os_file read_result option" where
  "mp3_packet junk me mt =
    do {
      f \<leftarrow> media_stat me;
      let d = description me;
      if play_offset me \<noteq> - 1 \<and> msource d \<noteq> live
      then mp3_read junk (me\<lparr>play_offset := - 1\<rparr>) (fd_seek (c_trunc (real_of_int (bitrate d) / 8 * play_offset me / 1000)) f) mt
      else mp3_read junk me f mt
    }"

text \<open>\<open>read_MP3\<close> opens the file on the first call; \<open>bytes\<close> are its contents.\<close>

definition read_MP3 ::
    "string \<Rightarrow> os_files \<Rightarrow> uint8 list \<Rightarrow> uint8 list \<Rightarrow> os_file media_entry \<Rightarrow> cdouble \<Rightarrow> os_file read_result option" where
  "read_MP3 rootdir os junk bytes me mt =
    (let opened =
       (if \<not> has_flag (me_flags me) ME_FD
        then (let (me1, ret) = mediaopen rootdir os me
              in if ret < 0 then Inl \<lparr>rd_me = me1, rd_res = ret, rd_data = None, rd_mtime = mt, rd_recall = False, rd_marker = 0\<rparr>
                 else Inr (me1\<lparr>media_stat := Some \<lparr>file_bytes = bytes, file_pos = 0\<rparr>\<rparr>))
        else Inr me)
     in case opened of
          Inl r \<Rightarrow> Some r
        | Inr me1 \<Rightarrow> mp3_packet junk me1 mt)"

text \<open>A number of calls of a reader: the data they deliver and the entry they leave.\<close>

fun read_calls ::
    "('st media_entry \<Rightarrow> cdouble \<Rightarrow> 'st read_result option) \<Rightarrow> nat \<Rightarrow> 'st media_entry \<Rightarrow> cdouble \<Rightarrow>
     (uint8 list list \<times> 'st media_entry) option" where
  "read_calls rd 0 me mt = Some ([], me)"
| "read_calls rd (Suc n) me mt =
    do {
      r \<leftarrow> rd me mt;
      d \<leftarrow> (if rd_res r = ERR_NOERROR then rd_data r else None);
      (ds, me') \<leftarrow> read_calls rd n (rd_me r) (rd_mtime r);
      Some (d # ds, me')
    }"

text \<open>A file made of frames, each as long as its own header and the description tell, and a reader standing at
  the beginning of one of them.\<close>

definition mp3_frame :: "media_descr \<Rightarrow> uint8 list \<Rightarrow> bool" where
  "mp3_frame d f \<longleftrightarrow> 4 \<le> length f \<and> length f + 4 \<le> OMSSLOT_DATASIZE \<and> int (length f) = mp3_len d + mp3_padding f"

definition mp3_ready :: "os_file media_entry \<Rightarrow> uint8 list \<Rightarrow> bool" where
  "mp3_ready me rest \<longleftrightarrow> has_flag (me_flags me) ME_FD \<and> play_offset me = - 1 \<and> buff_size me = 0 \<and>
     length (buff_data me) = 10 \<and> sample_rate (description me) \<noteq> 0 \<and>
     (\<exists>f. media_stat me = Some f \<and> drop (file_pos f) (file_bytes f) = rest)"

lemma mp3_step:
  assumes rd: "mp3_ready me (f @ rest)" and f: "mp3_frame (description me) f"
  shows "\<exists>me'. read_MP3 rootdir os junk bytes me mt =
      Some \<lparr>rd_me = me', rd_res = ERR_NOERROR, rd_data = Some ([0, 0, 0, 0] @ f), rd_mtime = mt, rd_recall = False, rd_marker = 0\<rparr> \<and>
    mp3_ready me' rest \<and> description me' = description me"
proof -
  obtain h g where fh: "f = h @ g" "length h = 4" using f by (metis append_take_drop_id length_take min_absorb2 mp3_frame_def)
  obtain fl where fl: "media_stat me = Some fl" "drop (file_pos fl) (file_bytes fl) = f @ rest" using rd by (auto simp: mp3_ready_def)
  define buff where "buff = h @ drop 4 (buff_data me)"
  define f1 where "f1 = fl\<lparr>file_pos := file_pos fl + 4\<rparr>"
  define f2 where "f2 = f1\<lparr>file_pos := file_pos fl + length f\<rparr>"
  have r1: "fd_read 4 fl = (h, f1)" using fl(2) fh fd_read_whole [of fl h "g @ rest"] by (simp add: f1_def)
  have "drop (file_pos f1) (file_bytes f1) = drop 4 (drop (file_pos fl) (file_bytes fl))" by (simp add: f1_def add.commute)
  also have "\<dots> = g @ rest" unfolding fl(2) using fh by simp
  finally have g: "drop (file_pos f1) (file_bytes f1) = g @ rest" .
  then have r2: "fd_read (length g) f1 = (g, f2)" using fd_read_whole [OF g] fh by (simp add: f2_def f1_def)
  have "drop (file_pos f2) (file_bytes f2) = drop (length f) (drop (file_pos fl) (file_bytes fl))" by (simp add: f2_def f1_def add.commute)
  then have next_pos: "drop (file_pos f2) (file_bytes f2) = rest" unfolding fl(2) by simp
  have "mp3_padding buff = mp3_padding f" using fh by (simp add: mp3_padding_def buff_def nth_append)
  then have N: "mp3_len (description me) + mp3_padding buff = int (length g) + 4" using f fh by (simp add: mp3_frame_def)
  have small: "length g + 8 \<le> OMSSLOT_DATASIZE" using f fh by (simp add: mp3_frame_def)
  let ?me' = "me\<lparr>buff_data := buff, buff_size := 0, media_stat := Some f2\<rparr>"
  have "read_MP3 rootdir os junk bytes me mt =
      Some \<lparr>rd_me = ?me', rd_res = ERR_NOERROR, rd_data = Some ([0, 0, 0, 0] @ f), rd_mtime = mt, rd_recall = False, rd_marker = 0\<rparr>"
    using rd fh small
    by (simp add: read_MP3_def mp3_packet_def mp3_read_def mp3_ready_def fl(1) r1 r2 Let_def buff_def [symmetric] N) (simp add: buff_def)
  moreover have "mp3_ready ?me' rest" using rd fh next_pos by (auto simp: mp3_ready_def buff_def)
  ultimately show ?thesis by auto
qed

text \<open>From the beginning of a file of frames, each call delivers exactly one frame; when the frames are used up the
  reader reports the end of the file.\<close>

lemma mp3_frame_per_packet:
  assumes "mp3_ready me (concat fs)" and "list_all (mp3_frame (description me)) fs"
  shows "\<exists>me'. read_calls (read_MP3 rootdir os junk bytes) (length fs) me mt = Some (map ((@) [0, 0, 0, 0]) fs, me') \<and>
    (\<exists>r. read_MP3 rootdir os junk bytes me' mt = Some r \<and> rd_res r = ERR_EOF)"
  using assms
proof (induction fs arbitrary: me)
  case Nil
  then show ?case by (auto simp: mp3_ready_def read_MP3_def mp3_packet_def mp3_read_def Let_def fd_read_def)
next
  case (Cons f fs)
  have "mp3_ready me (f @ concat fs)" "mp3_frame (description me) f" using Cons.prems by simp_all
  from mp3_step [OF this] obtain me' where s: "read_MP3 rootdir os junk bytes me mt = Some \<lparr>rd_me = me', rd_res = ERR_NOERROR,
      rd_data = Some ([0, 0, 0, 0] @ f), rd_mtime = mt, rd_recall = False, rd_marker = 0\<rparr>"
    and m: "mp3_ready me' (concat fs)" "description me' = description me" by metis
  from Cons.IH [OF m(1)] m(2) Cons.prems(2) obtain me2 where
    "read_calls (read_MP3 rootdir os junk bytes) (length fs) me' mt = Some (map ((@) [0, 0, 0, 0]) fs, me2)"
    "\<exists>r. read_MP3 rootdir os junk bytes me2 mt = Some r \<and> rd_res r = ERR_EOF" by auto
  then show ?case by (auto simp: s)
qed

section \<open>The length of an ID3 tag\<close>

text \<open>The loop of \<open>calculate_skip\<close>: the power of two is not reset between the bits.\<close>

function skip_loop :: "nat \<Rightarrow> nat \<Rightarrow> nat \<Rightarrow> nat \<Rightarrow> nat \<Rightarrow> nat \<Rightarrow> nat" where
  "skip_loop quoziente resto pos peso potenza partial =
    (let p = (if resto \<noteq> 0 then 2 ^ (pos + peso) * potenza else potenza)
     in if quoziente \<noteq> 0 then skip_loop (quoziente div 2) (quoziente mod 2) (pos + 1) peso p (partial + resto * p)
        else partial + resto * p)"
  by pat_completeness auto
termination by (relation "measure (\<lambda>(q, _). q)") auto

definition calculate_skip :: "uint8 \<Rightarrow> nat \<Rightarrow> nat \<Rightarrow> nat" where
  "calculate_skip byte skip peso =
    (if peso = 0 then skip + unat byte
     else skip + skip_loop (unat byte div 2) (unat byte mod 2) 0 peso 1 0)"

definition read_dim :: "os_file \<Rightarrow> os_file \<times> nat option" where
  "read_dim f =
    (let (bs, f') = fd_read 4 f
     in (f', if length bs = 4
             then Some (calculate_skip (bs ! 3) (calculate_skip (bs ! 2) (calculate_skip (bs ! 1) (calculate_skip (bs ! 0) 0 24) 16) 8) 0)
             else None))"

section \<open>A witness\<close>

definition mp3_sample :: "os_file media_entry" where
  "mp3_sample = zero_media\<lparr>me_flags := ME_FD, play_offset := - 1,
     media_stat := Some \<lparr>file_bytes = [1, 2, 3, 4, 5, 0xFF, 0xE0, 2, 4, 5, 6], file_pos = 0\<rparr>,
     description := zero_descr\<lparr>frame_len := 5, bitrate := 8, sample_rate := 1\<rparr>\<rparr>"

lemma mp3_sample_ready:
  "mp3_ready mp3_sample (concat [[1, 2, 3, 4, 5], [0xFF, 0xE0, 2, 4, 5, 6]])"
  "list_all (mp3_frame (description mp3_sample)) [[1, 2, 3, 4, 5], [0xFF, 0xE0, 2, 4, 5, 6]]"
proof -
  show "mp3_ready mp3_sample (concat [[1, 2, 3, 4, 5], [0xFF, 0xE0, 2, 4, 5, 6]])"
    by (simp add: mp3_ready_def mp3_sample_def zero_media_def has_flag_def ME_FD_def)
  show "list_all (mp3_frame (description mp3_sample)) [[1, 2, 3, 4, 5], [0xFF, 0xE0, 2, 4, 5, 6]]"
    by (simp add: mp3_frame_def mp3_sample_def zero_media_def mp3_len_def mp3_padding_def OMSSLOT_DATASIZE_def)
       (simp add: c_trunc_def)
qed

end
