(* ===== verification/Mpeg_Video.thy ===== *)
theory Mpeg_Video
  imports Mp3_Reader
begin

text \<open>
  The reader of MPEG-1 and MPEG-2 video (\<^verbatim>\<open>mediainfo/read_MPEG_video.c\<close>, \<^verbatim>\<open>read_MPEG_utils.c\<close>,
  \<^verbatim>\<open>common_utils.c\<close>, \<^verbatim>\<open>include/fenice/mpeg.h\<close>): it cuts the elementary stream at its start codes into packets with
  the four byte header of RFC 2250. The code assembles a packet in 65000 bytes from \<open>malloc\<close> and mostly ignores what
  \<open>read\<close> returns, so the model keeps the uninitialised memory: \<open>heap\<close> is what it holds, and \<open>None\<close> is an access
  outside of it, or a loop that never ends.
\<close>

section \<open>Data\<close>

datatype standard = MPEG_1 | MPEG_2 | TO_PROBE

record video_spec_head1 =
  v_ffc :: "3 word"
  v_ffv :: "1 word"
  v_bfc :: "3 word"
  v_fbv :: "1 word"
  v_p :: "3 word"
  v_e :: "1 word"
  v_b :: "1 word"
  v_s :: "1 word"
  v_n :: "1 word"
  v_an :: "1 word"
  v_tr :: "10 word"
  v_t :: "1 word"
  v_mbz :: "5 word"

record video_spec_head2 =
  w_d :: "1 word"
  w_g :: "1 word"
  w_h :: "1 word"
  w_r :: "1 word"
  w_a :: "1 word"
  w_v :: "1 word"
  w_q :: "1 word"
  w_c :: "1 word"
  w_p :: "1 word"
  w_t :: "1 word"
  w_ps :: "2 word"
  w_dc :: "2 word"
  w_f11 :: "4 word"
  w_f10 :: "4 word"
  w_f01 :: "4 word"
  w_f00 :: "4 word"
  w_e :: "1 word"
  w_x :: "1 word"

text \<open>The private state, with the open file. The characters \<open>temp_ref\<close> to \<open>picture\<close> are signed.\<close>

record static_MPEG_video =
  vsh1 :: video_spec_head1
  vsh2 :: video_spec_head2
  final_byte :: uint8
  temp_ref :: uint8
  hours :: uint8
  minutes :: uint8
  seconds :: uint8
  picture :: uint8
  data_total :: uint64
  std :: standard
  fragmented :: bool
  vsh1_aux :: video_spec_head1
  vsh2_aux :: video_spec_head2
  mpeg_file :: os_file

definition zero_head1 :: video_spec_head1 where
  "zero_head1 = \<lparr>v_ffc = 0, v_ffv = 0, v_bfc = 0, v_fbv = 0, v_p = 0, v_e = 0, v_b = 0, v_s = 0, v_n = 0, v_an = 0,
     v_tr = 0, v_t = 0, v_mbz = 0\<rparr>"

definition zero_head2 :: video_spec_head2 where
  "zero_head2 = \<lparr>w_d = 0, w_g = 0, w_h = 0, w_r = 0, w_a = 0, w_v = 0, w_q = 0, w_c = 0, w_p = 0, w_t = 0, w_ps = 0,
     w_dc = 0, w_f11 = 0, w_f10 = 0, w_f01 = 0, w_f00 = 0, w_e = 0, w_x = 0\<rparr>"

text \<open>The structure after \<open>xnew0\<close> and the three assignments that follow it.\<close>

definition new_MPEG_video :: "uint8 list \<Rightarrow> static_MPEG_video" where
  "new_MPEG_video bytes = \<lparr>vsh1 = zero_head1, vsh2 = zero_head2, final_byte = 0, temp_ref = 0, hours = 0, minutes = 0,
     seconds = 0, picture = 0, data_total = 0, std = TO_PROBE, fragmented = False, vsh1_aux = zero_head1,
     vsh2_aux = zero_head2, mpeg_file = \<lparr>file_bytes = bytes, file_pos = 0\<rparr>\<rparr>"

section \<open>The packet under construction\<close>

text \<open>The arguments \<open>buf\<close>, \<open>*buf_size\<close> and \<open>fin\<close> that the helpers share.\<close>

record mpeg_io =
  io_buf :: "uint8 list"
  io_size :: nat
  io_file :: os_file

text \<open>\<open>read(fin, &buf[*buf_size], n)\<close> followed by \<open>*buf_size += n\<close>, whatever was read; the last byte so far;
  \<open>buf[*buf_size] = b\<close> followed by \<open>*buf_size += 1\<close>.\<close>

definition io_read :: "nat \<Rightarrow> mpeg_io \<Rightarrow> mpeg_io option" where
  "io_read n io =
    (let (got, f) = fd_read n (io_file io)
     in if length (io_buf io) < io_size io + length got then None
        else Some (io\<lparr>io_buf := take (io_size io) (io_buf io) @ got @ drop (io_size io + length got) (io_buf io),
                      io_size := io_size io + n, io_file := f\<rparr>))"

definition io_back :: "nat \<Rightarrow> mpeg_io \<Rightarrow> uint8 option" where
  "io_back k io = (if k \<le> io_size io \<and> io_size io - k < length (io_buf io) then Some (io_buf io ! (io_size io - k)) else None)"

definition io_put :: "uint8 \<Rightarrow> mpeg_io \<Rightarrow> mpeg_io option" where
  "io_put b io = (if io_size io < length (io_buf io)
     then Some (io\<lparr>io_buf := (io_buf io)[io_size io := b], io_size := io_size io + 1\<rparr>) else None)"

definition io_put3 :: "uint8 \<Rightarrow> uint8 \<Rightarrow> uint8 \<Rightarrow> mpeg_io \<Rightarrow> mpeg_io option" where
  "io_put3 a b c io = do { io1 \<leftarrow> io_put a io; io2 \<leftarrow> io_put b io1; io_put c io2 }"

text \<open>One more byte of the file was read into a local variable.\<close>

definition io_step :: "mpeg_io \<Rightarrow> mpeg_io" where
  "io_step io = io\<lparr>io_file := (io_file io)\<lparr>file_pos := file_pos (io_file io) + 1\<rparr>\<rparr>"

definition io_rest :: "mpeg_io \<Rightarrow> uint8 list" where
  "io_rest io = drop (file_pos (io_file io)) (file_bytes (io_file io))"

section \<open>Start codes\<close>

text \<open>The loop of \<open>next_start_code\<close>: the window of three bytes, the rest of the file and the count.\<close>

fun code_loop :: "uint8 \<Rightarrow> uint8 \<Rightarrow> uint8 \<Rightarrow> uint8 list \<Rightarrow> int \<Rightarrow> mpeg_io \<Rightarrow> (mpeg_io \<times> int) option" where
  "code_loop a b c rest count io =
    (if a = 0 \<and> b = 0 \<and> c = 1 then do { io1 \<leftarrow> io_put3 a b c io; Some (io1, count) }
     else do {
       io1 \<leftarrow> io_put a io;
       case rest of
         [] \<Rightarrow> Some (io1, - 1)
       | x # xs \<Rightarrow> code_loop b c x xs (count + 1) (io_step io1)
     })"

definition next_start_code :: "mpeg_io \<Rightarrow> (mpeg_io \<times> int) option" where
  "next_start_code io =
    (let (h, f) = fd_read 3 (io_file io); io1 = io\<lparr>io_file := f\<rparr>
     in if length h < 3 then Some (io1, - 1) else code_loop (h ! 0) (h ! 1) (h ! 2) (io_rest io1) 0 io1)"

definition random_access :: "'st media_entry \<Rightarrow> uint32" where
  "random_access me = word_of_int (c_trunc (real_of_int (c_trunc (real_of_int (bitrate (description me)) / 8)) * play_offset me / 1000))"

definition changePacketLength :: "cdouble \<Rightarrow> 'st media_entry \<Rightarrow> 'st media_entry" where
  "changePacketLength offset me = me\<lparr>description := (description me)\<lparr>pkt_len := offset\<rparr>\<rparr>"

text \<open>A start code and the byte behind it; then, in MPEG-1 only, extension and user data.\<close>

definition code_and_byte :: "mpeg_io \<Rightarrow> (mpeg_io \<times> int) option" where
  "code_and_byte io = do { (io1, n) \<leftarrow> next_start_code io; io2 \<leftarrow> io_read 1 io1; Some (io2, n + 4) }"

definition after_code :: "uint8 \<Rightarrow> mpeg_io \<times> int \<Rightarrow> (mpeg_io \<times> int) option" where
  "after_code c r =
    do {
      b \<leftarrow> io_back 1 (fst r);
      if b = c then do { (io1, n) \<leftarrow> code_and_byte (fst r); Some (io1, snd r + n) } else Some r
    }"

definition skip_extension :: "standard \<Rightarrow> mpeg_io \<times> int \<Rightarrow> (mpeg_io \<times> int) option" where
  "skip_extension st r = (if st = MPEG_1 then do { r1 \<leftarrow> after_code 0xB5 r; after_code 0xB2 r1 } else Some r)"

section \<open>Headers\<close>

text \<open>The first 18 bits of a list of bytes, bit by bit.\<close>

fun rate_bits :: "nat \<Rightarrow> uint8 list \<Rightarrow> uint8 \<Rightarrow> nat \<Rightarrow> uint32 \<Rightarrow> uint32" where
  "rate_bits 0 bs tmp bitcnt x = x"
| "rate_bits (Suc n) bs tmp bitcnt x =
    (let (tmp1, cnt, bs1) = (if bitcnt = 0 then (hd bs, 8, tl bs) else (tmp, bitcnt, bs))
     in rate_bits n bs1 (push_bit 1 tmp1) (cnt - 1) (or (push_bit 1 x) (ucast (drop_bit 7 tmp1))))"

text \<open>\<open>read_seq_head\<close> sets the bit rate of the description. \<open>final\<close> is the byte behind the last start code.\<close>

definition read_seq_head :: "standard \<Rightarrow> 'st media_entry \<Rightarrow> mpeg_io \<Rightarrow> ('st media_entry \<times> mpeg_io \<times> uint8) option" where
  "read_seq_head st me io =
    do {
      io1 \<leftarrow> io_read 4 io;
      io2 \<leftarrow> io_read 4 io1;
      b0 \<leftarrow> io_back 4 io2; b1 \<leftarrow> io_back 3 io2; b2 \<leftarrow> io_back 2 io2; b3 \<leftarrow> io_back 1 io2;
      let x = rate_bits 18 [b0, b1, b2, b3] 0 0 0;
      let me1 = me\<lparr>description := (description me)\<lparr>bitrate := (if x \<noteq> 0x3FFFF then uint x * 400 else 0)\<rparr>\<rparr>;
      io3 \<leftarrow> (if and b3 0x02 \<noteq> 0 then io_read 64 io2 else Some io2);
      q \<leftarrow> io_back 1 io3;
      io4 \<leftarrow> (if and q 0x01 \<noteq> 0 then io_read 64 io3 else Some io3);
      r \<leftarrow> code_and_byte io4;
      (io5, _) \<leftarrow> skip_extension st r;
      final \<leftarrow> io_back 1 io5;
      Some (me1, io5, final)
    }"

definition read_gop_head :: "static_MPEG_video \<Rightarrow> mpeg_io \<Rightarrow> (static_MPEG_video \<times> mpeg_io \<times> int) option" where
  "read_gop_head s io =
    do {
      io1 \<leftarrow> io_read 4 io;
      b1 \<leftarrow> io_back 4 io1; b2 \<leftarrow> io_back 3 io1; b3 \<leftarrow> io_back 2 io1; b4 \<leftarrow> io_back 1 io1;
      let s1 = s\<lparr>hours := and (drop_bit 2 b1) 0x1F, minutes := and (b1 * 16) 0x30 + and (drop_bit 4 b2) 0x0F,
                 seconds := and (b2 * 8) 0x38 + and (drop_bit 5 b3) 0x07,
                 picture := and (b3 * 2) 0x3E + and (drop_bit 7 b4) 0x01\<rparr>;
      (io2, n) \<leftarrow> code_and_byte io1;
      (io3, count) \<leftarrow> skip_extension (std s) (io2, 4 + n);
      final \<leftarrow> io_back 1 io3;
      Some (s1\<lparr>final_byte := final\<rparr>, io3, count)
    }"

text \<open>The motion vectors of P and B pictures.\<close>

definition read_vectors :: "video_spec_head1 \<Rightarrow> mpeg_io \<Rightarrow> (video_spec_head1 \<times> mpeg_io) option" where
  "read_vectors v io =
    do {
      io1 \<leftarrow> io_read 2 io;
      b3 \<leftarrow> io_back 1 io1;
      io2 \<leftarrow> io_read 1 io1;
      b4 \<leftarrow> io_back 1 io2;
      let v1 = v\<lparr>v_ffv := ucast (and (drop_bit 2 b3) 0x01), v_ffc := ucast (and b3 0x03 * 2 + and (drop_bit 7 b4) 0x01)\<rparr>;
      Some ((if v_p v = 3 then v1\<lparr>v_fbv := ucast (and (drop_bit 6 b4) 0x01), v_bfc := ucast (and (drop_bit 3 b4) 0x07)\<rparr>
             else v1\<lparr>v_fbv := 0, v_bfc := 0\<rparr>), io2)
    }"

text \<open>The temporal reference has ten bits; it goes through a signed character.\<close>

definition read_picture_head :: "static_MPEG_video \<Rightarrow> mpeg_io \<Rightarrow> (static_MPEG_video \<times> mpeg_io \<times> int) option" where
  "read_picture_head s io =
    do {
      io1 \<leftarrow> io_read 2 io;
      b1 \<leftarrow> io_back 2 io1; b2 \<leftarrow> io_back 1 io1;
      let tref = b1 * 4 + and (drop_bit 6 b2) 0x03;
      let v = (vsh1 s)\<lparr>v_p := ucast (and (drop_bit 3 b2) 0x07), v_tr := scast tref\<rparr>;
      (v1, io2) \<leftarrow> (if v_p v = 2 \<or> v_p v = 3 then read_vectors v io1
                     else Some (v\<lparr>v_ffv := 0, v_ffc := 0, v_fbv := 0, v_bfc := 0\<rparr>, io1));
      (io3, n) \<leftarrow> code_and_byte io2;
      (io4, count) \<leftarrow> skip_extension (std s) (io3, (if v_p v = 2 \<or> v_p v = 3 then 5 else 2) + n);
      final \<leftarrow> io_back 1 io4;
      Some (s\<lparr>temp_ref := tref, vsh1 := v1, final_byte := final\<rparr>, io4, count)
    }"

definition read_slice :: "mpeg_io \<Rightarrow> (uint8 \<times> mpeg_io \<times> int) option" where
  "read_slice io =
    do {
      (io1, count) \<leftarrow> next_start_code io;
      io2 \<leftarrow> io_read 1 io1;
      final \<leftarrow> io_back 1 io2;
      Some (final, io2, count)
    }"

definition probe_standard :: "standard \<Rightarrow> 'st media_entry \<Rightarrow> mpeg_io \<Rightarrow> ('st media_entry \<times> mpeg_io \<times> standard) option" where
  "probe_standard st me io =
    do {
      (io1, _) \<leftarrow> code_and_byte io;
      b \<leftarrow> io_back 1 io1;
      (me1, io2, final) \<leftarrow> (if b = 0xB3 then read_seq_head st me io1 else Some (me, io1, b));
      Some (me1, io2, if final = 0xB5 then MPEG_2 else MPEG_1)
    }"

text \<open>A flag of the second header that is only ever set.\<close>

definition set_bit1 :: "uint8 \<Rightarrow> uint8 \<Rightarrow> 1 word \<Rightarrow> 1 word" where
  "set_bit1 b m old = (if and b m \<noteq> 0 then 1 else old)"

definition read_picture_coding_ext :: "static_MPEG_video \<Rightarrow> mpeg_io \<Rightarrow> (static_MPEG_video \<times> mpeg_io \<times> int) option" where
  "read_picture_coding_ext s io =
    do {
      io1 \<leftarrow> io_read 3 io;
      b1 \<leftarrow> io_back 3 io1; b2 \<leftarrow> io_back 2 io1; b3 \<leftarrow> io_back 1 io1;
      io2 \<leftarrow> io_read 1 io1;
      b4 \<leftarrow> io_back 1 io2;
      io3 \<leftarrow> io_read 1 io2;
      b5 \<leftarrow> io_back 1 io3;
      let w = vsh2 s;
      let w1 = w\<lparr>w_x := 0, w_e := 0, w_f00 := ucast (and b1 0x0F), w_f01 := ucast (and (drop_bit 4 b2) 0x0F),
                 w_f10 := ucast (and b2 0x0F), w_f11 := ucast (and (drop_bit 4 b3) 0x0F),
                 w_dc := ucast (and (drop_bit 2 b3) 0x03), w_ps := ucast (and b3 0x03),
                 w_t := (if and b4 0x80 \<noteq> 0 then 1 else 0), w_p := set_bit1 b4 0x40 (w_p w),
                 w_c := set_bit1 b4 0x20 (w_c w), w_q := (if and b4 0x10 \<noteq> 0 then 1 else 0),
                 w_v := set_bit1 b4 0x08 (w_v w), w_a := set_bit1 b4 0x04 (w_a w),
                 w_r := set_bit1 b4 0x02 (w_r w), w_h := set_bit1 b4 0x01 (w_h w),
                 w_g := set_bit1 b5 0x80 (w_g w), w_d := 0\<rparr>;
      (io4, n) \<leftarrow> code_and_byte io3;
      final \<leftarrow> io_back 1 io4;
      Some (s\<lparr>vsh2 := w1, final_byte := final\<rparr>, io4, 5 + n)
    }"

section \<open>Reading a packet\<close>

text \<open>Extension and user data are skipped as a whole. \<open>None\<close> inside the result is the end of the file.\<close>

partial_function (option) extension_loop ::
    "static_MPEG_video \<Rightarrow> mpeg_io \<Rightarrow> (bool \<times> static_MPEG_video \<times> mpeg_io) option" where
  "extension_loop s io =
    (if final_byte s = 0xB2 \<or> final_byte s = 0xB5 then
       do {
         (io1, n) \<leftarrow> next_start_code io;
         if n < 0 then Some (False, s, io1)
         else
           (let (b, f) = fd_read 1 (io_file io1)
            in if b = [] then Some (False, s, io1)
               else do {
                 io2 \<leftarrow> io_put (hd b) (io1\<lparr>io_file := f\<rparr>);
                 extension_loop (s\<lparr>final_byte := hd b\<rparr>) io2
               })
       }
     else Some (True, s, io))"

text \<open>The loop over the headers. It is left at a slice or, with \<open>rc\<close> reset, at the end code of the
  sequence. The other codes above AF leave everything as it is.\<close>

definition header_code :: "uint8 \<Rightarrow> bool" where
  "header_code b \<longleftrightarrow> 0xAF < b \<or> b = 0"

type_synonym mpeg_state = "os_file media_entry \<times> static_MPEG_video \<times> mpeg_io"

definition header_step :: "nat \<Rightarrow> 'st media_entry \<Rightarrow> static_MPEG_video \<Rightarrow> mpeg_io \<Rightarrow> bool \<Rightarrow>
    ('st media_entry \<times> static_MPEG_video \<times> mpeg_io \<times> bool) option" where
  "header_step num_bytes me s io seq =
    do {
      (me1, s1, io1, seq1) \<leftarrow>
        (if final_byte s = 0xB3
         then do { (me1, io1, final) \<leftarrow> read_seq_head (std s) me io; Some (me1, s\<lparr>final_byte := final\<rparr>, io1, True) }
         else Some (me, s, io, seq));
      (s2, io2) \<leftarrow>
        (if final_byte s1 = 0xB8 then do { (s2, io2, _) \<leftarrow> read_gop_head s1 io1; Some (s2, io2) } else Some (s1, io1));
      (s3, io3) \<leftarrow>
        (if final_byte s2 = 0
         then do {
           (s3, io3, _) \<leftarrow> read_picture_head s2 io2;
           if std s3 = MPEG_2 \<and> io_size io3 < num_bytes
           then do { (s4, io4, _) \<leftarrow> read_picture_coding_ext s3 io3; Some (s4, io4) }
           else Some (s3, io3)
         }
         else Some (s2, io2));
      Some (me1, s3, io3, seq1)
    }"

partial_function (option) header_loop ::
    "nat \<Rightarrow> 'st media_entry \<Rightarrow> static_MPEG_video \<Rightarrow> mpeg_io \<Rightarrow> bool \<Rightarrow> bool \<Rightarrow>
     (bool \<times> 'st media_entry \<times> static_MPEG_video \<times> mpeg_io \<times> bool \<times> bool) option" where
  "header_loop num_bytes me s io seq rc =
    (if header_code (final_byte s) \<and> rc then
       do {
         (me1, s1, io1, seq1) \<leftarrow> header_step num_bytes me s io seq;
         let finished = (final_byte s1 = 0xB7);
         let s2 = (if finished then s1\<lparr>fragmented := False\<rparr> else s1);
         (ok, s3, io3) \<leftarrow> extension_loop s2 io1;
         if \<not> ok then Some (False, me1, s3, io3, seq1, \<not> finished)
         else header_loop num_bytes me1 s3 io3 seq1 (\<not> finished)
       }
     else Some (True, me, s, io, seq, rc))"

text \<open>Bytes are copied up to the next start code or until the packet is full. \<open>Inl\<close> is the end of the file.\<close>

fun copy_loop :: "nat \<Rightarrow> uint8 \<Rightarrow> uint8 \<Rightarrow> uint8 \<Rightarrow> uint8 list \<Rightarrow> mpeg_io \<Rightarrow>
    (mpeg_io + mpeg_io \<times> uint8 \<times> uint8 \<times> uint8) option" where
  "copy_loop num_bytes a b c rest io =
    (if a = 0 \<and> b = 0 \<and> c = 1 \<or> num_bytes \<le> io_size io then Some (Inr (io, a, b, c))
     else do {
       io1 \<leftarrow> io_put a io;
       case rest of
         [] \<Rightarrow> Some (Inl io1)
       | x # xs \<Rightarrow> copy_loop num_bytes b c x xs (io_step io1)
     })"

text \<open>The copied bytes, the window and the byte behind it; the window tells whether it is a start code.\<close>

definition copy_piece :: "nat \<Rightarrow> static_MPEG_video \<Rightarrow> mpeg_io \<Rightarrow> (mpeg_io + static_MPEG_video \<times> mpeg_io \<times> bool) option" where
  "copy_piece num_bytes s io =
    (let (h, f) = fd_read 3 (io_file io); io1 = io\<lparr>io_file := f\<rparr>
     in if length h < 3 then Some (Inl io1)
        else do {
          r \<leftarrow> copy_loop num_bytes (h ! 0) (h ! 1) (h ! 2) (io_rest io1) io1;
          case r of
            Inl io2 \<Rightarrow> Some (Inl io2)
          | Inr (io2, a, b, c) \<Rightarrow>
              do {
                io3 \<leftarrow> io_put3 a b c io2;
                let (l, f3) = fd_read 1 (io_file io3);
                if l = [] then Some (Inl io3)
                else do {
                  io4 \<leftarrow> io_put (hd l) (io3\<lparr>io_file := f3\<rparr>);
                  Some (Inr (s\<lparr>final_byte := hd l\<rparr>, io4, a = 0 \<and> b = 0 \<and> c = 1))
                }
              }
        })"

text \<open>Slices are copied while the packet is not full and the next code is a slice, too. \<open>code\<close> tells whether the
  window holds a start code.\<close>

partial_function (option) slice_loop ::
    "nat \<Rightarrow> static_MPEG_video \<Rightarrow> mpeg_io \<Rightarrow> bool \<Rightarrow> bool \<Rightarrow>
     (static_MPEG_video \<times> mpeg_io + static_MPEG_video \<times> mpeg_io \<times> bool \<times> bool) option" where
  "slice_loop num_bytes s io code rc =
    (if io_size io < num_bytes \<and> rc then
       do {
         r \<leftarrow> copy_piece num_bytes s io;
         case r of
           Inl io1 \<Rightarrow> Some (Inl (s, io1))
         | Inr (s1, io1, code1) \<Rightarrow>
             slice_loop num_bytes (s1\<lparr>fragmented := \<not> code1\<rparr>) io1 code1 (\<not> (code1 \<and> header_code (final_byte s1)))
       }
     else Some (Inr (s, io, code, rc)))"

text \<open>The four bytes of the header: the bit fields of the structure, the last byte first.\<close>

definition head1_bytes :: "video_spec_head1 \<Rightarrow> uint8 list" where
  "head1_bytes v =
    [or (push_bit 3 (ucast (v_mbz v))) (or (push_bit 2 (ucast (v_t v))) (ucast (drop_bit 8 (v_tr v)))),
     ucast (v_tr v),
     or (push_bit 7 (ucast (v_an v))) (or (push_bit 6 (ucast (v_n v))) (or (push_bit 5 (ucast (v_s v)))
       (or (push_bit 4 (ucast (v_b v))) (or (push_bit 3 (ucast (v_e v))) (ucast (v_p v)))))),
     or (push_bit 7 (ucast (v_fbv v))) (or (push_bit 4 (ucast (v_bfc v))) (or (push_bit 3 (ucast (v_ffv v))) (ucast (v_ffc v))))]"

text \<open>A failed call has set the slot's size, but not its contents, which are \<open>held\<close>.\<close>

definition mpeg_eof :: "uint8 list \<Rightarrow> 'st media_entry \<Rightarrow> 'st \<Rightarrow> nat \<Rightarrow> cdouble \<Rightarrow> bool \<Rightarrow> 'st read_result" where
  "mpeg_eof held me st n mt rc =
    \<lparr>rd_me = me\<lparr>media_stat := Some st\<rparr>, rd_res = ERR_EOF, rd_data = Some (take n held), rd_mtime = mt, rd_recall = rc, rd_marker = 0\<rparr>"

definition mpeg_finish ::
    "static_MPEG_video media_entry \<Rightarrow> static_MPEG_video \<Rightarrow> mpeg_io \<Rightarrow> bool \<Rightarrow> bool \<Rightarrow> cdouble \<Rightarrow> static_MPEG_video read_result option" where
  "mpeg_finish me s io seq rc mt =
    (let mt' = (if msource (description me) \<noteq> live
                then real_of_int (sint (hours s)) * 3600000 + real_of_int (sint (minutes s)) * 60000 +
                     real_of_int (sint (seconds s)) * 1000 + real_of_int (sint (temp_ref s)) * 40 +
                     real_of_int (sint (picture s)) * 40
                else mt);
         v = (vsh1 s)\<lparr>v_t := 0, v_mbz := 0, v_an := 0, v_n := 0, v_s := (if seq then 1 else 0),
                       v_e := (if fragmented s then 0 else 1)\<rparr>;
         s1 = s\<lparr>data_total := data_total s + of_nat (io_size io) - 4, vsh1 := v, mpeg_file := io_file io\<rparr>
     in if length (io_buf io) < io_size io then None
        else Some \<lparr>rd_me = me\<lparr>media_stat := Some s1\<rparr>, rd_res = ERR_NOERROR,
                    rd_data = Some (take (io_size io) (head1_bytes v @ drop 4 (io_buf io))), rd_mtime = mt',
                    rd_recall = rc, rd_marker = (if rc then 0 else 1)\<rparr>)"

text \<open>The two branches of the reader: a packet that begins with a start code, and one that goes on with a slice.
  \<open>code0\<close> is whether the uninitialised window happens to hold a start code.\<close>

definition mpeg_start :: "static_MPEG_video \<Rightarrow> mpeg_io \<Rightarrow> bool \<Rightarrow> (bool \<times> static_MPEG_video \<times> mpeg_io) option" where
  "mpeg_start s io probed =
    do {
      (s1, io1) \<leftarrow>
        (if probed then do { b \<leftarrow> io_back 1 io; Some (s\<lparr>final_byte := b\<rparr>, io) }
         else do { io1 \<leftarrow> io_put3 0 0 1 io; io2 \<leftarrow> io_put (final_byte s) io1; Some (s, io2) });
      if final_byte s1 = 0xB7
      then do {
        (io2, n) \<leftarrow> next_start_code io1;
        if n = - 1 then Some (False, s1, io2)
        else
          (let (b, f) = fd_read 1 (io_file io2)
           in if b = [] then Some (False, s1, io2)
              else do { io3 \<leftarrow> io_put (hd b) (io2\<lparr>io_file := f\<rparr>); Some (True, s1\<lparr>final_byte := hd b\<rparr>, io3) })
      }
      else Some (True, s1, io1)
    }"

definition mpeg_slices ::
    "uint8 list \<Rightarrow> bool \<Rightarrow> nat \<Rightarrow> static_MPEG_video media_entry \<Rightarrow> static_MPEG_video \<Rightarrow> mpeg_io \<Rightarrow> bool \<Rightarrow> bool \<Rightarrow> cdouble \<Rightarrow>
     static_MPEG_video read_result option" where
  "mpeg_slices held code0 num_bytes me s io seq rc mt =
    do {
      r \<leftarrow> slice_loop num_bytes s io code0 rc;
      case r of
        Inl (s1, io1) \<Rightarrow> Some (mpeg_eof held me (s1\<lparr>mpeg_file := io_file io1\<rparr>) (io_size io1) mt rc)
      | Inr (s1, io1, code, rc1) \<Rightarrow>
          mpeg_finish me (s1\<lparr>vsh1 := (vsh1 s1)\<lparr>v_b := 1\<rparr>\<rparr>) (if code then io1\<lparr>io_size := io_size io1 - 4\<rparr> else io1) seq rc1 mt
    }"

definition mpeg_unit ::
    "uint8 list \<Rightarrow> bool \<Rightarrow> nat \<Rightarrow> static_MPEG_video media_entry \<Rightarrow> static_MPEG_video \<Rightarrow> mpeg_io \<Rightarrow> bool \<Rightarrow> bool \<Rightarrow> bool \<Rightarrow> cdouble \<Rightarrow>
     static_MPEG_video read_result option" where
  "mpeg_unit held code0 num_bytes me s io probed seq rc mt =
    do {
      (ok, s1, io1) \<leftarrow> mpeg_start s io probed;
      if \<not> ok then Some (mpeg_eof held me (s1\<lparr>mpeg_file := io_file io1\<rparr>) (io_size io1) mt rc)
      else do {
        (ok, me1, s2, io2, seq1, rc1) \<leftarrow> header_loop num_bytes me s1 io1 seq True;
        if \<not> ok then Some (mpeg_eof held me1 (s2\<lparr>mpeg_file := io_file io2\<rparr>) (io_size io2) mt rc1)
        else mpeg_slices held code0 num_bytes me1 s2 io2 seq1 rc1 mt
      }
    }"

definition mpeg_fragment ::
    "uint8 list \<Rightarrow> nat \<Rightarrow> static_MPEG_video media_entry \<Rightarrow> static_MPEG_video \<Rightarrow> mpeg_io \<Rightarrow> bool \<Rightarrow> bool \<Rightarrow> cdouble \<Rightarrow>
     static_MPEG_video read_result option" where
  "mpeg_fragment held num_bytes me s io seq rc mt =
    do {
      r \<leftarrow> copy_piece num_bytes s io;
      case r of
        Inl io1 \<Rightarrow> Some (mpeg_eof held me (s\<lparr>mpeg_file := io_file io1\<rparr>) (io_size io1) mt rc)
      | Inr (s1, io1, code) \<Rightarrow>
          mpeg_finish me (s1\<lparr>fragmented := \<not> code, vsh1 := (vsh1 s1)\<lparr>v_b := 0\<rparr>\<rparr>)
            (if code then io1\<lparr>io_size := io_size io1 - 4\<rparr> else io1) seq (\<not> (code \<and> header_code (final_byte s1))) mt
    }"


text \<open>Moving to another position of the file: the result has the entry, the state, the packet so far, whether it was
  moved and whether the header of the sequence was read again. A time stamp of zero makes the estimate of an unknown bit rate a division by
  zero.\<close>

definition mpeg_seek ::
    "static_MPEG_video media_entry \<Rightarrow> static_MPEG_video \<Rightarrow> mpeg_io \<Rightarrow> bool \<Rightarrow> cdouble \<Rightarrow>
     (static_MPEG_video media_entry \<times> static_MPEG_video \<times> mpeg_io \<times> bool \<times> bool) option" where
  "mpeg_seek me s io probed mt =
    (if msource (description me) \<noteq> live \<and> play_offset me \<noteq> prev_mstart_offset me then
       do {
         (me1, s1, io1, seeking, seq) \<leftarrow>
           (if bitrate (description me) = 0
            then (if mt = 0 then None
                  else Some (me\<lparr>description := (description me)\<lparr>bitrate := c_trunc (real (unat (data_total s * 8)) / mt) * 1000\<rparr>\<rparr>,
                             s, io, False, False))
            else if probed then Some (me, s\<lparr>fragmented := False\<rparr>, io, True, False)
            else do {
              (me1, io1, st) \<leftarrow> probe_standard (std s) me (io\<lparr>io_file := fd_seek 0 (io_file io)\<rparr>);
              Some (me1, s\<lparr>fragmented := False, std := st\<rparr>, io1, True, True)
            });
         let io2 = io1\<lparr>io_file := fd_seek (uint (random_access me1)) (io_file io1)\<rparr>;
         Some (me1\<lparr>prev_mstart_offset := play_offset me1\<rparr>, s1, io2, seeking, seq)
       }
     else Some (me, s, io, False, False))"

text \<open>\<open>read_MPEG_video\<close>: \<open>held\<close> is what the slot holds, \<open>heap\<close> what the 65000 bytes of \<open>malloc\<close> hold, \<open>code0\<close>
  whether the three uninitialised bytes of the window are a start code, \<open>bytes\<close> the contents of the file to open.\<close>

definition read_MPEG_video ::
    "string \<Rightarrow> os_files \<Rightarrow> uint8 list \<Rightarrow> uint8 list \<Rightarrow> bool \<Rightarrow> uint8 list \<Rightarrow> static_MPEG_video media_entry \<Rightarrow> cdouble \<Rightarrow> bool \<Rightarrow>
     static_MPEG_video read_result option" where
  "read_MPEG_video rootdir os held heap code0 bytes me mt rc =
    (let opened =
       (if \<not> has_flag (me_flags me) ME_FD
        then (let (me1, ret) = mediaopen rootdir os me
              in if ret < 0 then Inl \<lparr>rd_me = me1, rd_res = ret, rd_data = None, rd_mtime = mt, rd_recall = rc, rd_marker = 0\<rparr>
                 else Inr (me1\<lparr>media_stat := Some (new_MPEG_video bytes)\<rparr>))
        else Inr me)
     in case opened of
          Inl r \<Rightarrow> Some r
        | Inr me1 \<Rightarrow>
            do {
              s \<leftarrow> media_stat me1;
              let per = byte_per_pckt (description me1);
              let num_bytes = (if 261 < per then nat per else 1400);
              let io = \<lparr>io_buf = heap, io_size = 4, io_file = mpeg_file s\<rparr>;
              let probed = (std s = TO_PROBE);
              (me2, s2, io2) \<leftarrow>
                (if probed then do { (me2, io2, st) \<leftarrow> probe_standard TO_PROBE me1 io; Some (me2, s\<lparr>std := st\<rparr>, io2) }
                 else Some (me1, s, io));
              (me3, s3, io3, seeking, again) \<leftarrow> mpeg_seek me2 s2 io2 probed mt;
              if fragmented s3 then mpeg_fragment held num_bytes me3 s3 io3 (probed \<or> again) rc mt
              else mpeg_unit held code0 num_bytes me3 s3 io3 (probed \<and> \<not> seeking) (probed \<or> again) rc mt
            })"

declare extension_loop.simps [code] header_loop.simps [code] slice_loop.simps [code]

section \<open>Slices lose nothing\<close>

text \<open>What has been put into the packet so far, and the invariant of copying: bytes move from the file to the packet.\<close>

definition io_out :: "mpeg_io \<Rightarrow> uint8 list" where
  "io_out io = take (io_size io) (io_buf io)"

definition moved :: "mpeg_io \<Rightarrow> mpeg_io \<Rightarrow> bool" where
  "moved io io' \<longleftrightarrow> io_out io' @ io_rest io' = io_out io @ io_rest io \<and> length (io_buf io') = length (io_buf io)"

lemma moved_trans: "moved x y \<Longrightarrow> moved y z \<Longrightarrow> moved x z"
  by (simp add: moved_def)

lemma put_out:
  assumes "io_size io < length (io_buf io)"
  shows "\<exists>io'. io_put b io = Some io' \<and> io_out io' = io_out io @ [b] \<and> io_file io' = io_file io \<and>
    io_size io' = Suc (io_size io) \<and> length (io_buf io') = length (io_buf io)"
  using assms by (simp add: io_put_def io_out_def take_Suc_conv_app_nth)

lemma rest_step: "io_rest io = x # xs \<Longrightarrow> io_rest (io_step io) = xs"
  by (simp add: io_rest_def io_step_def drop_Suc flip: tl_drop)

lemma out_step [simp]: "io_out (io_step io) = io_out io" "io_buf (io_step io) = io_buf io" "io_size (io_step io) = io_size io"
  by (simp_all add: io_out_def io_step_def)

lemma copy_stop: "a = 0 \<and> b = 0 \<and> c = 1 \<or> nb \<le> io_size io \<Longrightarrow> copy_loop nb a b c rest io = Some (Inr (io, a, b, c))"
  by (subst copy_loop.simps) simp

lemma copy_step:
  "\<not> (a = 0 \<and> b = 0 \<and> c = 1 \<or> nb \<le> io_size io) \<Longrightarrow> io_put a io = Some io1 \<Longrightarrow>
   copy_loop nb a b c rest io = (case rest of [] \<Rightarrow> Some (Inl io1) | x # xs \<Rightarrow> copy_loop nb b c x xs (io_step io1))"
  by (subst copy_loop.simps) (simp only: if_False bind.bind_lunit)

declare copy_loop.simps [simp del]

text \<open>A start code of a header somewhere in a stream.\<close>

definition holds_header :: "uint8 list \<Rightarrow> bool" where
  "holds_header xs \<longleftrightarrow> (\<exists>p h q. xs = p @ [0, 0, 1, h] @ q \<and> header_code h)"

lemma holds_header_Cons:
  "holds_header (x # xs) \<longleftrightarrow> (\<exists>h q. x # xs = [0, 0, 1, h] @ q \<and> header_code h) \<or> holds_header xs"
proof
  assume "holds_header (x # xs)"
  then obtain p h q where "x # xs = p @ [0, 0, 1, h] @ q" "header_code h" by (auto simp: holds_header_def)
  then show "(\<exists>h q. x # xs = [0, 0, 1, h] @ q \<and> header_code h) \<or> holds_header xs"
    unfolding holds_header_def by (cases p) (force, fastforce)
next
  assume "(\<exists>h q. x # xs = [0, 0, 1, h] @ q \<and> header_code h) \<or> holds_header xs"
  then show "holds_header (x # xs)" unfolding holds_header_def
    by (elim disjE exE conjE) (metis append_Nil, metis append_Cons)
qed

lemma holds_header_short: "length xs < 4 \<Longrightarrow> \<not> holds_header xs"
  by (auto simp: holds_header_def)

lemma holds_header_skip:
  assumes "holds_header ([0, 0, 1, h] @ xs)" and "\<not> header_code h"
  shows "holds_header xs"
proof -
  have "h \<noteq> 0" using assms(2) by (auto simp: header_code_def)
  then show ?thesis using assms by (simp add: holds_header_Cons [of _ "_ # _"] holds_header_Cons [of h] holds_header_Cons)
qed

lemma copy_loop_moves:
  assumes "io_rest io = rest" and "nb + 4 \<le> length (io_buf io)" and "io_size io \<le> nb"
  shows "(\<exists>io'. copy_loop nb a b c rest io = Some (Inl io') \<and> io_rest io' = [] \<and> io_size io + length rest < nb \<and>
       \<not> holds_header ([a, b, c] @ rest)) \<or>
    (\<exists>io' a' b' c'. copy_loop nb a b c rest io = Some (Inr (io', a', b', c')) \<and>
       io_out io' @ [a', b', c'] @ io_rest io' = io_out io @ [a, b, c] @ rest \<and>
       length (io_buf io') = length (io_buf io) \<and> io_size io \<le> io_size io' \<and> io_size io' \<le> nb \<and>
       (a' = 0 \<and> b' = 0 \<and> c' = 1 \<or> io_size io' = nb) \<and>
       (holds_header ([a, b, c] @ rest) \<longrightarrow> holds_header ([a', b', c'] @ io_rest io')))"
  using assms
proof (induction rest arbitrary: a b c io)
  case Nil
  show ?case
  proof (cases "a = 0 \<and> b = 0 \<and> c = 1 \<or> nb \<le> io_size io")
    case True
    then show ?thesis using Nil.prems copy_stop [OF True, of "[]"] by auto
  next
    case False
    then obtain io1 where "io_put a io = Some io1" "io_file io1 = io_file io" using put_out [of io a] Nil.prems by auto
    then show ?thesis using copy_step [OF False] False Nil.prems by (auto simp: holds_header_short io_rest_def)
  qed
next
  case (Cons x xs)
  show ?case
  proof (cases "a = 0 \<and> b = 0 \<and> c = 1 \<or> nb \<le> io_size io")
    case True
    then show ?thesis using Cons.prems copy_stop [OF True, of "x # xs"] by auto
  next
    case False
    then obtain io1 where p: "io_put a io = Some io1" "io_out io1 = io_out io @ [a]" "io_file io1 = io_file io"
        "io_size io1 = Suc (io_size io)" "length (io_buf io1) = length (io_buf io)"
      using put_out [of io a] Cons.prems by auto
    have "io_rest io1 = x # xs" using Cons.prems p(3) by (simp add: io_rest_def)
    then have "io_rest (io_step io1) = xs" by (rule rest_step)
    moreover have "copy_loop nb a b c (x # xs) io = copy_loop nb b c x xs (io_step io1)" using copy_step [OF False p(1)] by simp
    moreover have "holds_header ([a, b, c] @ x # xs) = holds_header ([b, c, x] @ xs)"
      using False Cons.prems by (auto simp: holds_header_Cons [of a])
    ultimately show ?thesis using Cons.IH [of "io_step io1" b c x] Cons.prems False p by auto
  qed
qed

lemma put3_out:
  assumes "io_size io + 3 \<le> length (io_buf io)"
  shows "\<exists>io'. io_put3 a b c io = Some io' \<and> io_out io' = io_out io @ [a, b, c] \<and> io_file io' = io_file io \<and>
    io_size io' = io_size io + 3 \<and> length (io_buf io') = length (io_buf io)"
proof -
  obtain io1 where 1: "io_put a io = Some io1" "io_out io1 = io_out io @ [a]" "io_file io1 = io_file io"
      "io_size io1 = Suc (io_size io)" "length (io_buf io1) = length (io_buf io)" using put_out [of io a] assms by auto
  obtain io2 where 2: "io_put b io1 = Some io2" "io_out io2 = io_out io1 @ [b]" "io_file io2 = io_file io1"
      "io_size io2 = Suc (io_size io1)" "length (io_buf io2) = length (io_buf io1)" using put_out [of io1 b] assms 1 by auto
  obtain io3 where 3: "io_put c io2 = Some io3" "io_out io3 = io_out io2 @ [c]" "io_file io3 = io_file io2"
      "io_size io3 = Suc (io_size io2)" "length (io_buf io3) = length (io_buf io2)" using put_out [of io2 c] assms 1 2 by auto
  show ?thesis using 1 2 3 by (simp add: io_put3_def)
qed

text \<open>The bytes a call of \<open>read\<close> takes leave the rest of the file.\<close>

lemma read_rest:
  assumes "fd_read n (io_file io) = (h, f)"
  shows "io_rest io = h @ io_rest (io\<lparr>io_file := f\<rparr>)" and "length h < n \<Longrightarrow> io_rest (io\<lparr>io_file := f\<rparr>) = []"
proof -
  have "h = take n (io_rest io)" and f: "f = (io_file io)\<lparr>file_pos := file_pos (io_file io) + length h\<rparr>"
    using assms by (auto simp: fd_read_def Let_def io_rest_def)
  moreover from this have "io_rest (io\<lparr>io_file := f\<rparr>) = drop (length h) (io_rest io)" by (simp add: io_rest_def add.commute)
  ultimately show "io_rest io = h @ io_rest (io\<lparr>io_file := f\<rparr>)" and "length h < n \<Longrightarrow> io_rest (io\<lparr>io_file := f\<rparr>) = []"
    by (auto simp: min_def split: if_splits)
qed

lemma out_file [simp]: "io_out (io\<lparr>io_file := f\<rparr>) = io_out io"
  by (simp add: io_out_def)

text \<open>One piece: the stream is preserved, the packet is not overrun, and a window with a start code stands at the end of
  the packet.\<close>

definition piece_of :: "nat \<Rightarrow> static_MPEG_video \<Rightarrow> mpeg_io \<Rightarrow> static_MPEG_video \<Rightarrow> mpeg_io \<Rightarrow> bool \<Rightarrow> bool" where
  "piece_of nb s io s' io' code \<longleftrightarrow> moved io io' \<and> io_size io + 4 \<le> io_size io' \<and> io_size io' \<le> nb + 4 \<and> io_size io' \<le> length (io_buf io') \<and>
     (\<exists>fb. s' = s\<lparr>final_byte := fb\<rparr>) \<and> length (io_rest io') < length (io_rest io) \<and>
     (code \<longrightarrow> (\<exists>p. io_out io' = p @ [0, 0, 1, final_byte s'])) \<and> (\<not> code \<longrightarrow> nb \<le> io_size io') \<and>
     (code \<longrightarrow> \<not> header_code (final_byte s') \<longrightarrow> holds_header (io_rest io) \<longrightarrow> holds_header (io_rest io'))"

text \<open>The file has ended before the packet was full and before the next header.\<close>

definition at_end :: "nat \<Rightarrow> mpeg_io \<Rightarrow> mpeg_io \<Rightarrow> bool" where
  "at_end nb io io' \<longleftrightarrow> io_rest io' = [] \<and> io_size io + length (io_rest io) \<le> nb + 3 \<and> \<not> holds_header (io_rest io)"

lemma copy_piece_moves:
  assumes nb: "nb + 4 \<le> length (io_buf io)" "io_size io \<le> nb"
  shows "(\<exists>io'. copy_piece nb s io = Some (Inl io') \<and> at_end nb io io') \<or>
    (\<exists>s' io' code. copy_piece nb s io = Some (Inr (s', io', code)) \<and> piece_of nb s io s' io' code)"
proof -
  obtain h f where h: "fd_read 3 (io_file io) = (h, f)" by fastforce
  let ?io1 = "io\<lparr>io_file := f\<rparr>"
  show ?thesis
  proof (cases "length h < 3")
    case True
    moreover have "io_rest ?io1 = []" "length (io_rest io) \<le> 2"
      using read_rest [OF h] True by simp_all
    ultimately show ?thesis using nb by (simp add: copy_piece_def h at_end_def holds_header_short)
  next
    case False
    have r1: "io_rest io = h @ io_rest ?io1" by (rule read_rest [OF h])
    moreover have "length h \<le> 3" using h by (auto simp: fd_read_def Let_def)
    ultimately obtain a b c where abc: "h = [a, b, c]" using False
      by (auto simp: numeral_3_eq_3 less_Suc_eq_le length_Suc_conv dest!: le_antisym)
    note piece = copy_piece_def h abc Let_def
    from copy_loop_moves [OF refl, of nb ?io1 a b c] nb consider
        (eof) io' where "copy_loop nb a b c (io_rest ?io1) ?io1 = Some (Inl io')" "io_rest io' = []"
          "io_size io + length (io_rest ?io1) < nb" "\<not> holds_header ([a, b, c] @ io_rest ?io1)"
      | (run) io2 a' b' c' where "copy_loop nb a b c (io_rest ?io1) ?io1 = Some (Inr (io2, a', b', c'))"
        "io_out io2 @ [a', b', c'] @ io_rest io2 = io_out io @ [a, b, c] @ io_rest ?io1"
        "length (io_buf io2) = length (io_buf io)" "io_size io \<le> io_size io2" "io_size io2 \<le> nb"
        "a' = 0 \<and> b' = 0 \<and> c' = 1 \<or> io_size io2 = nb"
        "holds_header ([a, b, c] @ io_rest ?io1) \<longrightarrow> holds_header ([a', b', c'] @ io_rest io2)" by auto
    then show ?thesis
    proof cases
      case eof
      then show ?thesis using r1 by (simp add: piece abc at_end_def)
    next
      case run
      obtain io3 where 3: "io_put3 a' b' c' io2 = Some io3" "io_out io3 = io_out io2 @ [a', b', c']" "io_file io3 = io_file io2"
          "io_size io3 = io_size io2 + 3" "length (io_buf io3) = length (io_buf io2)"
        using put3_out [of io2 a' b' c'] run nb by auto
      obtain l f3 where l: "fd_read (Suc 0) (io_file io2) = (l, f3)" by fastforce
      show ?thesis
      proof (cases "l = []")
        case True
        have e: "io_rest io2 = []" using read_rest [of 1 io2 l f3] l True by simp
        then have "\<not> holds_header (io_rest io)" using run(7) r1 abc by (auto simp: holds_header_short)
        moreover have "io_size io + length (io_rest io) \<le> nb + 3"
          using arg_cong [OF run(2), of length] e r1 abc run(3-5) nb by (simp add: io_out_def)
        moreover have "io_rest io3 = []" using e 3 by (simp add: io_rest_def)
        ultimately show ?thesis by (simp add: piece run(1) 3 l True at_end_def)
      next
        case False
        have "length l \<le> 1" using l by (auto simp: fd_read_def Let_def)
        then have hd: "l = [hd l]" using False by (cases l) auto
        obtain io4 where 4: "io_put (hd l) (io3\<lparr>io_file := f3\<rparr>) = Some io4" "io_out io4 = io_out io3 @ [hd l]"
            "io_file io4 = f3" "io_size io4 = Suc (io_size io3)" "length (io_buf io4) = length (io_buf io3)"
          using put_out [of "io3\<lparr>io_file := f3\<rparr>" "hd l"] run 3 nb by auto
        have "io_rest io3 = l @ io_rest (io3\<lparr>io_file := f3\<rparr>)" using read_rest(1) [of 1 io3 l f3] l 3 by simp
        then have r4: "io_rest io2 = hd l # io_rest io4" using 3 4 hd by (metis append_Cons append_Nil io_rest_def ext_inject surjective update_convs(3))
        have st: "io_out io4 @ io_rest io4 = io_out io @ io_rest io" using run(2) r4 3 4 r1 abc by simp
        then have len: "length (io_rest io4) < length (io_rest io)"
          using arg_cong [OF run(2), of length] r4 r1 abc run(3-5) nb by (simp add: io_out_def)
        have "piece_of nb s io (s\<lparr>final_byte := hd l\<rparr>) io4 (a' = 0 \<and> b' = 0 \<and> c' = 1)"
          unfolding piece_of_def
        proof (intro conjI impI)
          assume "a' = 0 \<and> b' = 0 \<and> c' = 1" "\<not> header_code (final_byte (s\<lparr>final_byte := hd l\<rparr>))" "holds_header (io_rest io)"
          then show "holds_header (io_rest io4)"
            using run(7) r1 abc r4 holds_header_skip [of "hd l" "io_rest io4"] by simp
        qed (use st len run(2-6) 3 4 nb in \<open>auto simp: moved_def\<close>)
        then show ?thesis by (simp add: piece run(1) 3 l False 4)
      qed
    qed
  qed
qed

definition slices_of :: "nat \<Rightarrow> static_MPEG_video \<Rightarrow> mpeg_io \<Rightarrow> static_MPEG_video \<Rightarrow> mpeg_io \<Rightarrow> bool \<Rightarrow> bool \<Rightarrow> bool" where
  "slices_of nb s io s' io' code rc \<longleftrightarrow> moved io io' \<and> io_size io + 4 \<le> io_size io' \<and> io_size io' \<le> nb + 4 \<and> io_size io' \<le> length (io_buf io') \<and>
     (\<exists>fb. s' = s\<lparr>final_byte := fb, fragmented := \<not> code\<rparr>) \<and> rc = (\<not> (code \<and> header_code (final_byte s'))) \<and>
     (code \<longrightarrow> (\<exists>p. io_out io' = p @ [0, 0, 1, final_byte s']))"

lemma slice_stop: "\<not> (io_size io < nb \<and> rc) \<Longrightarrow> slice_loop nb s io code rc = Some (Inr (s, io, code, rc))"
  by (subst slice_loop.simps) (simp only: if_False)

lemma slices_from_piece:
  assumes p: "piece_of nb s io s1 io1 code1"
  shows "slices_of nb s io (s1\<lparr>fragmented := \<not> code1\<rparr>) io1 code1 (\<not> (code1 \<and> header_code (final_byte s1)))"
    and "slices_of nb (s1\<lparr>fragmented := \<not> code1\<rparr>) io1 s2 io2 code2 rc2 \<Longrightarrow> slices_of nb s io s2 io2 code2 rc2"
  using p by (auto simp: piece_of_def slices_of_def elim: moved_trans)

lemma piece_end:
  assumes p: "piece_of nb s io s1 io1 code1" and "io_size io1 < nb" "\<not> (code1 \<and> header_code (final_byte s1))" and e: "at_end nb io1 io'"
  shows "at_end nb io io'"
proof -
  have mv: "io_out io1 @ io_rest io1 = io_out io @ io_rest io" and b: "io_size io + 4 \<le> io_size io1" "io_size io1 \<le> length (io_buf io1)"
      "length (io_buf io1) = length (io_buf io)"
    and h: "holds_header (io_rest io) \<longrightarrow> holds_header (io_rest io1)"
    using p assms(2,3) by (auto simp: piece_of_def moved_def)
  have "io_size io + length (io_rest io) = io_size io1 + length (io_rest io1)"
    using arg_cong [OF mv, of length] b by (simp add: io_out_def)
  then show ?thesis using e h by (simp add: at_end_def)
qed

lemma slice_loop_moves:
  assumes "nb + 4 \<le> length (io_buf io)" and "io_size io < nb"
  shows "(\<exists>s' io'. slice_loop nb s io code True = Some (Inl (s', io')) \<and> at_end nb io io') \<or>
    (\<exists>s' io' code' rc'. slice_loop nb s io code True = Some (Inr (s', io', code', rc')) \<and> slices_of nb s io s' io' code' rc')"
  using assms
proof (induction "length (io_rest io)" arbitrary: io s code rule: less_induct)
  case less
  from copy_piece_moves [OF less.prems(1), of s] less.prems(2) consider
      (eof) io' where "copy_piece nb s io = Some (Inl io')" "at_end nb io io'"
    | (piece) s1 io1 code1 where "copy_piece nb s io = Some (Inr (s1, io1, code1))" "piece_of nb s io s1 io1 code1" by auto
  then show ?case
  proof cases
    case eof
    then show ?thesis using less.prems(2) by (subst (1 2) slice_loop.simps) auto
  next
    case piece
    let ?s = "s1\<lparr>fragmented := \<not> code1\<rparr>" and ?rc = "\<not> (code1 \<and> header_code (final_byte s1))"
    have run: "slice_loop nb s io code True = slice_loop nb ?s io1 code1 ?rc"
      using less.prems(2) piece(1) by (subst slice_loop.simps) simp
    show ?thesis
    proof (cases "io_size io1 < nb \<and> ?rc")
      case True
      have "length (io_rest io1) < length (io_rest io)" "nb + 4 \<le> length (io_buf io1)"
        using piece(2) less.prems(1) by (auto simp: piece_of_def moved_def)
      moreover have "at_end nb io io'" if "at_end nb io1 io'" for io'
        using that True piece_end [OF piece(2) _ _ that] by blast
      ultimately show ?thesis using less.hyps [of io1 ?s code1] True
        unfolding run using slices_from_piece(2) [OF piece(2)] by auto
    next
      case False
      show ?thesis unfolding run slice_stop [OF False] using slices_from_piece(1) [OF piece(2)] by blast
    qed
  qed
qed

text \<open>What the reader remembers of a start code it has read past the end of a packet.\<close>

definition pending :: "static_MPEG_video \<Rightarrow> uint8 list" where
  "pending s = (if fragmented s then [] else [0, 0, 1, final_byte s])"

definition mpeg_rest :: "static_MPEG_video \<Rightarrow> uint8 list" where
  "mpeg_rest s = drop (file_pos (mpeg_file s)) (file_bytes (mpeg_file s))"

text \<open>A reader in the middle of a sequence, standing in or at a slice, with no request to move.\<close>

definition mpeg_in_slices :: "static_MPEG_video media_entry \<Rightarrow> static_MPEG_video \<Rightarrow> bool" where
  "mpeg_in_slices me s \<longleftrightarrow> has_flag (me_flags me) ME_FD \<and> media_stat me = Some s \<and> std s \<noteq> TO_PROBE \<and>
     (msource (description me) = live \<or> play_offset me = prev_mstart_offset me) \<and>
     (fragmented s \<or> \<not> header_code (final_byte s))"

definition packet_bytes :: "media_descr \<Rightarrow> nat" where
  "packet_bytes d = (if 261 < byte_per_pckt d then nat (byte_per_pckt d) else 1400)"

lemma finish_keeps:
  assumes "4 \<le> io_size io" and "io_size io \<le> length (io_buf io)"
  shows "\<exists>r s' h. mpeg_finish me s io seq rc mt = Some r \<and> rd_res r = ERR_NOERROR \<and> media_stat (rd_me r) = Some s' \<and>
    fragmented s' = fragmented s \<and> final_byte s' = final_byte s \<and> mpeg_file s' = io_file io \<and>
    length h = 4 \<and> rd_data r = Some (h @ drop 4 (io_out io)) \<and> std s' = std s \<and> rd_recall r = rc \<and>
    rd_marker r = (if rc then 0 else 1) \<and> v_b (vsh1 s') = v_b (vsh1 s) \<and> v_e (vsh1 s') = (if fragmented s then 0 else 1) \<and>
    v_s (vsh1 s') = (if seq then 1 else 0) \<and> h = head1_bytes (vsh1 s')"
  using assms by (simp add: mpeg_finish_def Let_def head1_bytes_def io_out_def drop_take take_Cons' numeral_eq_Suc)

text \<open>What a call on slices does: the packet and what is pending after it are what was pending before and what was
  taken from the file.\<close>

definition mpeg_lossless :: "nat \<Rightarrow> static_MPEG_video \<Rightarrow> static_MPEG_video read_result \<Rightarrow> bool" where
  "mpeg_lossless nb s r \<longleftrightarrow>
     (\<exists>s' payload. media_stat (rd_me r) = Some s' \<and> rd_data r = Some (head1_bytes (vsh1 s') @ payload) \<and>
        payload @ pending s' @ mpeg_rest s' = pending s @ mpeg_rest s \<and> length payload \<le> nb \<and>
        v_s (vsh1 s') = 0 \<and> v_b (vsh1 s') = (if fragmented s then 0 else 1) \<and> v_e (vsh1 s') = (if fragmented s' then 0 else 1) \<and>
        rd_recall r = (fragmented s' \<or> \<not> header_code (final_byte s')) \<and> rd_marker r = (if rd_recall r then 0 else 1))"

text \<open>The call that meets the end of the file: less than a packet was left and no header in it, and now nothing is.\<close>

definition mpeg_ended :: "nat \<Rightarrow> static_MPEG_video \<Rightarrow> static_MPEG_video read_result \<Rightarrow> bool" where
  "mpeg_ended nb s r \<longleftrightarrow> length (pending s @ mpeg_rest s) < nb \<and> \<not> holds_header (mpeg_rest s) \<and>
     (\<exists>s'. media_stat (rd_me r) = Some s' \<and> mpeg_rest s' = [])"

lemma slices_finish:
  assumes sl: "slices_of nb s io s' io' code rc" and sz: "4 \<le> io_size io" "io_size io \<le> length (io_buf io)"
    and st: "drop 4 (io_out io) @ io_rest io = pending s0 @ mpeg_rest s0" and v: "v = (if fragmented s0 then 0 else 1)"
  shows "\<exists>r. mpeg_finish me (s'\<lparr>vsh1 := (vsh1 s')\<lparr>v_b := v\<rparr>\<rparr>) (if code then io'\<lparr>io_size := io_size io' - 4\<rparr> else io') False rc mt = Some r \<and>
     rd_res r = ERR_NOERROR \<and> mpeg_lossless nb s0 r"
proof -
  let ?io = "if code then io'\<lparr>io_size := io_size io' - 4\<rparr> else io'"
  have mv: "io_out io' @ io_rest io' = io_out io @ io_rest io" and len: "length (io_buf io') = length (io_buf io)"
    and b: "io_size io + 4 \<le> io_size io'" "io_size io' \<le> nb + 4" "io_size io' \<le> length (io_buf io')"
    and fr: "fragmented s' = (\<not> code)" and rc: "rc = (\<not> (code \<and> header_code (final_byte s')))"
    using sl by (auto simp: slices_of_def moved_def)
  have long: "length (io_out io') = io_size io'" "length (io_out io) = io_size io" using b sz by (simp_all add: io_out_def)
  have cut: "io_out ?io @ pending s' = io_out io'"
  proof (cases code)
    case True
    then obtain p where p: "io_out io' = p @ [0, 0, 1, final_byte s']" using sl by (auto simp: slices_of_def)
    then have "length p = io_size io' - 4" using long by simp
    moreover have "io_out ?io = take (io_size io' - 4) (io_out io')" using True by (simp add: io_out_def min_absorb1)
    ultimately show ?thesis using p True fr by (simp add: pending_def)
  next
    case False
    then show ?thesis using fr by (simp add: pending_def)
  qed
  have at: "4 \<le> io_size ?io" "io_size ?io \<le> length (io_buf ?io)" "io_size ?io \<le> nb + 4" using b sz by auto
  obtain r s2 where r: "mpeg_finish me (s'\<lparr>vsh1 := (vsh1 s')\<lparr>v_b := v\<rparr>\<rparr>) ?io False rc mt = Some r" "rd_res r = ERR_NOERROR"
      "media_stat (rd_me r) = Some s2" "fragmented s2 = fragmented s'" "final_byte s2 = final_byte s'" "mpeg_file s2 = io_file io'"
      "rd_data r = Some (head1_bytes (vsh1 s2) @ drop 4 (io_out ?io))" "rd_recall r = rc" "rd_marker r = (if rc then 0 else 1)"
      "v_b (vsh1 s2) = v" "v_e (vsh1 s2) = (if fragmented s' then 0 else 1)" "v_s (vsh1 s2) = 0"
    using finish_keeps [OF at(1,2), of me "s'\<lparr>vsh1 := (vsh1 s')\<lparr>v_b := v\<rparr>\<rparr>" False rc mt] by auto
  have p2: "pending s2 = pending s'" "mpeg_rest s2 = io_rest io'" using r(4-6) by (simp_all add: pending_def mpeg_rest_def io_rest_def)
  have "length (io_out ?io) = io_size ?io" using at(2) by (simp only: io_out_def length_take min_absorb2)
  then have "drop 4 (io_out ?io) @ pending s' = drop 4 (io_out io')"
    unfolding cut [symmetric] drop_append using at(1) by (simp only: diff_is_0_eq' drop_0)
  then have "drop 4 (io_out ?io) @ pending s2 @ mpeg_rest s2 = drop 4 (io_out io') @ io_rest io'"
    unfolding p2 by (metis append_assoc)
  also have "\<dots> = drop 4 (io_out io' @ io_rest io')" using long b sz by simp
  also have "\<dots> = pending s0 @ mpeg_rest s0" unfolding mv using st long sz by simp
  finally have "drop 4 (io_out ?io) @ pending s2 @ mpeg_rest s2 = pending s0 @ mpeg_rest s0" .
  moreover have "length (drop 4 (io_out ?io)) \<le> nb" using at(3) by (simp add: io_out_def)
  ultimately show ?thesis using r rc v fr unfolding mpeg_lossless_def by fastforce
qed

text \<open>C9: A call in the slices of a stream either makes a packet and loses, repeats and reorders nothing: the payload of
  the packet, then what the reader keeps of a start code it has read too far, then the rest of the file are what was kept
  and unread before, and the payload fits the packet size. Or it ends with \<open>ERR_EOF\<close>: then the file is used up,
  fewer bytes than a packet were left and no header among them; these bytes, the last slice, are dropped. The flags of the header: S is clear, B
  is set unless the packet goes on with a piece of the packet before, and E is set just where the reader keeps a start
  code, which then follows the payload (a packet that is full before the reader has seen the code has E clear, also
  where it happens to end with its slice).\<close>

theorem mpeg_slices_lossless:
  assumes sl: "mpeg_in_slices me s" and heap: "length heap = 65000" and nb: "packet_bytes (description me) \<le> 64990"
  shows "\<exists>r. read_MPEG_video rootdir os held heap code0 bytes me mt rc = Some r \<and>
    (rd_res r = ERR_EOF \<and> mpeg_ended (packet_bytes (description me)) s r \<or>
     rd_res r = ERR_NOERROR \<and> mpeg_lossless (packet_bytes (description me)) s r)"
proof -
  let ?nb = "packet_bytes (description me)" and ?io = "\<lparr>io_buf = heap, io_size = 4, io_file = mpeg_file s\<rparr>"
  have low: "262 \<le> ?nb" by (auto simp: packet_bytes_def)
  have rd: "read_MPEG_video rootdir os held heap code0 bytes me mt rc =
      (if fragmented s then mpeg_fragment held ?nb me s ?io False rc mt else mpeg_unit held code0 ?nb me s ?io False False rc mt)"
    using sl by (auto simp: read_MPEG_video_def mpeg_in_slices_def mpeg_seek_def Let_def packet_bytes_def)
  show ?thesis
  proof (cases "fragmented s")
    case True
    from copy_piece_moves [of ?nb ?io s] heap nb low consider
        (eof) io' where "copy_piece ?nb s ?io = Some (Inl io')" "at_end ?nb ?io io'"
      | (piece) s1 io1 code where "copy_piece ?nb s ?io = Some (Inr (s1, io1, code))" "piece_of ?nb s ?io s1 io1 code" by auto
    then show ?thesis
    proof cases
      case eof
      then have "mpeg_ended ?nb s (mpeg_eof held me (s\<lparr>mpeg_file := io_file io'\<rparr>) (io_size io') mt rc)"
        by (simp add: mpeg_ended_def at_end_def mpeg_eof_def mpeg_rest_def io_rest_def pending_def True)
      then show ?thesis unfolding rd using eof(1) by (simp add: True mpeg_fragment_def mpeg_eof_def)
    next
      case piece
      have "drop 4 (io_out ?io) @ io_rest ?io = pending s @ mpeg_rest s"
        by (simp add: io_out_def io_rest_def pending_def True mpeg_rest_def)
      moreover have v: "vsh1 (s1\<lparr>fragmented := \<not> code\<rparr>) = vsh1 s1" by simp
      moreover have "4 \<le> io_size ?io" "io_size ?io \<le> length (io_buf ?io)" "0 = (if fragmented s then 0 else 1 :: 1 word)"
        using heap True by simp_all
      ultimately have fin: "\<exists>r. mpeg_finish me (s1\<lparr>fragmented := \<not> code, vsh1 := (vsh1 s1)\<lparr>v_b := 0\<rparr>\<rparr>)
          (if code then io1\<lparr>io_size := io_size io1 - 4\<rparr> else io1) False (\<not> (code \<and> header_code (final_byte s1))) mt = Some r \<and>
        rd_res r = ERR_NOERROR \<and> mpeg_lossless ?nb s r"
        by (intro slices_finish [OF slices_from_piece(1) [OF piece(2)], unfolded v])
      have "mpeg_fragment held ?nb me s ?io False rc mt = mpeg_finish me (s1\<lparr>fragmented := \<not> code, vsh1 := (vsh1 s1)\<lparr>v_b := 0\<rparr>\<rparr>)
          (if code then io1\<lparr>io_size := io_size io1 - 4\<rparr> else io1) False (\<not> (code \<and> header_code (final_byte s1))) mt"
        by (simp only: mpeg_fragment_def piece(1) bind.bind_lunit sum.case split_conv)
      then show ?thesis unfolding rd using fin True by (simp only: if_True) blast
    qed
  next
    case False
    have nh: "\<not> header_code (final_byte s)" using sl False by (simp add: mpeg_in_slices_def)
    then have n7: "final_byte s \<noteq> 0xB7" by (auto simp: header_code_def)
    obtain io1 where 1: "io_put3 0 0 1 ?io = Some io1" "io_out io1 = io_out ?io @ [0, 0, 1]" "io_file io1 = mpeg_file s"
        "io_size io1 = 7" "length (io_buf io1) = 65000" using put3_out [of ?io 0 0 1] heap by auto
    obtain io2 where 2: "io_put (final_byte s) io1 = Some io2" "io_out io2 = io_out io1 @ [final_byte s]" "io_file io2 = mpeg_file s"
        "io_size io2 = 8" "length (io_buf io2) = 65000" using put_out [of io1 "final_byte s"] 1 by auto
    have hl: "header_loop ?nb me s io2 False True = Some (True, me, s, io2, False, True)"
      using nh by (subst header_loop.simps) simp
    have run: "read_MPEG_video rootdir os held heap code0 bytes me mt rc = mpeg_slices held code0 ?nb me s io2 False True mt"
      unfolding rd using False n7 by (simp add: mpeg_unit_def mpeg_start_def 1(1) 2(1) hl)
    from slice_loop_moves [of ?nb io2 s code0] 2 nb low consider
        (eof) s' io' where "slice_loop ?nb s io2 code0 True = Some (Inl (s', io'))" "at_end ?nb io2 io'"
      | (slices) s' io' code rc' where "slice_loop ?nb s io2 code0 True = Some (Inr (s', io', code, rc'))"
          "slices_of ?nb s io2 s' io' code rc'" by auto
    then show ?thesis
    proof cases
      case eof
      then have "mpeg_ended ?nb s (mpeg_eof held me (s'\<lparr>mpeg_file := io_file io'\<rparr>) (io_size io') mt True)"
        using 2(3,4) by (simp add: mpeg_ended_def at_end_def mpeg_eof_def mpeg_rest_def io_rest_def pending_def False)
      then show ?thesis unfolding run using eof(1) by (simp add: mpeg_slices_def mpeg_eof_def)
    next
      case slices
      have "drop 4 (io_out io2) = [0, 0, 1, final_byte s]" unfolding 2 1 using heap by (simp add: io_out_def)
      then have "drop 4 (io_out io2) @ io_rest io2 = pending s @ mpeg_rest s"
        using 2(3) by (simp add: io_rest_def pending_def False mpeg_rest_def)
      moreover have "4 \<le> io_size io2" "io_size io2 \<le> length (io_buf io2)" "1 = (if fragmented s then 0 else 1 :: 1 word)"
        using 2 False by simp_all
      ultimately have "\<exists>r. mpeg_finish me (s'\<lparr>vsh1 := (vsh1 s')\<lparr>v_b := 1\<rparr>\<rparr>)
          (if code then io'\<lparr>io_size := io_size io' - 4\<rparr> else io') False rc' mt = Some r \<and> rd_res r = ERR_NOERROR \<and> mpeg_lossless ?nb s r"
        by (intro slices_finish [OF slices(2)])
      then show ?thesis unfolding run mpeg_slices_def slices(1) bind.bind_lunit sum.case split_conv by blast
    qed
  qed
qed

section \<open>What goes wrong\<close>

text \<open>The codes above AF for which the loop over the headers has no case: reserved codes, the error code and the codes
  of the system layer.\<close>

definition stuck_code :: "uint8 \<Rightarrow> bool" where
  "stuck_code b \<longleftrightarrow> 0xAF < b \<and> b \<notin> {0xB2, 0xB3, 0xB5, 0xB7, 0xB8}"

lemma stuck_step:
  assumes "stuck_code (final_byte s)"
  shows "header_step nb me s io seq = Some (me, s, io, seq)" and "extension_loop s io = Some (True, s, io)"
    and "final_byte s \<noteq> 0xB7" and "header_code (final_byte s)"
  using assms by (auto simp: stuck_code_def header_step_def header_code_def extension_loop.simps)

lemma header_loop_stuck: "stuck_code (final_byte s) \<Longrightarrow> header_loop nb me s io seq True = None"
proof (rule ccontr)
  assume st: "stuck_code (final_byte s)" and "header_loop nb me s io seq True \<noteq> None"
  then obtain r where "header_loop nb me s io seq True = Some r" by blast
  then have "stuck_code (final_byte s) \<longrightarrow> True \<longrightarrow> False"
  proof (rule header_loop.raw_induct [of "\<lambda>nb me s io seq rc r. stuck_code (final_byte s) \<longrightarrow> rc \<longrightarrow> False", rotated], goal_cases)
    case (1 header_loop nb me s io seq rc r)
    show ?case
    proof (intro impI)
      assume "stuck_code (final_byte s)" rc
      then have "header_loop nb me s io seq True = Some r"
        using 1(2) stuck_step(1) [of s nb me io seq] stuck_step(2-4) [of s] by (auto simp: Let_def)
      then show False using 1(1) \<open>stuck_code (final_byte s)\<close> by blast
    qed
  qed
  then show False using st by simp
qed

text \<open>C36: A start code between B0 and FF that is none of those the reader knows (for instance the error code B4) stops the
  server: the next call of the reader does not return.\<close>
theorem mpeg_reserved_code_hangs:
  assumes "has_flag (me_flags me) ME_FD" and "media_stat me = Some s" and "std s \<noteq> TO_PROBE"
    and "msource (description me) = live \<or> play_offset me = prev_mstart_offset me"
    and "\<not> fragmented s" and "stuck_code (final_byte s)"
  shows "read_MPEG_video rootdir os held heap code0 bytes me mt rc = None"
proof -
  have "mpeg_unit held code0 nb me s io False False rc mt = None" for nb io
    using assms stuck_step(3) [OF assms(6)]
    by (cases "mpeg_start s io False") (auto simp: mpeg_unit_def mpeg_start_def header_loop_stuck split: Option.bind_split_asm)
  then show ?thesis using assms
    by (auto simp: read_MPEG_video_def mpeg_seek_def Let_def)
qed

lemma folded_char: "unat (scast (w :: 8 word) :: 10 word) = (if unat w < 128 then unat w else unat w + 768)"
proof -
  have s: "sint w = (uint w + 128) mod 256 - 128"
    by (simp add: sint_uint signed_take_bit_eq_take_bit_shift take_bit_eq_mod)
  have u: "0 \<le> uint w" "uint w < 256" using uint_lt2p [of w] by simp_all
  have "int (unat (scast w :: 10 word)) = sint w mod 1024"
    by (simp only: scast_eq uint_nat [symmetric] uint_word_of_int) simp
  also have "\<dots> = (if uint w < 128 then uint w else uint w + 768)" 
  proof (cases "uint w < 128")
    case True
    then have "(uint w + 128) mod 256 = uint w + 128" using u by (intro mod_pos_pos_trivial) simp_all
    then show ?thesis using True u unfolding s by simp
  next
    case False
    have "(uint w - 128 + 256) mod 256 = (uint w - 128) mod 256" "(uint w - 256 + 1024) mod 1024 = (uint w - 256) mod 1024"
      by (rule mod_add_self2)+
    moreover have "(uint w - 128) mod 256 = uint w - 128" "(uint w + 768) mod 1024 = uint w + 768"
      using False u by (simp_all add: mod_pos_pos_trivial)
    ultimately show ?thesis using False unfolding s by (simp add: add.commute [of "uint w"])
  qed
  finally show ?thesis unfolding uint_nat by presburger
qed

lemma folded_right:
  fixes t :: nat
  assumes "t < 1024"
  shows "(if t mod 256 < 128 then t mod 256 else t mod 256 + 768) = t \<longleftrightarrow> t < 128 \<or> 896 \<le> t"
proof -
  define q r where "q = t div 256" and "r = t mod 256"
  have t: "t = 256 * q + r" "r < 256" by (simp_all add: q_def r_def)
  then have "q = 0 \<or> q = 1 \<or> q = 2 \<or> q = 3" using assms by linarith
  then show ?thesis unfolding r_def [symmetric] using t by auto
qed

text \<open>The temporal reference of a picture goes through a signed character, so the header of the packet has it right
  only below 128 (or from 896 on, by accident).\<close>
theorem temporal_reference_folded:
  assumes "read_picture_head s io = Some (s', io', n)" and "io_rest io = b1 # b2 # rest" and "io_size io + 2 \<le> length (io_buf io)"
  shows "unat (v_tr (vsh1 s')) = 4 * unat b1 + unat b2 div 64 \<longleftrightarrow>
    4 * unat b1 + unat b2 div 64 < 128 \<or> 896 \<le> 4 * unat b1 + unat b2 div 64"
proof -
  have bk: "io_back 2 io1 = Some b1 \<and> io_back 1 io1 = Some b2" if "io_read 2 io = Some io1" for io1
  proof -
    have "fd_read 2 (io_file io) = ([b1, b2], (io_file io)\<lparr>file_pos := file_pos (io_file io) + 2\<rparr>)"
      using assms(2) by (simp add: fd_read_def io_rest_def)
    then show ?thesis using that assms(3)
      by (auto simp: io_read_def io_back_def nth_append split: if_splits)
  qed
  have tr: "v_tr (vsh1 s') = scast (b1 * 4 + and (drop_bit 6 b2) 0x03)"
    using assms(1) bk unfolding read_picture_head_def read_vectors_def Let_def
    by (auto split: Option.bind_split_asm prod.split_asm if_split_asm)
  have b2: "unat b2 div 64 < 4" using unsigned_less [of b2, where ?'a = nat] by simp
  have "unat (and (drop_bit 6 b2) 0x03) = unat b2 div 64"
  proof -
    have "and (drop_bit 6 b2) (0x03 :: 8 word) = take_bit 2 (drop_bit 6 b2)" by (simp add: take_bit_eq_mask mask_eq_exp_minus_1)
    also have "unat \<dots> = take_bit 2 (drop_bit 6 (unat b2))"
      using unsigned_less [of b2, where ?'a = nat]
      by (simp only: unsigned_take_bit_eq unsigned_drop_bit_eq) (simp add: take_bit_nat_eq_self)
    finally show ?thesis using b2 by (simp only: drop_bit_eq_div take_bit_eq_mod) simp
  qed
  then have w: "unat (b1 * 4 + and (drop_bit 6 b2) 0x03) = (4 * unat b1 + unat b2 div 64) mod 256"
    by (simp add: unat_word_ariths mod_simps mult.commute)
  have "4 * unat b1 + unat b2 div 64 < 1024" using unsigned_less [of b1, where ?'a = nat] b2 by simp
  then show ?thesis unfolding tr folded_char w by (rule folded_right)
qed

section \<open>Witnesses\<close>

text \<open>Inside a stream: the reader has read the code of slice 1.\<close>

definition mpeg_sample :: "uint8 \<Rightarrow> uint8 list \<Rightarrow> static_MPEG_video" where
  "mpeg_sample b bytes = (new_MPEG_video bytes)\<lparr>std := MPEG_1, final_byte := b\<rparr>"

definition mpeg_entry :: "static_MPEG_video \<Rightarrow> static_MPEG_video media_entry" where
  "mpeg_entry s = zero_media\<lparr>me_flags := ME_FD, media_stat := Some s\<rparr>"

lemma mpeg_entry_fields: "has_flag (me_flags (mpeg_entry s)) ME_FD" "media_stat (mpeg_entry s) = Some s"
    "play_offset (mpeg_entry s) = prev_mstart_offset (mpeg_entry s)" "packet_bytes (description (mpeg_entry s)) = 1400"
  by (simp_all add: mpeg_entry_def zero_media_def zero_descr_def has_flag_def ME_FD_def packet_bytes_def)

theorem mpeg_slices_lossless_witness:
  "\<exists>r. read_MPEG_video [] \<lparr>os_open = (\<lambda>_ _. 3), os_isfifo = (\<lambda>_. False)\<rparr> [] (replicate 65000 0) False []
      (mpeg_entry (mpeg_sample 1 [5, 6, 0, 0, 1, 0, 9])) 0 False = Some r \<and>
    rd_res r = ERR_NOERROR \<and> mpeg_lossless 1400 (mpeg_sample 1 [5, 6, 0, 0, 1, 0, 9]) r"
proof -
  let ?s = "mpeg_sample 1 [5, 6, 0, 0, 1, 0, 9]"
  have "mpeg_in_slices (mpeg_entry ?s) ?s"
    by (simp add: mpeg_in_slices_def mpeg_entry_fields) (simp add: mpeg_sample_def new_MPEG_video_def header_code_def)
  note run = mpeg_slices_lossless [OF this, of "replicate 65000 0", unfolded mpeg_entry_fields]
  have "mpeg_rest ?s = [5, 6, 0, 0, 1, 0, 9]" by (simp add: mpeg_sample_def new_MPEG_video_def mpeg_rest_def)
  then have "holds_header (mpeg_rest ?s)"
    unfolding holds_header_def by (intro exI [of _ "[5, 6]"] exI [of _ 0] exI [of _ "[9]"]) (simp add: header_code_def)
  then have "\<not> mpeg_ended 1400 ?s r" for r by (simp add: mpeg_ended_def)
  with run show ?thesis by (simp only: length_replicate) auto
qed

theorem mpeg_reserved_code_hangs_witness:
  "read_MPEG_video [] \<lparr>os_open = (\<lambda>_ _. 3), os_isfifo = (\<lambda>_. False)\<rparr> [] (replicate 65000 0) False []
      (mpeg_entry (mpeg_sample 0xB4 [1, 2, 3])) 0 False = None"
  by (rule mpeg_reserved_code_hangs [where s = "mpeg_sample 0xB4 [1, 2, 3]"])
    (simp_all add: mpeg_entry_fields mpeg_sample_def new_MPEG_video_def stuck_code_def)

theorem temporal_reference_folded_witness:
  "\<exists>s' io' n. read_picture_head (mpeg_sample 0 [])
       \<lparr>io_buf = replicate 12 0, io_size = 4, io_file = \<lparr>file_bytes = [0x20, 0x08, 0, 0, 1, 1], file_pos = 0\<rparr>\<rparr> = Some (s', io', n) \<and>
     unat (v_tr (vsh1 s')) \<noteq> 128"
proof -
  let ?io = "\<lparr>io_buf = replicate 12 0, io_size = 4, io_file = \<lparr>file_bytes = [0x20, 0x08, 0, 0, 1, 1], file_pos = 0\<rparr>\<rparr>"
  have "read_picture_head (mpeg_sample 0 []) ?io \<noteq> None" by code_simp
  then obtain s' io' n where r: "read_picture_head (mpeg_sample 0 []) ?io = Some (s', io', n)" by auto
  then show ?thesis using temporal_reference_folded [OF r] by (auto simp: io_rest_def)
qed

end
