(* ===== verification/Port_Pool.thy ===== *)
theory Port_Pool
  imports Fenice_Prelude "HOL-Library.Multiset"
begin

text \<open>
  The pool of server port pairs of \<^verbatim>\<open>rtp/RTP_port_pool_init.c\<close>, \<^verbatim>\<open>rtp/RTP_get_port_pair.c\<close> and
  \<^verbatim>\<open>rtp/RTP_release_port_pair.c\<close>. A slot of the pool holds a number that stands for a free pair
  or 0. The state is the start port and the array; the sessions that hold pairs are a list of pairs.
  The contract of the pool is a locale: what a client may rely on is that the pairs that are out are
  never handed out again.
\<close>

definition ONE_FORK_MAX_CONNECTION :: nat where "ONE_FORK_MAX_CONNECTION = 100"

record port_pair =
  RTP_port :: int
  RTCP_port :: int

record port_state =
  start_port :: int
  port_pool :: "int list"

definition RTP_port_pool_init :: "int \<Rightarrow> port_state" where
  "RTP_port_pool_init port =
     \<lparr>start_port = port, port_pool = map (\<lambda>i. int i + port) [0..<ONE_FORK_MAX_CONNECTION]\<rparr>"

text \<open>The first slot that satisfies a test, as the two loops search for it.\<close>

fun find_slot :: "(int \<Rightarrow> bool) \<Rightarrow> nat \<Rightarrow> int list \<Rightarrow> nat option" where
  "find_slot t i [] = None"
| "find_slot t i (x # xs) = (if t x then Some i else find_slot t (Suc i) xs)"

definition RTP_get_port_pair :: "port_state \<Rightarrow> port_state \<times> port_pair option \<times> int" where
  "RTP_get_port_pair st =
     (case find_slot (\<lambda>x. x \<noteq> 0) 0 (port_pool st) of
        None \<Rightarrow> (st, None, ERR_GENERIC)
      | Some i \<Rightarrow>
          (let rtp = (port_pool st ! i - start_port st) * 2 + start_port st
           in (st\<lparr>port_pool := (port_pool st)[i := 0]\<rparr>,
               Some \<lparr>RTP_port = rtp, RTCP_port = rtp + 1\<rparr>, ERR_NOERROR)))"

definition RTP_release_port_pair :: "port_state \<Rightarrow> port_pair \<Rightarrow> port_state \<times> int" where
  "RTP_release_port_pair st pair =
     (case find_slot (\<lambda>x. x = 0) 0 (port_pool st) of
        None \<Rightarrow> (st, ERR_GENERIC)
      | Some i \<Rightarrow>
          (st\<lparr>port_pool := (port_pool st)[i := (RTP_port pair - start_port st) div 2 + start_port st]\<rparr>,
           ERR_NOERROR))"

section \<open>The contract\<close>

text \<open>A pool of resources: what is out is a list without repetitions, taking adds something that was
  not out, and giving back removes it.\<close>

inductive pool_run ::
    "('p \<Rightarrow> bool) \<Rightarrow> ('p \<Rightarrow> ('p \<times> 'r) option) \<Rightarrow> ('p \<Rightarrow> 'r \<Rightarrow> 'p option) \<Rightarrow> 'p \<Rightarrow> 'r list \<Rightarrow> bool"
  for init take_one give where
  start: "init p \<Longrightarrow> pool_run init take_one give p []"
| taken: "pool_run init take_one give p rs \<Longrightarrow> take_one p = Some (q, r) \<Longrightarrow>
    pool_run init take_one give q (r # rs)"
| given: "pool_run init take_one give p rs \<Longrightarrow> r \<in> set rs \<Longrightarrow> give p r = Some q \<Longrightarrow>
    pool_run init take_one give q (remove1 r rs)"

locale resource_pool =
  fixes init :: "'p \<Rightarrow> bool"
    and valid :: "'p \<Rightarrow> 'r list \<Rightarrow> bool"
    and capacity :: nat
    and take_one :: "'p \<Rightarrow> ('p \<times> 'r) option"
    and give :: "'p \<Rightarrow> 'r \<Rightarrow> 'p option"
  assumes init_valid: "init p \<Longrightarrow> valid p []"
    and take_some: "valid p rs \<Longrightarrow> length rs < capacity \<Longrightarrow> \<exists>q r. take_one p = Some (q, r)"
    and take_none: "valid p rs \<Longrightarrow> length rs = capacity \<Longrightarrow> take_one p = None"
    and take_valid: "valid p rs \<Longrightarrow> take_one p = Some (q, r) \<Longrightarrow> valid q (r # rs)"
    and give_valid: "valid p rs \<Longrightarrow> r \<in> set rs \<Longrightarrow> \<exists>q. give p r = Some q \<and> valid q (remove1 r rs)"
    and valid_distinct: "valid p rs \<Longrightarrow> distinct rs \<and> length rs \<le> capacity"
begin

lemma run_valid: "pool_run init take_one give p rs \<Longrightarrow> valid p rs"
proof (induction rule: pool_run.induct)
  case (given p rs r q)
  with give_valid [of p rs r] show ?case by auto
qed (auto intro: init_valid take_valid)

lemma run_safe: "pool_run init take_one give p rs \<Longrightarrow> distinct rs \<and> length rs \<le> capacity"
  by (blast dest: run_valid valid_distinct)

lemma run_live: "pool_run init take_one give p rs \<Longrightarrow> (take_one p = None) = (length rs = capacity)"
  using run_valid take_none take_some valid_distinct by (metis le_neq_implies_less option.distinct(1))

lemma run_give: "pool_run init take_one give p rs \<Longrightarrow> r \<in> set rs \<Longrightarrow> \<exists>q. give p r = Some q"
  using run_valid give_valid by blast

end

section \<open>The pool keeps its contract\<close>

lemma find_slot_None: "find_slot t i xs = None \<longleftrightarrow> (\<forall>x \<in> set xs. \<not> t x)"
  by (induction xs arbitrary: i) auto

lemma find_slot_Some: "find_slot t i xs = Some j \<Longrightarrow> i \<le> j \<and> j < i + length xs \<and> t (xs ! (j - i))"
  by (induction xs arbitrary: i) (fastforce split: if_splits simp: nth_Cons')+

definition take_pair :: "port_state \<Rightarrow> (port_state \<times> port_pair) option" where
  "take_pair st = (case RTP_get_port_pair st of (st', Some p, _) \<Rightarrow> Some (st', p) | (_, None, _) \<Rightarrow> None)"

definition give_pair :: "port_state \<Rightarrow> port_pair \<Rightarrow> port_state option" where
  "give_pair st p = (case RTP_release_port_pair st p of
     (st', r) \<Rightarrow> if r = ERR_NOERROR then Some st' else None)"

definition pair_of :: "int \<Rightarrow> int \<Rightarrow> port_pair" where
  "pair_of s k = \<lparr>RTP_port = (k - s) * 2 + s, RTCP_port = (k - s) * 2 + s + 1\<rparr>"

definition fresh_pool :: "int \<Rightarrow> port_state \<Rightarrow> bool" where
  "fresh_pool s st \<longleftrightarrow> 0 < s \<and> st = RTP_port_pool_init s"

text \<open>The slot numbers in the pool and those that are out are, together, the numbers the pool started
  with.\<close>

definition pool_valid :: "int \<Rightarrow> port_state \<Rightarrow> port_pair list \<Rightarrow> bool" where
  "pool_valid s st rs \<longleftrightarrow> 0 < s \<and> start_port st = s \<and> length (port_pool st) = ONE_FORK_MAX_CONNECTION \<and>
     (\<exists>ks. rs = map (pair_of s) ks \<and>
        filter_mset (\<lambda>x. x \<noteq> 0) (mset (port_pool st)) + mset ks = mset (map (\<lambda>i. int i + s) [0..<ONE_FORK_MAX_CONNECTION]))"

lemma pair_of_inj: "inj (pair_of s)"
  by (rule injI) (simp add: pair_of_def)

lemma distinct_slots: "distinct (map (\<lambda>i. int i + s) [0..<n])"
  by (simp add: distinct_map inj_on_def)

lemma pool_validD:
  assumes "pool_valid s st rs"
  obtains ks where "rs = map (pair_of s) ks" "distinct ks" "\<forall>k \<in> set ks. s \<le> k"
    "filter_mset (\<lambda>x. x \<noteq> 0) (mset (port_pool st)) + mset ks = mset (map (\<lambda>i. int i + s) [0..<ONE_FORK_MAX_CONNECTION])"
    "size (filter_mset (\<lambda>x. x \<noteq> 0) (mset (port_pool st))) + length rs = ONE_FORK_MAX_CONNECTION"
proof -
  from assms obtain ks where ks: "rs = map (pair_of s) ks"
    and M: "filter_mset (\<lambda>x. x \<noteq> 0) (mset (port_pool st)) + mset ks = mset (map (\<lambda>i. int i + s) [0..<ONE_FORK_MAX_CONNECTION])"
    by (auto simp: pool_valid_def)
  have sub: "mset ks \<subseteq># mset (map (\<lambda>i. int i + s) [0..<ONE_FORK_MAX_CONNECTION])"
    using M by (metis mset_subset_eq_add_right)
  have "mset (filter (\<lambda>x. x \<noteq> 0) (port_pool st) @ ks) = mset (map (\<lambda>i. int i + s) [0..<ONE_FORK_MAX_CONNECTION])"
    using M by simp
  then have "distinct (filter (\<lambda>x. x \<noteq> 0) (port_pool st) @ ks)"
    using distinct_slots mset_eq_imp_distinct_iff by blast
  then have "distinct ks" by simp
  moreover have "\<forall>k \<in> set ks. s \<le> k" using mset_subset_eqD [OF sub] by fastforce
  moreover have "size (filter_mset (\<lambda>x. x \<noteq> 0) (mset (port_pool st))) + length rs = ONE_FORK_MAX_CONNECTION"
    using arg_cong [OF M, of size] ks by simp
  ultimately show thesis using that ks M by blast
qed

lemma mset_update_filter:
  assumes "i < length xs"
  shows "filter_mset P (mset (xs[i := v])) + (if P (xs ! i) then {#xs ! i#} else {#}) =
    filter_mset P (mset xs) + (if P v then {#v#} else {#})"
proof -
  have "xs ! i \<in># mset xs" using assms by simp
  then obtain R where R: "mset xs = add_mset (xs ! i) R" by (rule mset_add)
  moreover have "mset (xs[i := v]) = add_mset v R" using assms by (simp add: mset_update R)
  ultimately show ?thesis by simp
qed

lemma take_pair_valid:
  assumes V: "pool_valid s st rs" and T: "take_pair st = Some (st', r)"
  shows "pool_valid s st' (r # rs)"
proof -
  from V obtain ks where ks: "rs = map (pair_of s) ks"
    and M: "filter_mset (\<lambda>x. x \<noteq> 0) (mset (port_pool st)) + mset ks = mset (map (\<lambda>i. int i + s) [0..<ONE_FORK_MAX_CONNECTION])"
    by (auto simp: pool_valid_def)
  from T obtain i where f: "find_slot (\<lambda>x. x \<noteq> 0) 0 (port_pool st) = Some i"
    and st': "st' = st\<lparr>port_pool := (port_pool st)[i := 0]\<rparr>" and r: "r = pair_of s (port_pool st ! i)"
    using V by (auto simp: take_pair_def RTP_get_port_pair_def pair_of_def pool_valid_def Let_def split: option.splits)
  have i: "i < length (port_pool st)" "port_pool st ! i \<noteq> 0" using find_slot_Some [OF f] by simp_all
  have "filter_mset (\<lambda>x. x \<noteq> 0) (mset ((port_pool st)[i := 0])) + mset (port_pool st ! i # ks) =
      mset (map (\<lambda>i. int i + s) [0..<ONE_FORK_MAX_CONNECTION])"
  proof -
    let ?A = "\<lambda>p. filter_mset (\<lambda>x. x \<noteq> 0) (mset p)"
    have "add_mset (port_pool st ! i) (?A ((port_pool st)[i := 0])) = ?A (port_pool st)"
      using mset_update_filter [OF i(1), of "\<lambda>x. x \<noteq> 0" 0] i(2) by simp
    moreover have "?A ((port_pool st)[i := 0]) + mset (port_pool st ! i # ks) =
        add_mset (port_pool st ! i) (?A ((port_pool st)[i := 0])) + mset ks" by simp
    ultimately show ?thesis using M by simp
  qed
  then show ?thesis using V ks st' r unfolding pool_valid_def
    by (intro conjI exI [of _ "port_pool st ! i # ks"]) simp_all
qed

lemma remove1_map: "remove1 (pair_of s k) (map (pair_of s) ks) = map (pair_of s) (remove1 k ks)"
  using pair_of_inj [of s] by (induction ks) (auto dest: injD)

lemma give_pair_valid:
  assumes V: "pool_valid s st rs" and r: "r \<in> set rs"
  shows "\<exists>st'. give_pair st r = Some st' \<and> pool_valid s st' (remove1 r rs)"
proof -
  obtain ks where ks: "rs = map (pair_of s) ks" and D: "distinct ks" and pos: "\<forall>k \<in> set ks. s \<le> k"
    and M: "filter_mset (\<lambda>x. x \<noteq> 0) (mset (port_pool st)) + mset ks = mset (map (\<lambda>i. int i + s) [0..<ONE_FORK_MAX_CONNECTION])"
    and sz: "size (filter_mset (\<lambda>x. x \<noteq> 0) (mset (port_pool st))) + length rs = ONE_FORK_MAX_CONNECTION"
    by (rule pool_validD [OF V])
  from r ks obtain k where k: "k \<in> set ks" "r = pair_of s k" by auto
  have s: "0 < s" "start_port st = s" "length (port_pool st) = ONE_FORK_MAX_CONNECTION"
    using V by (auto simp: pool_valid_def)
  have "find_slot (\<lambda>x. x = 0) 0 (port_pool st) \<noteq> None"
  proof
    assume "find_slot (\<lambda>x. x = 0) 0 (port_pool st) = None"
    then have "filter_mset (\<lambda>x. x \<noteq> 0) (mset (port_pool st)) = mset (port_pool st)"
      by (simp add: find_slot_None filter_mset_eq_conv)
    with sz s r show False by auto
  qed
  then obtain i where f: "find_slot (\<lambda>x. x = 0) 0 (port_pool st) = Some i" by blast
  have i: "i < length (port_pool st)" "port_pool st ! i = 0" using find_slot_Some [OF f] by simp_all
  define st' where "st' = st\<lparr>port_pool := (port_pool st)[i := k]\<rparr>"
  have "(RTP_port r - s) div 2 + s = k" using k by (simp add: pair_of_def algebra_simps)
  then have g: "give_pair st r = Some st'"
    using f s by (simp add: give_pair_def RTP_release_port_pair_def st'_def)
  have "k \<noteq> 0" using pos k s by auto
  then have "filter_mset (\<lambda>x. x \<noteq> 0) (mset ((port_pool st)[i := k])) + mset (remove1 k ks) =
      mset (map (\<lambda>i. int i + s) [0..<ONE_FORK_MAX_CONNECTION])"
  proof -
    let ?A = "\<lambda>p. filter_mset (\<lambda>x. x \<noteq> 0) (mset p)"
    have a: "?A ((port_pool st)[i := k]) = add_mset k (?A (port_pool st))"
      using mset_update_filter [OF i(1), of "\<lambda>x. x \<noteq> 0" k] i(2) \<open>k \<noteq> 0\<close> by simp
    have "mset ks = add_mset k (mset (remove1 k ks))" using k(1) by simp
    then have "?A ((port_pool st)[i := k]) + mset (remove1 k ks) = ?A (port_pool st) + mset ks"
      unfolding a by (metis add_mset_add_single union_assoc union_commute union_mset_add_mset_left)
    with M show ?thesis by simp
  qed
  moreover have "remove1 r rs = map (pair_of s) (remove1 k ks)"
    unfolding ks k(2) by (rule remove1_map)
  ultimately have "pool_valid s st' (remove1 r rs)"
    using s unfolding pool_valid_def st'_def by (intro conjI exI [of _ "remove1 k ks"]) simp_all
  with g show ?thesis by blast
qed

lemma init_valid:
  assumes "fresh_pool s st"
  shows "pool_valid s st []"
proof -
  have st: "0 < s" "st = RTP_port_pool_init s" using assms by (simp_all add: fresh_pool_def)
  have "filter (\<lambda>x. x \<noteq> 0) (port_pool st) = port_pool st"
    using st by (auto simp: RTP_port_pool_init_def filter_id_conv)
  then have "filter_mset (\<lambda>x. x \<noteq> 0) (mset (port_pool st)) = mset (port_pool st)" by (metis mset_filter)
  then show ?thesis using st by (simp add: pool_valid_def RTP_port_pool_init_def)
qed

lemma take_pair_none:
  "take_pair st = None \<longleftrightarrow> (\<forall>x \<in> set (port_pool st). x = 0)"
proof -
  have "take_pair st = None \<longleftrightarrow> find_slot (\<lambda>x. x \<noteq> 0) 0 (port_pool st) = None"
    by (simp add: take_pair_def RTP_get_port_pair_def Let_def split: option.split)
  then show ?thesis by (simp add: find_slot_None)
qed

lemma filter_empty_size:
  "(\<forall>x \<in> set xs. x = 0) \<longleftrightarrow> size (filter_mset (\<lambda>x. x \<noteq> 0) (mset xs)) = 0"
proof -
  have "size (filter_mset (\<lambda>x. x \<noteq> 0) (mset xs)) = length (filter (\<lambda>x. x \<noteq> 0) xs)"
    by (metis mset_filter size_mset)
  then show ?thesis by (simp add: filter_empty_conv)
qed

interpretation ports: resource_pool "fresh_pool s" "pool_valid s" ONE_FORK_MAX_CONNECTION take_pair give_pair
proof (unfold_locales, goal_cases)
  case (1 p)
  then show ?case by (rule init_valid)
next
  case (2 p rs)
  obtain "size (filter_mset (\<lambda>x. x \<noteq> 0) (mset (port_pool p))) + length rs = ONE_FORK_MAX_CONNECTION"
    by (rule pool_validD [OF 2(1)])
  with 2(2) have "take_pair p \<noteq> None" by (simp only: take_pair_none filter_empty_size)
  then show ?case by auto
next
  case (3 p rs)
  obtain "size (filter_mset (\<lambda>x. x \<noteq> 0) (mset (port_pool p))) + length rs = ONE_FORK_MAX_CONNECTION"
    by (rule pool_validD [OF 3(1)])
  with 3(2) show ?case by (simp only: take_pair_none filter_empty_size)
next
  case (4 p rs q r)
  then show ?case by (rule take_pair_valid)
next
  case (5 p rs r)
  then show ?case by (rule give_pair_valid)
next
  case (6 p rs)
  obtain ks where "rs = map (pair_of s) ks" "distinct ks"
    "size (filter_mset (\<lambda>x. x \<noteq> 0) (mset (port_pool p))) + length rs = ONE_FORK_MAX_CONNECTION"
    by (rule pool_validD [OF 6])
  then show ?case using pair_of_inj [of s] by (auto simp: distinct_map inj_on_def inj_def)
qed

text \<open>The ports two held pairs use do not overlap.\<close>

lemma pool_ports_disjoint:
  assumes "pool_valid s st rs" and "p \<in> set rs" and "q \<in> set rs" and "p \<noteq> q"
  shows "{RTP_port p, RTCP_port p} \<inter> {RTP_port q, RTCP_port q} = {}"
proof -
  obtain ks where "rs = map (pair_of s) ks" by (rule pool_validD [OF assms(1)])
  with assms(2,3) obtain k l where "p = pair_of s k" "q = pair_of s l" by auto
  with assms(4) show ?thesis by (auto simp: pair_of_def)
qed

text \<open>C13: whatever order sessions take and return port pairs in, starting from a new pool: no two held
  pairs share a port, at most \<open>ONE_FORK_MAX_CONNECTION\<close> pairs are out, taking fails exactly when all of
  them are out, and returning a held pair succeeds.\<close>

theorem port_pool_exclusive:
  assumes "pool_run (fresh_pool s) take_pair give_pair st rs"
  shows "distinct rs \<and> length rs \<le> ONE_FORK_MAX_CONNECTION \<and>
    (\<forall>p \<in> set rs. \<forall>q \<in> set rs. p \<noteq> q \<longrightarrow> {RTP_port p, RTCP_port p} \<inter> {RTP_port q, RTCP_port q} = {}) \<and>
    (take_pair st = None \<longleftrightarrow> length rs = ONE_FORK_MAX_CONNECTION) \<and>
    (\<forall>p \<in> set rs. give_pair st p \<noteq> None)"
  using ports.run_safe [OF assms] ports.run_live [OF assms] ports.run_give [OF assms]
    pool_ports_disjoint [OF ports.run_valid [OF assms]] by auto

theorem port_pool_exclusive_witness:
  "\<exists>st p q. pool_run (fresh_pool 5004) take_pair give_pair st [p, q] \<and>
     {RTP_port p, RTCP_port p} \<inter> {RTP_port q, RTCP_port q} = {} \<and> give_pair st p \<noteq> None"
proof -
  have s: "pool_run (fresh_pool 5004) take_pair give_pair (RTP_port_pool_init 5004) []"
    by (rule pool_run.start) (simp add: fresh_pool_def)
  have "take_pair (RTP_port_pool_init 5004) \<noteq> None"
    using ports.run_live [OF s] by (simp add: ONE_FORK_MAX_CONNECTION_def)
  then obtain st1 q where t1: "take_pair (RTP_port_pool_init 5004) = Some (st1, q)" by auto
  note r1 = pool_run.taken [OF s t1]
  have "take_pair st1 \<noteq> None" using ports.run_live [OF r1] by (simp add: ONE_FORK_MAX_CONNECTION_def)
  then obtain st2 p where t2: "take_pair st1 = Some (st2, p)" by auto
  note r2 = pool_run.taken [OF r1 t2]
  from port_pool_exclusive [OF r2] r2 show ?thesis by (intro exI [of _ st2] exI [of _ p] exI [of _ q]) auto
qed

end
