(* ===== verification/Rtp.thy ===== *)
theory Rtp
  imports Media_Types Port_Pool
begin

text \<open>
  RTP sessions (\<^verbatim>\<open>include/fenice/rtp.h\<close>, \<^verbatim>\<open>rtp/\<close>) and the production of frames
  (\<^verbatim>\<open>mediainfo/get_frame.c\<close>): the transport, the session record, sending on the wire, and the loop
  that turns waiting slots into RTP packets. The members of the union of transports are separate fields.
  The media entry of a session, its private copy of the presentation's entry, is a second argument of
  the operations. What the socket calls answer and the
  reader of the media format are arguments. \<open>None\<close> is a call that does not return normally.
\<close>

section \<open>Data\<close>

datatype rtp_protos = rtp_proto | rtcp_proto

datatype transport_type = RTP_no_transport | RTP_rtp_avp | RTP_rtp_avp_tcp | RTP_rtp_avp_sctp

record stream_pair =
  RTP_ch :: uint16
  RTCP_ch :: uint16

record sockaddr =
  sa_host :: string
  sa_port :: uint16

record RTP_transport =
  trans_type :: transport_type
  rtp_fd :: int
  rtcp_fd_out :: int
  rtcp_fd_in :: int
  rtp_peer :: sockaddr
  rtcp_in_peer :: sockaddr
  rtcp_out_peer :: sockaddr
  cli_ports :: port_pair
  ser_ports :: port_pair
  is_multicast :: bool
  interleaved :: stream_pair
  streams :: stream_pair

record RTCP_stats =
  RR_received :: uint32
  SR_received :: uint32
  dest_SSRC :: uint64
  pkt_count :: uint32
  octet_count :: uint32
  pkt_lost :: "32 word"
  fract_lost :: uint8
  highest_seq_no :: uint32
  jitter :: uint32
  last_SR :: uint32
  delay_since_last_SR :: uint32

definition RTCP_BUFFERSIZE :: nat where "RTCP_BUFFERSIZE = 1024"

record RTP_session =
  transport :: RTP_transport
  rtcp_inbuffer :: "uint8 list"
  rtcp_insize :: uint32
  rtcp_outbuffer :: "uint8 list"
  rtcp_outsize :: uint32
  mprev_tx_time :: cdouble
  PreviousCount :: uint32
  MinimumReached :: int
  MaximumReached :: int
  sched_id :: int
  start_seq :: uint32
  start_rtptime :: uint32
  paused :: bool
  started :: bool
  rtp_seq :: uint32
  ssrc :: uint32
  rtp_sd_filename :: string
  cons :: OMSConsumer
  client_stats :: RTCP_stats
  server_stats :: RTCP_stats
  is_multicast_dad :: bool

text \<open>The RTP header: the values of its fields in host order.\<close>

record RTP_header =
  hdr_version :: uint8
  hdr_padding :: uint8
  hdr_extension :: uint8
  hdr_csrc_len :: uint8
  hdr_marker :: uint8
  hdr_payload :: uint8
  seq_no :: uint16
  hdr_timestamp :: uint32
  hdr_ssrc :: uint32

definition be16 :: "uint16 \<Rightarrow> uint8 list" where
  "be16 w = [ucast (drop_bit 8 w), ucast w]"

definition be32 :: "uint32 \<Rightarrow> uint8 list" where
  "be32 w = [ucast (drop_bit 24 w), ucast (drop_bit 16 w), ucast (drop_bit 8 w), ucast w]"

text \<open>The twelve bytes of a header in memory; \<open>htons\<close> and \<open>htonl\<close> have put its numbers in network
  order, a bit field keeps the low bits of the value assigned to it.\<close>

definition header_bytes :: "RTP_header \<Rightarrow> uint8 list" where
  "header_bytes r =
     or (push_bit 6 (and (hdr_version r) 3)) (or (push_bit 5 (and (hdr_padding r) 1))
       (or (push_bit 4 (and (hdr_extension r) 1)) (and (hdr_csrc_len r) 15)))
     # or (push_bit 7 (and (hdr_marker r) 1)) (and (hdr_payload r) 127)
     # be16 (seq_no r) @ be32 (hdr_timestamp r) @ be32 (hdr_ssrc r)"

section \<open>The wire\<close>

text \<open>\<open>sys fd pkt\<close> is the answer of \<open>sendto\<close> or \<open>send\<close>. The second component of the result is what was
  handed to the system.\<close>

definition RTP_sendto ::
    "(int \<Rightarrow> uint8 list \<Rightarrow> int) \<Rightarrow> RTP_session \<Rightarrow> rtp_protos \<Rightarrow> uint8 list \<Rightarrow> int \<times> uint8 list list" where
  "RTP_sendto sys s proto pkt =
    (let f = (if proto = rtp_proto then rtp_fd (transport s) else rtcp_fd_out (transport s))
     in if f < 0 then (- 1, [])
        else (case trans_type (transport s) of
                RTP_rtp_avp \<Rightarrow> (sys f pkt, [pkt])
              | RTP_rtp_avp_tcp \<Rightarrow> (sys f pkt, [pkt])
              | _ \<Rightarrow> (- 1, [])))"

text \<open>\<open>got\<close> is the datagram \<open>recvfrom\<close> or \<open>recv\<close> delivers; \<open>None\<close> is the result \<open>-1\<close>.\<close>

definition RTP_recv :: "uint8 list option \<Rightarrow> RTP_session \<Rightarrow> RTP_session \<times> int" where
  "RTP_recv got s =
    (let read = (case got of
                   None \<Rightarrow> (s\<lparr>rtcp_insize := - 1\<rparr>)
                 | Some d \<Rightarrow>
                     (let d' = take RTCP_BUFFERSIZE d
                      in s\<lparr>rtcp_inbuffer := memcpy (rtcp_inbuffer s) d' (length d'),
                           rtcp_insize := of_nat (length d')\<rparr>));
         s' = (case trans_type (transport s) of
                 RTP_rtp_avp \<Rightarrow> read
               | RTP_rtp_avp_tcp \<Rightarrow> read
               | _ \<Rightarrow> s)
     in (s', int (unat (rtcp_insize s'))))"

text \<open>Closing a transport: leaving the multicast group, giving the server ports back and closing the
  sockets. The result has the new port pool, the flags of the presentation and the closed descriptors.\<close>

definition RTP_transport_close ::
    "port_state \<Rightarrow> uint32 \<Rightarrow> RTP_session \<Rightarrow> port_state \<times> uint32 \<times> int list \<times> RTP_session" where
  "RTP_transport_close ports fl s =
    (let t = transport s;
         (ports', fl') =
           (if trans_type t = RTP_rtp_avp
            then (fst (RTP_release_port_pair ports (ser_ports t)),
                  (if is_multicast t then clear_flag fl SD_FL_MULTICAST_PORT else fl))
            else (ports, fl));
         fds = (if trans_type t = RTP_rtp_avp \<or> trans_type t = RTP_rtp_avp_tcp
                then filter (\<lambda>d. 0 \<le> d) [rtp_fd t, rtcp_fd_in t, rtcp_fd_out t] else []);
         t' = (if trans_type t = RTP_no_transport then t
               else t\<lparr>rtp_fd := - 1, rtcp_fd_in := - 1, rtcp_fd_out := - 1\<rparr>)
     in (ports', fl', fds, s\<lparr>transport := t'\<rparr>))"

section \<open>Producing frames\<close>

text \<open>The reader of a format: from the entry and the time to the outcome of one call.\<close>

type_synonym 'st reader = "'st media_entry \<Rightarrow> cdouble \<Rightarrow> 'st read_result option"

partial_function (option) get_frame_loop ::
    "shm_env \<Rightarrow> 'st reader \<Rightarrow> 'st media_entry \<Rightarrow> cdouble \<Rightarrow> ('st media_entry \<times> cdouble \<times> int) option" where
  "get_frame_loop e rd me mt =
    do {
      b \<leftarrow> pkt_buffer me;
      (b1, so) \<leftarrow> OMSbuff_getslot e b;
      sl \<leftarrow> so;
      r \<leftarrow> rd (me\<lparr>pkt_buffer := Some b1\<rparr>) mt;
      b2 \<leftarrow> pkt_buffer (rd_me r);
      let b3 = (case rd_data r of None \<Rightarrow> b2 | Some d \<Rightarrow> fill_slot sl d b2);
      let size = data_size (slot_at b3 sl);
      b4 \<leftarrow> (if rd_res r = ERR_NOERROR \<and> size \<noteq> 0
             then map_option fst (OMSbuff_write e b3 0 (word_of_int (c_trunc (rd_mtime r))) (rd_marker r) (Slot_data sl) size)
             else Some b3);
      let me2 = (rd_me r)\<lparr>pkt_buffer := Some b4\<rparr>;
      if rd_recall r \<and> rd_res r = ERR_NOERROR then get_frame_loop e rd me2 (rd_mtime r)
      else Some (me2, rd_mtime r, rd_res r)
    }"

definition get_frame ::
    "shm_env \<Rightarrow> 'st reader option \<Rightarrow> 'st media_entry \<Rightarrow> cdouble \<Rightarrow> ('st media_entry \<times> cdouble \<times> int) option" where
  "get_frame e rd me mt = (case rd of None \<Rightarrow> Some (me, mt, ERR_EOF) | Some r \<Rightarrow> get_frame_loop e r me mt)"

section \<open>Sending packets\<close>

definition rtp_packet :: "RTP_session \<Rightarrow> 'st media_entry \<Rightarrow> OMSSlot \<Rightarrow> uint8 list" where
  "rtp_packet s me sl =
     header_bytes \<lparr>hdr_version = 2, hdr_padding = 0, hdr_extension = 0, hdr_csrc_len = 0,
        hdr_marker = marker sl, hdr_payload = word_of_int (payload_type (description me)),
        seq_no = ucast (slot_seq sl + ucast (start_seq s) - 1),
        hdr_timestamp = word_of_int (c_trunc (real_of_int (uint (start_rtptime s) + msec2tick (timestamp sl) me) - firstts (cons s))),
        hdr_ssrc = ssrc s\<rparr>
     @ take (unat (data_size sl)) (slot_data sl)"

partial_function (option) send_slots ::
    "shm_env \<Rightarrow> (int \<Rightarrow> uint8 list \<Rightarrow> int) \<Rightarrow> cdouble \<Rightarrow> RTP_session \<Rightarrow> 'st media_entry \<Rightarrow> OMSBuffer \<Rightarrow> int option \<Rightarrow>
     uint8 list list \<Rightarrow> (RTP_session \<times> 'st media_entry \<times> uint8 list list) option" where
  "send_slots e sys s_time s me b slot wire =
    (case slot of
       None \<Rightarrow> Some (s, me\<lparr>pkt_buffer := Some b\<rparr>, wire)
     | Some i \<Rightarrow>
         do {
           let sl = slot_at b i;
           let (sent, out) = RTP_sendto sys s rtp_proto (rtp_packet s me sl);
           let s1 = (if sent < 0 then s
                     else s\<lparr>server_stats := (server_stats s)\<lparr>pkt_count := pkt_count (server_stats s) + 1,
                              octet_count := octet_count (server_stats s) + data_size sl\<rparr>\<rparr>);
           (b1, c1, _) \<leftarrow> OMSbuff_gotreader e b (cons s1);
           (b2, ts) \<leftarrow> OMSbuff_nextts e b1 c1;
           let nextts = (if 0 \<le> ts then ts - firstts c1 else ts);
           if nextts = - 1 \<or> nextts \<noteq> s_time
           then
             (let d = description me;
                  me' = me\<lparr>mtime := mtime me + (if delta_mtime d \<noteq> 0 then delta_mtime d else pkt_len d)\<rparr>
              in send_slots e sys s_time (s1\<lparr>cons := c1\<lparr>frames := frames c1 - 1\<rparr>\<rparr>) me' b2 None (wire @ out))
           else do {
             (b3, c3, n) \<leftarrow> OMSbuff_getreader e b2 c1;
             send_slots e sys s_time (s1\<lparr>cons := c3\<rparr>) me b3 n (wire @ out)
           }
         })"

definition RTP_send_packet ::
    "shm_env \<Rightarrow> 'st reader option \<Rightarrow> (int \<Rightarrow> uint8 list \<Rightarrow> int) \<Rightarrow> RTP_session \<Rightarrow> 'st media_entry \<Rightarrow>
     (RTP_session \<times> 'st media_entry \<times> uint8 list list \<times> int) option" where
  "RTP_send_packet e rd sys s me =
    do {
      b \<leftarrow> pkt_buffer me;
      (b1, c1, slot) \<leftarrow> OMSbuff_getreader e b (cons s);
      case slot of
        Some i \<Rightarrow>
          do {
            (s', me', wire) \<leftarrow> send_slots e sys (timestamp (slot_at b1 i) - firstts c1) (s\<lparr>cons := c1\<rparr>) me b1 slot [];
            Some (s', me', wire, ERR_NOERROR)
          }
      | None \<Rightarrow>
          do {
            (me1, s_time, res) \<leftarrow> get_frame e rd (me\<lparr>pkt_buffer := Some b1\<rparr>) (mtime me - mstart me + mstart_offset me);
            if res \<noteq> ERR_NOERROR then Some (s\<lparr>cons := c1\<rparr>, me1, [], res)
            else do {
              b2 \<leftarrow> pkt_buffer me1;
              (b3, c3, n) \<leftarrow> OMSbuff_getreader e b2 (c1\<lparr>frames := frames c1 + 1\<rparr>);
              (s', me', wire) \<leftarrow> send_slots e sys s_time (s\<lparr>cons := c3\<rparr>) me1 b3 n [];
              Some (s', me', wire, ERR_NOERROR)
            }
          }
    }"

declare get_frame_loop.simps [code] send_slots.simps [code]

text \<open>Destroying a session: the buffer is freed and the medium closed when the last consumer has gone. A session that
  never played is not \<open>joined\<close>: it has no consumer.\<close>

definition RTP_session_destroy ::
    "shm_env \<Rightarrow> int \<Rightarrow> port_state \<Rightarrow> uint32 \<Rightarrow> bool \<Rightarrow> RTP_session \<Rightarrow> 'st media_entry \<Rightarrow>
     (port_state \<times> uint32 \<times> int list \<times> 'st media_entry) option" where
  "RTP_session_destroy e close_ret ports fl joined s me =
    do {
      b \<leftarrow> pkt_buffer me;
      let (ports', fl', fds, s1) = RTP_transport_close ports fl s;
      b' \<leftarrow> (if joined then OMSbuff_unref e b (cons s1) else Some b);
      if ctl_refs (control b') = 0
      then Some (ports', fl', fds, fst (mediaclose close_ret (me\<lparr>pkt_buffer := None\<rparr>)))
      else Some (ports', fl', fds, me\<lparr>pkt_buffer := Some b'\<rparr>)
    }"

section \<open>The packet loop and the channel\<close>

text \<open>The buffer operations of the loop, on a buffer and consumer that satisfy the channel invariant.\<close>

lemma chan_inv_local: "chan_inv (b, c) \<Longrightarrow> buf_type b = buff_local \<and> \<not> syn (control b)"
  by (auto simp: chan_inv_def local_unlocked_def)

lemma chan_inv_frames [simp]:
  "chan_inv (b, c\<lparr>frames := f\<rparr>) = chan_inv (b, c)" "chan_inv (b, c\<lparr>firstts := t\<rparr>) = chan_inv (b, c)"
  by (simp_all add: chan_inv_def consumer_at_def)

lemma chan_queue_consumer: "chan_queue (b, c) = chan_queue (b, c')"
  by (simp add: chan_queue_def)

lemma chan_room_consumer: "chan_room (b, c) = chan_room (b, c')"
  by (simp add: chan_room_def)

lemma select_next_frames [simp]: "select_next b (c\<lparr>frames := f\<rparr>) = select_next b c"
  unfolding select_next_def Let_def by (simp split: option.split)

lemma chan_select_empty: "chan_inv (b, c) \<Longrightarrow> chan_queue (b, c) = [] \<Longrightarrow> select_next b c = None"
  by (auto simp: chan_inv_def chan_queue_def split_at_pending intro: select_next_empty)

lemma chan_getreader:
  assumes "chan_inv (b, c)"
  shows "\<exists>c1. OMSbuff_getreader e b c = Some (b, c1, select_next b c) \<and> chan_inv (b, c1) \<and>
    select_next b c1 = select_next b c"
  using assms chan_inv_local [OF assms] by (auto simp: getreader_local split: option.split)

lemma chan_nextts:
  assumes "chan_inv (b, c)"
  shows "OMSbuff_nextts e b c = Some (b, case select_next b c of None \<Rightarrow> - 1 | Some n \<Rightarrow> timestamp (slot_at b n))"
  using chan_inv_local [OF assms] by (simp add: OMSbuff_nextts_def lock_Some Let_def split: option.split)

text \<open>No slot claims more bytes than its array has.\<close>

definition slots_sized :: "OMSBuffer \<Rightarrow> bool" where
  "slots_sized b \<longleftrightarrow> (\<forall>s \<in> set (slots b). unat (data_size s) \<le> length (slot_data s))"

lemma slots_sized_refs: "slots_sized b \<Longrightarrow> slots_sized (upd_slot p (\<lambda>s. s\<lparr>refs := g s\<rparr>) b)"
  unfolding slots_sized_def all_set_conv_all_nth
  by (cases "nat p < length (slots b)") (simp_all add: upd_slot_def nth_list_update)

lemma chan_gotreader:
  assumes I: "chan_inv (b, c)" and Q: "chan_queue (b, c) = a # q"
  shows "\<exists>n b' c'. select_next b c = Some n \<and> slot_packet (slot_at b n) = a \<and>
    OMSbuff_gotreader e b c = Some (b', c', 0) \<and> chan_inv (b', c') \<and> chan_queue (b', c') = q \<and>
    chan_room (b', c') = chan_room (b, c) \<and> slot_at b n \<in> set (slots b) \<and> (slots_sized b \<longrightarrow> slots_sized b')"
proof -
  from I obtain ys ps where S: "split_at b ys ps" and C: "consumer_at b c ys ps"
    by (auto simp: chan_inv_def)
  from Q split_at_pending [OF S] obtain p ps' where ps: "ps = p # ps'" and a: "a = slot_packet (slots b ! p)"
    by (auto simp: chan_queue_def)
  have sel: "select_next b c = Some (int p)" using S C ps select_next_pending by simp
  have rng: "p < length (slots b)" using S ps ring_in_range [of b "ys @ ps" p] by (simp add: split_at_def)
  from get_packet_some [OF I Q, of e] obtain s' where
    g: "get_packet e (b, c) = Some (s', Some a)" "chan_inv s'" "chan_queue s' = q" "chan_room s' = chan_room (b, c)" by blast
  define c1 where "c1 = (if firstts c = - 1 then c\<lparr>firstts := timestamp (slot_at b (int p))\<rparr> else c)"
  define b' where "b' = upd_slot (int p) (\<lambda>s. s\<lparr>refs := refs s - 1\<rparr>) b"
  define c' where "c' = c\<lparr>last_seq := slot_seq (slot_at b (int p)), last_read_pos := int p,
     read_pos := next_slot (slot_at b (int p))\<rparr>"
  note loc = chan_inv_local [OF I]
  have "s' = (b', c1\<lparr>last_seq := slot_seq (slot_at b (int p)), last_read_pos := int p,
     read_pos := next_slot (slot_at b (int p))\<rparr>)"
    using g(1) loc sel by (simp add: get_packet_def getreader_local gotreader_local b'_def c1_def split: if_splits)
  moreover have "chan_inv (b', c1\<lparr>last_seq := slot_seq (slot_at b (int p)), last_read_pos := int p,
     read_pos := next_slot (slot_at b (int p))\<rparr>) = chan_inv (b', c')"
    by (simp add: c1_def c'_def chan_inv_def consumer_at_def)
  ultimately have "chan_inv (b', c')" "chan_queue (b', c') = q" "chan_room (b', c') = chan_room (b, c)"
    using g(2-4) by (simp_all add: chan_queue_def chan_room_def)
  moreover have "OMSbuff_gotreader e b c = Some (b', c', 0)"
    using loc sel by (simp add: gotreader_local b'_def c'_def)
  moreover have "slots_sized b \<longrightarrow> slots_sized b'" by (simp add: b'_def slots_sized_refs)
  ultimately show ?thesis using sel a rng by (auto simp: slot_at_def)
qed

text \<open>A packet on the wire carries the payload and the marker of a stored packet.\<close>

definition carries :: "uint8 list \<Rightarrow> packet \<Rightarrow> bool" where
  "carries w p \<longleftrightarrow> 12 \<le> length w \<and> drop 12 w = pkt_bytes p \<and> bit (w ! 1) 7 = bit (pkt_marker p) 0"

lemma header_length [simp]: "length (header_bytes r) = 12"
  by (simp add: header_bytes_def be16_def be32_def)

lemma rtp_packet_carries: "carries (rtp_packet s me sl) (slot_packet sl)"
proof -
  have "(rtp_packet s me sl) ! 1 = or (push_bit 7 (and (marker sl) 1))
      (and (word_of_int (payload_type (description me))) 127)"
    by (simp add: rtp_packet_def header_bytes_def)
  then show ?thesis
    by (simp add: carries_def rtp_packet_def slot_packet_def bit_simps)
qed

text \<open>A session whose socket is open.\<close>

definition wire_ready :: "RTP_session \<Rightarrow> bool" where
  "wire_ready s \<longleftrightarrow> 0 \<le> rtp_fd (transport s) \<and> trans_type (transport s) \<in> {RTP_rtp_avp, RTP_rtp_avp_tcp}"

lemma sendto_ready: "wire_ready s \<Longrightarrow> RTP_sendto sys s rtp_proto w = (sys (rtp_fd (transport s)) w, [w])"
  by (auto simp: RTP_sendto_def wire_ready_def)

text \<open>The counters of the session grow by the packets the socket took and by their octets without the headers.\<close>

definition taken :: "(int \<Rightarrow> uint8 list \<Rightarrow> int) \<Rightarrow> RTP_session \<Rightarrow> uint8 list list \<Rightarrow> uint8 list list" where
  "taken sys s ws = filter (\<lambda>w. 0 \<le> sys (rtp_fd (transport s)) w) ws"

definition counts_packets :: "(int \<Rightarrow> uint8 list \<Rightarrow> int) \<Rightarrow> RTP_session \<Rightarrow> uint8 list list \<Rightarrow> RTP_session \<Rightarrow> bool" where
  "counts_packets sys s ws s' \<longleftrightarrow>
     pkt_count (server_stats s') = pkt_count (server_stats s) + of_nat (length (taken sys s ws))"

definition counts_octets :: "(int \<Rightarrow> uint8 list \<Rightarrow> int) \<Rightarrow> RTP_session \<Rightarrow> uint8 list list \<Rightarrow> RTP_session \<Rightarrow> bool" where
  "counts_octets sys s ws s' \<longleftrightarrow> octet_count (server_stats s') =
     octet_count (server_stats s) + of_nat (sum_list (map (\<lambda>w. length w - 12) (taken sys s ws)))"

lemma counts_Cons:
  assumes "transport s1 = transport s"
  shows "counts_packets sys s [w] s1 \<Longrightarrow> counts_packets sys s1 ws s' \<Longrightarrow> counts_packets sys s (w # ws) s'"
    and "counts_octets sys s [w] s1 \<Longrightarrow> counts_octets sys s1 ws s' \<Longrightarrow> counts_octets sys s (w # ws) s'"
  using assms by (auto simp: counts_packets_def counts_octets_def taken_def)

lemma counts_cong:
  "server_stats s1 = server_stats s2 \<Longrightarrow> counts_packets sys s ws s1 = counts_packets sys s ws s2"
  "server_stats s1 = server_stats s2 \<Longrightarrow> counts_octets sys s ws s1 = counts_octets sys s ws s2"
  by (simp_all add: counts_packets_def counts_octets_def)

lemma counts_Nil [simp]: "counts_packets sys s [] s" "counts_octets sys s [] s"
  by (simp_all add: counts_packets_def counts_octets_def taken_def)

lemma send_slots_prefix:
  "chan_inv (b, cons s) \<Longrightarrow> wire_ready s \<Longrightarrow> chan_queue (b, cons s) = q \<Longrightarrow> slot = select_next b (cons s) \<Longrightarrow>
   \<exists>s' me' b' outs k. send_slots e sys st s me b slot wire = Some (s', me', wire @ outs) \<and>
     pkt_buffer me' = Some b' \<and> chan_inv (b', cons s') \<and> chan_queue (b', cons s') = drop k q \<and>
     list_all2 carries outs (take k q) \<and> (q \<noteq> [] \<longrightarrow> 0 < k) \<and> chan_room (b', cons s') = chan_room (b, cons s) \<and>
     me' = me\<lparr>mtime := mtime me', pkt_buffer := Some b'\<rparr> \<and>
     s' = s\<lparr>cons := cons s', server_stats := server_stats s'\<rparr> \<and>
     counts_packets sys s outs s' \<and> (slots_sized b \<longrightarrow> counts_octets sys s outs s' \<and> slots_sized b')"
proof (induction q arbitrary: b s me slot wire)
  case Nil
  then have "slot = None" by (simp add: chan_select_empty)
  with Nil show ?case by (subst send_slots.simps) simp
next
  case (Cons a q)
  from chan_gotreader [OF Cons.prems(1,3), of e] obtain n b1 c1 where
    sel: "select_next b (cons s) = Some n" and a: "slot_packet (slot_at b n) = a"
    and got: "OMSbuff_gotreader e b (cons s) = Some (b1, c1, 0)"
    and I1: "chan_inv (b1, c1)" and Q1: "chan_queue (b1, c1) = q"
    and M1: "chan_room (b1, c1) = chan_room (b, cons s)"
    and Z: "slot_at b n \<in> set (slots b)" and Z1: "slots_sized b \<longrightarrow> slots_sized b1" by blast
  let ?sl = "slot_at b n"
  let ?w = "rtp_packet s me ?sl"
  let ?sent = "sys (rtp_fd (transport s)) ?w"
  define s1 where "s1 = (if ?sent < 0 then s
     else s\<lparr>server_stats := (server_stats s)\<lparr>pkt_count := pkt_count (server_stats s) + 1,
              octet_count := octet_count (server_stats s) + data_size ?sl\<rparr>\<rparr>)"
  have same: "transport s1 = transport s" "cons s1 = cons s"
    by (simp_all add: s1_def)
  have cp: "counts_packets sys s [?w] s1"
    by (simp add: counts_packets_def taken_def s1_def)
  have co: "slots_sized b \<Longrightarrow> counts_octets sys s [?w] s1"
    using Z by (auto simp: counts_octets_def taken_def s1_def slots_sized_def rtp_packet_def)
  define ts where "ts = (case select_next b1 c1 of None \<Rightarrow> - 1 | Some n \<Rightarrow> timestamp (slot_at b1 n))"
  define nextts where "nextts = (if 0 \<le> ts then ts - firstts c1 else ts)"
  have w: "carries ?w a" using rtp_packet_carries [of s me ?sl] a by simp
  have nt: "OMSbuff_nextts e b1 c1 = Some (b1, ts)" unfolding ts_def by (rule chan_nextts [OF I1])
  show ?case
  proof (cases "nextts = - 1 \<or> nextts \<noteq> st")
    case True
    define d where "d = description me"
    define me' where "me' = me\<lparr>mtime := mtime me + (if delta_mtime d \<noteq> 0 then delta_mtime d else pkt_len d)\<rparr>"
    define s' where "s' = s1\<lparr>cons := c1\<lparr>frames := frames c1 - 1\<rparr>\<rparr>"
    have "send_slots e sys st s me b slot wire = send_slots e sys st s' me' b1 None (wire @ [?w])"
      using True Cons.prems(4) sel sendto_ready [OF Cons.prems(2), of sys ?w] got nt
      by (subst send_slots.simps) (simp add: Let_def s1_def [symmetric] same nextts_def [symmetric] me'_def d_def s'_def)
    moreover have "send_slots e sys st s' me' b1 None (wire @ [?w]) = Some (s', me'\<lparr>pkt_buffer := Some b1\<rparr>, wire @ [?w])"
      by (subst send_slots.simps) simp
    moreover have "s' = s\<lparr>cons := cons s', server_stats := server_stats s'\<rparr>" by (simp add: s'_def s1_def)
    moreover have "counts_packets sys s [?w] s'" "slots_sized b \<longrightarrow> counts_octets sys s [?w] s' \<and> slots_sized b1"
      using cp co Z1 counts_cong [of s' s1] by (simp_all add: s'_def)
    ultimately show ?thesis using w I1 Q1 M1
      by (intro exI [of _ s'] exI [of _ "me'\<lparr>pkt_buffer := Some b1\<rparr>"] exI [of _ b1] exI [of _ "[?w]"] exI [of _ 1])
        (simp add: s'_def chan_queue_def chan_room_def me'_def)
  next
    case False
    from chan_getreader [OF I1, of e] obtain c3 where
      c3: "OMSbuff_getreader e b1 c1 = Some (b1, c3, select_next b1 c1)" "chan_inv (b1, c3)"
      "select_next b1 c3 = select_next b1 c1" by blast
    define s2 where "s2 = s1\<lparr>cons := c3\<rparr>"
    have "send_slots e sys st s me b slot wire = send_slots e sys st s2 me b1 (select_next b1 c1) (wire @ [?w])"
      using False Cons.prems(4) sel sendto_ready [OF Cons.prems(2), of sys ?w] got nt c3(1)
      by (subst send_slots.simps) (simp add: Let_def s1_def [symmetric] same nextts_def [symmetric] s2_def)
    moreover have "chan_inv (b1, cons s2)" "wire_ready s2" "chan_queue (b1, cons s2) = q"
      "select_next b1 c1 = select_next b1 (cons s2)"
      using c3 Cons.prems(2) Q1 same by (simp_all add: s2_def wire_ready_def chan_queue_def)
    from Cons.IH [OF this, of me "wire @ [?w]"] obtain s' me' b' outs k where
      R: "send_slots e sys st s2 me b1 (select_next b1 c1) (wire @ [?w]) = Some (s', me', (wire @ [?w]) @ outs)"
      "pkt_buffer me' = Some b'" "chan_inv (b', cons s')" "chan_queue (b', cons s') = drop k q"
      "list_all2 carries outs (take k q)" "chan_room (b', cons s') = chan_room (b1, cons s2)"
      "me' = me\<lparr>mtime := mtime me', pkt_buffer := Some b'\<rparr>" "s' = s2\<lparr>cons := cons s', server_stats := server_stats s'\<rparr>"
      "counts_packets sys s2 outs s'" "slots_sized b1 \<longrightarrow> counts_octets sys s2 outs s' \<and> slots_sized b'" by blast
    have st2: "transport s2 = transport s" "server_stats s2 = server_stats s1" by (simp_all add: s2_def same)
    have "counts_packets sys s (?w # outs) s'"
      using counts_Cons(1) [OF st2(1) _ R(9)] cp counts_cong(1) [OF st2(2)] by simp
    moreover have "slots_sized b \<longrightarrow> counts_octets sys s (?w # outs) s' \<and> slots_sized b'"
      using counts_Cons(2) [OF st2(1)] R(10) Z1 co counts_cong(2) [OF st2(2)] by blast
    moreover note R(1-8)
    moreover have "s2\<lparr>cons := cons s', server_stats := server_stats s'\<rparr> = s\<lparr>cons := cons s', server_stats := server_stats s'\<rparr>"
      by (simp add: s2_def s1_def)
    moreover have "chan_room (b1, cons s2) = chan_room (b, cons s)" using M1 chan_room_consumer by metis
    ultimately show ?thesis using w same
      by (intro exI [of _ s'] exI [of _ me'] exI [of _ b'] exI [of _ "?w # outs"] exI [of _ "Suc k"])
        (simp add: s2_def)
  qed
qed

text \<open>A call with packets waiting.\<close>

lemma send_packet_waiting:
  assumes "pkt_buffer me = Some b" and "chan_inv (b, cons s)" and "wire_ready s" and "chan_queue (b, cons s) = q"
    and "q \<noteq> []"
  shows "\<exists>s' me' b' wire k. RTP_send_packet e rd sys s me = Some (s', me', wire, ERR_NOERROR) \<and>
    pkt_buffer me' = Some b' \<and> chan_inv (b', cons s') \<and> 0 < k \<and>
    list_all2 carries wire (take k q) \<and> chan_queue (b', cons s') = drop k q \<and>
    chan_room (b', cons s') = chan_room (b, cons s) \<and> me' = me\<lparr>mtime := mtime me', pkt_buffer := Some b'\<rparr> \<and>
    s' = s\<lparr>cons := cons s', server_stats := server_stats s'\<rparr> \<and>
    counts_packets sys s wire s' \<and> (slots_sized b \<longrightarrow> counts_octets sys s wire s' \<and> slots_sized b')"
proof -
  from chan_getreader [OF assms(2), of e] obtain c1 where
    c1: "OMSbuff_getreader e b (cons s) = Some (b, c1, select_next b (cons s))" "chan_inv (b, c1)"
    "select_next b c1 = select_next b (cons s)" by blast
  from assms(4,5) obtain a q' where q: "chan_queue (b, cons s) = a # q'" by (cases q) auto
  from chan_gotreader [OF assms(2) q, of e] obtain n where n: "select_next b (cons s) = Some n" by blast
  define s1 where "s1 = s\<lparr>cons := c1\<rparr>"
  have "chan_inv (b, cons s1)" "wire_ready s1" "chan_queue (b, cons s1) = q" "Some n = select_next b (cons s1)"
    using c1 assms(3,4) n by (simp_all add: s1_def wire_ready_def chan_queue_def)
  from send_slots_prefix [OF this, of e sys "timestamp (slot_at b n) - firstts c1" me "[]"] assms(5)
  obtain s' me' b' outs k where R:
    "send_slots e sys (timestamp (slot_at b n) - firstts c1) s1 me b (Some n) [] = Some (s', me', outs)"
    "pkt_buffer me' = Some b'" "chan_inv (b', cons s')" "chan_queue (b', cons s') = drop k q"
    "list_all2 carries outs (take k q)" "0 < k" "chan_room (b', cons s') = chan_room (b, cons s1)"
    "me' = me\<lparr>mtime := mtime me', pkt_buffer := Some b'\<rparr>" "s' = s1\<lparr>cons := cons s', server_stats := server_stats s'\<rparr>"
    "counts_packets sys s1 outs s'" "slots_sized b \<longrightarrow> counts_octets sys s1 outs s' \<and> slots_sized b'" by auto
  have "counts_packets sys s outs s'" "slots_sized b \<longrightarrow> counts_octets sys s outs s' \<and> slots_sized b'"
    using R(10,11) by (simp_all add: s1_def counts_packets_def counts_octets_def taken_def)
  note R = R(1-9) this
  have same: "chan_room (b, cons s1) = chan_room (b, cons s)"
      "s1\<lparr>cons := cons s', server_stats := server_stats s'\<rparr> = s\<lparr>cons := cons s', server_stats := server_stats s'\<rparr>"
    using chan_room_consumer by (metis, simp add: s1_def)
  from R(1) have "RTP_send_packet e rd sys s me = Some (s', me', outs, ERR_NOERROR)"
    using assms(1) c1(1) n by (simp add: RTP_send_packet_def s1_def)
  with R same show ?thesis
    by (intro exI [of _ s'] exI [of _ me'] exI [of _ b'] exI [of _ outs] exI [of _ k]) simp
qed

text \<open>C12: one call of \<open>RTP_send_packet\<close> with packets waiting for the session returns, sends a non-empty run of
  them, oldest first, each once and with its payload and marker intact, and leaves the others waiting, in
  order. The session's packet counter grows by the packets the socket took (\<open>sendto\<close> did not fail), modulo $2^{32}$, and
  its octet counter by their bytes without the 12 of the headers, where no slot claims more bytes than its array has.\<close>

theorem send_packet_prefix:
  assumes "pkt_buffer me = Some b" and "chan_inv (b, cons s)" and "wire_ready s" and "chan_queue (b, cons s) = q"
    and "q \<noteq> []"
  shows "\<exists>s' me' b' wire k. RTP_send_packet e rd sys s me = Some (s', me', wire, ERR_NOERROR) \<and>
    pkt_buffer me' = Some b' \<and> chan_inv (b', cons s') \<and> 0 < k \<and>
    list_all2 carries wire (take k q) \<and> chan_queue (b', cons s') = drop k q \<and>
    pkt_count (server_stats s') = pkt_count (server_stats s) + of_nat (length (taken sys s wire)) \<and>
    (slots_sized b \<longrightarrow> octet_count (server_stats s') =
       octet_count (server_stats s) + of_nat (sum_list (map (\<lambda>w. length w - 12) (taken sys s wire))))"
  using send_packet_waiting [OF assms, of e rd sys] unfolding counts_packets_def counts_octets_def by blast

section \<open>Producing frames through the channel\<close>

text \<open>What a reader produces in the calls of one \<open>get_frame\<close>: it is called again while it asks for it.\<close>

definition read_packet :: "'st read_result \<Rightarrow> uint8 list \<Rightarrow> packet" where
  "read_packet r d = \<lparr>pkt_ts = word_of_int (c_trunc (rd_mtime r)), pkt_marker = rd_marker r, pkt_bytes = d\<rparr>"

inductive produces ::
    "'st reader \<Rightarrow> 'st media_entry \<Rightarrow> cdouble \<Rightarrow> packet list \<Rightarrow> 'st media_entry \<Rightarrow> cdouble \<Rightarrow> bool"
  for rd where
  stop: "rd me mt = Some r \<Longrightarrow> rd_res r = ERR_NOERROR \<Longrightarrow> rd_data r = Some d \<Longrightarrow> d \<noteq> [] \<Longrightarrow>
    length d \<le> OMSSLOT_DATASIZE \<Longrightarrow> \<not> rd_recall r \<Longrightarrow> produces rd me mt [read_packet r d] (rd_me r) (rd_mtime r)"
| again: "rd me mt = Some r \<Longrightarrow> rd_res r = ERR_NOERROR \<Longrightarrow> rd_data r = Some d \<Longrightarrow> d \<noteq> [] \<Longrightarrow>
    length d \<le> OMSSLOT_DATASIZE \<Longrightarrow> rd_recall r \<Longrightarrow> produces rd (rd_me r) (rd_mtime r) ps me' mt' \<Longrightarrow>
    produces rd me mt (read_packet r d # ps) me' mt'"

text \<open>A reader does not look at the packet buffer of its entry.\<close>

definition buffer_blind :: "'st reader \<Rightarrow> bool" where
  "buffer_blind rd \<longleftrightarrow> (\<forall>me mt x. rd (me\<lparr>pkt_buffer := x\<rparr>) mt =
     map_option (\<lambda>r. r\<lparr>rd_me := (rd_me r)\<lparr>pkt_buffer := x\<rparr>\<rparr>) (rd me mt))"

lemma getslot_chan:
  assumes I: "chan_inv (b, c)" and room: "0 < chan_room (b, c)" and fr: "fresh_page e"
  shows "\<exists>b1 y. OMSbuff_getslot e b = Some (b1, Some (int y)) \<and> y < length (slots b1)"
proof -
  from I obtain ys ps where S: "split_at b ys ps" and L: "local_unlocked b" by (auto simp: chan_inv_def)
  have R: "ring b (ys @ ps)" using S by (simp add: split_at_def)
  have rm: "unat (nslots (control b)) + 9 < 2 ^ 32"
    using room by (auto simp: chan_room_def div_greater_zero_iff)
  show ?thesis
  proof (cases ys)
    case (Cons y ys')
    have "refs (slots b ! y) = 0" "ring b (y # ys' @ ps)" using S R Cons by (auto simp: split_at_def)
    then obtain v where "OMSbuff_getslot e b = Some (set_valid_read_pos v b, Some (int y))"
      using getslot_free [OF L] by blast
    then show ?thesis using ring_in_range [OF R, of y] Cons by auto
  next
    case Nil
    then have "ring b ps" "refs (slots b ! hd ps) \<noteq> 0"
      using S R ring_nonempty [OF R] by (auto simp: split_at_def)
    then obtain b' where "OMSbuff_getslot e b = Some (b', Some (int (length (slots b))))"
      "ring b' ([length (slots b)..<length (slots b) + 9] @ ps)"
      using getslot_full [OF L _ _ fr rm] by metis
    then show ?thesis using ring_in_range [of b' _ "length (slots b)"] by fastforce
  qed
qed

lemma frame_step:
  assumes I: "chan_inv (b, c)" and room: "0 < chan_room (b, c)" and fr: "fresh_page e"
    and bb: "buffer_blind rd" and r: "rd me mt = Some r" "rd_res r = ERR_NOERROR" "rd_data r = Some d" "d \<noteq> []"
      "length d \<le> OMSSLOT_DATASIZE"
  shows "\<exists>b'. chan_inv (b', c) \<and> chan_queue (b', c) = chan_queue (b, c) @ [read_packet r d] \<and>
    chan_room (b, c) \<le> Suc (chan_room (b', c)) \<and>
    get_frame_loop e rd (me\<lparr>pkt_buffer := Some b\<rparr>) mt =
      (if rd_recall r then get_frame_loop e rd ((rd_me r)\<lparr>pkt_buffer := Some b'\<rparr>) (rd_mtime r)
       else Some ((rd_me r)\<lparr>pkt_buffer := Some b'\<rparr>, rd_mtime r, ERR_NOERROR))"
proof -
  from getslot_chan [OF I room fr] obtain b1 y where
    g: "OMSbuff_getslot e b = Some (b1, Some (int y))" "y < length (slots b1)" by blast
  have P: "good_packet (read_packet r d)" using r(5) by (simp add: good_packet_def read_packet_def)
  from put_packet_fifo [OF I room fr P] obtain s' where
    s': "put_packet e (read_packet r d) (b, c) = Some s'" "chan_inv s'"
    "chan_queue s' = chan_queue (b, c) @ [read_packet r d]" "chan_room (b, c) \<le> Suc (chan_room s')" by blast
  have size: "data_size (slot_at (fill_slot (int y) d b1) (int y)) = of_nat (length d)"
    using g(2) by (simp add: fill_slot_def slot_at_upd_slot)
  have nz: "(of_nat (length d) :: uint32) \<noteq> 0"
  proof -
    have "unat (of_nat (length d) :: uint32) = length d"
      using r(5) by (simp add: unat_of_nat OMSSLOT_DATASIZE_def)
    then show ?thesis using r(4) by (metis length_0_conv unsigned_0)
  qed
  have rd: "rd (me\<lparr>pkt_buffer := Some b1\<rparr>) mt = Some (r\<lparr>rd_me := (rd_me r)\<lparr>pkt_buffer := Some b1\<rparr>\<rparr>)"
    using bb r(1) by (simp add: buffer_blind_def)
  from s'(1) g(1) obtain b' where
    w: "OMSbuff_write e (fill_slot (int y) d b1) 0 (word_of_int (c_trunc (rd_mtime r))) (rd_marker r) (Slot_data (int y))
      (of_nat (length d)) = Some (b', ERR_NOERROR)" and b': "s' = (b', c)"
    by (auto simp: put_packet_def read_packet_def bind_eq_Some_conv split: if_splits)
  have "get_frame_loop e rd (me\<lparr>pkt_buffer := Some b\<rparr>) mt =
      (if rd_recall r then get_frame_loop e rd ((rd_me r)\<lparr>pkt_buffer := Some b'\<rparr>) (rd_mtime r)
       else Some ((rd_me r)\<lparr>pkt_buffer := Some b'\<rparr>, rd_mtime r, ERR_NOERROR))"
    by (subst get_frame_loop.simps) (simp add: g(1) rd r(2,3) size nz w)
  with s' b' show ?thesis by blast
qed

text \<open>One call of \<open>get_frame\<close>.\<close>

lemma get_frame_produces:
  assumes "produces rd me mt ps me' mt'" and "buffer_blind rd" and "fresh_page e" and "chan_inv (b, c)"
    and "length ps \<le> chan_room (b, c)"
  shows "\<exists>b'. get_frame e (Some rd) (me\<lparr>pkt_buffer := Some b\<rparr>) mt = Some (me'\<lparr>pkt_buffer := Some b'\<rparr>, mt', ERR_NOERROR) \<and>
    chan_inv (b', c) \<and> chan_queue (b', c) = chan_queue (b, c) @ ps \<and> chan_room (b, c) \<le> length ps + chan_room (b', c)"
proof -
  have "\<exists>b'. get_frame_loop e rd (me\<lparr>pkt_buffer := Some b\<rparr>) mt = Some (me'\<lparr>pkt_buffer := Some b'\<rparr>, mt', ERR_NOERROR) \<and>
    chan_inv (b', c) \<and> chan_queue (b', c) = chan_queue (b, c) @ ps \<and> chan_room (b, c) \<le> length ps + chan_room (b', c)"
    using assms(1,4,5)
  proof (induction arbitrary: b rule: produces.induct)
    case (stop me mt r d)
    from frame_step [OF stop.prems(1) _ assms(3,2) stop.hyps(1-5)] stop.prems(2) stop.hyps(6) show ?case by fastforce
  next
    case (again me mt r d ps me' mt')
    then have "0 < chan_room (b, c)" by simp
    from frame_step [OF again.prems(1) this assms(3,2) again.hyps(1-5)] obtain b1 where
      b1: "chan_inv (b1, c)" "chan_queue (b1, c) = chan_queue (b, c) @ [read_packet r d]"
      "chan_room (b, c) \<le> Suc (chan_room (b1, c))"
      "get_frame_loop e rd (me\<lparr>pkt_buffer := Some b\<rparr>) mt =
        get_frame_loop e rd ((rd_me r)\<lparr>pkt_buffer := Some b1\<rparr>) (rd_mtime r)"
      using again.hyps(6) by auto
    from again.IH [OF b1(1)] b1 again.prems(2) show ?case by fastforce
  qed
  then show ?thesis by (simp add: get_frame_def)
qed

text \<open>C24: one call of \<open>get_frame\<close> appends exactly what the reader produces, all of it and in order, to the
  packets that wait for the session, and returns.\<close>

theorem get_frame_appends:
  assumes "produces rd me mt ps me' mt'" and "buffer_blind rd" and "fresh_page e" and "chan_inv (b, c)"
    and "length ps \<le> chan_room (b, c)"
  shows "\<exists>b'. get_frame e (Some rd) (me\<lparr>pkt_buffer := Some b\<rparr>) mt = Some (me'\<lparr>pkt_buffer := Some b'\<rparr>, mt', ERR_NOERROR) \<and>
    chan_inv (b', c) \<and> chan_queue (b', c) = chan_queue (b, c) @ ps"
  using get_frame_produces [OF assms] by blast

section \<open>Sample sessions\<close>

definition zero_stats :: RTCP_stats where
  "zero_stats = \<lparr>RR_received = 0, SR_received = 0, dest_SSRC = 0, pkt_count = 0, octet_count = 0, pkt_lost = 0,
     fract_lost = 0, highest_seq_no = 0, jitter = 0, last_SR = 0, delay_since_last_SR = 0\<rparr>"

definition zero_transport :: RTP_transport where
  "zero_transport = \<lparr>trans_type = RTP_no_transport, rtp_fd = 0, rtcp_fd_out = 0, rtcp_fd_in = 0,
     rtp_peer = \<lparr>sa_host = [], sa_port = 0\<rparr>, rtcp_in_peer = \<lparr>sa_host = [], sa_port = 0\<rparr>,
     rtcp_out_peer = \<lparr>sa_host = [], sa_port = 0\<rparr>, cli_ports = \<lparr>RTP_port = 0, RTCP_port = 0\<rparr>,
     ser_ports = \<lparr>RTP_port = 0, RTCP_port = 0\<rparr>, is_multicast = False,
     interleaved = \<lparr>RTP_ch = 0, RTCP_ch = 0\<rparr>, streams = \<lparr>RTP_ch = 0, RTCP_ch = 0\<rparr>\<rparr>"

text \<open>A session as \<open>calloc\<close> leaves it, with its consumer.\<close>

definition zero_session :: "OMSConsumer \<Rightarrow> RTP_session" where
  "zero_session c = \<lparr>transport = zero_transport, rtcp_inbuffer = replicate RTCP_BUFFERSIZE 0, rtcp_insize = 0,
     rtcp_outbuffer = replicate RTCP_BUFFERSIZE 0, rtcp_outsize = 0, mprev_tx_time = 0, PreviousCount = 0,
     MinimumReached = 0, MaximumReached = 0, sched_id = 0, start_seq = 0, start_rtptime = 0, paused = False,
     started = False, rtp_seq = 0, ssrc = 0, rtp_sd_filename = [], cons = c,
     client_stats = zero_stats, server_stats = zero_stats, is_multicast_dad = False\<rparr>"

definition udp_session :: "OMSConsumer \<Rightarrow> RTP_session" where
  "udp_session c = (zero_session c)\<lparr>transport := zero_transport\<lparr>trans_type := RTP_rtp_avp, rtp_fd := 3\<rparr>\<rparr>"

theorem send_packet_prefix_witness:
  "\<exists>me b c s' me' wire. chan_queue (b, c) = [sample_pkt 5] \<and>
     RTP_send_packet page_env (None :: unit reader option) (\<lambda>_ w. int (length w)) (udp_session c) me = Some (s', me', wire, ERR_NOERROR) \<and>
     list_all2 carries wire [sample_pkt 5] \<and> pkt_count (server_stats s') = 1"
proof -
  obtain b0 where n: "OMSbuff_new 3 = Some b0" by (simp add: OMSbuff_new_def)
  obtain b1 c where r: "chan_inv (b1, c)" "chan_queue (b1, c) = []" "chan_room (b1, c) = (2 ^ 32 - 1 - unat (3 :: 32 word)) div 9"
    by (rule ref_new [OF n])
  have "0 < chan_room (b1, c)" using r(3) by simp
  from put_packet_fifo [OF r(1) this page_env_fresh pkt_good [of 5]] r(2) obtain s where
    p: "put_packet page_env (sample_pkt 5) (b1, c) = Some s" "chan_inv s" "chan_queue s = [sample_pkt 5]" by auto
  from p(1) obtain b where s: "s = (b, c)" by (auto simp: put_packet_def bind_eq_Some_conv split: if_splits)
  let ?me = "zero_media\<lparr>pkt_buffer := Some b\<rparr> :: unit media_entry" and ?sys = "\<lambda>_ w. int (length w)"
  have "pkt_buffer ?me = Some b" "chan_inv (b, cons (udp_session c))" "wire_ready (udp_session c)"
    "chan_queue (b, cons (udp_session c)) = [sample_pkt 5]" "[sample_pkt 5] \<noteq> []"
    using p s by (simp_all add: udp_session_def zero_session_def wire_ready_def)
  from send_packet_prefix [OF this, of page_env "None :: unit reader option" ?sys]
  obtain s' me' wire k where R: "RTP_send_packet page_env (None :: unit reader option) ?sys (udp_session c) ?me =
      Some (s', me', wire, ERR_NOERROR)" "0 < k" "list_all2 carries wire (take k [sample_pkt 5])"
      "pkt_count (server_stats s') = pkt_count (server_stats (udp_session c)) + of_nat (length (taken ?sys (udp_session c) wire))" by blast
  have one: "take k [sample_pkt 5] = [sample_pkt 5]" using \<open>0 < k\<close> by (cases k) simp_all
  then have "length wire = 1" using R(3) by (auto dest: list_all2_lengthD)
  then have "pkt_count (server_stats s') = 1"
    using R(4) by (simp add: taken_def udp_session_def zero_session_def zero_stats_def)
  with R one p(3) s show ?thesis by (intro exI [of _ ?me] exI [of _ b] exI [of _ c]) auto
qed

definition const_reader :: "unit reader" where
  "const_reader me mt = Some \<lparr>rd_me = me, rd_res = ERR_NOERROR, rd_data = Some [1, 2, 3], rd_mtime = 40,
     rd_recall = False, rd_marker = 1\<rparr>"

theorem get_frame_appends_witness:
  "\<exists>b c b'. chan_queue (b, c) = [] \<and>
     get_frame page_env (Some const_reader) (zero_media\<lparr>pkt_buffer := Some b\<rparr>) 0 =
       Some (zero_media\<lparr>pkt_buffer := Some b'\<rparr>, 40, ERR_NOERROR) \<and>
     chan_queue (b', c) = [\<lparr>pkt_ts = 40, pkt_marker = 1, pkt_bytes = [1, 2, 3]\<rparr>]"
proof -
  obtain b0 where n: "OMSbuff_new 3 = Some b0" by (simp add: OMSbuff_new_def)
  obtain b c where r: "chan_inv (b, c)" "chan_queue (b, c) = []" "chan_room (b, c) = (2 ^ 32 - 1 - unat (3 :: 32 word)) div 9"
    by (rule ref_new [OF n])
  have p: "produces const_reader (zero_media :: unit media_entry) 0 [\<lparr>pkt_ts = 40, pkt_marker = 1, pkt_bytes = [1, 2, 3]\<rparr>] zero_media 40"
    using produces.stop [of const_reader "zero_media :: unit media_entry" 0 _ "[1, 2, 3]"]
    by (simp add: const_reader_def read_packet_def c_trunc_def OMSSLOT_DATASIZE_def)
  have "buffer_blind const_reader" by (simp add: buffer_blind_def const_reader_def)
  from get_frame_appends [OF p this page_env_fresh r(1)] r(2,3) show ?thesis by auto
qed

section \<open>The header on the wire\<close>

text \<open>The reading of a header by RFC 3550.\<close>

definition join16 :: "uint8 \<Rightarrow> uint8 \<Rightarrow> uint16" where
  "join16 a b = or (push_bit 8 (ucast a)) (ucast b)"

definition join32 :: "uint8 \<Rightarrow> uint8 \<Rightarrow> uint8 \<Rightarrow> uint8 \<Rightarrow> uint32" where
  "join32 a b c d = or (push_bit 24 (ucast a)) (or (push_bit 16 (ucast b)) (or (push_bit 8 (ucast c)) (ucast d)))"

fun parse_header :: "uint8 list \<Rightarrow> (RTP_header \<times> uint8 list) option" where
  "parse_header (b0 # b1 # s0 # s1 # t0 # t1 # t2 # t3 # i0 # i1 # i2 # i3 # rest) =
     Some (\<lparr>hdr_version = drop_bit 6 b0, hdr_padding = and (drop_bit 5 b0) 1, hdr_extension = and (drop_bit 4 b0) 1,
            hdr_csrc_len = and b0 15, hdr_marker = drop_bit 7 b1, hdr_payload = and b1 127,
            seq_no = join16 s0 s1, hdr_timestamp = join32 t0 t1 t2 t3, hdr_ssrc = join32 i0 i1 i2 i3\<rparr>, rest)"
| "parse_header _ = None"

lemma join16_be16: "join16 (ucast (drop_bit 8 w)) (ucast w) = w"
  by (rule bit_word_eqI) (auto simp: join16_def bit_simps)

lemma join32_be32:
  "join32 (ucast (drop_bit 24 w)) (ucast (drop_bit 16 w)) (ucast (drop_bit 8 w)) (ucast w) = w"
proof (rule bit_word_eqI)
  fix n assume "n < LENGTH(32)"
  then consider "n < 8" | "8 \<le> n" "n < 16" | "16 \<le> n" "n < 24" | "24 \<le> n" "n < 32" by fastforce
  then show "bit (join32 (ucast (drop_bit 24 w)) (ucast (drop_bit 16 w)) (ucast (drop_bit 8 w)) (ucast w)) n = bit w n"
    by cases (auto simp: join32_def bit_simps)
qed

lemma nat_lt8_cases: "(n :: nat) < 8 \<Longrightarrow> n \<in> {0, 1, 2, 3, 4, 5, 6, 7}"
  by auto

lemma header_byte0:
  fixes v p x c :: uint8
  defines "b \<equiv> or (push_bit 6 (and v 3)) (or (push_bit 5 (and p 1)) (or (push_bit 4 (and x 1)) (and c 15)))"
  shows "drop_bit 6 b = and v 3" "and (drop_bit 5 b) 1 = and p 1" "and (drop_bit 4 b) 1 = and x 1"
    "and b 15 = and c 15"
  unfolding b_def
  by (rule bit_word_eqI, drule nat_lt8_cases [OF order.strict_trans2], simp, auto simp: bit_simps)+

lemma header_byte1:
  fixes m p :: uint8
  defines "b \<equiv> or (push_bit 7 (and m 1)) (and p 127)"
  shows "drop_bit 7 b = and m 1" "and b 127 = and p 127"
  unfolding b_def
  by (rule bit_word_eqI, drule nat_lt8_cases [OF order.strict_trans2], simp, auto simp: bit_simps)+

text \<open>C22: the header of an RTP packet round-trips: a receiver that reads the packet by RFC 3550 gets the
  version 2, the low bit of the slot's marker, the low seven bits of the payload type, the sequence number,
  time stamp and source identifier computed by the server, and behind the twelve header bytes the payload.\<close>

theorem rtp_packet_parses:
  "parse_header (rtp_packet s me sl) =
    Some (\<lparr>hdr_version = 2, hdr_padding = 0, hdr_extension = 0, hdr_csrc_len = 0, hdr_marker = and (marker sl) 1,
       hdr_payload = and (word_of_int (payload_type (description me))) 127,
       seq_no = ucast (slot_seq sl + ucast (start_seq s) - 1),
       hdr_timestamp = word_of_int (c_trunc (real_of_int (uint (start_rtptime s) + msec2tick (timestamp sl) me) - firstts (cons s))),
       hdr_ssrc = ssrc s\<rparr>, pkt_bytes (slot_packet sl))"
  unfolding rtp_packet_def header_bytes_def be16_def be32_def
  by (simp only: append_Cons append_Nil parse_header.simps RTP_header.simps header_byte0 header_byte1
      join16_be16 join32_be32 slot_packet_def packet.simps) simp

end
