(* ===== verification/Rtcp.thy ===== *)
theory Rtcp
  imports Rtp
begin

text \<open>
  RTCP (\<^verbatim>\<open>include/fenice/rtcp.h\<close>, \<^verbatim>\<open>rtcp/\<close>): building sender reports, receiver reports, source
  descriptions and goodbyes into the session's output buffer, reading the packets of the client and
  the sending policy of \<open>RTCP_handler\<close>. Memory is little-endian, as on the machines the server is built
  for: a number stored without \<open>htonl\<close> has its low byte first.
\<close>

section \<open>Layout of the packets\<close>

datatype rtcp_pkt_type = SR | RR | SDES | BYE | APP

definition pt_code :: "rtcp_pkt_type \<Rightarrow> uint8" where
  "pt_code t = (case t of SR \<Rightarrow> 200 | RR \<Rightarrow> 201 | SDES \<Rightarrow> 202 | BYE \<Rightarrow> 203 | APP \<Rightarrow> 204)"

definition le32 :: "uint32 \<Rightarrow> uint8 list" where
  "le32 w = rev (be32 w)"

text \<open>\<open>ntohl\<close> swaps the bytes of its argument.\<close>

definition ntohl :: "uint32 \<Rightarrow> uint32" where
  "ntohl w = join32 (ucast w) (ucast (drop_bit 8 w)) (ucast (drop_bit 16 w)) (ucast (drop_bit 24 w))"

record RTCP_header =
  rtcp_version :: uint8
  rtcp_padding :: uint8
  rtcp_count :: uint8
  rtcp_pt :: uint8
  rtcp_length :: uint16

definition rtcp_header_bytes :: "RTCP_header \<Rightarrow> uint8 list" where
  "rtcp_header_bytes h =
     or (push_bit 6 (and (rtcp_version h) 3)) (or (push_bit 5 (and (rtcp_padding h) 1)) (and (rtcp_count h) 31))
     # rtcp_pt h # be16 (rtcp_length h)"

record RTCP_header_SR =
  sr_ssrc :: uint32
  ntp_timestampH :: uint32
  ntp_timestampL :: uint32
  rtp_timestamp :: uint32
  sr_pkt_count :: uint32
  sr_octet_count :: uint32

text \<open>The packet and octet counts are stored in host order.\<close>

definition sr_bytes :: "RTCP_header_SR \<Rightarrow> uint8 list" where
  "sr_bytes h = be32 (sr_ssrc h) @ be32 (ntp_timestampH h) @ be32 (ntp_timestampL h) @ be32 (rtp_timestamp h)
     @ le32 (sr_pkt_count h) @ le32 (sr_octet_count h)"

text \<open>The structures of a source description and of a goodbye are padded to eight bytes; the padding
  (\<open>junk\<close>) is not initialised.\<close>

definition sdes_bytes :: "uint32 \<Rightarrow> uint8 \<Rightarrow> uint8 \<Rightarrow> uint8 list \<Rightarrow> uint8 list" where
  "sdes_bytes sc attr_name len junk = be32 sc @ [attr_name, len] @ take 2 junk"

definition bye_bytes :: "uint32 \<Rightarrow> uint8 \<Rightarrow> uint8 list \<Rightarrow> uint8 list" where
  "bye_bytes sc len junk = be32 sc @ [len] @ take 3 junk"

text \<open>The time of day: seconds and microseconds.\<close>

record timeval =
  tv_sec :: nat
  tv_usec :: nat

section \<open>Building packets\<close>

definition rtcp_packet ::
    "timeval \<Rightarrow> uint8 list \<Rightarrow> uint8 list \<Rightarrow> int \<Rightarrow> RTP_session \<Rightarrow> rtcp_pkt_type \<Rightarrow> uint8 list option" where
  "rtcp_packet now hostname junk rate s t =
    (let hdr = (\<lambda>count size. rtcp_header_bytes \<lparr>rtcp_version = 2, rtcp_padding = 0, rtcp_count = count,
                   rtcp_pt = pt_code t, rtcp_length = of_nat (size div 4 - 1)\<rparr>)
     in case t of
          SR \<Rightarrow>
            Some (hdr 0 28 @ sr_bytes \<lparr>sr_ssrc = ssrc s, ntp_timestampH = of_nat (tv_sec now),
               ntp_timestampL = of_nat (tv_usec now),
               rtp_timestamp = of_nat (nat \<lfloor>real (tv_sec now) + real (tv_usec now) / 1000000\<rfloor>) * word_of_int rate
                               + start_rtptime s,
               sr_pkt_count = pkt_count (server_stats s), sr_octet_count = octet_count (server_stats s)\<rparr>)
        | RR \<Rightarrow> Some (hdr 0 8 @ be32 (ssrc s))
        | SDES \<Rightarrow>
            (let name_s = length hostname;
                 size = (if (4 + 8 + name_s) mod 4 \<noteq> 0 then 1 else 0) + (4 + 8 + name_s)
             in Some (hdr 1 size @ sdes_bytes (ssrc s) (ucast (ntohl 1)) (ucast (ntohl (of_nat name_s))) junk
                      @ hostname @ replicate (size - (4 + 8 + name_s)) 0))
        | BYE \<Rightarrow> Some (hdr 1 12 @ bye_bytes (ssrc s) (ucast (ntohl (of_nat (length ''The medium is over.'')))) junk)
        | APP \<Rightarrow> None)"

text \<open>A packet that does not fit behind those that wait in the output buffer is dropped.\<close>

definition append_out :: "uint8 list \<Rightarrow> RTP_session \<Rightarrow> RTP_session" where
  "append_out p s =
    (let off = unat (rtcp_outsize s)
     in if off + length p \<le> RTCP_BUFFERSIZE
        then s\<lparr>rtcp_outbuffer := take off (rtcp_outbuffer s) @ p @ drop (off + length p) (rtcp_outbuffer s),
               rtcp_outsize := rtcp_outsize s + of_nat (length p)\<rparr>
        else s)"

definition RTCP_send_packet ::
    "timeval \<Rightarrow> uint8 list \<Rightarrow> uint8 list \<Rightarrow> int \<Rightarrow> RTP_session \<Rightarrow> rtcp_pkt_type \<Rightarrow> RTP_session \<times> int" where
  "RTCP_send_packet now hostname junk rate s t =
    (case rtcp_packet now hostname junk rate s t of
       None \<Rightarrow> (s, ERR_NOERROR)
     | Some p \<Rightarrow> (append_out p s, ERR_NOERROR))"

section \<open>The sending policy\<close>

text \<open>\<open>ready\<close> is the answer of \<open>select\<close>: \<open>None\<close> for an error, otherwise whether the RTCP socket is
  writable, which it can only be when it was in the set. Every twentieth RTP packet a report and a
  description are queued and, when the socket is ready, sent.\<close>

definition RTCP_handler ::
    "timeval \<Rightarrow> uint8 list \<Rightarrow> uint8 list \<Rightarrow> int \<Rightarrow> (int \<Rightarrow> uint8 list \<Rightarrow> int) \<Rightarrow> bool option \<Rightarrow> RTP_session \<Rightarrow>
     RTP_session \<times> uint8 list list \<times> int" where
  "RTCP_handler now hostname junk rate sys ready s =
    (if pkt_count (server_stats s) mod 20 = 0
     then
       (let report = (if pkt_count (server_stats s) = 0 then RR else SR);
            s1 = fst (RTCP_send_packet now hostname junk rate s report);
            s2 = fst (RTCP_send_packet now hostname junk rate s1 SDES)
        in case ready of
             None \<Rightarrow> (s2, [], ERR_GENERIC)
           | Some w \<Rightarrow>
               (if 0 < rtcp_outsize s2 \<and> w
                then (let (r, out) = RTP_sendto sys s2 rtcp_proto (take (unat (rtcp_outsize s2)) (rtcp_outbuffer s2))
                      in (s2\<lparr>rtcp_outsize := 0\<rparr>, out, ERR_NOERROR))
                else (s2, [], ERR_NOERROR)))
     else (s, [], ERR_NOERROR))"

section \<open>Statistics\<close>

definition RTCP_get_RR_received :: "RTP_session \<Rightarrow> uint32" where
  "RTCP_get_RR_received s = RR_received (client_stats s)"

definition RTCP_get_fract_lost :: "RTP_session \<Rightarrow> cdouble" where
  "RTCP_get_fract_lost s = real (unat (fract_lost (client_stats s))) / 256"

definition RTCP_get_jitter :: "RTP_session \<Rightarrow> uint32" where
  "RTCP_get_jitter s = jitter (client_stats s)"

definition RTCP_get_pkt_lost :: "RTP_session \<Rightarrow> uint32" where
  "RTCP_get_pkt_lost s = pkt_lost (client_stats s)"

definition RTCP_get_total_packet :: "RTP_session \<Rightarrow> uint32" where
  "RTCP_get_total_packet s = pkt_count (server_stats s)"

definition RTCP_get_total_payload_octet :: "RTP_session \<Rightarrow> uint32" where
  "RTCP_get_total_payload_octet s = octet_count (server_stats s)"

section \<open>Reading the packets of the client\<close>

text \<open>A byte of the input buffer, and the four bytes at a position read as a number of the machine.\<close>

definition in_byte :: "RTP_session \<Rightarrow> int \<Rightarrow> uint8" where
  "in_byte s i = rtcp_inbuffer s ! nat i"

definition in_int :: "RTP_session \<Rightarrow> int \<Rightarrow> uint32" where
  "in_int s i = join32 (in_byte s (i + 3)) (in_byte s (i + 2)) (in_byte s (i + 1)) (in_byte s i)"

text \<open>The report block that starts at \<open>i\<close>. The code reads a single byte where the sequence number, the
  jitter and the two times are, and swaps it to the top of the number.\<close>

definition read_block :: "RTP_session \<Rightarrow> int \<Rightarrow> RTCP_stats \<Rightarrow> RTCP_stats" where
  "read_block s i st = st\<lparr>fract_lost := in_byte s i,
     pkt_lost := join32 0 (in_byte s (i + 1)) (in_byte s (i + 2)) (in_byte s (i + 3)),
     highest_seq_no := ntohl (ucast (in_byte s (i + 4))), jitter := ntohl (ucast (in_byte s (i + 8))),
     last_SR := ntohl (ucast (in_byte s (i + 12))), delay_since_last_SR := ntohl (ucast (in_byte s (i + 16)))\<rparr>"

definition read_rtcp :: "RTP_session \<Rightarrow> int \<Rightarrow> RTP_session option" where
  "read_rtcp s len =
    (let st = client_stats s; pt = in_byte s (1 + len); count = and (in_byte s len) 0x1F
     in if pt = 200
        then (let st1 = st\<lparr>SR_received := SR_received st + 1, pkt_count := in_int s (20 + len),
                            octet_count := in_int s (24 + len)\<rparr>
              in Some (s\<lparr>client_stats := (if count = 0 then st1 else read_block s (32 + len) st1)\<rparr>))
        else if pt = 201
        then (let st1 = st\<lparr>RR_received := RR_received st + 1\<rparr>
              in Some (s\<lparr>client_stats := (if count = 0 then st1 else read_block s (12 + len) st1)\<rparr>))
        else if pt = 202
        then Some (if in_byte s 8 = 1
                   then s\<lparr>client_stats := st\<lparr>dest_SSRC := ucast (join16 (in_byte s 4) (in_byte s 5))\<rparr>\<rparr>
                   else s)
        else if pt = 203 \<or> pt = 204 then Some s
        else None)"

text \<open>The position is a \<open>short\<close>: it wraps around at 16 bits, and is compared as an unsigned number.\<close>

definition next_rtcp :: "RTP_session \<Rightarrow> int \<Rightarrow> int" where
  "next_rtcp s len =
     sint (word_of_int (len + (uint (join16 (in_byte s (len + 2)) (in_byte s (len + 3))) + 1) * 4) :: 16 word)"

partial_function (option) recv_loop :: "RTP_session \<Rightarrow> int \<Rightarrow> (RTP_session \<times> int) option" where
  "recv_loop s len =
    (if word_of_int len < rtcp_insize s
     then (case read_rtcp s len of
             None \<Rightarrow> Some (s, ERR_NOERROR)
           | Some s' \<Rightarrow> recv_loop s' (next_rtcp s' len))
     else Some (s, ERR_NOERROR))"

declare recv_loop.simps [code]

definition RTCP_recv_packet :: "RTP_session \<Rightarrow> (RTP_session \<times> int) option" where
  "RTCP_recv_packet s = recv_loop s 0"

section \<open>The output buffer\<close>

definition out_ok :: "RTP_session \<Rightarrow> bool" where
  "out_ok s \<longleftrightarrow> length (rtcp_outbuffer s) = RTCP_BUFFERSIZE \<and> unat (rtcp_outsize s) \<le> RTCP_BUFFERSIZE"

text \<open>The bytes that wait to be sent.\<close>

definition waiting :: "RTP_session \<Rightarrow> uint8 list" where
  "waiting s = take (unat (rtcp_outsize s)) (rtcp_outbuffer s)"

lemma be_length [simp]: "length (be32 w) = 4" "length (be16 v) = 2" "length (le32 w) = 4"
  by (simp_all add: be32_def be16_def le32_def)

lemma append_out_ok:
  assumes "out_ok s"
  shows "out_ok (append_out p s)"
    and "waiting (append_out p s) =
      (if length (waiting s) + length p \<le> RTCP_BUFFERSIZE then waiting s @ p else waiting s)"
proof -
  let ?o = "unat (rtcp_outsize s)"
  have l: "length (waiting s) = ?o" using assms by (simp add: waiting_def out_ok_def)
  have "unat (rtcp_outsize s + of_nat (length p)) = ?o + length p" if "?o + length p \<le> RTCP_BUFFERSIZE"
  proof -
    have p: "unat (of_nat (length p) :: uint32) = length p"
      using that by (simp add: unat_of_nat RTCP_BUFFERSIZE_def)
    have "unat (rtcp_outsize s) + unat (of_nat (length p) :: uint32) < 2 ^ LENGTH(32)"
      using that by (simp only: p) (simp add: RTCP_BUFFERSIZE_def)
    then show ?thesis using unat_add_lem p by metis
  qed
  then show "out_ok (append_out p s)"
    and "waiting (append_out p s) =
      (if length (waiting s) + length p \<le> RTCP_BUFFERSIZE then waiting s @ p else waiting s)"
    using assms l by (auto simp: append_out_def out_ok_def waiting_def Let_def RTCP_BUFFERSIZE_def)
qed

lemma send_out_ok: "out_ok s \<Longrightarrow> out_ok (fst (RTCP_send_packet now hostname junk rate s t))"
  by (simp add: RTCP_send_packet_def append_out_ok split: option.split)

text \<open>A session as SETUP makes it: nothing waits in its output buffer, and the transport, the descriptors and the rest are
  what the request says.\<close>

definition fresh_session :: "RTP_session \<Rightarrow> bool" where
  "fresh_session s \<longleftrightarrow> length (rtcp_outbuffer s) = RTCP_BUFFERSIZE \<and> rtcp_outsize s = 0"

text \<open>What happens to a session: its own operations; the read of its RTCP socket or of an interleaved packet; the
  fields that SETUP, PLAY, PAUSE and the scheduler set; and the end of its transport.\<close>

inductive rtcp_step :: "RTP_session \<Rightarrow> RTP_session \<Rightarrow> bool" where
  send: "rtcp_step s (fst (RTCP_send_packet now hostname junk rate s t))"
| handle: "RTCP_handler now hostname junk rate sys ready s = (s', out, r) \<Longrightarrow> rtcp_step s s'"
| receive: "RTCP_recv_packet s = Some (s', r) \<Longrightarrow> rtcp_step s s'"
| rtp: "RTP_send_packet e (rd :: nat reader option) sys s me = Some (s', me', wire, r) \<Longrightarrow> rtcp_step s s'"
| input: "rtcp_step s (fst (RTP_recv got s))"
| interleaved: "rtcp_step s (s\<lparr>rtcp_inbuffer := bs, rtcp_insize := n\<rparr>)"
| set_id: "rtcp_step s (s\<lparr>sched_id := i, ssrc := x\<rparr>)"
| set_play: "rtcp_step s (s\<lparr>mprev_tx_time := t, paused := p, started := b, MinimumReached := mn, MaximumReached := mx,
    PreviousCount := pc, client_stats := cs\<rparr>)"
| close: "RTP_transport_close ports fl s = (ports', fl', fds, s') \<Longrightarrow> rtcp_step s s'"

lemma handler_out_ok:
  assumes "RTCP_handler now hostname junk rate sys ready s = (s', out, r)" "out_ok s"
  shows "out_ok s'"
proof -
  define s2 where "s2 = fst (RTCP_send_packet now hostname junk rate
      (fst (RTCP_send_packet now hostname junk rate s (if pkt_count (server_stats s) = 0 then RR else SR))) SDES)"
  have "out_ok s2" using assms(2) by (simp add: s2_def send_out_ok)
  moreover from assms(1) have "s' = s \<or> s' = s2 \<or> s' = s2\<lparr>rtcp_outsize := 0\<rparr>"
    by (auto simp: RTCP_handler_def Let_def s2_def split: if_splits option.splits prod.splits)
  ultimately show ?thesis using assms(2) by (auto simp: out_ok_def)
qed

lemma read_rtcp_out: "read_rtcp s len = Some s' \<Longrightarrow>
    rtcp_outbuffer s' = rtcp_outbuffer s \<and> rtcp_outsize s' = rtcp_outsize s \<and> rtcp_inbuffer s' = rtcp_inbuffer s \<and>
    rtcp_insize s' = rtcp_insize s"
  by (auto simp: read_rtcp_def Let_def split: if_splits)

lemma recv_out:
  assumes "recv_loop s len = Some r"
  shows "rtcp_outbuffer (fst r) = rtcp_outbuffer s \<and> rtcp_outsize (fst r) = rtcp_outsize s"
proof (rule recv_loop.raw_induct [OF _ assms,
    of "\<lambda>s len r. rtcp_outbuffer (fst r) = rtcp_outbuffer s \<and> rtcp_outsize (fst r) = rtcp_outsize s"], goal_cases)
  case (1 recv s len r)
  show ?case
  proof (cases "word_of_int len < rtcp_insize s \<and> read_rtcp s len \<noteq> None")
    case True
    then obtain s' where s': "read_rtcp s len = Some s'" "word_of_int len < rtcp_insize s" by auto
    with 1(2) have "recv s' (next_rtcp s' len) = Some r" by simp
    from 1(1) [OF this] read_rtcp_out [OF s'(1)] show ?thesis by simp
  next
    case False
    with 1(2) show ?thesis by (auto split: if_splits option.splits)
  qed
qed

lemma send_slots_out:
  assumes "send_slots e sys st s me b slot wire = Some r"
  shows "rtcp_outbuffer (fst r) = rtcp_outbuffer s \<and> rtcp_outsize (fst r) = rtcp_outsize s"
proof (rule send_slots.raw_induct [OF _ assms,
    of "\<lambda>e sys st s me b slot wire r. rtcp_outbuffer (fst r) = rtcp_outbuffer s \<and> rtcp_outsize (fst r) = rtcp_outsize s"],
    goal_cases)
  case (1 send_slots e sys st s me b slot wire r)
  show ?case
  proof (cases slot)
    case None
    with 1(2) show ?thesis by auto
  next
    case (Some i)
    define s1 where "s1 = (if fst (RTP_sendto sys s rtp_proto (rtp_packet s me (slot_at b i))) < 0 then s
       else s\<lparr>server_stats := (server_stats s)\<lparr>pkt_count := pkt_count (server_stats s) + 1,
                octet_count := octet_count (server_stats s) + data_size (slot_at b i)\<rparr>\<rparr>)"
    have "rtcp_outbuffer s1 = rtcp_outbuffer s" "rtcp_outsize s1 = rtcp_outsize s" by (simp_all add: s1_def)
    moreover from 1(2) Some obtain c me2 b2 n w where
      "send_slots e sys st (s1\<lparr>cons := c\<rparr>) me2 b2 n w = Some r"
      by (auto simp: Let_def s1_def bind_eq_Some_conv split: prod.splits if_splits)
    ultimately show ?thesis using 1(1) by fastforce
  qed
qed

lemma rtp_send_out:
  assumes "RTP_send_packet e rd sys s me = Some (s', me', wire, r)"
  shows "rtcp_outbuffer s' = rtcp_outbuffer s \<and> rtcp_outsize s' = rtcp_outsize s"
  using assms
  by (auto simp: RTP_send_packet_def bind_eq_Some_conv split: option.splits if_splits prod.splits
      dest!: send_slots_out)

interpretation rtcp: step_system fresh_session rtcp_step out_ok
proof (unfold_locales, goal_cases)
  case (1 s)
  then show ?case by (simp add: out_ok_def fresh_session_def)
next
  case (2 s t)
  from 2(2,1) show ?case
  proof (induction rule: rtcp_step.induct)
    case (send s now hostname junk rate t)
    then show ?case by (rule send_out_ok)
  next
    case (handle now hostname junk rate sys ready s s' out r)
    then show ?case by (rule handler_out_ok)
  next
    case (receive s s' r)
    then show ?case using recv_out [of s 0 "(s', r)"] by (simp add: RTCP_recv_packet_def out_ok_def)
  next
    case (rtp e rd sys s me s' me' wire r)
    then show ?case using rtp_send_out [of e rd sys s me s' me' wire r] by (simp add: out_ok_def)
  next
    case (input s got)
    then show ?case by (simp add: RTP_recv_def out_ok_def Let_def split: option.splits transport_type.splits)
  next
    case (close ports fl s ports' fl' fds s')
    then show ?case by (auto simp: RTP_transport_close_def out_ok_def Let_def split: prod.splits)
  qed (simp_all add: out_ok_def)
qed

text \<open>C21: the RTCP output buffer is never overrun: from a session with an empty buffer, as SETUP makes it for
  any transport (\<open>new_session_fresh\<close> in \<open>Rtsp_Setup\<close>), along every sequence of sends, receptions, handler runs that flush it
  or not, RTP packets and changes by PLAY, PAUSE and the end of the transport, at most 1024 bytes wait in a buffer of 1024
  bytes.\<close>

theorem rtcp_buffer_bounded:
  assumes "fresh_session s0" and "rtranclp rtcp_step s0 s"
  shows "length (rtcp_outbuffer s) = RTCP_BUFFERSIZE \<and> unat (rtcp_outsize s) \<le> RTCP_BUFFERSIZE"
  using rtcp.reachable_inv [of s0 s] assms by (simp add: out_ok_def)

definition sample_consumer :: OMSConsumer where
  "sample_consumer = \<lparr>read_pos = 0, last_read_pos = - 1, last_seq = 0, frames = 0, firstts = - 1\<rparr>"

definition sample_now :: timeval where
  "sample_now = \<lparr>tv_sec = 5, tv_usec = 0\<rparr>"

theorem rtcp_buffer_bounded_witness:
  "\<exists>s1 s2. s1 = fst (RTCP_send_packet sample_now [104] [0, 0, 0] 90000 (udp_session sample_consumer) RR) \<and>
     s2 = fst (RTCP_handler sample_now [104] [0, 0, 0] 90000 (\<lambda>_ _. 1) (Some True) s1) \<and>
     rtranclp rtcp_step (udp_session sample_consumer) s2 \<and> unat (rtcp_outsize s2) \<le> RTCP_BUFFERSIZE"
proof -
  let ?s1 = "fst (RTCP_send_packet sample_now [104] [0, 0, 0] 90000 (udp_session sample_consumer) RR)"
  let ?s2 = "fst (RTCP_handler sample_now [104] [0, 0, 0] 90000 (\<lambda>_ _. 1) (Some True) ?s1)"
  have "fresh_session (udp_session sample_consumer)" by (simp add: fresh_session_def udp_session_def zero_session_def)
  moreover obtain s2 out r where "RTCP_handler sample_now [104] [0, 0, 0] 90000 (\<lambda>_ _. 1) (Some True) ?s1 = (s2, out, r)"
    by (rule prod_cases3)
  then have "rtcp_step ?s1 ?s2" by (simp add: rtcp_step.handle)
  then have "rtranclp rtcp_step (udp_session sample_consumer) ?s2"
    by (blast intro: rtcp_step.send converse_rtranclp_into_rtranclp)
  ultimately show ?thesis using rtcp_buffer_bounded by blast
qed

section \<open>What the handler sends\<close>

text \<open>C25: one call of the handler, on a UDP session with an empty output buffer and a writable RTCP socket, looks at
  the number of RTP packets sent so far. If it is a multiple of twenty, one datagram goes out, a report (a receiver
  report before the first packet, a sender report afterwards) followed by the source description, and the buffer is empty
  afterwards; otherwise nothing is sent and the session is unchanged. (The scheduler calls the handler once per visit, after a
  visit may have sent several packets: a multiple that is passed over within a visit gets no report.)\<close>

theorem handler_sends_report:
  assumes "out_ok s" and "rtcp_outsize s = 0"
    and "length hostname \<le> 900" and "length junk = 3"
    and "0 \<le> rtcp_fd_out (transport s)" and "trans_type (transport s) = RTP_rtp_avp"
  shows "if pkt_count (server_stats s) mod 20 = 0
    then \<exists>report sdes s'. rtcp_packet now hostname junk rate s (if pkt_count (server_stats s) = 0 then RR else SR) = Some report \<and>
      rtcp_packet now hostname junk rate s SDES = Some sdes \<and>
      RTCP_handler now hostname junk rate sys (Some True) s = (s', [report @ sdes], ERR_NOERROR) \<and> rtcp_outsize s' = 0
    else RTCP_handler now hostname junk rate sys (Some True) s = (s, [], ERR_NOERROR)"
proof (cases "pkt_count (server_stats s) mod 20 = 0")
  case False
  then show ?thesis by (simp add: RTCP_handler_def)
next
  case True
  let ?t = "if pkt_count (server_stats s) = 0 then RR else SR"
  obtain report where r: "rtcp_packet now hostname junk rate s ?t = Some report" and lr: "length report \<le> 28" "0 < length report"
    by (cases "pkt_count (server_stats s) = 0") (auto simp: rtcp_packet_def Let_def rtcp_header_bytes_def sr_bytes_def)
  obtain sdes where d: "rtcp_packet now hostname junk rate s SDES = Some sdes" and ld: "length sdes \<le> 920"
    using assms(3,4) by (auto simp: rtcp_packet_def Let_def rtcp_header_bytes_def sdes_bytes_def)
  define s1 where "s1 = fst (RTCP_send_packet now hostname junk rate s ?t)"
  define s2 where "s2 = fst (RTCP_send_packet now hostname junk rate s1 SDES)"
  have s1: "s1 = append_out report s" by (simp add: s1_def RTCP_send_packet_def r)
  have keep: "ssrc (append_out p s) = ssrc s" "transport (append_out p s) = transport s"
    "server_stats (append_out p s) = server_stats s" "start_rtptime (append_out p s) = start_rtptime s" for p s
    by (simp_all add: append_out_def Let_def)
  have "rtcp_packet now hostname junk rate s1 SDES = Some sdes"
    using d by (simp add: s1 rtcp_packet_def Let_def keep)
  then have s2: "s2 = append_out sdes s1" by (simp add: s2_def RTCP_send_packet_def)
  have ok: "out_ok s1" "out_ok s2" using assms(1) by (simp_all add: s1 s2 append_out_ok)
  have "waiting s = []" using assms(2) by (simp add: waiting_def)
  then have w1: "waiting s1 = report" using append_out_ok(2) [OF assms(1), of report] lr by (simp add: s1 RTCP_BUFFERSIZE_def)
  then have w2: "waiting s2 = report @ sdes"
    using append_out_ok(2) [OF ok(1), of sdes] lr ld by (simp add: s2 RTCP_BUFFERSIZE_def)
  have "0 < rtcp_outsize s2"
  proof -
    have "waiting s2 \<noteq> []" using w2 lr(2) by auto
    then have "rtcp_outsize s2 \<noteq> 0" by (auto simp: waiting_def)
    then show ?thesis by (simp add: word_gt_0)
  qed
  moreover have "transport s2 = transport s" by (simp add: s1 s2 keep)
  ultimately have "RTCP_handler now hostname junk rate sys (Some True) s = (s2\<lparr>rtcp_outsize := 0\<rparr>, [waiting s2], ERR_NOERROR)"
    using True assms(5,6) by (simp add: RTCP_handler_def Let_def s1_def [symmetric] s2_def [symmetric] RTP_sendto_def waiting_def)
  with r d w2 True show ?thesis by auto
qed

theorem handler_sends_report_witness:
  "\<exists>report sdes s'. RTCP_handler sample_now [104] [0, 0, 0] 90000 (\<lambda>_ _. 1) (Some True) (udp_session sample_consumer) =
     (s', [report @ sdes], ERR_NOERROR)"
proof -
  have "out_ok (udp_session sample_consumer)" "rtcp_outsize (udp_session sample_consumer) = 0"
    "length [104 :: uint8] \<le> 900"
    "length [0, 0, 0 :: uint8] = 3" "0 \<le> rtcp_fd_out (transport (udp_session sample_consumer))"
    "trans_type (transport (udp_session sample_consumer)) = RTP_rtp_avp"
    by (simp_all add: out_ok_def udp_session_def zero_session_def zero_stats_def zero_transport_def)
  note run = handler_sends_report [OF this, of sample_now 90000 "\<lambda>_ _. 1"]
  have "pkt_count (server_stats (udp_session sample_consumer)) mod 20 = 0"
    by (simp add: udp_session_def zero_session_def zero_stats_def)
  from run [unfolded if_P [OF this]] show ?thesis by blast
qed

section \<open>Reading a receiver report\<close>

text \<open>A receiver report of 32 bytes with one block is read in one pass: it is counted, the fraction and the
  number of lost packets are those of the block; but of the highest sequence number, the jitter and the two times
  only the most significant byte is kept.\<close>

theorem receiver_report_read:
  assumes "rtcp_insize s = 32" and "in_byte s 0 = 0x81" and "in_byte s 1 = 201" and "in_byte s 2 = 0" and "in_byte s 3 = 7"
  shows "RTCP_recv_packet s = Some (s\<lparr>client_stats := (client_stats s)\<lparr>
      RR_received := RR_received (client_stats s) + 1, fract_lost := in_byte s 12,
      pkt_lost := join32 0 (in_byte s 13) (in_byte s 14) (in_byte s 15),
      highest_seq_no := push_bit 24 (ucast (in_byte s 16)), jitter := push_bit 24 (ucast (in_byte s 20)),
      last_SR := push_bit 24 (ucast (in_byte s 24)), delay_since_last_SR := push_bit 24 (ucast (in_byte s 28))\<rparr>\<rparr>, ERR_NOERROR)"
proof -
  have swap: "ntohl (ucast b) = push_bit 24 (ucast b)" for b :: uint8
  proof (rule bit_word_eqI)
    have nb: "\<not> bit b m" if "8 \<le> m" for m using bit_imp_le_length [of b m] that by auto
    fix n assume "n < LENGTH(32)"
    then consider "n < 8" | "8 \<le> n" "n < 16" | "16 \<le> n" "n < 24" | "24 \<le> n" "n < 32" by fastforce
    then show "bit (ntohl (ucast b)) n = bit (push_bit 24 (ucast b) :: uint32) n"
      by cases (auto simp: ntohl_def join32_def bit_simps nb)
  qed
  have len: "next_rtcp s' 0 = 32" if "rtcp_inbuffer s' = rtcp_inbuffer s" for s'
  proof -
    have "join16 (in_byte s' 2) (in_byte s' 3) = 7" using assms that by (simp add: in_byte_def join16_def)
    then show ?thesis by (simp add: next_rtcp_def)
  qed
  define s' where "s' = s\<lparr>client_stats := read_block s 12 ((client_stats s)\<lparr>RR_received := RR_received (client_stats s) + 1\<rparr>)\<rparr>"
  have r: "read_rtcp s 0 = Some s'"
    using assms(2,3) by (simp add: read_rtcp_def Let_def s'_def)
  have l: "next_rtcp s' 0 = 32" by (rule len) (simp add: s'_def)
  have "RTCP_recv_packet s = recv_loop s' 32"
    unfolding RTCP_recv_packet_def using assms(1) r l by (subst recv_loop.simps) simp
  also have "\<dots> = Some (s', ERR_NOERROR)"
    using assms(1) by (subst recv_loop.simps) (simp add: s'_def)
  finally show ?thesis by (simp add: s'_def read_block_def swap)
qed

definition rr_session :: RTP_session where
  "rr_session = (zero_session sample_consumer)\<lparr>rtcp_insize := 32,
     rtcp_inbuffer := [0x81, 201, 0, 7, 0, 0, 0, 1, 0, 0, 0, 2, 64, 0, 1, 2, 0, 0, 5, 6, 0, 0, 0, 9, 0, 0, 0, 0, 0, 0, 0, 0]\<rparr>"

theorem receiver_report_read_witness:
  "\<exists>s'. RTCP_recv_packet rr_session = Some (s', ERR_NOERROR) \<and> RTCP_get_fract_lost s' = 1 / 4 \<and>
     RTCP_get_pkt_lost s' = 258 \<and> highest_seq_no (client_stats s') = 0 \<and> RTCP_get_RR_received s' = 1"
proof -
  have "rtcp_insize rr_session = 32" "in_byte rr_session 0 = 0x81" "in_byte rr_session 1 = 201" "in_byte rr_session 2 = 0"
    "in_byte rr_session 3 = 7" by (simp_all add: rr_session_def in_byte_def)
  from receiver_report_read [OF this] show ?thesis
    by (simp add: RTCP_get_fract_lost_def RTCP_get_pkt_lost_def RTCP_get_RR_received_def)
      (simp add: rr_session_def in_byte_def zero_session_def zero_stats_def join32_def)
qed

lemma known_rtcp:
  assumes "in_byte t 1 \<in> {200, 201, 202, 203, 204}"
  shows "\<exists>t'. read_rtcp t 0 = Some t'"
proof -
  from assms consider "in_byte t 1 = 200" | "in_byte t 1 = 201" | "in_byte t 1 = 202" | "in_byte t 1 = 203"
    | "in_byte t 1 = 204" by blast
  then show ?thesis by cases (simp_all add: read_rtcp_def Let_def)
qed

text \<open>C35: a client can hang the server: an RTCP packet of a known type whose length field is 0x3FFF is 65536
  bytes long, which the 16-bit position does not move by, so that \<open>RTCP_recv_packet\<close> reads it for ever.\<close>

theorem rtcp_length_hangs:
  assumes "0 < rtcp_insize s" and "in_byte s 1 \<in> {200, 201, 202, 203, 204}" and "in_byte s 2 = 0x3F" and "in_byte s 3 = 0xFF"
  shows "RTCP_recv_packet s = None"
proof (rule ccontr)
  assume "RTCP_recv_packet s \<noteq> None"
  then obtain r where "recv_loop s 0 = Some r" by (auto simp: RTCP_recv_packet_def)
  then have "rtcp_inbuffer s = rtcp_inbuffer s \<longrightarrow> rtcp_insize s = rtcp_insize s \<longrightarrow> (0 :: int) = 0 \<longrightarrow> False"
  proof (rule recv_loop.raw_induct [rotated, of _ _ _
      "\<lambda>t len r. rtcp_inbuffer t = rtcp_inbuffer s \<longrightarrow> rtcp_insize t = rtcp_insize s \<longrightarrow> len = 0 \<longrightarrow> False"], goal_cases)
    case (1 recv t len r)
    show ?case
    proof (intro impI)
      assume t: "rtcp_inbuffer t = rtcp_inbuffer s" "rtcp_insize t = rtcp_insize s" "len = 0"
      have b: "in_byte t i = in_byte s i" for i by (simp add: in_byte_def t)
      have "in_byte t 1 \<in> {200, 201, 202, 203, 204}" using assms(2) by (simp only: b)
      then obtain t' where t': "read_rtcp t 0 = Some t'" using known_rtcp by blast
      note keep = read_rtcp_out [OF t']
      have "join16 (in_byte t' 2) (in_byte t' 3) = 0x3FFF"
        using assms(3,4) keep t by (simp add: in_byte_def join16_def)
      then have "next_rtcp t' 0 = 0" by (simp add: next_rtcp_def)
      with 1(2) t t' assms(1) have "recv t' 0 = Some r" by simp
      from 1(1) [OF this] keep t show False by simp
    qed
  qed
  then show False by simp
qed

theorem rtcp_length_hangs_witness:
  "RTCP_recv_packet ((zero_session sample_consumer)\<lparr>rtcp_insize := 8, rtcp_inbuffer := [0x80, 203, 0x3F, 0xFF, 0, 0, 0, 0]\<rparr>) = None"
  by (rule rtcp_length_hangs) (simp_all add: in_byte_def)

end
