(* ===== verification/CString.thy ===== *)
theory CString
  imports Fenice_Prelude "HOL-Library.Sublist" "HOL-Library.Char_ord"
begin

text \<open>
  The functions of the C library on strings that the server uses, in the "C" locale. A string is the
  list of its characters before the terminating NUL; a pointer into a string is the rest of the string
  from there on, a null pointer is \<open>None\<close>. \<open>sscanf\<close> is an interpreter of a list of directives, with
  the end-of-input result \<open>-1\<close> of the library.
\<close>

definition NUL :: char where "NUL = CHR 0x00"
definition CR :: char where "CR = CHR 0x0D"
definition LF :: char where "LF = CHR 0x0A"
definition TAB :: char where "TAB = CHR 0x09"

lemmas char_defs = NUL_def CR_def LF_def TAB_def

text \<open>The string that starts at the beginning of a character array.\<close>

definition c_str :: "char list \<Rightarrow> string" where
  "c_str b = takeWhile (\<lambda>c. c \<noteq> NUL) b"

definition is_space :: "char \<Rightarrow> bool" where
  "is_space c \<longleftrightarrow> c = CHR '' '' \<or> (9 \<le> (of_char c :: nat) \<and> (of_char c :: nat) \<le> 13)"

definition is_digit :: "char \<Rightarrow> bool" where
  "is_digit c \<longleftrightarrow> 48 \<le> (of_char c :: nat) \<and> (of_char c :: nat) \<le> 57"

definition digit_val :: "char \<Rightarrow> nat" where
  "digit_val c = of_char c - 48"

definition to_lower :: "char \<Rightarrow> char" where
  "to_lower c = (if 65 \<le> (of_char c :: nat) \<and> (of_char c :: nat) \<le> 90 then char_of (of_char c + 32 :: nat) else c)"

section \<open>Searching and comparing\<close>

fun strstr :: "string \<Rightarrow> string \<Rightarrow> string option" where
  "strstr [] pat = (if pat = [] then Some [] else None)"
| "strstr (c # s) pat = (if prefix pat (c # s) then Some (c # s) else strstr s pat)"

fun strchr :: "string \<Rightarrow> char \<Rightarrow> string option" where
  "strchr [] d = None"
| "strchr (c # s) d = (if c = d then Some (c # s) else strchr s d)"

fun strrchr :: "string \<Rightarrow> char \<Rightarrow> string option" where
  "strrchr [] d = None"
| "strrchr (c # s) d = (case strrchr s d of Some t \<Rightarrow> Some t | None \<Rightarrow> if c = d then Some (c # s) else None)"

definition strcspn :: "string \<Rightarrow> string \<Rightarrow> nat" where
  "strcspn s reject = length (takeWhile (\<lambda>c. c \<notin> set reject) s)"

definition strcaseeq :: "string \<Rightarrow> string \<Rightarrow> bool" where
  "strcaseeq s t \<longleftrightarrow> map to_lower s = map to_lower t"

definition strncaseeq :: "string \<Rightarrow> string \<Rightarrow> nat \<Rightarrow> bool" where
  "strncaseeq s t n \<longleftrightarrow> map to_lower (take n s) = map to_lower (take n t)"

text \<open>A \<open>strncpy\<close> into a buffer of \<open>n\<close> characters that the caller then checks for its last character:
  the string when it fits with its terminator.\<close>

definition copy_fits :: "string \<Rightarrow> nat \<Rightarrow> bool" where
  "copy_fits s n \<longleftrightarrow> length s < n"

text \<open>\<open>strtok\<close>: the next token of the rest of the string and what is left for the next call.\<close>

definition strtok :: "string \<Rightarrow> string \<Rightarrow> (string \<times> string) option" where
  "strtok s delims =
    (let s1 = dropWhile (\<lambda>c. c \<in> set delims) s;
         tok = takeWhile (\<lambda>c. c \<notin> set delims) s1
     in if s1 = [] then None else Some (tok, drop (length tok + 1) s1))"

lemma strtok_shorter: "strtok s d = Some (t, r) \<Longrightarrow> length r < length s"
proof -
  assume a: "strtok s d = Some (t, r)"
  let ?s = "dropWhile (\<lambda>c. c \<in> set d) s"
  have "?s \<noteq> []" "r = drop (length t + 1) ?s" using a by (auto simp: strtok_def Let_def split: if_splits)
  moreover have "length ?s \<le> length s" by (rule length_dropWhile_le)
  ultimately show ?thesis by (cases ?s) auto
qed

section \<open>Numbers\<close>

fun digits_val :: "nat \<Rightarrow> string \<Rightarrow> nat" where
  "digits_val acc [] = acc"
| "digits_val acc (c # s) = (if is_digit c then digits_val (acc * 10 + digit_val c) s else acc)"

fun dec_nat :: "nat \<Rightarrow> string" where
  "dec_nat n = (if n < 10 then [char_of (n + 48)] else dec_nat (n div 10) @ [char_of (n mod 10 + 48)])"

declare dec_nat.simps [simp del]

definition dec :: "int \<Rightarrow> string" where
  "dec i = (if i < 0 then CHR ''-'' # dec_nat (nat (- i)) else dec_nat (nat i))"

text \<open>A decimal number with an optional sign: its value and the rest of the input.\<close>

definition scan_int :: "string \<Rightarrow> (int \<times> string) option" where
  "scan_int s =
    (let (neg, t) = (case s of c # r \<Rightarrow> (if c = CHR ''-'' then (True, r) else if c = CHR ''+'' then (False, r) else (False, s))
                             | [] \<Rightarrow> (False, []));
         ds = takeWhile is_digit t
     in if ds = [] then None
        else Some ((if neg then - int (digits_val 0 ds) else int (digits_val 0 ds)), drop (length ds) t))"

text \<open>A decimal fraction: digits, with an optional point and more digits. Exponents, hexadecimal
  notation, infinities and NaN are not covered.\<close>

definition scan_real :: "string \<Rightarrow> (real \<times> string) option" where
  "scan_real s =
    (let (neg, t) = (case s of c # r \<Rightarrow> (if c = CHR ''-'' then (True, r) else if c = CHR ''+'' then (False, r) else (False, s))
                             | [] \<Rightarrow> (False, []));
         ds = takeWhile is_digit t; t1 = drop (length ds) t;
         (fs, t2) = (case t1 of c # r \<Rightarrow> (if c = CHR ''.'' then (takeWhile is_digit r, drop (length (takeWhile is_digit r)) r)
                                          else ([], t1))
                              | [] \<Rightarrow> ([], []));
         v = real (digits_val 0 (ds @ fs)) / 10 ^ length fs
     in if ds = [] \<and> fs = [] then None else Some ((if neg then - v else v), t2))"

definition atol :: "string \<Rightarrow> int" where
  "atol s = (case scan_int (dropWhile is_space s) of Some (v, _) \<Rightarrow> v | None \<Rightarrow> 0)"

section \<open>Scanning\<close>

datatype scan_dir = Ws | Lit char | Str nat | Skip nat | Num | Dbl
datatype scan_val = V_str string | V_num int | V_real real

definition WIDE :: nat where "WIDE = 1000000"

text \<open>The result has the assigned values and the return value: their number, or \<open>-1\<close> when the input ends
  before anything was assigned or mismatched.\<close>

fun scan :: "scan_dir list \<Rightarrow> string \<Rightarrow> scan_val list \<Rightarrow> scan_val list \<times> int" where
  "scan [] s vs = (vs, int (length vs))"
| "scan (Ws # ds) s vs = scan ds (dropWhile is_space s) vs"
| "scan (Lit c # ds) s vs =
     (case s of [] \<Rightarrow> (vs, if vs = [] then - 1 else int (length vs))
      | d # r \<Rightarrow> (if c = d then scan ds r vs else (vs, int (length vs))))"
| "scan (Str w # ds) s vs =
     (let t = dropWhile is_space s; v = take w (takeWhile (\<lambda>c. \<not> is_space c) t)
      in if t = [] then (vs, if vs = [] then - 1 else int (length vs))
         else scan ds (drop (length v) t) (vs @ [V_str v]))"
| "scan (Skip w # ds) s vs =
     (let t = dropWhile is_space s; v = take w (takeWhile (\<lambda>c. \<not> is_space c) t)
      in if t = [] then (vs, if vs = [] then - 1 else int (length vs))
         else scan ds (drop (length v) t) vs)"
| "scan (Num # ds) s vs =
     (let t = dropWhile is_space s
      in if t = [] then (vs, if vs = [] then - 1 else int (length vs))
         else (case scan_int t of None \<Rightarrow> (vs, int (length vs)) | Some (v, r) \<Rightarrow> scan ds r (vs @ [V_num v])))"
| "scan (Dbl # ds) s vs =
     (let t = dropWhile is_space s
      in if t = [] then (vs, if vs = [] then - 1 else int (length vs))
         else (case scan_real t of None \<Rightarrow> (vs, int (length vs)) | Some (v, r) \<Rightarrow> scan ds r (vs @ [V_real v])))"

definition sscanf :: "string \<Rightarrow> scan_dir list \<Rightarrow> scan_val list \<times> int" where
  "sscanf s ds = scan ds s []"

fun val_str :: "scan_val \<Rightarrow> string" where
  "val_str (V_str s) = s" | "val_str _ = []"

fun val_num :: "scan_val \<Rightarrow> int" where
  "val_num (V_num i) = i" | "val_num _ = 0"

fun val_real :: "scan_val \<Rightarrow> real" where
  "val_real (V_real r) = r" | "val_real _ = 0"

section \<open>Facts\<close>

lemma strstr_Some: "strstr s pat = Some t \<Longrightarrow> prefix pat t \<and> suffix t s"
proof (induction s pat rule: strstr.induct)
  case (2 c s pat)
  then show ?case by (auto split: if_splits simp: suffix_def)
qed (auto split: if_splits)

lemma strstr_None: "strstr s pat = None \<longleftrightarrow> \<not> sublist pat s"
proof (induction s)
  case Nil
  then show ?case by (cases pat) (auto simp: sublist_def)
next
  case (Cons c s)
  then show ?case by (auto simp: sublist_Cons_right)
qed

lemma strchr_Some: "strchr s d = Some t \<Longrightarrow> \<exists>p. s = p @ t \<and> d \<notin> set p \<and> t \<noteq> [] \<and> hd t = d"
  by (induction s) (fastforce split: if_splits simp: Cons_eq_append_conv)+

lemma strchr_None: "strchr s d = None \<longleftrightarrow> d \<notin> set s"
  by (induction s) auto

lemma strrchr_Some: "strrchr s d = Some t \<Longrightarrow> \<exists>p r. s = p @ t \<and> t = d # r \<and> d \<notin> set r"
proof (induction s arbitrary: t)
  case (Cons c s)
  have none: "strrchr s d = None \<Longrightarrow> d \<notin> set s" for s by (induction s) (auto split: option.splits if_splits)
  show ?case
  proof (cases "strrchr s d")
    case None
    with Cons.prems none [OF None] show ?thesis by (auto split: if_splits)
  next
    case (Some t')
    with Cons.prems Cons.IH [OF Some] show ?thesis by (auto intro: exI [of _ "c # p" for p])
  qed
qed simp

text \<open>Printing a number and reading it back.\<close>

lemma of_char_digit: "n < 10 \<Longrightarrow> (of_char (char_of (n + 48) :: char) :: nat) = n + 48"
  by simp

lemma digit_char [simp]: "n < 10 \<Longrightarrow> is_digit (char_of (n + 48))" "n < 10 \<Longrightarrow> digit_val (char_of (n + 48)) = n"
  by (simp_all add: is_digit_def digit_val_def)

lemma digits_val_append: "\<forall>c \<in> set s. is_digit c \<Longrightarrow> digits_val a (s @ t) = digits_val (digits_val a s) t"
  by (induction s arbitrary: a) auto

lemma dec_nat_digits: "\<forall>c \<in> set (dec_nat n). is_digit c" and dec_nat_nonempty: "dec_nat n \<noteq> []"
  by (induction n rule: dec_nat.induct; subst dec_nat.simps; simp)+

lemma digits_val_dec_nat: "digits_val 0 (dec_nat n) = n"
proof (induction n rule: dec_nat.induct)
  case (1 n)
  show ?case
  proof (cases "n < 10")
    case True
    then show ?thesis by (subst dec_nat.simps) simp
  next
    case False
    then show ?thesis using 1
      by (subst dec_nat.simps) (simp add: digits_val_append [OF dec_nat_digits])
  qed
qed

lemma takeWhile_digits: "(rest = [] \<or> \<not> is_digit (hd rest)) \<Longrightarrow> takeWhile is_digit (dec_nat n @ rest) = dec_nat n"
  using dec_nat_digits [of n] by (cases rest) (auto simp: takeWhile_append)

lemma dec_nat_hd: "hd (dec_nat n) \<noteq> CHR ''-'' \<and> hd (dec_nat n) \<noteq> CHR ''+''"
  using dec_nat_digits [of n] dec_nat_nonempty [of n] by (cases "dec_nat n") (auto simp: is_digit_def)

lemma scan_int_dec:
  assumes "rest = [] \<or> \<not> is_digit (hd rest)"
  shows "scan_int (dec i @ rest) = Some (i, rest)"
proof -
  obtain c r where c: "dec_nat (nat i) = c # r" using dec_nat_nonempty by (cases "dec_nat (nat i)") auto
  then have "c \<noteq> CHR ''-''" "c \<noteq> CHR ''+''" using dec_nat_hd [of "nat i"] by simp_all
  then have sg: "(case dec_nat (nat i) @ rest of
      c # r \<Rightarrow> (if c = CHR ''-'' then (True, r) else if c = CHR ''+'' then (False, r) else (False, dec_nat (nat i) @ rest))
      | [] \<Rightarrow> (False, [])) = (False, dec_nat (nat i) @ rest)"
    using c by simp
  show ?thesis
    using dec_nat_nonempty digits_val_dec_nat takeWhile_digits [OF assms]
    by (cases "i < 0") (simp_all add: dec_def scan_int_def Let_def sg)
qed

end
