(* ===== verification/Fenice_Util.thy ===== *)
theory Fenice_Util
  imports CString
begin

text \<open>
  The small helpers of \<^verbatim>\<open>src/src\<close>: the calendar time of a \<^verbatim>\<open>Range\<close> header
  (\<^verbatim>\<open>get_UTC_time.c\<close>), the NTP epoch (\<^verbatim>\<open>NTP_time.c\<close>), path names
  (\<^verbatim>\<open>alloc_path_name.c\<close>) and the table of supported file name extensions
  (\<^verbatim>\<open>is_supported_url.c\<close>); with the time stamp of a reply
  (\<^verbatim>\<open>rtsp/add_time_stamp.c\<close>).
\<close>

section \<open>Calendar time\<close>

text \<open>The fields of \<open>struct tm\<close> the server uses.\<close>

record tm =
  tm_year :: int
  tm_mon :: int
  tm_mday :: int
  tm_wday :: int
  tm_hour :: int
  tm_min :: int
  tm_sec :: int

definition zero_tm :: tm where
  "zero_tm = \<lparr>tm_year = 0, tm_mon = 0, tm_mday = 0, tm_wday = 0, tm_hour = 0, tm_min = 0, tm_sec = 0\<rparr>"

text \<open>One field: \<open>n\<close> characters from position \<open>i\<close> are scanned as a number; a field that is
  not a number leaves the old value.\<close>

definition scan_field :: "nat \<Rightarrow> nat \<Rightarrow> int \<Rightarrow> string \<Rightarrow> int" where
  "scan_field i n old b =
    (case sscanf (take n (drop i b)) [Num] of ([V_num v], _) \<Rightarrow> v | _ \<Rightarrow> old)"

definition get_UTC_time :: "tm \<Rightarrow> string \<Rightarrow> tm \<times> int" where
  "get_UTC_time t b =
    (if length b < 16 then (t, ERR_GENERIC)
     else (t\<lparr>tm_year := scan_field 0 4 (tm_year t) b, tm_mon := scan_field 4 2 (tm_mon t) b,
             tm_mday := scan_field 6 2 (tm_mday t) b, tm_hour := scan_field 9 2 (tm_hour t) b,
             tm_min := scan_field 11 2 (tm_min t) b, tm_sec := scan_field 13 2 (tm_sec t) b\<rparr>, ERR_NOERROR))"

text \<open>A single precision number keeps 24 bits: an integer is rounded to a multiple of the unit of its magnitude, ties
  to even.\<close>

definition float_int :: "int \<Rightarrow> int" where
  "float_int x =
    (case find (\<lambda>k. x < 2 ^ (24 + k)) [0..<40] of
       None \<Rightarrow> x
     | Some k \<Rightarrow>
         let u = 2 ^ k; q = x div u; r = x mod u
         in if 2 * r < u \<or> 2 * r = u \<and> even q then q * u else (q + 1) * u)"

text \<open>Seconds since 1900 of a time that is not negative, computed in single precision.\<close>

definition NTP_time :: "int \<Rightarrow> int" where
  "NTP_time t = float_int (float_int t + float_int 2208988800)"

text \<open>\<open>add_time_stamp\<close>: what \<open>strftime\<close> writes for
  \<^verbatim>\<open>Date: %a, %d %b %Y %H:%M:%S GMT\<close> in the "C" locale, if it fits into 38 characters.
  The current time is the argument.\<close>

definition two_digits :: "int \<Rightarrow> string" where
  "two_digits i = (if i < 10 then ''0'' else []) @ dec i"

definition EL :: string where "EL = [CR, LF]"

definition add_time_stamp :: "tm \<Rightarrow> string \<Rightarrow> bool \<Rightarrow> string" where
  "add_time_stamp now b crlf =
    (let days = [''Sun'', ''Mon'', ''Tue'', ''Wed'', ''Thu'', ''Fri'', ''Sat''];
         months = [''Jan'', ''Feb'', ''Mar'', ''Apr'', ''May'', ''Jun'', ''Jul'', ''Aug'', ''Sep'', ''Oct'', ''Nov'', ''Dec''];
         s = ''Date: '' @ days ! nat (tm_wday now mod 7) @ '', '' @ two_digits (tm_mday now) @ '' '' @
             months ! nat (tm_mon now mod 12) @ '' '' @ dec (tm_year now + 1900) @ '' '' @
             two_digits (tm_hour now) @ '':'' @ two_digits (tm_min now) @ '':'' @ two_digits (tm_sec now) @ '' GMT'' @ EL
     in b @ (if length s < 38 then s else []) @ (if crlf then EL else []))"

section \<open>Paths and extensions\<close>

definition alloc_path_name :: "string \<Rightarrow> string \<Rightarrow> string" where
  "alloc_path_name base f =
    (let slash_b = (base \<noteq> [] \<and> last base = CHR ''/''); slash_f = (f \<noteq> [] \<and> hd f = CHR ''/'')
     in if slash_b \<and> slash_f then base @ drop 1 f
        else if \<not> slash_b \<and> \<not> slash_f then base @ ''/'' @ f
        else base @ f)"

definition supported_extensions :: "string list" where
  "supported_extensions =
    [''.SD'', ''.WAV'', ''.MP3'', ''.GSM'', ''.GSM-FLO'', ''.L16M8K'', ''.26l'', ''.mpg'', ''.mpeg'', ''.m1v'',
     ''.m2v'', ''.m4v'', ''.mp4'', ''.xvid'', ''.rtp'', ''.264'']"

definition is_supported_url :: "string \<Rightarrow> bool" where
  "is_supported_url p = list_ex (\<lambda>e. strcaseeq p e) supported_extensions"

section \<open>Facts\<close>

text \<open>A path never gets two slashes where the base and the file meet, nor none.\<close>

lemma alloc_path_name_join:
  assumes "base \<noteq> []" and "f \<noteq> []"
  shows "\<exists>b g. alloc_path_name base f = b @ ''/'' @ g \<and>
    (b = base \<or> b @ ''/'' = base) \<and> (g = f \<or> CHR ''/'' # g = f)"
proof -
  obtain b1 c where base: "base = b1 @ [c]" using assms(1) by (metis rev_exhaust)
  obtain d g where f: "f = d # g" using assms(2) by (cases f) auto
  consider "c = CHR ''/''" "d = CHR ''/''" | "c \<noteq> CHR ''/''" "d \<noteq> CHR ''/''" | "c = CHR ''/''" "d \<noteq> CHR ''/''"
    | "c \<noteq> CHR ''/''" "d = CHR ''/''" by blast
  then show ?thesis
  proof cases
    case 1
    then show ?thesis by (intro exI [of _ b1] exI [of _ g]) (simp add: base f alloc_path_name_def)
  next
    case 2
    then show ?thesis by (intro exI [of _ base] exI [of _ f]) (simp add: base f alloc_path_name_def)
  next
    case 3
    then show ?thesis by (intro exI [of _ b1] exI [of _ f]) (simp add: base f alloc_path_name_def)
  next
    case 4
    then show ?thesis by (intro exI [of _ base] exI [of _ g]) (simp add: base f alloc_path_name_def)
  qed
qed

lemma supported_case: "is_supported_url p \<Longrightarrow> map to_lower p = map to_lower q \<Longrightarrow> is_supported_url q"
  by (simp add: is_supported_url_def strcaseeq_def)

end
