(* ===== verification/Rtsp_Msg.thy ===== *)
theory Rtsp_Msg
  imports Rtcp Fenice_Util
begin

text \<open>
  The RTSP message layer of \<^verbatim>\<open>rtsp/\<close>: the connection's buffers, the framing of requests and of
  interleaved packets (\<^verbatim>\<open>RTSP_full_msg_rcvd.c\<close>, \<^verbatim>\<open>RTSP_remove_msg.c\<close>,
  \<^verbatim>\<open>RTSP_discard_msg.c\<close>), the recognition of the request line
  (\<^verbatim>\<open>RTSP_validate_method.c\<close>, \<^verbatim>\<open>RTSP_valid_response_msg.c\<close>), and what is written
  back (\<^verbatim>\<open>bwrite.c\<close>, \<^verbatim>\<open>RTSP_send.c\<close>).
\<close>

section \<open>The connection\<close>

definition RTSP_BUFFERSIZE :: nat where "RTSP_BUFFERSIZE = 4096"

definition INIT_STATE :: int where "INIT_STATE = 0"
definition READY_STATE :: int where "READY_STATE = 1"
definition PLAY_STATE :: int where "PLAY_STATE = 2"

datatype RTSP_proto = TCP | SCTP

record RTSP_interleaved =
  ilv_rtp_fd :: int
  ilv_rtcp_fd :: int
  rtp_ch :: uint16
  rtcp_ch :: uint16

text \<open>The streams of a session are a list of RTP sessions, given by their addresses.\<close>

record RTSP_session =
  cur_state :: int
  session_id :: int
  rtp_list :: "nat list"

text \<open>Sizes are natural numbers; arithmetic that can leave the range of \<open>size_t\<close> is written out.
  \<open>in_buffer\<close> has \<open>RTSP_BUFFERSIZE\<close> characters, \<open>out_buffer\<close> has
  \<open>RTSP_BUFFERSIZE + MAX_DESCR_LENGTH\<close>. At most one session is ever in \<open>session_list\<close>.\<close>

record RTSP_buffer =
  rtsp_fd :: int
  rtsp_proto :: RTSP_proto
  in_buffer :: "char list"
  in_size :: nat
  out_buffer :: "char list"
  out_size :: nat
  out_sent :: nat
  interleaved_list :: "RTSP_interleaved list"
  rtsp_cseq :: uint32
  session_list :: "RTSP_session option"

definition zero_RTSP_session :: RTSP_session where
  "zero_RTSP_session = \<lparr>cur_state = 0, session_id = 0, rtp_list = []\<rparr>"

definition zero_RTSP_buffer :: RTSP_buffer where
  "zero_RTSP_buffer = \<lparr>rtsp_fd = 0, rtsp_proto = TCP, in_buffer = replicate RTSP_BUFFERSIZE NUL, in_size = 0,
     out_buffer = replicate (RTSP_BUFFERSIZE + MAX_DESCR_LENGTH) NUL, out_size = 0, out_sent = 0,
     interleaved_list = [], rtsp_cseq = 0, session_list = None\<rparr>"

definition RTSP_initserver :: "int \<Rightarrow> RTSP_proto \<Rightarrow> RTSP_buffer \<Rightarrow> RTSP_buffer" where
  "RTSP_initserver sfd p r =
    r\<lparr>rtsp_fd := sfd, rtsp_proto := p, session_list := Some (zero_RTSP_session\<lparr>session_id := - 1\<rparr>)\<rparr>"

section \<open>Framing\<close>

definition RTSP_not_full :: int where "RTSP_not_full = 0"
definition RTSP_method_rcvd :: int where "RTSP_method_rcvd = 1"
definition RTSP_interlvd_rcvd :: int where "RTSP_interlvd_rcvd = 2"

lemmas rcvd_defs = RTSP_not_full_def RTSP_method_rcvd_def RTSP_interlvd_rcvd_def

definition HDR_CONTENTLENGTH :: string where "HDR_CONTENTLENGTH = ''Content-Length''"

text \<open>A character of the input buffer; what lies behind the array is not read by any call whose
  \<open>in_size\<close> is within the array, and stands as NUL here.\<close>

definition in_at :: "RTSP_buffer \<Rightarrow> nat \<Rightarrow> char" where
  "in_at r i = (if i < length (in_buffer r) then in_buffer r ! i else NUL)"

text \<open>The string that starts at a position of the input buffer.\<close>

definition in_str :: "RTSP_buffer \<Rightarrow> nat \<Rightarrow> string" where
  "in_str r i = c_str (drop i (in_buffer r))"

definition to_int32 :: "int \<Rightarrow> int" where
  "to_int32 i = signed_take_bit 31 i"

text \<open>The line terminators (and, among the first three, blanks) at the head of the unread characters:
  how many of each.\<close>

fun eol_run :: "nat \<Rightarrow> nat \<Rightarrow> char list \<Rightarrow> nat \<times> nat" where
  "eol_run tc ws [] = (tc, ws)"
| "eol_run tc ws (c # cs) =
     (if c = CR \<or> c = LF then eol_run (Suc tc) ws cs
      else if tc < 3 \<and> (c = CHR '' '' \<or> c = TAB) then eol_run tc (Suc ws) cs
      else (tc, ws))"

text \<open>The header scan. Each round reads one line from \<open>ml\<close> on and its terminators; \<open>mb\<close> tells that a
  \<^verbatim>\<open>Content-Length\<close> line was met and \<open>bl\<close> is its value. The result is the code and, for a
  complete message, the final \<open>ml\<close> and \<open>bl\<close>. \<open>ml\<close> is an \<open>unsigned int\<close>: adding \<open>bl\<close> wraps.\<close>

function full_loop :: "RTSP_buffer \<Rightarrow> nat \<Rightarrow> bool \<Rightarrow> int \<Rightarrow> int \<times> (nat \<times> int) option" where
  "full_loop r ml mb bl =
    (if \<not> ml \<le> in_size r then (RTSP_method_rcvd, Some (ml, bl))
     else
       let control = strcspn (in_str r ml) [CR, LF]
       in if control = 0 then (ERR_GENERIC, None)
          else if in_size r < ml + control then (RTSP_not_full, None)
          else
            let m1 = ml + control;
                (tc, ws) = eol_run 0 0 (take (in_size r - m1) (drop m1 (in_buffer r)));
                eomh = (2 < tc \<or> tc = 2 \<and> in_at r m1 = in_at r (m1 + 1));
                m2 = m1 + tc + ws;
                m3 = (if eomh then nat ((int m2 + bl) mod 2 ^ 32) else m2)
            in if eomh \<and> m3 \<le> in_size r then (RTSP_method_rcvd, Some (m3, bl))
               else if in_size r \<le> m3 then (RTSP_not_full, None)
               else if \<not> mb \<and> strncaseeq (in_str r m2) HDR_CONTENTLENGTH (length HDR_CONTENTLENGTH)
               then
                 let m4 = m2 + length HDR_CONTENTLENGTH;
                     sep = takeWhile (\<lambda>c. c = CHR '':'' \<or> c = CHR '' '') (take (in_size r - m4) (drop m4 (in_buffer r)));
                     m5 = m4 + length sep
                 in (case sscanf (in_str r m5) [Num] of
                       ([V_num v], _) \<Rightarrow> full_loop r m5 True (to_int32 v)
                     | _ \<Rightarrow> (ERR_GENERIC, None))
               else full_loop r m2 mb bl)"
  by pat_completeness auto

lemma strcspn_le: "strcspn (in_str r ml) rej \<le> length (in_buffer r) - ml"
proof -
  have "strcspn (in_str r ml) rej \<le> length (in_str r ml)" by (simp add: strcspn_def length_takeWhile_le)
  also have "\<dots> \<le> length (drop ml (in_buffer r))" unfolding in_str_def c_str_def by (rule length_takeWhile_le)
  finally show ?thesis by simp
qed

termination full_loop
proof (relation "measure (\<lambda>(r, ml, mb, bl). length (in_buffer r) - ml)", goal_cases)
  case 1
  show ?case by simp
next
  case (2 r ml mb bl c m1 x tc ws)
  then show ?case using strcspn_le [of r ml "[CR, LF]"] by auto
next
  case (3 r ml mb bl c m1 x tc ws)
  then show ?case using strcspn_le [of r ml "[CR, LF]"] by auto
qed

declare full_loop.simps [simp del]

text \<open>Trailing NULs behind the message are counted to its body; \<open>tc\<close> bounds their number unless it
  is negative.\<close>

definition trailing_nuls :: "RTSP_buffer \<Rightarrow> nat \<Rightarrow> nat" where
  "trailing_nuls r ml =
    (let tc = to_int32 (int (in_size r) - int ml); cs = drop ml (in_buffer r)
     in length (takeWhile (\<lambda>c. c = NUL) (if tc < 0 then cs else take (nat tc) cs)))"

text \<open>The result is the return value and the two lengths, when the code stores them.\<close>

definition RTSP_full_msg_rcvd :: "RTSP_buffer \<Rightarrow> int \<times> (int \<times> int) option" where
  "RTSP_full_msg_rcvd r =
    (if in_at r 0 = CHR ''$''
     then let bl = of_char (in_at r 2) * 256 + of_char (in_at r 3)
          in (if bl \<le> in_size r then (RTSP_interlvd_rcvd, Some (4, int bl)) else (RTSP_not_full, None))
     else (case full_loop r 0 False 0 of
             (res, None) \<Rightarrow> (res, None)
           | (res, Some (ml, bl)) \<Rightarrow>
               (res, Some (to_int32 (int ml - bl), bl + int (trailing_nuls r ml)))))"

text \<open>\<open>len\<close> is an \<open>int\<close>: the subtraction wraps in \<open>size_t\<close>. \<open>memmove\<close> and \<open>memset\<close> with a
  negative length or one beyond the array are outside the model (no call of a well-framed message makes them).\<close>

definition RTSP_remove_msg :: "int \<Rightarrow> RTSP_buffer \<Rightarrow> RTSP_buffer" where
  "RTSP_remove_msg len r =
    (let sz = nat ((int (in_size r) - len) mod 2 ^ 64); n = nat len;
         b = in_buffer r;
         moved = drop n b @ drop (RTSP_BUFFERSIZE - n) b
     in if sz \<noteq> 0 \<and> len \<noteq> 0
        then r\<lparr>in_size := sz, in_buffer := take n moved @ replicate (RTSP_BUFFERSIZE - n) NUL\<rparr>
        else r\<lparr>in_size := sz\<rparr>)"

definition RTSP_discard_msg :: "RTSP_buffer \<Rightarrow> RTSP_buffer" where
  "RTSP_discard_msg r =
    (case RTSP_full_msg_rcvd r of
       (res, Some (hlen, blen)) \<Rightarrow> (if 0 < res then RTSP_remove_msg (hlen + blen) r else r)
     | (_, None) \<Rightarrow> r)"

section \<open>The request line\<close>

definition HDR_CSEQ :: string where "HDR_CSEQ = ''CSeq''"

definition RTSP_ID_DESCRIBE :: int where "RTSP_ID_DESCRIBE = 0"
definition RTSP_ID_ANNOUNCE :: int where "RTSP_ID_ANNOUNCE = 1"
definition RTSP_ID_GET_PARAMETERS :: int where "RTSP_ID_GET_PARAMETERS = 2"
definition RTSP_ID_OPTIONS :: int where "RTSP_ID_OPTIONS = 3"
definition RTSP_ID_PAUSE :: int where "RTSP_ID_PAUSE = 4"
definition RTSP_ID_PLAY :: int where "RTSP_ID_PLAY = 5"
definition RTSP_ID_RECORD :: int where "RTSP_ID_RECORD = 6"
definition RTSP_ID_REDIRECT :: int where "RTSP_ID_REDIRECT = 7"
definition RTSP_ID_SETUP :: int where "RTSP_ID_SETUP = 8"
definition RTSP_ID_SET_PARAMETER :: int where "RTSP_ID_SET_PARAMETER = 9"
definition RTSP_ID_TEARDOWN :: int where "RTSP_ID_TEARDOWN = 10"

lemmas rtsp_id_defs = RTSP_ID_DESCRIBE_def RTSP_ID_ANNOUNCE_def RTSP_ID_GET_PARAMETERS_def RTSP_ID_OPTIONS_def
  RTSP_ID_PAUSE_def RTSP_ID_PLAY_def RTSP_ID_RECORD_def RTSP_ID_REDIRECT_def RTSP_ID_SETUP_def
  RTSP_ID_SET_PARAMETER_def RTSP_ID_TEARDOWN_def

text \<open>The chain of comparisons of \<open>RTSP_validate_method\<close>; the names exclude each other.\<close>

definition method_ids :: "(string \<times> int) list" where
  "method_ids =
    [(''DESCRIBE'', RTSP_ID_DESCRIBE), (''ANNOUNCE'', RTSP_ID_ANNOUNCE), (''GET_PARAMETERS'', RTSP_ID_GET_PARAMETERS),
     (''OPTIONS'', RTSP_ID_OPTIONS), (''PAUSE'', RTSP_ID_PAUSE), (''PLAY'', RTSP_ID_PLAY), (''RECORD'', RTSP_ID_RECORD),
     (''REDIRECT'', RTSP_ID_REDIRECT), (''SETUP'', RTSP_ID_SETUP), (''SET_PARAMETER'', RTSP_ID_SET_PARAMETER),
     (''TEARDOWN'', RTSP_ID_TEARDOWN)]"

definition RTSP_validate_method :: "RTSP_buffer \<Rightarrow> RTSP_buffer \<times> int" where
  "RTSP_validate_method r =
    (case sscanf (in_str r 0) [Ws, Str 31, Str 255, Str 31, Ws, Str 15, Num, Ws] of
       ([V_str meth, V_str obj, V_str ver, V_str hdr, V_num sq], _) \<Rightarrow>
         (if strstr hdr HDR_CSEQ = None then (r, ERR_GENERIC)
          else (r\<lparr>rtsp_cseq := word_of_int sq\<rparr>,
                (case map_of method_ids meth of Some i \<Rightarrow> i | None \<Rightarrow> ERR_GENERIC)))
     | _ \<Rightarrow> (r, ERR_GENERIC))"

text \<open>\<open>RTSP_valid_response_msg\<close> looks for a version that starts with \<^verbatim>\<open>RTCP/\<close>. \<open>seq\<close> is
  not initialised: \<open>junk\<close> is its value when fewer than four items are scanned. The two words between the status and
  the sequence number go to one array.\<close>

definition RTSP_valid_response_msg :: "uint32 \<Rightarrow> RTSP_buffer \<Rightarrow> int \<times> uint16" where
  "RTSP_valid_response_msg junk r =
    (let (vs, pcnt) = sscanf (in_str r 0) [Ws, Str 31, Num, Str WIDE, Str WIDE, Num, Ws, Str 255, Ws];
         ver = (case vs of V_str v # _ \<Rightarrow> v | _ \<Rightarrow> []);
         stat = (case vs of _ # V_num n # _ \<Rightarrow> (word_of_int n :: uint32) | _ \<Rightarrow> 0);
         sq = (case vs of _ # _ # _ # _ # V_num n # _ \<Rightarrow> word_of_int n | _ \<Rightarrow> junk)
     in if \<not> strncaseeq ver ''RTCP/'' 5 then (0, 0)
        else if pcnt < 3 \<or> stat = 0 then (0, 0)
        else if rtsp_cseq r \<noteq> sq + 1 then (ERR_GENERIC, 0)
        else (1, ucast stat))"

section \<open>Output\<close>

text \<open>The text is copied behind what already waits and terminated. A text that ends exactly at the end of
  the array passes the check; its terminator then falls behind the array, on the low byte of \<open>out_size\<close>, the next member of the
  structure (a machine with 64-bit pointers and little-endian order), before the length is added to it.\<close>

definition bwrite :: "string \<Rightarrow> RTSP_buffer \<Rightarrow> RTSP_buffer \<times> int" where
  "bwrite s r =
    (let len = length s mod 65536; n = out_size r
     in if length (out_buffer r) < n + len then (r, ERR_ALLOC)
        else (r\<lparr>out_buffer := (take n (out_buffer r) @ take len s @ drop (n + len) (out_buffer r))[n + len := NUL],
                out_size := (if n + len = length (out_buffer r) then n div 256 * 256 else n) + len\<rparr>, ERR_NOERROR))"

text \<open>\<open>send\<close>'s result is \<open>None\<close> for an error, or the number of bytes taken. The count of bytes to send is unsigned: when \<open>out_size\<close> is
  less than \<open>out_sent\<close> it wraps, and everything behind the position is offered, of which the bytes of the array are shown.\<close>

definition RTSP_send :: "nat option \<Rightarrow> RTSP_buffer \<Rightarrow> RTSP_buffer \<times> string \<times> int" where
  "RTSP_send sent r =
    (if out_size r = 0 then (r, [], 0)
     else case rtsp_proto r of
       SCTP \<Rightarrow> (r, [], ERR_GENERIC)
     | TCP \<Rightarrow>
         (case sent of
            None \<Rightarrow> (r, [], - 1)
          | Some k \<Rightarrow>
              let to_send = (if out_sent r \<le> out_size r then out_size r - out_sent r else 2 ^ 64 - (out_sent r - out_size r));
                  out = take k (take to_send (drop (out_sent r) (out_buffer r)));
                  n = out_sent r + k
              in (if n = out_size r then r\<lparr>out_sent := 0, out_size := 0\<rparr> else r\<lparr>out_sent := n\<rparr>, out, int k)))"

section \<open>Framing of well-formed requests\<close>

definition good_line :: "string \<Rightarrow> bool" where
  "good_line l \<longleftrightarrow> l \<noteq> [] \<and> hd l \<noteq> CHR '' '' \<and> hd l \<noteq> TAB \<and> set l \<inter> {CR, LF, NUL} = {}"

definition is_clen :: "string \<Rightarrow> bool" where
  "is_clen h \<longleftrightarrow> strncaseeq h HDR_CONTENTLENGTH (length HDR_CONTENTLENGTH)"

abbreviation lines_text :: "string list \<Rightarrow> string" where
  "lines_text hs \<equiv> concat (map (\<lambda>h. h @ EL) hs)"

text \<open>The length of the body a list of header lines announces.\<close>

definition announces :: "string list \<Rightarrow> nat \<Rightarrow> bool" where
  "announces hs n \<longleftrightarrow> n = 0 \<and> (\<forall>h \<in> set hs. \<not> is_clen h) \<or>
    (\<exists>a b. hs = a @ (HDR_CONTENTLENGTH @ '': '' @ dec (int n)) # b \<and> (\<forall>h \<in> set a. \<not> is_clen h))"

lemma char_distinct [simp]:
  "CR \<noteq> LF" "CR \<noteq> NUL" "LF \<noteq> NUL" "LF \<noteq> CR" "NUL \<noteq> CR" "NUL \<noteq> LF" "CR \<noteq> CHR '' ''" "CR \<noteq> TAB" "LF \<noteq> CHR '' ''" "LF \<noteq> TAB"
  "CHR '' '' \<noteq> CR" "CHR '' '' \<noteq> LF" "CHR '' '' \<noteq> NUL" "CHR '':'' \<noteq> CR" "CHR '':'' \<noteq> LF" "CHR '':'' \<noteq> NUL"
  by (simp_all add: char_defs)

lemma good_line_NUL: "good_line l \<Longrightarrow> NUL \<notin> set l"
  by (auto simp: good_line_def)

lemma in_str_line:
  assumes "in_buffer r = pre @ l @ CR # t" and "NUL \<notin> set l"
  shows "\<exists>u. in_str r (length pre) = l @ CR # u"
  using assms by (auto simp: in_str_def c_str_def takeWhile_append)

lemma line_control:
  assumes "in_buffer r = pre @ l @ EL @ t" and "good_line l"
  shows "strcspn (in_str r (length pre)) [CR, LF] = length l"
proof -
  obtain u where u: "in_str r (length pre) = l @ CR # u"
    using in_str_line [of r pre l "LF # t"] assms by (auto simp: EL_def good_line_NUL)
  have "takeWhile (\<lambda>c. c \<noteq> CR \<and> c \<noteq> LF) l = l" using assms(2) by (auto simp: good_line_def intro: takeWhile_eq_all_conv [THEN iffD2])
  then show ?thesis using assms(2) unfolding u strcspn_def by (auto simp: good_line_def takeWhile_append)
qed

lemma clen_line:
  assumes "in_buffer r = pre @ h @ EL @ t" and "NUL \<notin> set h"
  shows "strncaseeq (in_str r (length pre)) HDR_CONTENTLENGTH (length HDR_CONTENTLENGTH) = is_clen h"
proof -
  obtain u where u: "in_str r (length pre) = h @ CR # u"
    using in_str_line [of r pre h "LF # t"] assms by (auto simp: EL_def)
  have low: "to_lower CR = CR" by (simp add: char_defs to_lower_def)
  let ?P = "map to_lower HDR_CONTENTLENGTH"
  have notin: "CR \<notin> set ?P" by code_simp
  show ?thesis
  proof (cases "length HDR_CONTENTLENGTH \<le> length h")
    case True
    then show ?thesis by (simp add: u is_clen_def strncaseeq_def)
  next
    case False
    let ?n = "length HDR_CONTENTLENGTH"
    have "CR \<in> set (map to_lower (take ?n (h @ CR # u)))"
      using False low by (cases "?n - length h") (auto intro!: image_eqI [of _ _ CR])
    then have "map to_lower (take ?n (h @ CR # u)) \<noteq> ?P" using notin by metis
    moreover have "length (map to_lower (take ?n h)) \<noteq> length ?P" using False by simp
    then have "map to_lower (take ?n h) \<noteq> ?P" by metis
    ultimately show ?thesis by (simp add: u is_clen_def strncaseeq_def)
  qed
qed

text \<open>One line that is followed by another one.\<close>

lemma loop_line:
  assumes b: "in_buffer r = pre @ l @ EL @ h @ t" and l: "good_line l" and h: "good_line h"
    and sz: "length pre + length l + 2 < in_size r" "in_size r \<le> length (in_buffer r)"
  defines "m \<equiv> length pre + length l + 2"
  shows "full_loop r (length pre) mb bl =
    (if \<not> mb \<and> strncaseeq (in_str r m) HDR_CONTENTLENGTH (length HDR_CONTENTLENGTH)
     then let m4 = m + length HDR_CONTENTLENGTH;
              sep = takeWhile (\<lambda>c. c = CHR '':'' \<or> c = CHR '' '') (take (in_size r - m4) (drop m4 (in_buffer r)));
              m5 = m4 + length sep
          in (case sscanf (in_str r m5) [Num] of
                ([V_num v], _) \<Rightarrow> full_loop r m5 True (to_int32 v)
              | _ \<Rightarrow> (ERR_GENERIC, None))
     else full_loop r m mb bl)"
proof -
  have c: "strcspn (in_str r (length pre)) [CR, LF] = length l" by (rule line_control [OF b l])
  have l0: "length l \<noteq> 0" using l by (simp add: good_line_def)
  obtain x hs where hx: "h = x # hs" "x \<noteq> CR" "x \<noteq> LF" "x \<noteq> CHR '' ''" "x \<noteq> TAB"
    using h by (cases h) (auto simp: good_line_def)
  obtain k where k: "in_size r - (length pre + length l) = Suc (Suc (Suc k))"
    using sz by (metis Suc_diff_Suc add_2_eq_Suc' add_lessD1 Suc_lessD)
  have d: "drop (length pre + length l) (in_buffer r) = CR # LF # x # hs @ t" by (simp add: b hx EL_def)
  have e: "eol_run 0 0 (take (in_size r - (length pre + length l)) (drop (length pre + length l) (in_buffer r))) = (2, 0)"
    unfolding k d using hx by simp
  have a: "in_at r (length pre + length l) \<noteq> in_at r (length pre + length l + 1)"
    by (simp add: in_at_def b nth_append EL_def)
  show ?thesis
    using sz l0 a by (subst full_loop.simps) (simp add: c e Let_def m_def)
qed

text \<open>Lines that announce no length are passed over.\<close>

lemma loop_lines:
  assumes "in_buffer r = pre @ l @ EL @ lines_text a @ h @ EL @ t" and "good_line l" and "\<forall>x \<in> set (a @ [h]). good_line x"
    and "length pre + length (l @ EL @ lines_text a) < in_size r" and "in_size r \<le> length (in_buffer r)"
    and "mb \<or> (\<forall>x \<in> set (a @ [h]). \<not> is_clen x)"
  shows "full_loop r (length pre) mb bl = full_loop r (length (pre @ l @ EL @ lines_text a)) mb bl"
  using assms
proof (induction a arbitrary: pre l)
  case Nil
  have b: "in_buffer r = pre @ l @ EL @ h @ (EL @ t)" using Nil.prems(1) by simp
  have "strncaseeq (in_str r (length (pre @ l @ EL))) HDR_CONTENTLENGTH (length HDR_CONTENTLENGTH) = is_clen h"
    using Nil.prems(3) by (intro clen_line [of r "pre @ l @ EL" h t]) (auto simp: Nil.prems(1) good_line_NUL)
  then show ?case
    using Nil.prems(3,4,6) by (subst loop_line [OF b Nil.prems(2) _ _ Nil.prems(5)]) (auto simp: EL_def)
next
  case (Cons x a)
  have b: "in_buffer r = pre @ l @ EL @ x @ (EL @ lines_text a @ h @ EL @ t)" using Cons.prems(1) by simp
  have "strncaseeq (in_str r (length (pre @ l @ EL))) HDR_CONTENTLENGTH (length HDR_CONTENTLENGTH) = is_clen x"
    using Cons.prems(3) by (intro clen_line [of r "pre @ l @ EL" x "lines_text a @ h @ EL @ t"]) (auto simp: Cons.prems(1) good_line_NUL)
  then have "full_loop r (length pre) mb bl = full_loop r (length (pre @ l @ EL)) mb bl"
    using Cons.prems(3,4,6) by (subst loop_line [OF b Cons.prems(2) _ _ Cons.prems(5)]) (auto simp: EL_def)
  also have "\<dots> = full_loop r (length ((pre @ l @ EL) @ x @ EL @ lines_text a)) mb bl"
    using Cons.prems by (intro Cons.IH) auto
  finally show ?case by simp
qed

text \<open>The line that announces the length of the body: the scan goes on at the number.\<close>

lemma loop_clen:
  assumes b: "in_buffer r = pre @ l @ EL @ (HDR_CONTENTLENGTH @ '': '' @ dec (int n)) @ EL @ t" and l: "good_line l"
    and sz: "length pre + length (l @ EL @ HDR_CONTENTLENGTH @ '': '' @ dec (int n)) \<le> in_size r"
      "in_size r \<le> length (in_buffer r)"
    and n: "n < 2 ^ 31"
  shows "full_loop r (length pre) False bl =
    full_loop r (length (pre @ l @ EL @ HDR_CONTENTLENGTH @ '': '')) True (int n)"
proof -
  let ?h = "HDR_CONTENTLENGTH @ '': '' @ dec (int n)"
  have dn: "dec (int n) = dec_nat n" by (simp add: dec_def)
  have digs: "\<forall>c \<in> set (dec_nat n). is_digit c" by (rule dec_nat_digits)
  have nonl: "set (dec_nat n) \<inter> {CR, LF, NUL, CHR '':'', CHR '' ''} = {}"
    using digs by (auto simp: is_digit_def char_defs)
  obtain d ds where ds: "dec_nat n = d # ds" using dec_nat_nonempty by (cases "dec_nat n") auto
  have h: "good_line ?h" "NUL \<notin> set ?h"
    using nonl by (auto simp: good_line_def HDR_CONTENTLENGTH_def char_defs dn)
  have b': "in_buffer r = pre @ l @ EL @ ?h @ (EL @ t)" using b by simp
  have "strncaseeq (in_str r (length (pre @ l @ EL))) HDR_CONTENTLENGTH (length HDR_CONTENTLENGTH) = is_clen ?h"
    by (rule clen_line [OF _ h(2), of r "pre @ l @ EL" t]) (simp add: b)
  moreover have "is_clen ?h" by (simp add: is_clen_def strncaseeq_def)
  ultimately have isc: "strncaseeq (in_str r (length pre + length l + 2)) HDR_CONTENTLENGTH (length HDR_CONTENTLENGTH)"
    by (simp add: EL_def add.assoc)
  let ?m4 = "length pre + length l + 2 + length HDR_CONTENTLENGTH"
  have d4: "drop ?m4 (in_buffer r) = '': '' @ dec_nat n @ EL @ t" by (simp add: b dn EL_def)
  obtain k where k: "in_size r - ?m4 = Suc (Suc (Suc k))"
    using sz(1) ds by (auto simp: dn EL_def intro!: that [of "in_size r - ?m4 - 3"])
  have "d \<noteq> CHR '':''" "d \<noteq> CHR '' ''" using nonl ds by auto
  then have sep: "takeWhile (\<lambda>c. c = CHR '':'' \<or> c = CHR '' '') (take (in_size r - ?m4) (drop ?m4 (in_buffer r))) = '': ''"
    unfolding k d4 by (simp add: ds)
  have m5: "length (pre @ l @ EL @ HDR_CONTENTLENGTH @ '': '') = ?m4 + 2" by (simp add: EL_def)
  have "\<exists>u. in_str r (length (pre @ l @ EL @ HDR_CONTENTLENGTH @ '': '')) = dec_nat n @ CR # u"
    using nonl by (intro in_str_line [of _ _ _ "LF # t"]) (auto simp: b dn EL_def)
  then obtain u where u: "in_str r (?m4 + 2) = dec_nat n @ CR # u" unfolding m5 ..
  have nsp: "\<not> is_space d" using digs ds by (auto simp: is_digit_def is_space_def)
  have "scan_int (dec (int n) @ CR # u) = Some (int n, CR # u)"
    by (rule scan_int_dec) (simp add: is_digit_def char_defs)
  then have sc: "sscanf (in_str r (?m4 + 2)) [Num] = ([V_num (int n)], 1)"
    using nsp unfolding u dn by (simp add: sscanf_def Let_def ds)
  have i32: "to_int32 (int n) = int n" using n by (simp add: to_int32_def signed_take_bit_int_eq_self)
  show ?thesis
    unfolding m5 using sz isc sep sc i32
    by (subst loop_line [OF b' l h(1) _ sz(2)]) (auto simp: EL_def Let_def HDR_CONTENTLENGTH_def)
qed

text \<open>The last header line with the empty line behind it.\<close>

lemma loop_last:
  assumes b: "in_buffer r = pre @ l @ EL @ EL @ t" and l: "good_line l"
    and sz: "length pre + length l + 4 + n \<le> in_size r" "in_size r \<le> length (in_buffer r)" "in_size r < 2 ^ 32"
    and t: "length pre + length l + 4 < in_size r \<longrightarrow> t = [] \<or> hd t \<notin> {CR, LF}"
  shows "full_loop r (length pre) mb (int n) = (RTSP_method_rcvd, Some (length pre + length l + 4 + n, int n))"
proof -
  have c: "strcspn (in_str r (length pre)) [CR, LF] = length l" by (rule line_control [OF b l])
  have l0: "length l \<noteq> 0" using l by (simp add: good_line_def)
  let ?m1 = "length pre + length l"
  obtain k where k: "in_size r - ?m1 = Suc (Suc (Suc (Suc k)))" "k = in_size r - ?m1 - 4"
    using sz(1) by (auto intro!: that [of "in_size r - ?m1 - 4"])
  have d: "drop ?m1 (in_buffer r) = CR # LF # CR # LF # t" by (simp add: b EL_def)
  have t': "k = 0 \<or> t = [] \<or> hd t \<noteq> CR \<and> hd t \<noteq> LF" using t k(2) by auto
  have e: "eol_run 0 0 (take (in_size r - ?m1) (drop ?m1 (in_buffer r))) = (4, 0)"
    unfolding k(1) d using t' by (cases k; cases t) auto
  have m3: "nat ((int (?m1 + 4) + int n) mod 2 ^ 32) = ?m1 + 4 + n" using sz by (simp add: nat_int_add)
  show ?thesis
    using sz l0 m3 by (subst full_loop.simps) (simp add: c e Let_def)
qed

lemma loop_to_end:
  assumes b: "in_buffer r = pre @ l @ EL @ lines_text hs @ EL @ t" and l: "good_line l" and hs: "\<forall>x \<in> set hs. good_line x"
    and sz: "length pre + length (l @ EL @ lines_text hs @ EL) + n \<le> in_size r"
      "in_size r \<le> length (in_buffer r)" "in_size r < 2 ^ 32"
    and t: "length pre + length (l @ EL @ lines_text hs @ EL) < in_size r \<longrightarrow> t = [] \<or> hd t \<notin> {CR, LF}"
    and mb: "mb \<or> (\<forall>x \<in> set hs. \<not> is_clen x)"
  shows "full_loop r (length pre) mb (int n) =
    (RTSP_method_rcvd, Some (length pre + length (l @ EL @ lines_text hs @ EL) + n, int n))"
proof (cases hs rule: rev_cases)
  case Nil
  have b': "in_buffer r = pre @ l @ EL @ EL @ t" using b Nil by simp
  show ?thesis using sz t loop_last [OF b' l _ sz(2,3)] by (simp add: Nil EL_def)
next
  case (snoc a h)
  have b1: "in_buffer r = pre @ l @ EL @ lines_text a @ h @ EL @ EL @ t" using b snoc by simp
  have "full_loop r (length pre) mb (int n) = full_loop r (length (pre @ l @ EL @ lines_text a)) mb (int n)"
    by (rule loop_lines [OF b1 l _ _ sz(2)]) (use hs mb sz(1) snoc in \<open>auto simp: EL_def good_line_def\<close>)
  also have "\<dots> = (RTSP_method_rcvd, Some (length (pre @ l @ EL @ lines_text a) + length h + 4 + n, int n))"
    by (rule loop_last [OF _ _ _ sz(2,3)]) (use hs sz(1) t b1 snoc in \<open>auto simp: EL_def\<close>)
  finally show ?thesis by (simp add: snoc EL_def)
qed

lemma good_dec: "good_line (dec (int n))"
proof -
  have "set (dec_nat n) \<inter> {CR, LF, NUL, CHR '' '', TAB} = {}"
    using dec_nat_digits [of n] by (auto simp: is_digit_def char_defs)
  then show ?thesis using dec_nat_nonempty [of n] by (cases "dec_nat n") (auto simp: good_line_def dec_def)
qed

text \<open>The header scan of a request with the body it announces.\<close>

lemma loop_request:
  assumes b: "in_buffer r = lines_text (rl # hs) @ EL @ t" and rl: "good_line rl" and hs: "\<forall>x \<in> set hs. good_line x"
    and ann: "announces hs n"
    and sz: "length (lines_text (rl # hs) @ EL) + n \<le> in_size r" "in_size r \<le> length (in_buffer r)" "in_size r < 2 ^ 31"
    and t: "length (lines_text (rl # hs) @ EL) < in_size r \<longrightarrow> t = [] \<or> hd t \<notin> {CR, LF}"
  shows "full_loop r 0 False 0 = (RTSP_method_rcvd, Some (length (lines_text (rl # hs) @ EL) + n, int n))"
  using ann unfolding announces_def
proof (elim disjE exE conjE)
  assume n: "n = 0" and no: "\<forall>h \<in> set hs. \<not> is_clen h"
  have b': "in_buffer r = [] @ rl @ EL @ lines_text hs @ EL @ t" using b by simp
  show ?thesis using loop_to_end [OF b' rl hs, of 0 False] sz t no n by simp
next
  fix a c
  assume hs_eq: "hs = a @ (HDR_CONTENTLENGTH @ '': '' @ dec (int n)) # c" and no: "\<forall>h \<in> set a. \<not> is_clen h"
  let ?N = "dec (int n)"
  obtain p l where pl: "p @ l @ EL = rl @ EL @ lines_text a" "good_line l" "full_loop r 0 False 0 = full_loop r (length p) False 0"
  proof (cases a rule: rev_cases)
    case Nil
    show ?thesis by (rule that [of "[]" rl]) (use rl Nil in simp_all)
  next
    case (snoc a' h)
    have b1: "in_buffer r = [] @ rl @ EL @ lines_text a' @ h @ EL @ (HDR_CONTENTLENGTH @ '': '' @ ?N @ EL @ lines_text c @ EL @ t)"
      using b hs_eq snoc by simp
    have "full_loop r (length ([]::string)) False 0 = full_loop r (length ([] @ rl @ EL @ lines_text a')) False 0"
      by (rule loop_lines [OF b1 rl _ _ sz(2)]) (use hs no sz(1) hs_eq snoc in \<open>auto simp: EL_def good_line_def\<close>)
    then show ?thesis by (intro that [of "rl @ EL @ lines_text a'" h]) (use hs hs_eq snoc in simp_all)
  qed
  have buf: "in_buffer r = p @ l @ EL @ (HDR_CONTENTLENGTH @ '': '' @ ?N) @ EL @ (lines_text c @ EL @ t)"
    using b hs_eq arg_cong [OF pl(1), of "\<lambda>x. x @ HDR_CONTENTLENGTH @ '': '' @ ?N @ EL @ lines_text c @ EL @ t"] by simp
  have len: "length p + length l = length rl + length (lines_text a)"
    using arg_cong [OF pl(1), of length] by (simp add: EL_def)
  let ?q = "p @ l @ EL @ HDR_CONTENTLENGTH @ '': ''"
  have "full_loop r (length p) False 0 = full_loop r (length ?q) True (int n)"
    by (rule loop_clen [OF buf pl(2) _ sz(2)]) (use sz len hs_eq in \<open>auto simp: EL_def\<close>)
  also have "\<dots> = (RTSP_method_rcvd, Some (length ?q + length (?N @ EL @ lines_text c @ EL) + n, int n))"
    by (rule loop_to_end [OF _ good_dec]) (use buf hs sz t len hs_eq in \<open>auto simp: EL_def\<close>)
  finally show ?thesis using pl(3) len by (simp add: hs_eq EL_def)
qed

lemma framed_message:
  assumes "in_buffer r = lines_text (rl # hs) @ EL @ body @ rest"
    and "good_line rl" and "hd rl \<noteq> CHR ''$''" and "\<forall>h \<in> set hs. good_line h" and "announces hs (length body)"
    and "length (lines_text (rl # hs) @ EL @ body) \<le> in_size r" and "in_size r \<le> length (in_buffer r)"
    and "length (in_buffer r) = RTSP_BUFFERSIZE"
    and "body @ rest = [] \<or> hd (body @ rest) \<notin> {CR, LF}"
    and "in_size r = length (lines_text (rl # hs) @ EL @ body) \<or> rest = [] \<or> hd rest \<noteq> NUL"
  shows "RTSP_full_msg_rcvd r =
    (RTSP_method_rcvd, Some (int (length (lines_text (rl # hs) @ EL)), int (length body)))"
proof -
  let ?h = "lines_text (rl # hs) @ EL"
  have small: "in_size r < 2 ^ 31" using assms(7,8) by (simp add: RTSP_BUFFERSIZE_def)
  have loop: "full_loop r 0 False 0 = (RTSP_method_rcvd, Some (length ?h + length body, int (length body)))"
    by (rule loop_request [OF _ assms(2,4,5) _ assms(7) small]) (use assms(1,6,9) in auto)
  have dollar: "in_at r 0 \<noteq> CHR ''$''"
    using assms(1-3) by (cases rl) (auto simp: in_at_def good_line_def)
  have "trailing_nuls r (length ?h + length body) = 0"
  proof -
    have d: "drop (length ?h + length body) (in_buffer r) = rest" using assms(1) by simp
    define k where "k = in_size r - (length ?h + length body)"
    have "to_int32 (int (in_size r) - int (length ?h + length body)) = int k"
      using assms(6) small by (simp add: k_def to_int32_def signed_take_bit_int_eq_self of_nat_diff)
    then have "trailing_nuls r (length ?h + length body) = length (takeWhile (\<lambda>c. c = NUL) (take k rest))"
      unfolding trailing_nuls_def d Let_def by simp
    moreover have "k = 0 \<or> rest = [] \<or> hd rest \<noteq> NUL" using assms(10) by (auto simp: k_def)
    ultimately show ?thesis by (cases rest; cases k) auto
  qed
  moreover have "to_int32 (int (length ?h)) = int (length ?h)"
    using assms(6) small by (simp add: to_int32_def signed_take_bit_int_eq_self)
  ultimately show ?thesis
    using dollar unfolding RTSP_full_msg_rcvd_def loop by simp
qed

text \<open>C19: a complete request is framed exactly: request line, header lines, empty line and the body whose
  length a \<^verbatim>\<open>Content-Length\<close> line announces (no body without one), wherever that line stands among the
  headers and whatever follows in the buffer, as long as the body does not begin with a line terminator and no NUL follows
  the message.\<close>

theorem request_framed:
  assumes "in_buffer r = lines_text (rl # hs) @ EL @ body @ rest"
    and "good_line rl" and "hd rl \<noteq> CHR ''$''" and "\<forall>h \<in> set hs. good_line h" and "announces hs (length body)"
    and "length (lines_text (rl # hs) @ EL @ body) \<le> in_size r" and "in_size r \<le> length (in_buffer r)"
    and "length (in_buffer r) = RTSP_BUFFERSIZE"
    and "body @ rest = [] \<or> hd (body @ rest) \<notin> {CR, LF}"
    and "in_size r = length (lines_text (rl # hs) @ EL @ body) \<or> rest = [] \<or> hd rest \<noteq> NUL"
  shows "RTSP_full_msg_rcvd r =
    (RTSP_method_rcvd, Some (int (length (lines_text (rl # hs) @ EL)), int (length body)))"
  using assms by (rule framed_message)

text \<open>A buffer that holds a text and zeros behind it.\<close>

definition filled :: "string \<Rightarrow> char list" where
  "filled s = s @ replicate (RTSP_BUFFERSIZE - length s) NUL"

definition sample_headers :: "string list" where
  "sample_headers = [''CSeq: 7'', ''Content-Length: 2'', ''Session: 12'']"

definition sample_conn :: RTSP_buffer where
  "sample_conn =
    (let s = lines_text (''SET_PARAMETER rtsp://h/a.sd RTSP/1.0'' # sample_headers) @ EL @ ''abPLAY''
     in zero_RTSP_buffer\<lparr>in_buffer := filled s, in_size := length s\<rparr>)"

theorem request_framed_witness:
  "RTSP_full_msg_rcvd sample_conn = (RTSP_method_rcvd,
     Some (int (length (lines_text (''SET_PARAMETER rtsp://h/a.sd RTSP/1.0'' # sample_headers) @ EL)), 2))"
proof -
  let ?l = "''SET_PARAMETER rtsp://h/a.sd RTSP/1.0''"
  let ?t = "lines_text (?l # sample_headers) @ EL @ ''abPLAY''"
  have len: "length ?t = 87" by (simp add: sample_headers_def EL_def)
  have b: "in_buffer sample_conn = lines_text (?l # sample_headers) @ EL @ ''ab'' @ ''PLAY'' @ replicate 4009 NUL"
    using len by (simp add: sample_conn_def filled_def Let_def RTSP_BUFFERSIZE_def)
  have sz: "in_size sample_conn = 87" using len by (simp add: sample_conn_def Let_def)
  have g: "good_line ?l" "\<forall>h \<in> set sample_headers. good_line h"
    by (simp_all add: sample_headers_def good_line_def char_defs)
  have d: "dec (int (length ''ab'')) = ''2''" "\<not> is_clen ''CSeq: 7''" by code_simp+
  have a: "announces sample_headers (length ''ab'')"
    unfolding announces_def
    by (intro disjI2 exI [of _ "[''CSeq: 7'']"] exI [of _ "[''Session: 12'']"])
       (simp only: d, simp add: sample_headers_def HDR_CONTENTLENGTH_def d)
  have "RTSP_full_msg_rcvd sample_conn =
    (RTSP_method_rcvd, Some (int (length (lines_text (?l # sample_headers) @ EL)), int (length ''ab'')))"
    by (rule request_framed [OF b g(1) _ g(2) a])
       (simp_all add: b sz sample_headers_def EL_def RTSP_BUFFERSIZE_def char_defs)
  then show ?thesis by simp
qed

section \<open>Removing a message\<close>

text \<open>C40: what is left of the buffer when a message of \<open>n\<close> bytes was handled: of the bytes that came
  behind it in the same buffer the first \<open>n\<close> move to the front, and everything from the \<open>n\<close>-th on is
  overwritten with zeros although it still counts as received: a second request longer than the first one is lost.\<close>

theorem remove_msg_keeps_prefix:
  assumes "0 < n" and "n < in_size r" and "in_size r \<le> RTSP_BUFFERSIZE" and "length (in_buffer r) = RTSP_BUFFERSIZE"
  defines "rest \<equiv> take (in_size r - n) (drop n (in_buffer r))" and "r' \<equiv> RTSP_remove_msg (int n) r"
  shows "in_size r' = length rest \<and> length (in_buffer r') = RTSP_BUFFERSIZE \<and>
    take (in_size r') (in_buffer r') = take n rest @ replicate (length rest - n) NUL"
proof -
  have sz: "nat ((int (in_size r) - int n) mod 2 ^ 64) = in_size r - n"
    using mod_pos_pos_trivial [of "int (in_size r) - int n" "2 ^ 64"] assms(1-3) by (simp add: RTSP_BUFFERSIZE_def)
  have lr: "length rest = in_size r - n" using assms(2-4) by (simp add: rest_def)
  have r': "r' = r\<lparr>in_size := in_size r - n,
      in_buffer := take n (drop n (in_buffer r) @ drop (RTSP_BUFFERSIZE - n) (in_buffer r)) @ replicate (RTSP_BUFFERSIZE - n) NUL\<rparr>"
    unfolding r'_def RTSP_remove_msg_def Let_def sz using assms(1,2) by simp
  show ?thesis
  proof (intro conjI)
    show "take (in_size r') (in_buffer r') = take n rest @ replicate (length rest - n) NUL"
      using assms(1-4) lr by (simp add: r' rest_def min_def)
  qed (use assms(1-4) lr in \<open>auto simp: r'\<close>)
qed

definition sample_rest :: RTSP_buffer where
  "sample_rest = zero_RTSP_buffer\<lparr>in_buffer := filled ''abcdefgh'', in_size := 8\<rparr>"

theorem remove_msg_keeps_prefix_witness:
  "in_size (RTSP_remove_msg 3 sample_rest) = 5 \<and>
   take 5 (in_buffer (RTSP_remove_msg 3 sample_rest)) = ''def'' @ [NUL, NUL]"
proof -
  have b: "in_buffer sample_rest = ''abcdefgh'' @ replicate 4088 NUL" "in_size sample_rest = 8"
    by (simp_all add: sample_rest_def filled_def RTSP_BUFFERSIZE_def)
  have rest: "take (in_size sample_rest - 3) (drop 3 (in_buffer sample_rest)) = ''defgh''" by (simp add: b)
  have "in_size (RTSP_remove_msg (int 3) sample_rest) = length ''defgh'' \<and>
    length (in_buffer (RTSP_remove_msg (int 3) sample_rest)) = RTSP_BUFFERSIZE \<and>
    take (in_size (RTSP_remove_msg (int 3) sample_rest)) (in_buffer (RTSP_remove_msg (int 3) sample_rest)) =
      take 3 ''defgh'' @ replicate (length ''defgh'' - 3) NUL"
    by (rule remove_msg_keeps_prefix [of 3 sample_rest, unfolded rest]) (simp_all add: b RTSP_BUFFERSIZE_def)
  then show ?thesis by (auto simp: numeral_2_eq_2 numeral_eq_Suc)
qed

text \<open>The check of an interleaved packet forgets its four header bytes: a packet of which up to four
  bytes are missing counts as complete, and removing it makes the number of received bytes wrap around below zero, to
  almost \<open>2 ^ 64\<close>.\<close>

theorem interleaved_length_underflow:
  assumes "in_at r 0 = CHR ''$''" and "bl = of_char (in_at r 2) * 256 + of_char (in_at r 3)"
    and "bl \<le> in_size r" and "in_size r < bl + 4"
  shows "RTSP_full_msg_rcvd r = (RTSP_interlvd_rcvd, Some (4, int bl)) \<and>
    in_size (RTSP_discard_msg r) = 2 ^ 64 - (bl + 4 - in_size r)"
proof -
  have f: "RTSP_full_msg_rcvd r = (RTSP_interlvd_rcvd, Some (4, int bl))"
    using assms(1,3) by (simp add: RTSP_full_msg_rcvd_def Let_def assms(2))
  have two: "x * 256 + y < 2 ^ 17" if "x < 256" "y < 256" for x y :: nat using that by simp
  have "bl < 2 ^ 17" unfolding assms(2) by (rule two) simp_all
  have "(int (in_size r) - (4 + int bl)) mod 2 ^ 64 = (int (in_size r) - (4 + int bl) + 2 ^ 64) mod 2 ^ 64"
    by (rule mod_add_self2 [symmetric])
  also have "\<dots> = int (2 ^ 64 - (bl + 4 - in_size r))"
    using \<open>bl < 2 ^ 17\<close> assms(3,4) by (subst mod_pos_pos_trivial) auto
  finally have m: "(int (in_size r) - (4 + int bl)) mod 2 ^ 64 = int (2 ^ 64 - (bl + 4 - in_size r))" .
  have "in_size (RTSP_remove_msg (4 + int bl) r) = 2 ^ 64 - (bl + 4 - in_size r)"
    unfolding RTSP_remove_msg_def Let_def m nat_int by simp
  then show ?thesis using f by (simp add: RTSP_discard_msg_def rcvd_defs)
qed

text \<open>A packet on channel 1 with a length of 4, of which only the header arrived.\<close>

definition sample_packet :: RTSP_buffer where
  "sample_packet = zero_RTSP_buffer\<lparr>in_buffer := filled [CHR ''$'', CHR 0x01, CHR 0x00, CHR 0x04], in_size := 4\<rparr>"

theorem interleaved_length_underflow_witness:
  "RTSP_full_msg_rcvd sample_packet = (RTSP_interlvd_rcvd, Some (4, 4)) \<and>
    in_size (RTSP_discard_msg sample_packet) = 2 ^ 64 - 4"
proof -
  have at: "in_at sample_packet 0 = CHR ''$''" "in_at sample_packet 2 = CHR 0x00" "in_at sample_packet 3 = CHR 0x04"
      "in_size sample_packet = 4"
    by (simp_all add: in_at_def sample_packet_def filled_def RTSP_BUFFERSIZE_def zero_RTSP_buffer_def)
  show ?thesis using interleaved_length_underflow [OF at(1), of 4] by (simp add: at)
qed

section \<open>The request line\<close>

definition word_ok :: "nat \<Rightarrow> string \<Rightarrow> bool" where
  "word_ok n w \<longleftrightarrow> w \<noteq> [] \<and> length w \<le> n \<and> (\<forall>c \<in> set w. \<not> is_space c)"

lemma scan_word:
  assumes "word_ok n w" and "is_space b"
  shows "scan (Str n # ds) (w @ b # t) vs = scan ds (b # t) (vs @ [V_str w])"
proof -
  have "takeWhile (\<lambda>c. \<not> is_space c) (w @ b # t) = w"
    using assms by (auto simp: word_ok_def takeWhile_append)
  moreover have "dropWhile is_space (w @ b # t) = w @ b # t"
    using assms(1) by (cases w) (auto simp: word_ok_def)
  ultimately show ?thesis using assms(1) by (simp add: word_ok_def Let_def)
qed

lemma scan_word_space: "is_space b \<Longrightarrow> scan (Str n # ds) (b # t) vs = scan (Str n # ds) t vs"
  by (simp add: Let_def)

lemma scan_ws: "is_space b \<Longrightarrow> scan (Ws # ds) (b # t) vs = scan (Ws # ds) t vs"
  "t = [] \<or> \<not> is_space (hd t) \<Longrightarrow> scan (Ws # ds) t vs = scan ds t vs"
  by (simp, cases t, simp_all)

lemma space_facts [simp]: "is_space (CHR '' '')" "is_space CR" "is_space LF"
  by (simp_all add: is_space_def char_defs)

text \<open>C29: the request line is understood: for the text of a well-formed request the sequence number of the
  first header is stored and the answer is the method's number, or \<open>ERR_GENERIC\<close> for a word that names no
  method.\<close>

theorem method_recognised:
  assumes "in_str r 0 = meth @ '' '' @ url @ '' '' @ ver @ EL @ ''CSeq: '' @ dec (int n) @ EL @ t"
    and "word_ok 31 meth" and "word_ok 255 url" and "word_ok 31 ver"
  shows "RTSP_validate_method r =
    (r\<lparr>rtsp_cseq := of_nat n\<rparr>, case map_of method_ids meth of Some i \<Rightarrow> i | None \<Rightarrow> ERR_GENERIC)"
proof -
  have w: "word_ok 15 ''CSeq:''" by (simp add: word_ok_def is_space_def)
  have hd_ok: "meth = [] \<or> \<not> is_space (hd meth)" "\<not> is_space (hd (''CSeq:'' @ x))" for x
    using assms(2) by (cases meth) (auto simp: word_ok_def is_space_def)
  have num: "scan [Num, Ws] ('' '' @ dec (int n) @ EL @ t) vs = (vs @ [V_num (int n)], int (length vs) + 1)" for vs
  proof -
    have "\<not> is_space (hd (dec (int n)))" "dec (int n) \<noteq> []"
      using dec_nat_digits [of n] dec_nat_nonempty [of n] by (cases "dec_nat n"; force simp: dec_def is_digit_def is_space_def)+
    then have dw: "dropWhile is_space ('' '' @ dec (int n) @ EL @ t) = dec (int n) @ EL @ t" by (cases "dec (int n)") auto
    have "scan_int (dec (int n) @ EL @ t) = Some (int n, EL @ t)"
      by (rule scan_int_dec) (simp add: EL_def is_digit_def char_defs)
    then show ?thesis using \<open>dec (int n) \<noteq> []\<close> by (simp only: scan.simps Let_def dw) simp
  qed
  have "sscanf (in_str r 0) [Ws, Str 31, Str 255, Str 31, Ws, Str 15, Num, Ws] =
      scan [Str 31, Str 255, Str 31, Ws, Str 15, Num, Ws] (in_str r 0) []"
    unfolding sscanf_def using assms(1,2) hd_ok(1) by (intro scan_ws(2)) (auto simp: word_ok_def)
  also have "\<dots> = scan [Ws, Str 15, Num, Ws] (EL @ ''CSeq: '' @ dec (int n) @ EL @ t) [V_str meth, V_str url, V_str ver]"
    unfolding assms(1) EL_def
    by (simp add: scan_word [OF assms(2)] scan_word [OF assms(3)] scan_word [OF assms(4)] scan_word_space del: scan.simps)
  also have "\<dots> = scan [Str 15, Num, Ws] (''CSeq:'' @ '' '' @ dec (int n) @ EL @ t) [V_str meth, V_str url, V_str ver]"
    using scan_ws(2) [of "''CSeq:'' @ '' '' @ dec (int n) @ EL @ t"] hd_ok(2) by (simp add: EL_def scan_ws(1) del: scan.simps)
  also have "\<dots> = ([V_str meth, V_str url, V_str ver, V_str ''CSeq:'', V_num (int n)], 5)"
    using scan_word [OF w, of "CHR '' ''"] num by (simp del: scan.simps)
  finally have sc: "sscanf (in_str r 0) [Ws, Str 31, Str 255, Str 31, Ws, Str 15, Num, Ws] =
    ([V_str meth, V_str url, V_str ver, V_str ''CSeq:'', V_num (int n)], 5)" .
  have "strstr ''CSeq:'' HDR_CSEQ = Some ''CSeq:''" by (simp add: HDR_CSEQ_def)
  then show ?thesis unfolding RTSP_validate_method_def sc by (simp del: strstr.simps)
qed

theorem method_recognised_witness:
  "RTSP_validate_method (zero_RTSP_buffer\<lparr>in_buffer := filled (''PLAY rtsp://h/a.sd RTSP/1.0'' @ EL @ ''CSeq: 7'' @ EL)\<rparr>) =
    (zero_RTSP_buffer\<lparr>in_buffer := filled (''PLAY rtsp://h/a.sd RTSP/1.0'' @ EL @ ''CSeq: 7'' @ EL), rtsp_cseq := 7\<rparr>, RTSP_ID_PLAY)"
proof -
  let ?r = "zero_RTSP_buffer\<lparr>in_buffer := filled (''PLAY rtsp://h/a.sd RTSP/1.0'' @ EL @ ''CSeq: 7'' @ EL)\<rparr>"
  have d: "dec (int 7) = ''7''" by code_simp
  have s: "in_str ?r 0 = ''PLAY'' @ '' '' @ ''rtsp://h/a.sd'' @ '' '' @ ''RTSP/1.0'' @ EL @ ''CSeq: '' @ dec (int 7) @ EL @ []"
    unfolding d by (simp add: in_str_def c_str_def filled_def EL_def char_defs RTSP_BUFFERSIZE_def)
  have "RTSP_validate_method ?r = (?r\<lparr>rtsp_cseq := of_nat 7\<rparr>,
      case map_of method_ids ''PLAY'' of Some i \<Rightarrow> i | None \<Rightarrow> ERR_GENERIC)"
    by (rule method_recognised [OF s]) (simp_all add: word_ok_def is_space_def)
  then show ?thesis by (simp add: method_ids_def)
qed

section \<open>The output stream\<close>

text \<open>What the event loop relies on for a connection's output: text put into the buffer comes out of it in
  order and unchanged, in pieces of any size. \<open>put\<close> answers whether it took the text, \<open>get k\<close> removes up to
  \<open>k\<close> characters; \<open>fit\<close> says which texts may be put in a state.\<close>

datatype 'a stream_op = Put_text "'a list" | Get_text nat

locale output_stream =
  fixes put :: "'a list \<Rightarrow> 's \<Rightarrow> 's \<times> bool"
    and get :: "nat \<Rightarrow> 's \<Rightarrow> 's \<times> 'a list"
    and held :: "'s \<Rightarrow> 'a list"
    and ok :: "'s \<Rightarrow> bool"
    and fit :: "'a list \<Rightarrow> 's \<Rightarrow> bool"
  assumes put_ok: "ok s \<Longrightarrow> fit x s \<Longrightarrow> ok (fst (put x s))"
    and put_held: "ok s \<Longrightarrow> fit x s \<Longrightarrow> held (fst (put x s)) = (if snd (put x s) then held s @ x else held s)"
    and get_ok: "ok s \<Longrightarrow> k \<le> length (held s) \<Longrightarrow> ok (fst (get k s))"
    and get_held: "ok s \<Longrightarrow> k \<le> length (held s) \<Longrightarrow> snd (get k s) @ held (fst (get k s)) = held s"
begin

text \<open>Running a sequence of operations: the final state, what was accepted and what was sent.\<close>

fun stream_run :: "'a stream_op list \<Rightarrow> 's \<Rightarrow> 's \<times> 'a list \<times> 'a list" where
  "stream_run [] s = (s, [], [])"
| "stream_run (Put_text x # os) s =
     (let (s1, a) = put x s; (s2, acc, out) = stream_run os s1 in (s2, (if a then x else []) @ acc, out))"
| "stream_run (Get_text k # os) s =
     (let (s1, o1) = get (min k (length (held s))) s; (s2, acc, out) = stream_run os s1 in (s2, acc, o1 @ out))"

text \<open>Every text fits when its turn comes.\<close>

fun run_fits :: "'a stream_op list \<Rightarrow> 's \<Rightarrow> bool" where
  "run_fits [] s = True"
| "run_fits (Put_text x # os) s = (fit x s \<and> run_fits os (fst (put x s)))"
| "run_fits (Get_text k # os) s = run_fits os (fst (get (min k (length (held s))) s))"

lemma run_stream:
  assumes "ok s" and "run_fits os s" and "stream_run os s = (s', acc, out)"
  shows "ok s' \<and> held s @ acc = out @ held s'"
  using assms
proof (induction os s arbitrary: s' acc out rule: stream_run.induct)
  case (1 s)
  then show ?case by simp
next
  case (2 x os s)
  obtain s1 a where p: "put x s = (s1, a)" by (cases "put x s")
  obtain acc1 where rest: "stream_run os s1 = (s', acc1, out)" "acc = (if a then x else []) @ acc1"
    using "2.prems"(3) p by (auto split: prod.splits)
  have "ok s1" "held s1 = (if a then held s @ x else held s)"
    using put_ok [of s x] put_held [of s x] "2.prems"(1,2) p by auto
  moreover from "2.IH" [OF p [symmetric] refl _ _ rest(1)] calculation(1) "2.prems"(2) have "ok s' \<and> held s1 @ acc1 = out @ held s'"
    using p by simp
  ultimately show ?case using rest(2) by auto
next
  case (3 k os s)
  let ?k = "min k (length (held s))"
  obtain s1 o1 where g: "get ?k s = (s1, o1)" by (cases "get ?k s")
  obtain acc1 out1 where rest: "stream_run os s1 = (s', acc1, out1)" "acc = acc1" "out = o1 @ out1"
    using "3.prems"(3) g by (auto simp: Let_def split: prod.splits)
  have "ok s1" "o1 @ held s1 = held s" using get_ok [of s ?k] get_held [of s ?k] "3.prems"(1) g by auto
  moreover from "3.IH" [OF _ _ _ _ rest(1)] calculation(1) "3.prems"(2) have "ok s' \<and> held s1 @ acc1 = out1 @ held s'"
    using g by (simp add: Let_def)
  ultimately show ?case by (metis append.assoc rest(2,3))
qed

end

definition out_held :: "RTSP_buffer \<Rightarrow> string" where
  "out_held r = take (out_size r - out_sent r) (drop (out_sent r) (out_buffer r))"

definition out_valid :: "RTSP_buffer \<Rightarrow> bool" where
  "out_valid r \<longleftrightarrow> rtsp_proto r = TCP \<and> length (out_buffer r) = RTSP_BUFFERSIZE + MAX_DESCR_LENGTH \<and>
     out_size r \<le> RTSP_BUFFERSIZE + MAX_DESCR_LENGTH \<and> out_sent r \<le> out_size r"

definition put_out :: "string \<Rightarrow> RTSP_buffer \<Rightarrow> RTSP_buffer \<times> bool" where
  "put_out s r = (let (r', e) = bwrite s r in (r', e = ERR_NOERROR))"

definition get_out :: "nat \<Rightarrow> RTSP_buffer \<Rightarrow> RTSP_buffer \<times> string" where
  "get_out k r = (let (r', s, _) = RTSP_send (Some k) r in (r', s))"

text \<open>A text may be written unless its end falls on the end of the array while the low byte of \<open>out_size\<close> is not zero.\<close>

definition write_fits :: "string \<Rightarrow> RTSP_buffer \<Rightarrow> bool" where
  "write_fits s r \<longleftrightarrow> length s < 65536 \<and>
     (out_size r + length s = RTSP_BUFFERSIZE + MAX_DESCR_LENGTH \<longrightarrow> out_size r mod 256 = 0)"

lemma bwrite_cases:
  assumes "out_valid r" and "write_fits s r"
  obtains (full) "bwrite s r = (r, ERR_ALLOC)"
  | (room) b where "bwrite s r = (r\<lparr>out_buffer := b, out_size := out_size r + length s\<rparr>, ERR_NOERROR)"
      "length b = length (out_buffer r)" "out_size r + length s \<le> length b"
      "take (out_size r + length s) b = take (out_size r) (out_buffer r) @ s"
proof (cases "length (out_buffer r) < out_size r + length s")
  case True
  then show thesis using assms(2) full by (simp add: bwrite_def write_fits_def)
next
  case False
  have same: "(if out_size r + length s = length (out_buffer r) then out_size r div 256 * 256 else out_size r) = out_size r"
    using assms by (auto simp: out_valid_def write_fits_def minus_mod_eq_div_mult [symmetric])
  let ?n = "out_size r"
  let ?b = "(take ?n (out_buffer r) @ s @ drop (?n + length s) (out_buffer r))[?n + length s := NUL]"
  show thesis
    by (rule room [of ?b]) (use False assms same in \<open>auto simp: bwrite_def Let_def out_valid_def write_fits_def min_absorb2\<close>)
qed

lemma out_held_alt: "out_held r = drop (out_sent r) (take (out_size r) (out_buffer r))"
  by (simp add: out_held_def drop_take)

lemma get_out_eq:
  assumes "out_valid r" and "k \<le> length (out_held r)"
  shows "out_valid (fst (get_out k r)) \<and> snd (get_out k r) = take k (out_held r) \<and>
    out_held (fst (get_out k r)) = drop k (out_held r)"
proof (cases "out_size r = 0")
  case True
  then show ?thesis using assms by (simp add: get_out_def RTSP_send_def out_held_def)
next
  case False
  have k: "out_sent r + k \<le> out_size r" and len: "length (out_held r) = out_size r - out_sent r"
    using assms by (auto simp: out_valid_def out_held_def)
  have p: "rtsp_proto r = TCP" using assms(1) by (simp add: out_valid_def)
  let ?n = "out_sent r + k"
  have g: "get_out k r = (if ?n = out_size r then r\<lparr>out_sent := 0, out_size := 0\<rparr> else r\<lparr>out_sent := ?n\<rparr>, take k (out_held r))"
    using False p assms(1) by (simp add: get_out_def RTSP_send_def Let_def out_held_def out_valid_def)
  show ?thesis
  proof (cases "?n = out_size r")
    case True
    then show ?thesis using g assms(1) len by (auto simp: out_valid_def out_held_def)
  next
    case False
    then show ?thesis using g assms(1) k by (auto simp: out_valid_def out_held_alt add.commute)
  qed
qed

interpretation rtsp_out: output_stream put_out get_out out_held out_valid write_fits
proof (unfold_locales, goal_cases)
  case (1 r s)
  from 1 show ?case by (cases rule: bwrite_cases [of r s]) (use 1 in \<open>auto simp: put_out_def out_valid_def\<close>)
next
  case (2 r s)
  then show ?case
  proof (cases rule: bwrite_cases [of r s])
    case full
    then show ?thesis by (simp add: put_out_def err_defs)
  next
    case (room b)
    then show ?thesis using 2 by (simp add: put_out_def out_held_alt out_valid_def)
  qed
next
  case (3 r k)
  then show ?case using get_out_eq by blast
next
  case (4 r k)
  then show ?case using get_out_eq [of r k] by simp
qed

text \<open>C17: a connection's output is a byte stream: for every sequence of replies written and of sends of any
  size, what was sent followed by what still waits is what waited at the beginning followed by the replies that were
  accepted, and the buffer's bounds hold. A reply that does not fit is refused as a whole. The replies are those shorter than
  \<open>2 ^ 16\<close> bytes that do not end exactly at the end of the array behind an \<open>out_size\<close> with a low byte other than zero
  (\<open>write_fits\<close>); of the others the next theorem tells what is lost.\<close>

theorem output_in_order:
  assumes "out_valid r" and "rtsp_out.run_fits os r" and "rtsp_out.stream_run os r = (r', acc, out)"
  shows "out_held r @ acc = out @ out_held r' \<and> out_size r' \<le> RTSP_BUFFERSIZE + MAX_DESCR_LENGTH \<and> out_sent r' \<le> out_size r'"
  using rtsp_out.run_stream [OF assms] by (simp add: out_valid_def)

theorem output_in_order_witness:
  "\<exists>r' acc out. rtsp_out.stream_run [Put_text ''RTSP/1.0'', Get_text 5, Put_text '' 200 OK'', Get_text 100] zero_RTSP_buffer = (r', acc, out) \<and>
     acc = out @ out_held r' \<and> out_sent r' \<le> out_size r'"
proof -
  let ?os = "[Put_text ''RTSP/1.0'', Get_text 5, Put_text '' 200 OK'', Get_text 100]"
  obtain r' acc out where run: "rtsp_out.stream_run ?os zero_RTSP_buffer = (r', acc, out)"
    by (cases "rtsp_out.stream_run ?os zero_RTSP_buffer") auto
  have v: "out_valid zero_RTSP_buffer" by (simp add: out_valid_def zero_RTSP_buffer_def)
  have f: "rtsp_out.run_fits ?os zero_RTSP_buffer"
    by (simp add: write_fits_def put_out_def get_out_def bwrite_def RTSP_send_def out_held_def zero_RTSP_buffer_def
        RTSP_BUFFERSIZE_def MAX_DESCR_LENGTH_def Let_def)
  have "out_held zero_RTSP_buffer = []" by (simp add: out_held_def zero_RTSP_buffer_def)
  then show ?thesis using output_in_order [OF v f run] run by auto
qed

text \<open>A reply that ends exactly at the end of the output buffer is accepted, but its terminator clears the low byte of
  \<open>out_size\<close>: as many bytes as that byte counted are cut off the end of what waits.\<close>

theorem exact_fit_loses:
  assumes "out_valid r" and "out_size r + length s = RTSP_BUFFERSIZE + MAX_DESCR_LENGTH" and "out_sent r \<le> out_size r div 256 * 256 + length s"
  shows "\<exists>r'. bwrite s r = (r', ERR_NOERROR) \<and> out_size r' = RTSP_BUFFERSIZE + MAX_DESCR_LENGTH - out_size r mod 256 \<and>
    out_held r' = take (length (out_held r) + length s - out_size r mod 256) (out_held r @ s)"
proof -
  let ?n = "out_size r" and ?N = "RTSP_BUFFERSIZE + MAX_DESCR_LENGTH"
  have l: "length (out_buffer r) = ?N" "out_sent r \<le> ?n" "length s mod 65536 = length s"
    using assms(1,2) by (simp_all add: out_valid_def RTSP_BUFFERSIZE_def MAX_DESCR_LENGTH_def)
  let ?b = "take ?n (out_buffer r) @ s"
  have b: "length ?b = ?N" "(?b @ drop ?N (out_buffer r))[?N := NUL] = ?b" using l assms(2) by (simp_all add: list_update_beyond)
  let ?r = "r\<lparr>out_buffer := ?b, out_size := ?n div 256 * 256 + length s\<rparr>"
  have w: "bwrite s r = (?r, ERR_NOERROR)" using l assms(2) b(2) by (simp add: bwrite_def Let_def)
  have m: "?n div 256 * 256 + length s = ?N - ?n mod 256" using assms(2) by (simp add: minus_mod_eq_div_mult [symmetric])
  have h: "out_held r @ s = drop (out_sent r) ?b" using l assms(1) by (simp add: out_held_alt out_valid_def)
  have "length (out_held r) + length s - ?n mod 256 = ?N - ?n mod 256 - out_sent r"
    using assms(1,2) l by (simp add: out_held_alt out_valid_def min_absorb2)
  then have "out_held ?r = take (length (out_held r) + length s - ?n mod 256) (out_held r @ s)"
    unfolding h by (simp add: out_held_def m)
  then show ?thesis using w m by (intro exI [of _ ?r]) simp
qed

theorem exact_fit_loses_witness:
  "\<exists>r r'. out_size r = 8000 \<and> out_sent r = 0 \<and> bwrite (replicate 192 CHR ''x'') r = (r', ERR_NOERROR) \<and> out_size r' = 8128"
proof -
  let ?r = "zero_RTSP_buffer\<lparr>out_size := 8000\<rparr>" and ?s = "replicate 192 CHR ''x''"
  have v: "out_valid ?r" by (simp add: out_valid_def zero_RTSP_buffer_def RTSP_BUFFERSIZE_def MAX_DESCR_LENGTH_def)
  have l: "out_size ?r + length ?s = RTSP_BUFFERSIZE + MAX_DESCR_LENGTH" "out_sent ?r \<le> out_size ?r div 256 * 256 + length ?s"
    by (simp_all only: length_replicate) (simp_all add: RTSP_BUFFERSIZE_def MAX_DESCR_LENGTH_def zero_RTSP_buffer_def)
  from exact_fit_loses [OF v l] obtain r' where
    r: "bwrite ?s ?r = (r', ERR_NOERROR)" "out_size r' = RTSP_BUFFERSIZE + MAX_DESCR_LENGTH - out_size ?r mod 256" by blast
  have "out_size r' = 8128" using r(2) by (simp add: RTSP_BUFFERSIZE_def MAX_DESCR_LENGTH_def)
  then show ?thesis using r(1) by - (rule exI [of _ ?r], rule exI [of _ r'], simp add: zero_RTSP_buffer_def)
qed

end
