(* ===== verification/Rtsp_Url.thy ===== *)
theory Rtsp_Url
  imports Rtsp_Msg
begin

text \<open>
  The URL of a request (\<^verbatim>\<open>rtsp/parse_url.c\<close>). The routine cuts a copy of the URL with
  \<open>strtok\<close>, which overwrites the delimiters in place, and computes an address in the copy itself: the model
  keeps the copy as an array with the position \<open>strtok\<close> would continue at.
\<close>

definition URL_ERROR :: int where "URL_ERROR = - 1"
definition URL_OK :: int where "URL_OK = 0"
definition URL_BAD :: int where "URL_BAD = 1"

lemmas url_defs = URL_ERROR_def URL_OK_def URL_BAD_def

text \<open>\<open>strtok\<close> on the string at position \<open>i\<close> of an array: the array afterwards, where the next call
  continues, and the token.\<close>

definition strtok_at :: "char list \<Rightarrow> nat \<Rightarrow> string \<Rightarrow> char list \<times> nat \<times> string option" where
  "strtok_at m i delims =
    (let s = c_str (drop i m);
         k = length (takeWhile (\<lambda>c. c \<in> set delims) s);
         tok = takeWhile (\<lambda>c. c \<notin> set delims) (drop k s);
         q = i + k + length tok
     in if drop k s = [] then (m, i + k, None)
        else if m ! q = NUL then (m, q, Some tok)
        else (m[q := NUL], q + 1, Some tok))"

text \<open>The results: the return value, the server, the port and the file name. \<open>slen\<close> and \<open>flen\<close> are the sizes of
  the caller's arrays, \<open>dflt\<close> is \<open>FENICE_RTSP_PORT_DEFAULT\<close>, which the build configures. A port that is
  not stored is \<open>None\<close>.\<close>

record parsed_url =
  url_code :: int
  url_server :: string
  url_port :: "uint16 option"
  url_file :: string

definition parse_url :: "uint16 \<Rightarrow> string \<Rightarrow> nat \<Rightarrow> nat \<Rightarrow> parsed_url" where
  "parse_url dflt url slen flen =
    (let full = url @ [NUL]
     in if take 7 url = ''rtsp://'' then
          let host = takeWhile (\<lambda>c. c \<noteq> CHR ''/'') (drop 7 url);
              has_port = (CHR '':'' \<in> set host);
              (m1, p1, token) = strtok_at full 7 ('' :/'' @ [TAB, LF])
          in (case token of
                None \<Rightarrow> \<lparr>url_code = URL_BAD, url_server = [], url_port = None, url_file = []\<rparr>
              | Some server \<Rightarrow>
                  if slen \<le> length server
                  then \<lparr>url_code = URL_ERROR, url_server = server, url_port = None, url_file = []\<rparr>
                  else
                    let (m2, p2, port) =
                          (if has_port
                           then (case strtok_at m1 (length server + 7 + 1) ('' /'' @ [TAB, LF]) of
                                   (m, p, Some s) \<Rightarrow> (m, p, word_of_int (atol s))
                                 | (m, p, None) \<Rightarrow> (m, p, dflt))
                           else (m1, p1, dflt));
                        (_, _, fname) = strtok_at m2 p2 '' ''
                    in (case fname of
                          None \<Rightarrow> \<lparr>url_code = URL_OK, url_server = server, url_port = Some port, url_file = []\<rparr>
                        | Some f \<Rightarrow>
                            if flen \<le> length f
                            then \<lparr>url_code = URL_ERROR, url_server = server, url_port = Some port, url_file = f\<rparr>
                            else \<lparr>url_code = URL_OK, url_server = server, url_port = Some port, url_file = f\<rparr>))
        else
          (case strtok_at full 0 ('' '' @ [TAB, LF]) of
             (_, _, None) \<Rightarrow> \<lparr>url_code = URL_BAD, url_server = [], url_port = None, url_file = []\<rparr>
           | (_, _, Some f) \<Rightarrow>
               if flen \<le> length f then \<lparr>url_code = URL_ERROR, url_server = [], url_port = None, url_file = f\<rparr>
               else \<lparr>url_code = URL_OK, url_server = [], url_port = None, url_file = f\<rparr>))"

section \<open>Reading back a URL\<close>

lemma takeWhile_stop: "(\<forall>x \<in> set xs. P x) \<Longrightarrow> (ys = [] \<or> \<not> P (hd ys)) \<Longrightarrow> takeWhile P (xs @ ys) = xs"
  by (cases ys) (auto simp: takeWhile_append)

lemma c_str_append: "NUL \<notin> set xs \<Longrightarrow> c_str (xs @ ys) = xs @ c_str ys"
  by (induction xs) (auto simp: c_str_def)

lemma c_str_Cons: "c_str (c # ys) = (if c = NUL then [] else c # c_str ys)"
  by (simp add: c_str_def)

lemma strtok_at_token:
  assumes "m = pre @ tok @ d # rest" and "tok \<noteq> []" and "set tok \<inter> set delims = {}" and "NUL \<notin> set tok"
    and "d \<in> set delims" and "d \<noteq> NUL" and "i = length pre"
  shows "strtok_at m i delims = (pre @ tok @ NUL # rest, length pre + length tok + 1, Some tok)"
proof -
  obtain u where u: "c_str (drop i m) = tok @ d # u"
    using assms(1,4,6,7) by (simp add: c_str_append c_str_Cons)
  have k: "takeWhile (\<lambda>c. c \<in> set delims) (tok @ d # u) = []"
    using assms(2,3) by (cases tok) auto
  have t: "takeWhile (\<lambda>c. c \<notin> set delims) (tok @ d # u) = tok"
    using assms(3,5) by (intro takeWhile_stop) auto
  have q: "m ! (length pre + length tok) = d" "m[length pre + length tok := NUL] = pre @ tok @ NUL # rest"
    by (simp_all add: assms(1) nth_append list_update_append)
  show ?thesis using assms(2,6) q unfolding strtok_at_def u k t Let_def by (simp add: assms(7) k t)
qed

lemma strtok_at_last:
  assumes "m = pre @ tok @ NUL # rest" and "tok \<noteq> []" and "set tok \<inter> set delims = {}" and "NUL \<notin> set tok" and "i = length pre"
  shows "strtok_at m i delims = (m, length pre + length tok, Some tok)"
proof -
  have u: "c_str (drop i m) = tok"
    using assms(1,4,5) by (simp add: c_str_append c_str_Cons)
  have k: "takeWhile (\<lambda>c. c \<in> set delims) tok = []" using assms(2,3) by (cases tok) auto
  have t: "takeWhile (\<lambda>c. c \<notin> set delims) tok = tok" using assms(3) by (auto simp: takeWhile_eq_all_conv)
  have q: "m ! (length pre + length tok) = NUL" by (simp add: assms(1) nth_append)
  show ?thesis using assms(2) q unfolding strtok_at_def u k t Let_def by (simp add: assms(5) k t)
qed

lemma parse_url_steps:
  assumes "take 7 url = ''rtsp://''" and "strtok_at (url @ [NUL]) 7 ('' :/'' @ [TAB, LF]) = (m1, p1, Some server)"
    and "length server < slen"
    and "if CHR '':'' \<in> set (takeWhile (\<lambda>c. c \<noteq> CHR ''/'') (drop 7 url))
      then strtok_at m1 (length server + 7 + 1) ('' /'' @ [TAB, LF]) = (m2, p2, Some ps) \<and> prt = word_of_int (atol ps)
      else m2 = m1 \<and> p2 = p1 \<and> prt = dflt"
    and "strtok_at m2 p2 '' '' = (m3, p3, Some f)" and "length f < flen"
  shows "parse_url dflt url slen flen = \<lparr>url_code = URL_OK, url_server = server, url_port = Some prt, url_file = f\<rparr>"
  using assms by (simp add: parse_url_def Let_def split: if_splits)

text \<open>C28: a URL is taken apart into what it was built from: the server, the port (the configured one when the
  URL names none) and the file name, for every server name without delimiters and file name without blanks that fit the
  caller's arrays.\<close>

theorem parse_url_roundtrip:
  assumes "host \<noteq> []" and "set host \<inter> {CHR '' '', CHR '':'', CHR ''/'', TAB, LF, NUL} = {}" and "length host < slen"
    and "file \<noteq> []" and "set file \<inter> {CHR '' '', NUL} = {}" and "length file < flen"
  shows "parse_url dflt (''rtsp://'' @ host @ (case port of None \<Rightarrow> [] | Some p \<Rightarrow> '':'' @ dec (int p)) @ ''/'' @ file) slen flen =
    \<lparr>url_code = URL_OK, url_server = host,
      url_port = Some (case port of None \<Rightarrow> dflt | Some p \<Rightarrow> of_nat p), url_file = file\<rparr>"
proof (cases port)
  case None
  let ?u = "''rtsp://'' @ host @ ''/'' @ file"
  have h: "takeWhile (\<lambda>c. c \<noteq> CHR ''/'') (drop 7 ?u) = host"
    using assms(2) takeWhile_stop [of host "\<lambda>c. c \<noteq> CHR ''/''" "''/'' @ file"] by auto
  have np: "CHR '':'' \<notin> set host" using assms(2) by auto
  have s1: "strtok_at (?u @ [NUL]) 7 ('' :/'' @ [TAB, LF]) =
      (''rtsp://'' @ host @ NUL # file @ [NUL], length host + 8, Some host)"
    using assms(1,2) by (subst strtok_at_token [of _ "''rtsp://''" host "CHR ''/''" "file @ [NUL]"]) (auto simp: char_defs)
  have s2: "strtok_at (''rtsp://'' @ host @ NUL # file @ [NUL]) (length host + 8) '' '' =
      (''rtsp://'' @ host @ NUL # file @ [NUL], length host + 8 + length file, Some file)"
    using assms(4,5) by (subst strtok_at_last [of _ "''rtsp://'' @ host @ [NUL]" "file" "[]"]) auto
  have url: "''rtsp://'' @ host @ (case port of None \<Rightarrow> [] | Some p \<Rightarrow> '':'' @ dec (int p)) @ ''/'' @ file = ?u"
    by (simp add: None)
  have t7: "take 7 ?u = ''rtsp://''" by simp
  show ?thesis
    unfolding url by (rule parse_url_steps [OF t7 s1 assms(3) _ s2 assms(6)]) (use np in \<open>simp only: h; simp add: None\<close>)
next
  case (Some p)
  let ?d = "dec (int p)"
  let ?u = "''rtsp://'' @ host @ '':'' @ ?d @ ''/'' @ file"
  have digs: "\<forall>c \<in> set ?d. is_digit c" "?d \<noteq> []" using dec_nat_digits dec_nat_nonempty by (auto simp: dec_def)
  have clean: "set ?d \<inter> {CHR '' '', CHR '':'', CHR ''/'', TAB, LF, NUL} = {}" using digs(1) by (auto simp: is_digit_def char_defs)
  have h: "takeWhile (\<lambda>c. c \<noteq> CHR ''/'') (drop 7 ?u) = host @ '':'' @ ?d"
  proof -
    have "drop 7 ?u = (host @ '':'' @ ?d) @ ''/'' @ file" by simp
    then show ?thesis using assms(2) clean by (simp only:) (rule takeWhile_stop, auto)
  qed
  let ?m1 = "''rtsp://'' @ host @ NUL # ?d @ ''/'' @ file @ [NUL]"
  let ?m2 = "''rtsp://'' @ host @ NUL # ?d @ NUL # file @ [NUL]"
  have s1: "strtok_at (?u @ [NUL]) 7 ('' :/'' @ [TAB, LF]) = (?m1, length host + 8, Some host)"
    using assms(1,2) by (subst strtok_at_token [of _ "''rtsp://''" host "CHR '':''" "?d @ ''/'' @ file @ [NUL]"]) (auto simp: char_defs)
  have s2: "strtok_at ?m1 (length host + 7 + 1) ('' /'' @ [TAB, LF]) = (?m2, length host + 8 + length ?d + 1, Some ?d)"
    using clean digs(2)
    by (subst strtok_at_token [of _ "''rtsp://'' @ host @ [NUL]" ?d "CHR ''/''" "file @ [NUL]"]) (auto simp: char_defs)
  have s3: "strtok_at ?m2 (length host + 8 + length ?d + 1) '' '' =
      (?m2, length host + 8 + length ?d + 1 + length file, Some file)"
    using assms(4,5) by (subst strtok_at_last [of _ "''rtsp://'' @ host @ NUL # ?d @ [NUL]" "file" "[]"]) auto
  have a: "atol ?d = int p"
  proof -
    have "dropWhile is_space ?d = ?d" using digs by (cases ?d) (auto simp: is_digit_def is_space_def)
    then show ?thesis using scan_int_dec [of "[]" "int p"] by (simp add: atol_def)
  qed
  have url: "''rtsp://'' @ host @ (case port of None \<Rightarrow> [] | Some p \<Rightarrow> '':'' @ dec (int p)) @ ''/'' @ file = ?u"
    by (simp add: Some)
  have t7: "take 7 ?u = ''rtsp://''" by simp
  have hp: "CHR '':'' \<in> set (host @ '':'' @ ?d)" by simp
  have "parse_url dflt ?u slen flen = \<lparr>url_code = URL_OK, url_server = host, url_port = Some (of_nat p), url_file = file\<rparr>"
  proof (rule parse_url_steps [OF t7 s1 assms(3) _ s3 assms(6)])
    show "if CHR '':'' \<in> set (takeWhile (\<lambda>c. c \<noteq> CHR ''/'') (drop 7 ?u))
      then strtok_at ?m1 (length host + 7 + 1) ('' /'' @ [TAB, LF]) = (?m2, length host + 8 + length ?d + 1, Some ?d) \<and>
        (of_nat p :: uint16) = word_of_int (atol ?d)
      else ?m2 = ?m1 \<and> length host + 8 + length ?d + 1 = length host + 8 \<and> of_nat p = dflt"
      unfolding h if_P [OF hp] s2 a by simp
  qed
  then show ?thesis unfolding url by (simp only: Some option.case)
qed

theorem parse_url_roundtrip_witness:
  "parse_url 554 ''rtsp://host:80/film.sd!video'' 255 255 =
     \<lparr>url_code = URL_OK, url_server = ''host'', url_port = Some 80, url_file = ''film.sd!video''\<rparr>"
proof -
  have d: "dec (int 80) = ''80''" by code_simp
  have "parse_url dflt (''rtsp://'' @ ''host'' @ (case Some 80 of None \<Rightarrow> [] | Some p \<Rightarrow> '':'' @ dec (int p)) @ ''/'' @ ''film.sd!video'') 255 255 =
     \<lparr>url_code = URL_OK, url_server = ''host'', url_port = Some (case Some 80 of None \<Rightarrow> dflt | Some p \<Rightarrow> of_nat p),
       url_file = ''film.sd!video''\<rparr>" for dflt
    by (rule parse_url_roundtrip) (simp_all add: char_defs)
  from this [of 554] show ?thesis unfolding option.case d by simp
qed

end
