(* ===== verification/Rtsp_Reply.thy ===== *)
theory Rtsp_Reply
  imports Rtsp_Url
begin

text \<open>
  The replies of the server: the status texts (\<^verbatim>\<open>rtsp/get_stat.c\<close>), the error reply
  (\<^verbatim>\<open>send_reply.c\<close>) and one reply per method (\<^verbatim>\<open>send_*_reply.c\<close>). A reply is
  formatted into an array and handed to \<open>bwrite\<close>. The array of the reply to DESCRIBE, whose length a client can bring about by
  the description, has 3560 bytes, and writing behind it is \<open>None\<close>; the arrays of 1024 characters of the other replies, whose parts are
  bounded by their callers' arrays, are not modelled. What \<open>config.h\<close>, the preferences, the clock and the network give is an argument.
\<close>

record config =
  PACKAGE :: string
  VERSION :: string
  prefs_hostname :: string
  prefs_serv_root :: string
  prefs_max_session :: int
  default_port :: uint16
  get_address :: string

definition DEFAULT_TTL :: int where "DEFAULT_TTL = 32"

definition status_table :: "(int \<times> string) list" where
  "status_table =
    [(100, ''Continue''), (200, ''OK''), (201, ''Created''), (202, ''Accepted''),
     (203, ''Non-Authoritative Information''), (204, ''No Content''), (205, ''Reset Content''),
     (206, ''Partial Content''), (300, ''Multiple Choices''), (301, ''Moved Permanently''),
     (302, ''Moved Temporarily''), (400, ''Bad Request''), (401, ''Unauthorized''), (402, ''Payment Required''),
     (403, ''Forbidden''), (404, ''Not Found''), (405, ''Method Not Allowed''), (406, ''Not Acceptable''),
     (407, ''Proxy Authentication Required''), (408, ''Request Time-out''), (409, ''Conflict''), (410, ''Gone''),
     (411, ''Length Required''), (412, ''Precondition Failed''), (413, ''Request Entity Too Large''),
     (414, ''Request-URI Too Large''), (415, ''Unsupported Media Type''), (420, ''Bad Extension''),
     (450, ''Invalid Parameter''), (451, ''Parameter Not Understood''), (452, ''Conference Not Found''),
     (453, ''Not Enough Bandwidth''), (454, ''Session Not Found''), (455, ''Method Not Valid In This State''),
     (456, ''Header Field Not Valid for Resource''), (457, ''Invalid Range''), (458, ''Parameter Is Read-Only''),
     (461, ''Unsupported transport''), (500, ''Internal Server Error''), (501, ''Not Implemented''),
     (502, ''Bad Gateway''), (503, ''Service Unavailable''), (504, ''Gateway Time-out''),
     (505, ''RTSP Version Not Supported''), (551, ''Option not supported''), (911, ''Extended Error:'')]"

text \<open>An unknown status gives a null pointer, which \<open>printf\<close> of the GNU library prints as
  \<^verbatim>\<open>(null)\<close>.\<close>

definition get_stat :: "int \<Rightarrow> string option" where
  "get_stat err = map_of status_table err"

definition stat_text :: "int \<Rightarrow> string" where
  "stat_text err = (case get_stat err of Some s \<Rightarrow> s | None \<Rightarrow> ''(null)'')"

definition RTSP_VER :: string where "RTSP_VER = ''RTSP/1.0''"

definition status_line :: "int \<Rightarrow> string" where
  "status_line err = RTSP_VER @ '' '' @ dec err @ '' '' @ stat_text err @ EL"

definition udec :: "'a::len word \<Rightarrow> string" where
  "udec w = dec (uint w)"

text \<open>\<open>addon\<close> only enters the size of the array the code allocates.\<close>

definition reply_text :: "int \<Rightarrow> RTSP_buffer \<Rightarrow> string" where
  "reply_text err r = status_line err @ ''CSeq: '' @ dec (sint (rtsp_cseq r)) @ EL @ EL"

definition send_reply :: "int \<Rightarrow> string option \<Rightarrow> RTSP_buffer \<Rightarrow> RTSP_buffer \<times> int" where
  "send_reply err addon r = bwrite (reply_text err r) r"

text \<open>The beginning of every successful reply but that to \<^verbatim>\<open>OPTIONS\<close>.\<close>

definition reply_head :: "config \<Rightarrow> int \<Rightarrow> int \<Rightarrow> string" where
  "reply_head cfg err cseq = status_line err @ ''CSeq: '' @ dec cseq @ EL @
     ''Server: '' @ PACKAGE cfg @ ''/'' @ VERSION cfg @ EL"

definition send_options_reply :: "int \<Rightarrow> RTSP_buffer \<Rightarrow> RTSP_buffer \<times> int" where
  "send_options_reply cseq r =
    (let s = status_line 200 @ ''CSeq: '' @ dec cseq @ EL @
             ''Public: OPTIONS,DESCRIBE,SETUP,PLAY,PAUSE,TEARDOWN'' @ EL @ EL
     in (fst (bwrite s r), ERR_NOERROR))"

definition send_pause_reply :: "config \<Rightarrow> tm \<Rightarrow> RTSP_session \<Rightarrow> RTSP_buffer \<Rightarrow> RTSP_buffer \<times> int" where
  "send_pause_reply cfg now s r =
    (let t = add_time_stamp now (reply_head cfg 200 (sint (rtsp_cseq r))) False @
             ''Session: '' @ dec (session_id s) @ EL @ EL
     in (fst (bwrite t r), ERR_NOERROR))"

definition send_teardown_reply :: "config \<Rightarrow> tm \<Rightarrow> int \<Rightarrow> int \<Rightarrow> RTSP_buffer \<Rightarrow> RTSP_buffer \<times> int" where
  "send_teardown_reply cfg now sid cseq r =
    (let t = add_time_stamp now (reply_head cfg 200 cseq) False @ ''Session: '' @ dec sid @ EL @ EL
     in (fst (bwrite t r), ERR_NOERROR))"

text \<open>The \<^verbatim>\<open>RTP-info\<close> entries of the streams of a session, each with its medium. The loop of the code
  reads the first stream before it looks whether there is one: without a stream it follows a null pointer, and the
  server dies (\<open>None\<close>).\<close>

fun rtp_info :: "config \<Rightarrow> (RTP_session \<times> 'st media_entry) list \<Rightarrow> string option" where
  "rtp_info cfg [] = None"
| "rtp_info cfg ((p, m) # ps) =
     (let e = ''url=rtsp://'' @ prefs_hostname cfg @ ''/'' @ rtp_sd_filename p @ ''/'' @ rtp_sd_filename p @ ''!'' @
              me_filename m @ '';seq='' @ udec (start_seq p) @ '';rtptime='' @ udec (start_rtptime p)
      in if ps = [] then Some (e @ EL)
         else (case rtp_info cfg ps of None \<Rightarrow> None | Some t \<Rightarrow> Some (e @ '','' @ t)))"

definition send_play_reply ::
    "config \<Rightarrow> tm \<Rightarrow> RTSP_session \<Rightarrow> (RTP_session \<times> 'st media_entry) list \<Rightarrow> RTSP_buffer \<Rightarrow> (RTSP_buffer \<times> int) option" where
  "send_play_reply cfg now s ps r =
    (case rtp_info cfg ps of
       None \<Rightarrow> None
     | Some info \<Rightarrow>
         let t = add_time_stamp now (reply_head cfg 200 (sint (rtsp_cseq r))) False @
                 ''Session: '' @ dec (session_id s) @ EL @ ''RTP-info: '' @ info @ EL
         in Some (fst (bwrite t r), ERR_NOERROR))"

definition transport_text :: "config \<Rightarrow> string \<Rightarrow> RTP_transport \<Rightarrow> string" where
  "transport_text cfg mcast t =
    (case trans_type t of
       RTP_rtp_avp \<Rightarrow>
         (if is_multicast t then ''RTP/AVP;multicast;ttl='' @ dec DEFAULT_TTL @ '';destination='' @ mcast @ '';port=''
          else ''RTP/AVP;unicast;client_port='' @ dec (RTP_port (cli_ports t)) @ ''-'' @ dec (RTCP_port (cli_ports t)) @
               '';source='' @ get_address cfg @ '';server_port='') @
         dec (RTP_port (ser_ports t)) @ ''-'' @ dec (RTCP_port (ser_ports t))
     | RTP_rtp_avp_tcp \<Rightarrow>
         ''RTP/AVP/TCP;interleaved='' @ udec (RTP_ch (interleaved t)) @ ''-'' @ udec (RTCP_ch (interleaved t))
     | RTP_rtp_avp_sctp \<Rightarrow>
         ''RTP/AVP/SCTP;server_streams='' @ udec (RTP_ch (streams t)) @ ''-'' @ udec (RTCP_ch (streams t))
     | RTP_no_transport \<Rightarrow> [])"

definition send_setup_reply ::
    "config \<Rightarrow> tm \<Rightarrow> RTSP_session \<Rightarrow> 'st SD_descr \<Rightarrow> RTP_session \<Rightarrow> RTSP_buffer \<Rightarrow> RTSP_buffer \<times> int" where
  "send_setup_reply cfg now s d p r =
    (let t = add_time_stamp now (reply_head cfg 200 (sint (rtsp_cseq r))) False @
             ''Session: '' @ dec (session_id s) @ EL @ ''Transport: '' @
             transport_text cfg (multicast d) (transport p) @ '';ssrc='' @ udec (ssrc p) @ EL @ EL
     in (fst (bwrite t r), ERR_NOERROR))"

text \<open>The reply to DESCRIBE is put together in an array of \<open>mb_len + 1512\<close> bytes, of which the last is for the terminator.\<close>

definition DESCRIBE_LEN :: nat where "DESCRIBE_LEN = 2048 + 1512"

definition describe_text :: "config \<Rightarrow> tm \<Rightarrow> string \<Rightarrow> description_format \<Rightarrow> string \<Rightarrow> int \<Rightarrow> string option" where
  "describe_text cfg now object fmt descr cseq =
     (let t = add_time_stamp now (reply_head cfg 200 cseq) False @
            (case fmt of df_SDP_format \<Rightarrow> ''Content-Type: application/sdp'' @ EL) @
            ''Content-Base: rtsp://'' @ prefs_hostname cfg @ ''/'' @ object @ ''/'' @ EL @
            ''Content-Length: '' @ dec (int (length descr)) @ EL @ EL @ descr
      in if DESCRIBE_LEN < length t + 1 then None else Some t)"

definition send_describe_reply ::
    "config \<Rightarrow> tm \<Rightarrow> string \<Rightarrow> description_format \<Rightarrow> string \<Rightarrow> RTSP_buffer \<Rightarrow> (RTSP_buffer \<times> int) option" where
  "send_describe_reply cfg now object fmt descr r =
    (case describe_text cfg now object fmt descr (sint (rtsp_cseq r)) of
       None \<Rightarrow> None
     | Some t \<Rightarrow> Some (fst (bwrite t r), ERR_NOERROR))"

text \<open>\<open>found\<close> is the result of \<open>enum_media\<close> for the object: the presentation, or \<open>None\<close> for an error.\<close>

definition send_redirect_3xx :: "config \<Rightarrow> 'st SD_descr option \<Rightarrow> RTSP_buffer \<Rightarrow> RTSP_buffer \<times> int" where
  "send_redirect_3xx cfg found r =
    (case found of
       None \<Rightarrow> (fst (send_reply 500 None r), ERR_NOERROR)
     | Some d \<Rightarrow>
         if \<not> has_flag (sd_flags d) SD_FL_TWIN then (fst (send_reply 453 None r), ERR_NOERROR)
         else
           let t = reply_head cfg 302 (sint (rtsp_cseq r)) @ ''Location: '' @ twin d @ EL @ EL
           in (fst (bwrite t r), ERR_NOERROR))"

definition max_connection :: "config \<Rightarrow> int \<Rightarrow> int" where
  "max_connection cfg num_conn = (if num_conn \<le> prefs_max_session cfg then ERR_NOERROR else ERR_GENERIC)"

section \<open>Replies are well-formed\<close>

text \<open>A reply frames as its own reader would frame it: lines of text, each ended by one line terminator, and an
  empty line at the end.\<close>

definition text_line :: "string \<Rightarrow> bool" where
  "text_line l \<longleftrightarrow> l \<noteq> [] \<and> set l \<inter> {CR, LF, NUL} = {}"

lemma get_stat_line: "get_stat err = Some s \<Longrightarrow> text_line s"
proof -
  have all: "list_all (\<lambda>(e, s). s \<noteq> [] \<and> list_all (\<lambda>c. c \<noteq> CR \<and> c \<noteq> LF \<and> c \<noteq> NUL) s) status_table" by code_simp
  assume "get_stat err = Some s"
  then have "(err, s) \<in> set status_table" unfolding get_stat_def by (rule map_of_SomeD)
  with all show ?thesis by (auto simp: list_all_iff text_line_def)
qed

lemma dec_line: "text_line (dec i)"
proof -
  have "set (dec_nat n) \<inter> {CR, LF, NUL} = {}" for n using dec_nat_digits [of n] by (auto simp: is_digit_def char_defs)
  then show ?thesis using dec_nat_nonempty by (auto simp: text_line_def dec_def char_defs)
qed

lemma stat_text_line: "text_line (stat_text err)"
proof (cases "get_stat err")
  case None
  then show ?thesis by (simp add: stat_text_def text_line_def char_defs)
next
  case (Some s)
  then show ?thesis using get_stat_line by (simp add: stat_text_def)
qed

lemma text_line_append: "text_line (a @ b) \<longleftrightarrow> (a \<noteq> [] \<or> b \<noteq> []) \<and> set a \<inter> {CR, LF, NUL} = {} \<and> set b \<inter> {CR, LF, NUL} = {}"
  by (auto simp: text_line_def)

lemma reply_lines:
  "\<exists>a b. reply_text err r = a @ EL @ b @ EL @ EL \<and> text_line a \<and> text_line b \<and>
     a = RTSP_VER @ '' '' @ dec err @ '' '' @ stat_text err \<and> b = ''CSeq: '' @ dec (sint (rtsp_cseq r))"
  using dec_line [of err] dec_line [of "sint (rtsp_cseq r)"] stat_text_line [of err]
  by (auto simp: reply_text_def status_line_def text_line_append RTSP_VER_def text_line_def char_defs)

section \<open>The reply to DESCRIBE is framed by its own length\<close>

definition stamp_lines :: "tm \<Rightarrow> string list" where
  "stamp_lines now =
    (let s = add_time_stamp now [] False in if s = [] then [] else [take (length s - 2) s])"

lemma stamp_append: "add_time_stamp now b False = b @ add_time_stamp now [] False"
  by (simp add: add_time_stamp_def Let_def)

lemma two_digits_clean: "set (two_digits i) \<inter> {CR, LF, NUL} = {}"
  using dec_line [of i] by (auto simp: two_digits_def text_line_def char_defs)

lemma stamp_text: "lines_text (stamp_lines now) = add_time_stamp now [] False"
  and stamp_good: "\<forall>l \<in> set (stamp_lines now). good_line l \<and> \<not> is_clen l"
proof -
  let ?days = "[''Sun'', ''Mon'', ''Tue'', ''Wed'', ''Thu'', ''Fri'', ''Sat'']"
  let ?months = "[''Jan'', ''Feb'', ''Mar'', ''Apr'', ''May'', ''Jun'', ''Jul'', ''Aug'', ''Sep'', ''Oct'', ''Nov'', ''Dec'']"
  define d m where "d = ?days ! nat (tm_wday now mod 7)" and "m = ?months ! nat (tm_mon now mod 12)"
  define b where "b = ''Date: '' @ d @ '', '' @ two_digits (tm_mday now) @ '' '' @
             m @ '' '' @ dec (tm_year now + 1900) @ '' '' @
             two_digits (tm_hour now) @ '':'' @ two_digits (tm_min now) @ '':'' @ two_digits (tm_sec now) @ '' GMT''"
  have eq: "add_time_stamp now [] False = (if length (b @ EL) < 38 then b @ EL else [])"
    by (simp add: add_time_stamp_def Let_def b_def d_def m_def)
  have w: "nat (tm_wday now mod 7) < 7" "nat (tm_mon now mod 12) < 12" by (simp_all add: nat_less_iff)
  have mem: "xs ! i \<in> set xs" if "i < n" "length xs = n" for xs :: "string list" and i n using that by simp
  have days: "\<forall>x \<in> set ?days. set x \<inter> {CR, LF, NUL} = {}" and months: "\<forall>x \<in> set ?months. set x \<inter> {CR, LF, NUL} = {}"
    by (simp_all add: char_defs)
  have "d \<in> set ?days" unfolding d_def by (rule mem [OF w(1)]) simp
  then have dm1: "set d \<inter> {CR, LF, NUL} = {}" by (rule bspec [OF days])
  have "m \<in> set ?months" unfolding m_def by (rule mem [OF w(2)]) simp
  then have dm2: "set m \<inter> {CR, LF, NUL} = {}" by (rule bspec [OF months])
  have "good_line b"
    using dm1 dm2 dec_line [of "tm_year now + 1900"] two_digits_clean [of "tm_mday now"] two_digits_clean [of "tm_hour now"]
      two_digits_clean [of "tm_min now"] two_digits_clean [of "tm_sec now"]
    unfolding b_def good_line_def text_line_def by (simp add: char_defs)
  moreover have "\<not> is_clen b"
    by (simp add: b_def is_clen_def strncaseeq_def HDR_CONTENTLENGTH_def to_lower_def)
  moreover have "b \<noteq> []" by (simp add: b_def)
  ultimately show "lines_text (stamp_lines now) = add_time_stamp now [] False"
    and "\<forall>l \<in> set (stamp_lines now). good_line l \<and> \<not> is_clen l"
    by (auto simp: stamp_lines_def eq EL_def)
qed

definition clean :: "string \<Rightarrow> bool" where
  "clean s \<longleftrightarrow> set s \<inter> {CR, LF, NUL} = {}"

definition clean_config :: "config \<Rightarrow> bool" where
  "clean_config cfg \<longleftrightarrow> clean (PACKAGE cfg) \<and> clean (VERSION cfg) \<and> clean (prefs_hostname cfg)"

lemma describe_lines:
  assumes "describe_text cfg now object df_SDP_format descr cseq = Some t"
  shows "t = lines_text ((RTSP_VER @ '' '' @ dec 200 @ '' '' @ stat_text 200) #
     [''CSeq: '' @ dec cseq, ''Server: '' @ PACKAGE cfg @ ''/'' @ VERSION cfg] @ stamp_lines now @
     [''Content-Type: application/sdp'', ''Content-Base: rtsp://'' @ prefs_hostname cfg @ ''/'' @ object @ ''/''] @
     [HDR_CONTENTLENGTH @ '': '' @ dec (int (length descr))]) @ EL @ descr" and "length t < DESCRIBE_LEN"
proof -
  let ?t = "add_time_stamp now (reply_head cfg 200 cseq) False @ ''Content-Type: application/sdp'' @ EL @
            ''Content-Base: rtsp://'' @ prefs_hostname cfg @ ''/'' @ object @ ''/'' @ EL @
            ''Content-Length: '' @ dec (int (length descr)) @ EL @ EL @ descr"
  have t: "t = ?t" "length t < DESCRIBE_LEN"
    using assms by (auto simp: describe_text_def Let_def split: if_splits)
  show "length t < DESCRIBE_LEN" by (rule t(2))
  show "t = lines_text ((RTSP_VER @ '' '' @ dec 200 @ '' '' @ stat_text 200) #
     [''CSeq: '' @ dec cseq, ''Server: '' @ PACKAGE cfg @ ''/'' @ VERSION cfg] @ stamp_lines now @
     [''Content-Type: application/sdp'', ''Content-Base: rtsp://'' @ prefs_hostname cfg @ ''/'' @ object @ ''/''] @
     [HDR_CONTENTLENGTH @ '': '' @ dec (int (length descr))]) @ EL @ descr"
    unfolding t(1) stamp_append [of now "reply_head cfg 200 cseq"] stamp_text [symmetric]
    by (simp add: reply_head_def status_line_def HDR_CONTENTLENGTH_def)
qed

lemma not_clen [simp]:
  "\<not> is_clen (''CSeq: '' @ x)" "\<not> is_clen (''Server: '' @ x)" "\<not> is_clen ''Content-Type: application/sdp''"
  "\<not> is_clen (''Content-Base: rtsp://'' @ x)"
  by (simp_all add: is_clen_def strncaseeq_def HDR_CONTENTLENGTH_def to_lower_def)

text \<open>C16: the reply to \<^verbatim>\<open>DESCRIBE\<close> states its length correctly: when the text fits into the array it is put together in, nothing else
  waits for the connection, and the description does not start with an end of line, a client that receives the reply, and frames it by
  the rules of the server's own framing, gets the description as the body.\<close>

theorem describe_reply_framed:
  assumes "clean_config cfg" and "clean object" and "descr \<noteq> []" and "hd descr \<notin> {CR, LF}"
    and "out_valid r" and "out_size r = 0"
    and "describe_text cfg now object df_SDP_format descr (sint (rtsp_cseq r)) = Some t"
  shows "\<exists>r' h. send_describe_reply cfg now object df_SDP_format descr r = Some (r', ERR_NOERROR) \<and> out_held r' = h @ descr \<and>
    (\<forall>c. in_buffer c = filled (out_held r') \<and> in_size c = length (out_held r') \<longrightarrow>
      RTSP_full_msg_rcvd c = (RTSP_method_rcvd, Some (int (length h), int (length descr))))"
proof -
  let ?T = t
  define r' where "r' = fst (bwrite t r)"
  have sent: "send_describe_reply cfg now object df_SDP_format descr r = Some (r', ERR_NOERROR)"
    using assms(7) by (simp add: send_describe_reply_def r'_def)
  let ?rl = "RTSP_VER @ '' '' @ dec 200 @ '' '' @ stat_text 200"
  let ?a = "[''CSeq: '' @ dec (sint (rtsp_cseq r)), ''Server: '' @ PACKAGE cfg @ ''/'' @ VERSION cfg] @ stamp_lines now @
     [''Content-Type: application/sdp'', ''Content-Base: rtsp://'' @ prefs_hostname cfg @ ''/'' @ object @ ''/'']"
  let ?hs = "?a @ [HDR_CONTENTLENGTH @ '': '' @ dec (int (length descr))]"
  have T: "?T = lines_text (?rl # ?hs) @ EL @ descr" by (simp only: describe_lines(1) [OF assms(7)] append.assoc append_Cons append_Nil)
  have len: "length ?T < DESCRIBE_LEN" by (rule describe_lines(2) [OF assms(7)])
  then have short: "length ?T \<le> RTSP_BUFFERSIZE" by (simp add: DESCRIBE_LEN_def RTSP_BUFFERSIZE_def)
  have small: "write_fits ?T r" using short assms(6) by (simp add: write_fits_def RTSP_BUFFERSIZE_def)
  have held: "out_held r' = ?T"
  proof (cases rule: bwrite_cases [OF assms(5) small, case_names full room])
    case full
    then show ?thesis
      using assms(5,6) short by (simp add: bwrite_def out_valid_def RTSP_BUFFERSIZE_def MAX_DESCR_LENGTH_def Let_def err_defs split: if_splits)
  next
    case (room b)
    have "out_sent r = 0" using assms(5,6) by (simp add: out_valid_def)
    then show ?thesis using room assms(6) by (simp add: r'_def out_held_alt)
  qed
  have rl: "good_line ?rl" "hd ?rl \<noteq> CHR ''$''"
    using dec_line [of 200] stat_text_line [of 200] by (auto simp: good_line_def RTSP_VER_def text_line_def char_defs)
  have a: "\<forall>h \<in> set ?a. good_line h \<and> \<not> is_clen h"
  proof -
    have "good_line (''CSeq: '' @ dec (sint (rtsp_cseq r)))"
      using dec_line [of "sint (rtsp_cseq r)"] by (auto simp: good_line_def text_line_def char_defs)
    moreover have "good_line (''Server: '' @ PACKAGE cfg @ ''/'' @ VERSION cfg)"
      and "good_line (''Content-Base: rtsp://'' @ prefs_hostname cfg @ ''/'' @ object @ ''/'')"
      using assms(1,2) by (auto simp: clean_config_def clean_def good_line_def char_defs)
    moreover have "good_line ''Content-Type: application/sdp''" by (simp add: good_line_def char_defs)
    ultimately show ?thesis
      using stamp_good [of now] not_clen by (simp del: append_Cons append_Nil append.assoc add: ball_Un)
  qed
  have clen: "good_line (HDR_CONTENTLENGTH @ '': '' @ dec (int (length descr)))"
    using good_dec [of "length descr"] by (auto simp: good_line_def HDR_CONTENTLENGTH_def char_defs)
  have hs: "\<forall>h \<in> set ?hs. good_line h" using a clen by auto
  have ann: "announces ?hs (length descr)"
    unfolding announces_def using a by (intro disjI2 exI [of _ ?a] exI [of _ "[]"]) auto
  show ?thesis
  proof (intro exI [of _ r'] exI [of _ "lines_text (?rl # ?hs) @ EL"] conjI allI impI)
    show "send_describe_reply cfg now object df_SDP_format descr r = Some (r', ERR_NOERROR)" by (rule sent)
    show "out_held r' = (lines_text (?rl # ?hs) @ EL) @ descr" using held T by (simp only: append.assoc)
    fix c :: RTSP_buffer
    assume c: "in_buffer c = filled (out_held r') \<and> in_size c = length (out_held r')"
    let ?z = "replicate (RTSP_BUFFERSIZE - length ?T) NUL"
    have b: "in_buffer c = lines_text (?rl # ?hs) @ EL @ descr @ ?z"
      using c held T by (simp only: filled_def append.assoc)
    have sz: "length (in_buffer c) = RTSP_BUFFERSIZE" using c held short by (simp add: filled_def)
    have len: "in_size c = length (lines_text (?rl # ?hs) @ EL @ descr)" using c held T by (simp only:)
    show "RTSP_full_msg_rcvd c = (RTSP_method_rcvd, Some (int (length (lines_text (?rl # ?hs) @ EL)), int (length descr)))"
    proof (rule framed_message [OF b rl hs ann])
      show "length (lines_text (?rl # ?hs) @ EL @ descr) \<le> in_size c" by (simp only: len)
      show "in_size c \<le> length (in_buffer c)" using c held short sz by simp
      show "length (in_buffer c) = RTSP_BUFFERSIZE" by (rule sz)
      show "descr @ ?z = [] \<or> hd (descr @ ?z) \<notin> {CR, LF}" using assms(3,4) by simp
      show "in_size c = length (lines_text (?rl # ?hs) @ EL @ descr) \<or> ?z = [] \<or> hd ?z \<noteq> NUL"
        unfolding len by (rule disjI1) (rule refl)
    qed
  qed
qed

definition sample_config :: config where
  "sample_config = \<lparr>PACKAGE = ''fenice'', VERSION = ''1.12'', prefs_hostname = ''host'', prefs_serv_root = ''/srv'',
     prefs_max_session = 100, default_port = 554, get_address = ''10.0.0.1''\<rparr>"

theorem describe_reply_framed_witness:
  "\<exists>r' h. send_describe_reply sample_config zero_tm ''film.sd'' df_SDP_format ''v=0'' zero_RTSP_buffer = Some (r', ERR_NOERROR) \<and>
     out_held r' = h @ ''v=0''"
proof -
  have v: "out_valid zero_RTSP_buffer" "out_size zero_RTSP_buffer = 0" by (simp_all add: out_valid_def zero_RTSP_buffer_def)
  have c: "clean_config sample_config" "clean ''film.sd''" "''v=0'' \<noteq> []" "hd ''v=0'' \<notin> {CR, LF}"
    by (simp_all add: clean_config_def clean_def sample_config_def char_defs)
  have "describe_text sample_config zero_tm ''film.sd'' df_SDP_format ''v=0'' 0 \<noteq> None" by code_simp
  then obtain t where t: "describe_text sample_config zero_tm ''film.sd'' df_SDP_format ''v=0'' (sint (rtsp_cseq zero_RTSP_buffer)) = Some t"
    by (auto simp: zero_RTSP_buffer_def)
  show ?thesis using describe_reply_framed [OF c v t] by blast
qed

end
