(* ===== verification/Media_Catalog.thy ===== *)
theory Media_Catalog
  imports Rtsp_Reply H264
begin

text \<open>
  The catalogue of presentations (\<^verbatim>\<open>mediainfo/\<close>): choosing a medium of a presentation
  (\<^verbatim>\<open>search_media.c\<close>, \<^verbatim>\<open>default_selection_criterion.c\<close>,
  \<^verbatim>\<open>get_media_entry.c\<close>), the static payload types (\<^verbatim>\<open>include/fenice/rtpptdefs.h\<close>),
  the loaders of the formats, the validation of a stream and the parser of the description files
  (\<^verbatim>\<open>validate_stream.c\<close>, \<^verbatim>\<open>parse_SD_file.c\<close>, \<^verbatim>\<open>enum_media.c\<close>), and the
  copy a session makes of its medium (\<^verbatim>\<open>mediacpy.c\<close>).
\<close>

section \<open>Choosing a medium\<close>

definition media_is_empty :: "'st media_entry option \<Rightarrow> bool" where
  "media_is_empty me = (case me of None \<Rightarrow> True | Some m \<Rightarrow> \<not> has_flag (me_flags m) ME_FILENAME)"

text \<open>Pointers into the list of media are positions.\<close>

definition default_selection_criterion :: "'st media_entry list \<Rightarrow> nat option" where
  "default_selection_criterion l =
    (case find (\<lambda>i. priority (description (l ! i)) = 1) [0..<length l] of
       Some i \<Rightarrow> Some i
     | None \<Rightarrow> (if l = [] then None else Some 0))"

text \<open>One round of the loop of \<open>search_media\<close>: does the entry satisfy every field the request fixes?\<close>

definition media_matches :: "'st media_entry \<Rightarrow> 'st media_entry \<Rightarrow> bool" where
  "media_matches req p =
    (let rd = description req; pd = description p; rf = d_flags rd;
         name = (case strrchr (me_filename req) (CHR ''!'') of None \<Rightarrow> me_filename req | Some t \<Rightarrow> drop 1 t)
     in (has_flag (me_flags req) ME_FILENAME \<longrightarrow> me_filename p = name) \<and>
        (has_flag (me_flags req) ME_DESCR_FORMAT \<longrightarrow> descr_format p = descr_format req) \<and>
        (has_flag (me_flags req) ME_AGGREGATE \<longrightarrow> aggregate p = aggregate req) \<and>
        (has_flag rf MED_MSOURCE \<longrightarrow> msource pd = msource rd) \<and>
        (has_flag rf MED_MTYPE \<longrightarrow> mtype pd = mtype rd) \<and>
        (has_flag rf MED_PAYLOAD_TYPE \<longrightarrow> payload_type pd = payload_type rd) \<and>
        (has_flag rf MED_CLOCK_RATE \<longrightarrow> clock_rate pd = clock_rate rd) \<and>
        (has_flag rf MED_ENCODING_NAME \<longrightarrow> encoding_name pd = encoding_name rd) \<and>
        (has_flag rf MED_AUDIO_CHANNELS \<longrightarrow> audio_channels pd = audio_channels rd) \<and>
        (has_flag rf MED_BIT_PER_SAMPLE \<longrightarrow> bit_per_sample pd = bit_per_sample rd) \<and>
        (has_flag rf MED_SAMPLE_RATE \<longrightarrow> sample_rate pd = sample_rate rd) \<and>
        (has_flag rf MED_BITRATE \<longrightarrow> bitrate pd = bitrate rd) \<and>
        (has_flag rf MED_PRIORITY \<longrightarrow> priority pd = priority rd) \<and>
        (has_flag rf MED_FRAME_RATE \<longrightarrow> frame_rate pd = frame_rate rd) \<and>
        (has_flag rf MED_BYTE_PER_PCKT \<longrightarrow> byte_per_pckt pd = byte_per_pckt rd))"

definition search_media :: "'st media_entry \<Rightarrow> 'st media_entry list \<Rightarrow> nat option" where
  "search_media req l = find (\<lambda>i. media_matches req (l ! i)) [0..<length l]"

definition get_media_entry :: "'st media_entry option \<Rightarrow> 'st media_entry list \<Rightarrow> nat option \<times> int" where
  "get_media_entry req l =
    (let r = (if media_is_empty req then default_selection_criterion l
              else (case req of Some q \<Rightarrow> search_media q l | None \<Rightarrow> None))
     in (r, if r = None then ERR_NOT_FOUND else ERR_NOERROR))"

section \<open>Static payload types and multicast addresses\<close>

record RTP_static_payload =
  PldType :: int
  EncName :: string
  ClockRate :: int
  Channels :: int
  BitPerSample :: int
  PldCoding :: media_coding
  PktLen :: cdouble

definition pt :: "int \<Rightarrow> string \<Rightarrow> int \<Rightarrow> int \<Rightarrow> int \<Rightarrow> media_coding \<Rightarrow> cdouble \<Rightarrow> RTP_static_payload" where
  "pt n e cr ch bps c len = \<lparr>PldType = n, EncName = e, ClockRate = cr, Channels = ch, BitPerSample = bps,
     PldCoding = c, PktLen = len\<rparr>"

definition no_payload :: RTP_static_payload where
  "no_payload = pt (- 1) [] (- 1) (- 1) (- 1) undefined_coding (- 1)"

definition RTP_payload :: "RTP_static_payload list" where
  "RTP_payload =
    [pt 0 ''PCMU'' 8000 1 8 sample 20, no_payload, pt 2 ''G726_32'' 8000 1 4 sample 20,
     pt 3 ''GSM'' 8000 1 (- 1) frame 20, pt 4 ''G723'' 8000 1 (- 1) frame 30, pt 5 ''DVI4'' 8000 1 4 sample 20,
     pt 6 ''DVI4'' 16000 1 4 sample 20, pt 7 ''LPC'' 8000 1 (- 1) frame 20, pt 8 ''PCMA'' 8000 1 8 sample 20,
     pt 9 ''G722'' 8000 1 8 sample 20, pt 10 ''L16'' 44100 2 16 sample 20, pt 11 ''L16'' 44100 1 16 sample 20,
     pt 12 ''QCELP'' 8000 1 (- 1) frame 20, no_payload, pt 14 ''MPA'' 90000 1 (- 1) frame (- 1),
     pt 15 ''G728'' 8000 1 (- 1) frame 20, pt 16 ''DVI4'' 11025 1 4 sample 20, pt 17 ''DVI4'' 22050 1 4 sample 20,
     pt 18 ''G729'' 8000 1 (- 1) frame 20, no_payload, no_payload, no_payload, no_payload, no_payload, no_payload,
     pt 25 ''CelB'' 90000 0 (- 1) frame (- 1), pt 26 ''JPEG'' 90000 0 (- 1) frame (- 1), no_payload,
     pt 28 ''nv'' 90000 0 (- 1) frame (- 1), no_payload, no_payload, pt 31 ''H261'' 90000 0 (- 1) frame (- 1),
     pt 32 ''MPV'' 90000 0 (- 1) frame (- 1), pt 33 ''MP2T'' 90000 0 (- 1) frame (- 1),
     pt 34 ''H263'' 90000 0 (- 1) frame (- 1), no_payload] @
    replicate 92 no_payload"

text \<open>\<open>aton\<close> is \<open>inet_aton\<close>: the address in host order.\<close>

definition is_valid_multicast_address :: "(string \<Rightarrow> uint32 option) \<Rightarrow> string \<Rightarrow> int" where
  "is_valid_multicast_address aton ip =
    (case aton ip of
       None \<Rightarrow> ERR_PARSE
     | Some a \<Rightarrow> (if and a 0xF0000000 = 0xE0000000 then ERR_NOERROR else ERR_GENERIC))"

definition DEFAULT_MULTICAST_ADDRESS :: string where "DEFAULT_MULTICAST_ADDRESS = ''224.124.0.1''"

section \<open>The loaders\<close>

text \<open>What the file system holds: the answers of \<open>open\<close>, the bytes of a file, the change time \<open>stat\<close> reports
  (\<open>None\<close> when it fails) and the text of a file that \<open>fopen\<close> can open.\<close>

record file_system =
  fs_os :: os_files
  fs_bytes :: "string \<Rightarrow> uint8 list"
  fs_ctime :: "string \<Rightarrow> int option"
  fs_text :: "string \<Rightarrow> string option"

definition BitrateMatrix :: "int list list" where
  "BitrateMatrix =
    [[0, 0, 0, 0, 0],
     [32000, 32000, 32000, 32000, 8000],
     [64000, 48000, 40000, 48000, 16000],
     [96000, 56000, 48000, 56000, 24000],
     [128000, 64000, 56000, 64000, 32000],
     [160000, 80000, 64000, 80000, 40000],
     [192000, 96000, 80000, 96000, 48000],
     [224000, 112000, 96000, 112000, 56000],
     [256000, 128000, 112000, 128000, 64000],
     [288000, 160000, 128000, 144000, 80000],
     [320000, 192000, 160000, 160000, 96000],
     [352000, 224000, 192000, 176000, 112000],
     [384000, 256000, 224000, 192000, 128000],
     [416000, 320000, 256000, 224000, 144000],
     [448000, 384000, 320000, 256000, 160000],
     [0, 0, 0, 0, 0]]"

text \<open>MPEG version and layer give the column; \<open>None\<close> is the default branch.\<close>

definition mpa_column :: "uint8 \<Rightarrow> nat option" where
  "mpa_column b1 = map_of [(18, 4), (20, 4), (22, 3), (26, 2), (28, 1), (30, 0)] (and b1 0x1E)"

definition mpa_sample_rate :: "uint8 \<Rightarrow> uint8 \<Rightarrow> int option" where
  "mpa_sample_rate b1 b2 =
    map_of (if and b1 0x08 \<noteq> 0 then [(0, 44100), (4, 48000), (8, 32000)]
            else [(0, 22050), (4, 24000), (8, 16000)]) (and b2 0x0C)"

text \<open>The part of \<open>load_MPA\<close> that reads the four bytes of a frame header into the description.\<close>

definition mpa_header :: "uint8 list \<Rightarrow> media_descr \<Rightarrow> media_descr \<times> int" where
  "mpa_header b d =
    (if \<not> (b ! 0 = 0xFF \<and> and (b ! 1) 0xE0 = 0xE0) then (d, ERR_PARSE)
     else
       case mpa_column (b ! 1) of
         None \<Rightarrow> (d, ERR_PARSE)
       | Some col \<Rightarrow>
           let d1 = d\<lparr>bitrate := BitrateMatrix ! (unat (and (b ! 2) 0xF0) div 16) ! col,
                      d_flags := set_flag (d_flags d) MED_BITRATE\<rparr>
           in (case mpa_sample_rate (b ! 1) (b ! 2) of
                 None \<Rightarrow> (d1, ERR_PARSE)
               | Some sr \<Rightarrow>
                   let fl = (if and (b ! 1) 0x06 = 6 then 384 else 1152);
                       len = real_of_int fl / real_of_int sr * 1000
                   in (d1\<lparr>sample_rate := sr, frame_len := fl, pkt_len := len, delta_mtime := len,
                          d_flags := set_flag (set_flag (set_flag (d_flags d1) MED_SAMPLE_RATE) MED_FRAME_LEN) MED_PKT_LEN\<rparr>,
                       ERR_NOERROR)))"

definition id3_dim :: "uint8 list \<Rightarrow> int" where
  "id3_dim b = uint (and (b ! 6) 0x7F) * 2 ^ 21 + uint (and (b ! 7) 0x7F) * 2 ^ 14 +
     uint (and (b ! 8) 0x7F) * 2 ^ 7 + uint (and (b ! 9) 0x7F)"

definition load_MPA :: "string \<Rightarrow> file_system \<Rightarrow> 'st media_entry \<Rightarrow> 'st media_entry \<times> int" where
  "load_MPA rootdir fs me =
    (let (me1, ret) = mediaopen rootdir (fs_os fs) me
     in if ret < 0 then (me1, ret)
        else
          let bytes = fs_bytes fs (media_path rootdir (me_filename me));
              got = take 10 bytes;
              me2 = me1\<lparr>buff_data := memcpy (buff_data me1) got (length got), buff_size := of_nat (length got)\<rparr>
          in if length got \<noteq> 10 then (me2, ERR_PARSE)
             else
               let tag = (take 3 (buff_data me2) = [0x49, 0x44, 0x33]);
                   dim = id3_dim (buff_data me2);
                   got4 = take 4 (drop (10 + nat dim) bytes);
                   me3 = (if tag
                          then me2\<lparr>description := (description me2)\<lparr>d_flags := set_flag (d_flags (description me2)) MED_ID3,
                                                                        tag_dim := dim\<rparr>,
                                   buff_data := memcpy (buff_data me2) got4 (length got4),
                                   buff_size := of_nat (length got4)\<rparr>
                          else me2)
               in if tag \<and> length got4 \<noteq> 4 then (me3, ERR_PARSE)
                  else
                    let me4 = (fst (mediaclose 0 me3))\<lparr>buff_size := 4\<rparr>;
                        (d, res) = mpa_header (buff_data me4) (description me4)
                    in (me4\<lparr>description := d\<rparr>, res))"

text \<open>The packet length of a video stream follows from its frame rate.\<close>

definition video_pkt_len :: "media_descr \<Rightarrow> media_descr \<times> int" where
  "video_pkt_len d =
    (if \<not> has_flag (d_flags d) MED_PKT_LEN \<and> \<not> has_flag (d_flags d) MED_FRAME_RATE then (d, ERR_PARSE)
     else
       let d1 = (if \<not> has_flag (d_flags d) MED_PKT_LEN
                 then d\<lparr>pkt_len := 1 / real_of_int (frame_rate d) * 1000, d_flags := set_flag (d_flags d) MED_PKT_LEN\<rparr>
                 else d)
       in (d1\<lparr>delta_mtime := pkt_len d1\<rparr>, ERR_NOERROR))"

definition load_MPV :: "string \<Rightarrow> file_system \<Rightarrow> 'st media_entry \<Rightarrow> 'st media_entry \<times> int" where
  "load_MPV rootdir fs me =
    (let (me1, ret) = mediaopen rootdir (fs_os fs) me
     in if ret < 0 then (me1, ret)
        else let me2 = fst (mediaclose 0 me1); (d, res) = video_pkt_len (description me2)
             in (me2\<lparr>description := d\<rparr>, res))"

text \<open>The loaders whose formats the handler table does not list any more.\<close>

definition load_H26L :: "'st media_entry \<Rightarrow> 'st media_entry \<times> int" where
  "load_H26L me = (let (d, res) = video_pkt_len (description me) in (me\<lparr>description := d\<rparr>, res))"

definition load_MP2T :: "'st media_entry \<Rightarrow> 'st media_entry \<times> int" where
  "load_MP2T me = (let (d, res) = video_pkt_len (description me) in (me\<lparr>description := d\<rparr>, res))"

definition load_MP4ES :: "'st media_entry \<Rightarrow> 'st media_entry \<times> int" where
  "load_MP4ES me = (let (d, res) = video_pkt_len (description me) in (me\<lparr>description := d\<rparr>, res))"

definition load_RTP_SHM :: "'st media_entry \<Rightarrow> 'st media_entry \<times> int" where
  "load_RTP_SHM me = (let (d, res) = video_pkt_len (description me) in (me\<lparr>description := d\<rparr>, res))"

definition default_pkt_len :: "media_descr \<Rightarrow> media_descr" where
  "default_pkt_len d = (if \<not> has_flag (d_flags d) MED_PKT_LEN
     then d\<lparr>pkt_len := 20, delta_mtime := 20, d_flags := set_flag (d_flags d) MED_PKT_LEN\<rparr> else d)"

definition load_L16 :: "'st media_entry \<Rightarrow> 'st media_entry \<times> int" where
  "load_L16 me =
    (let d = description me
     in if \<not> has_flag (d_flags d) MED_AUDIO_CHANNELS then (me, ERR_PARSE)
        else
          let d1 = default_pkt_len d;
              d2 = d1\<lparr>bit_per_sample := 16, d_flags := set_flag (d_flags d1) MED_BIT_PER_SAMPLE\<rparr>
          in (me\<lparr>description := d2\<lparr>bitrate := to_int32 (clock_rate d2 * bit_per_sample d2 * audio_channels d2),
                                    d_flags := set_flag (d_flags d2) MED_BITRATE\<rparr>\<rparr>, ERR_NOERROR))"

definition gsm_bitrates :: "int list" where
  "gsm_bitrates = [4750, 5150, 5900, 6700, 7400, 7950, 10200, 12200]"

definition load_GSM :: "string \<Rightarrow> file_system \<Rightarrow> 'st media_entry \<Rightarrow> 'st media_entry \<times> int" where
  "load_GSM rootdir fs me =
    (let me0 = me\<lparr>description := default_pkt_len (description me)\<rparr>;
         (me1, ret) = mediaopen rootdir (fs_os fs) me0
     in if ret < 0 then (me1, ret)
        else case fs_bytes fs (media_path rootdir (me_filename me)) of
               [] \<Rightarrow> (me1, ERR_PARSE)
             | b # _ \<Rightarrow>
                 let me2 = fst (mediaclose 0 me1)
                 in (me2\<lparr>description := (description me2)\<lparr>bitrate := gsm_bitrates ! unat (and b 7),
                        d_flags := set_flag (d_flags (description me2)) MED_BITRATE\<rparr>\<rparr>, ERR_NOERROR))"

section \<open>Validating a stream\<close>

definition register_media :: "'st media_entry \<Rightarrow> 'st media_entry \<times> int" where
  "register_media me = (me\<lparr>media_handler := Some (ftype (description me))\<rparr>, ERR_NOERROR)"

text \<open>Calling the loader of a handler (the table \<open>media_func\<close>). The handler of \<open>FILE_NONE\<close> has no loader: the
  call through a null pointer kills the server (\<open>None\<close>).\<close>

definition load_media :: "string \<Rightarrow> file_system \<Rightarrow> 'st media_entry \<Rightarrow> ('st media_entry \<times> int) option" where
  "load_media rootdir fs me =
    (case media_handler me of
       Some FILE_MP3 \<Rightarrow> Some (load_MPA rootdir fs me)
     | Some FILE_MPEG \<Rightarrow> Some (load_MPV rootdir fs me)
     | Some FILE_H264 \<Rightarrow> Some (load_h264 rootdir (fs_os fs) 0 me)
     | _ \<Rightarrow> None)"

text \<open>The fixed answers the catalogue depends on.\<close>

record catalog_env =
  ce_root :: string
  ce_port :: uint16
  ce_aton :: "string \<Rightarrow> uint32 option"
  ce_fs :: file_system

text \<open>A payload type below zero indexes outside the table: no result.\<close>

definition static_payload :: "media_descr \<Rightarrow> media_descr option" where
  "static_payload d =
    (if payload_type d < 0 then None
     else
       let i = RTP_payload ! nat (payload_type d)
       in Some (d\<lparr>encoding_name := (if \<not> has_flag (d_flags d) MED_ENCODING_NAME \<or> encoding_name d \<noteq> ''RTP_SHM''
                                   then EncName i else encoding_name d),
                  clock_rate := ClockRate i, audio_channels := Channels i, bit_per_sample := BitPerSample i,
                  coding_type := PldCoding i, pkt_len := PktLen i,
                  d_flags := set_flag (set_flag (set_flag (set_flag (set_flag (d_flags d) MED_ENCODING_NAME)
                    MED_CLOCK_RATE) MED_AUDIO_CHANNELS) MED_BIT_PER_SAMPLE) MED_CODING_TYPE\<rparr>))"

definition validate_stream ::
    "catalog_env \<Rightarrow> 'st media_entry \<Rightarrow> 'st SD_descr \<Rightarrow> ('st media_entry \<times> 'st SD_descr \<times> int) option" where
  "validate_stream ce p sd =
    (let fl = d_flags (description p)
     in if \<not> has_flag (me_flags p) ME_FILENAME \<or> \<not> has_flag fl MED_PAYLOAD_TYPE \<or> \<not> has_flag fl MED_PRIORITY
        then Some (p, sd, ERR_PARSE)
        else
          let sd1 = (if url_code (parse_url (ce_port ce) (twin sd) 255 255) \<noteq> 0
                     then sd\<lparr>sd_flags := clear_flag (sd_flags sd) SD_FL_TWIN\<rparr> else sd);
              sd2 = (if is_valid_multicast_address (ce_aton ce) (multicast sd1) = 0
                     then sd1\<lparr>multicast := DEFAULT_MULTICAST_ADDRESS\<rparr> else sd1)
          in if 96 \<le> payload_type (description p) \<and>
                (\<not> has_flag fl MED_ENCODING_NAME \<or> \<not> has_flag fl MED_CLOCK_RATE)
             then Some (p, sd2, ERR_PARSE)
             else
               do {
                 d \<leftarrow> (if 96 \<le> payload_type (description p) then Some (description p) else static_payload (description p));
                 (p2, res) \<leftarrow> load_media (ce_root ce) (ce_fs ce) (fst (register_media (p\<lparr>description := d\<rparr>)));
                 Some (p2, sd2, res)
               })"

section \<open>Description files\<close>

text \<open>The state of the parser's local variables: the file's unread pieces (what each later \<open>fgets(line, 80, f)\<close>
  will deliver), its end-of-file indicator, the keyword, the array \<open>line\<close> and the short parameter. Local arrays start
  with arbitrary contents.\<close>

record sd_scan =
  sd_eof :: bool
  keyword :: string
  sd_line :: "char list"
  sparam :: string

text \<open>The pieces \<open>fgets\<close> cuts a file into: up to 79 characters, ended by the first line feed.\<close>

fun fgets_chunk :: "nat \<Rightarrow> string \<Rightarrow> string \<times> string" where
  "fgets_chunk 0 s = ([], s)"
| "fgets_chunk (Suc n) [] = ([], [])"
| "fgets_chunk (Suc n) (c # s) =
     (if c = LF then ([c], s) else let (a, r) = fgets_chunk n s in (c # a, r))"

lemma fgets_chunk_shorter: "fgets_chunk n s = (a, r) \<Longrightarrow> s = a @ r"
  by (induction n s arbitrary: a r rule: fgets_chunk.induct) (auto split: if_splits prod.splits)

function chunks :: "string \<Rightarrow> string list" where
  "chunks s = (if s = [] then [] else let (a, r) = fgets_chunk 79 s in a # chunks r)"
  by pat_completeness auto

termination chunks
proof (relation "measure length", goal_cases)
  case 1
  show ?case by simp
next
  case (2 s x a r)
  then have "s = a @ r" by (metis fgets_chunk_shorter)
  moreover have "a \<noteq> []" using 2 by (cases s) (auto simp: eval_nat_numeral split: if_splits prod.splits)
  ultimately show ?case by simp
qed

declare chunks.simps [simp del]

text \<open>One call of \<open>fgets\<close>: a piece is stored with its terminator over the old contents of the array; the last piece
  of a file that does not end with a line feed sets the indicator, a call without a piece sets it and leaves the
  array.\<close>

definition store_line :: "string \<Rightarrow> char list \<Rightarrow> char list" where
  "store_line c l = c @ NUL # drop (length c + 1) l"

definition read_line :: "string \<Rightarrow> bool \<Rightarrow> sd_scan \<Rightarrow> sd_scan" where
  "read_line c further st =
     st\<lparr>sd_line := store_line c (sd_line st),
        sd_eof := (\<not> further \<and> last c \<noteq> LF \<and> length c < 79)\<rparr>"

text \<open>\<open>sscanf(line, "%s", keyword)\<close> leaves the old keyword when the line is blank. An unlimited \<open>%s\<close> takes
  at most what the array of 80 holds.\<close>

definition LINE :: nat where "LINE = 80"

definition scan_keyword :: "sd_scan \<Rightarrow> sd_scan" where
  "scan_keyword st =
    (case sscanf (c_str (sd_line st)) [Str LINE] of ([V_str k], _) \<Rightarrow> st\<lparr>keyword := k\<rparr> | _ \<Rightarrow> st)"

text \<open>The second item of a line, as text, number or fraction; without one the old value stays.\<close>

definition line_str :: "nat \<Rightarrow> sd_scan \<Rightarrow> string \<Rightarrow> string" where
  "line_str w st old =
    (case sscanf (c_str (sd_line st)) [Str LINE, Str w] of ([_, V_str v], _) \<Rightarrow> v | _ \<Rightarrow> old)"

text \<open>The same into an array of \<open>n\<close> bytes: a text that does not leave room for its terminator runs over the end of the
  array, into what lies behind it; that is \<open>None\<close>.\<close>

definition line_array :: "nat \<Rightarrow> nat \<Rightarrow> sd_scan \<Rightarrow> string \<Rightarrow> string option" where
  "line_array n w st old = (let v = line_str w st old in if length v < n then Some v else None)"

definition line_int :: "sd_scan \<Rightarrow> int \<Rightarrow> int" where
  "line_int st old =
    (case sscanf (c_str (sd_line st)) [Str LINE, Num] of ([_, V_num v], _) \<Rightarrow> to_int32 v | _ \<Rightarrow> old)"

definition line_real :: "sd_scan \<Rightarrow> cdouble \<Rightarrow> cdouble" where
  "line_real st old =
    (case sscanf (c_str (sd_line st)) [Str LINE, Dbl] of ([_, V_real v], _) \<Rightarrow> v | _ \<Rightarrow> old)"

text \<open>The free text behind a keyword is copied from a fixed column of the array up to the next line feed, wherever
  that is; what the array does not hold is not read here.\<close>

definition line_text :: "nat \<Rightarrow> sd_scan \<Rightarrow> string" where
  "line_text i st = c_str (takeWhile (\<lambda>c. c \<noteq> LF) (drop i (sd_line st)))"

definition is_key :: "sd_scan \<Rightarrow> string \<Rightarrow> bool" where
  "is_key st k = strcaseeq (keyword st) k"

text \<open>The header lines of the presentation. A line has at most 79 characters, so \<open>twin\<close> (255 bytes) always holds its text;
  \<open>multicast\<close> has 16 bytes and is filled without a limit.\<close>

definition head_line :: "sd_scan \<Rightarrow> 'st SD_descr \<Rightarrow> 'st SD_descr option" where
  "head_line st sd =
    (let sd1 = (if is_key st ''TWIN''
                then sd\<lparr>twin := line_str LINE st (twin sd), sd_flags := set_flag (sd_flags sd) SD_FL_TWIN\<rparr> else sd)
     in if is_key st ''MULTICAST''
        then map_option (\<lambda>v. sd1\<lparr>multicast := v, sd_flags := set_flag (sd_flags sd1) SD_FL_MULTICAST\<rparr>)
               (line_array 16 LINE st (multicast sd1))
        else Some sd1)"

definition use_head :: "sd_scan \<Rightarrow> 'st SD_descr \<Rightarrow> (sd_scan \<times> 'st SD_descr) option" where
  "use_head st sd = map_option (Pair st) (head_line st sd)"

fun skip_to_stream :: "string list \<Rightarrow> sd_scan \<Rightarrow> 'st SD_descr \<Rightarrow> (string list \<times> sd_scan \<times> 'st SD_descr) option" where
  "skip_to_stream [] st sd =
     (if is_key st ''STREAM'' \<or> sd_eof st then Some ([], st, sd)
      else case use_head (scan_keyword (st\<lparr>sd_eof := True\<rparr>)) sd of None \<Rightarrow> None | Some (st1, sd1) \<Rightarrow> Some ([], st1, sd1))"
| "skip_to_stream (c # cs) st sd =
     (if is_key st ''STREAM'' \<or> sd_eof st then Some (c # cs, st, sd)
      else case use_head (scan_keyword (read_line c (cs \<noteq> []) st)) sd of
             None \<Rightarrow> None | Some (st1, sd1) \<Rightarrow> skip_to_stream cs st1 sd1)"

text \<open>The lines of one stream. The keywords exclude each other.\<close>

definition flag_descr :: "uint32 \<Rightarrow> media_descr \<Rightarrow> media_descr" where
  "flag_descr f d = d\<lparr>d_flags := set_flag (d_flags d) f\<rparr>"

definition encoding_line :: "string \<Rightarrow> media_descr \<Rightarrow> media_descr" where
  "encoding_line e d =
    (let d1 = flag_descr MED_ENCODING_NAME (d\<lparr>encoding_name := e\<rparr>);
         has = (\<lambda>x. strstr e x \<noteq> None)
     in d1\<lparr>mtype := (if has ''H26L'' \<or> has ''MPV'' \<or> has ''MP2T'' \<or> has ''MP4V-ES'' \<or> has ''H264'' then video else mtype d1),
           ftype := (if e = ''MPA'' then FILE_MP3 else if e = ''MPV'' then FILE_MPEG
                     else if e = ''H264'' then FILE_H264 else FILE_NONE)\<rparr>)"

definition descr_line :: "sd_scan \<Rightarrow> media_descr \<Rightarrow> media_descr" where
  "descr_line st d =
    (if is_key st ''BITRATE'' then flag_descr MED_BITRATE (d\<lparr>bitrate := line_int st (bitrate d)\<rparr>)
     else if is_key st ''PRIORITY'' then flag_descr MED_PRIORITY (d\<lparr>priority := line_int st (priority d)\<rparr>)
     else if is_key st ''PAYLOAD_TYPE'' then flag_descr MED_PAYLOAD_TYPE (d\<lparr>payload_type := line_int st (payload_type d)\<rparr>)
     else if is_key st ''CLOCK_RATE'' then flag_descr MED_CLOCK_RATE (d\<lparr>clock_rate := line_int st (clock_rate d)\<rparr>)
     else if is_key st ''ENCODING_NAME'' then encoding_line (line_str 10 st (encoding_name d)) d
     else if is_key st ''AUDIO_CHANNELS''
       then flag_descr MED_AUDIO_CHANNELS (d\<lparr>audio_channels := signed_take_bit 15 (line_int st (audio_channels d))\<rparr>)
     else if is_key st ''SAMPLE_RATE'' then flag_descr MED_SAMPLE_RATE (d\<lparr>sample_rate := line_int st (sample_rate d)\<rparr>)
     else if is_key st ''BIT_PER_SAMPLE''
       then flag_descr MED_BIT_PER_SAMPLE (d\<lparr>bit_per_sample := line_int st (bit_per_sample d)\<rparr>)
     else if is_key st ''FRAME_LEN'' then flag_descr MED_FRAME_LEN (d\<lparr>frame_len := line_int st (frame_len d)\<rparr>)
     else if is_key st ''CODING_TYPE''
       then flag_descr MED_CODING_TYPE (d\<lparr>coding_type := (if strcaseeq (sparam st) ''SAMPLE'' then sample
              else if strcaseeq (sparam st) ''FRAME'' then frame else coding_type d)\<rparr>)
     else if is_key st ''PKT_LEN'' then flag_descr MED_PKT_LEN (d\<lparr>pkt_len := line_real st (pkt_len d)\<rparr>)
     else if is_key st ''FRAME_RATE'' then flag_descr MED_FRAME_RATE (d\<lparr>frame_rate := line_int st (frame_rate d)\<rparr>)
     else if is_key st ''FORCE_FRAME_RATE'' then flag_descr MED_FORCE_FRAME_RATE d
     else if is_key st ''BYTE_PER_PCKT'' then flag_descr MED_BYTE_PER_PCKT (d\<lparr>byte_per_pckt := line_int st (byte_per_pckt d)\<rparr>)
     else if is_key st ''MEDIA_SOURCE''
       then flag_descr MED_CODING_TYPE (d\<lparr>msource := (if strcaseeq (sparam st) ''LIVE'' then live
              else if strcaseeq (sparam st) ''STORED'' then stored else msource d)\<rparr>)
     else if is_key st ''LICENSE'' then flag_descr MED_LICENSE (d\<lparr>commons_dead := line_str LINE st (commons_dead d)\<rparr>)
     else if is_key st ''VERIFY'' then flag_descr MED_RDF_PAGE (d\<lparr>rdf_page := line_str LINE st (rdf_page d)\<rparr>)
     else if is_key st ''TITLE'' then flag_descr MED_TITLE (d\<lparr>title := line_text 7 st\<rparr>)
     else if is_key st ''CREATOR'' then flag_descr MED_CREATOR (d\<lparr>author := line_text 9 st\<rparr>)
     else d)"

text \<open>Two keywords fill the short parameter first: ten characters and a terminator in an array of ten. The file name has 255
  bytes, more than a line; the aggregate gets up to 50 characters and a terminator in an array of 50.\<close>

definition scan_param :: "sd_scan \<Rightarrow> sd_scan option" where
  "scan_param st = (if is_key st ''CODING_TYPE'' \<or> is_key st ''MEDIA_SOURCE''
     then map_option (\<lambda>v. st\<lparr>sparam := v\<rparr>) (line_array 10 10 st (sparam st)) else Some st)"

definition stream_line :: "sd_scan \<Rightarrow> 'st media_entry \<Rightarrow> 'st media_entry option" where
  "stream_line st p =
    (if is_key st ''FILE_NAME''
     then Some (p\<lparr>me_filename := line_str 255 st (me_filename p), me_flags := set_flag (me_flags p) ME_FILENAME\<rparr>)
     else if is_key st ''AGGREGATE''
     then map_option (\<lambda>v. p\<lparr>aggregate := v, me_flags := set_flag (me_flags p) ME_AGGREGATE\<rparr>) (line_array 50 50 st (aggregate p))
     else Some (p\<lparr>description := descr_line st (description p)\<rparr>))"

definition use_line :: "sd_scan \<Rightarrow> 'st media_entry \<Rightarrow> (sd_scan \<times> 'st media_entry) option" where
  "use_line st p = do { st1 \<leftarrow> scan_param st; p1 \<leftarrow> stream_line st1 p; Some (st1, p1) }"

fun read_stream :: "string list \<Rightarrow> sd_scan \<Rightarrow> 'st media_entry \<Rightarrow> (string list \<times> sd_scan \<times> 'st media_entry) option" where
  "read_stream [] st p =
     (if is_key st ''STREAM_END'' \<or> sd_eof st then Some ([], st, p)
      else case use_line (scan_keyword (st\<lparr>sd_eof := True\<rparr>)) p of None \<Rightarrow> None | Some (st1, p1) \<Rightarrow> Some ([], st1, p1))"
| "read_stream (c # cs) st p =
     (if is_key st ''STREAM_END'' \<or> sd_eof st then Some (c # cs, st, p)
      else case use_line (scan_keyword (read_line c (cs \<noteq> []) st)) p of
             None \<Rightarrow> None | Some (st1, p1) \<Rightarrow> read_stream cs st1 p1)"

lemma skip_to_stream_length: "skip_to_stream cs st sd = Some (cs', st', sd') \<Longrightarrow> length cs' \<le> length cs"
  by (induction cs st sd rule: skip_to_stream.induct) (fastforce split: if_splits option.splits)+

lemma read_stream_length: "read_stream cs st p = Some (cs', st', p') \<Longrightarrow> length cs' \<le> length cs"
  by (induction cs st p rule: read_stream.induct) (fastforce split: if_splits option.splits)+

lemma not_stream_nil: "\<not> strcaseeq [] ''STREAM''" "\<not> strcaseeq [] ''STREAM_END''"
  by (simp_all add: strcaseeq_def)

lemma skip_to_stream_less:
  assumes "skip_to_stream cs (st\<lparr>keyword := []\<rparr>) sd = Some (cs', st', sd')" and "\<not> sd_eof st'"
  shows "length cs' < length cs"
proof (cases cs)
  case Nil
  then show ?thesis using assms not_stream_nil
    by (auto simp: is_key_def use_head_def scan_keyword_def split: if_splits list.splits scan_val.splits prod.splits option.splits)
next
  case (Cons c cs0)
  show ?thesis
  proof (cases "sd_eof st")
    case True
    then show ?thesis using assms Cons by auto
  next
    case False
    then have "\<not> (is_key (st\<lparr>keyword := []\<rparr>) ''STREAM'' \<or> sd_eof (st\<lparr>keyword := []\<rparr>))"
      using not_stream_nil by (simp add: is_key_def)
    then obtain st1 sd1 where "skip_to_stream cs0 st1 sd1 = Some (cs', st', sd')"
      using assms(1) Cons by (auto split: option.splits)
    then show ?thesis using Cons skip_to_stream_length by fastforce
  qed
qed

text \<open>The outer loop. The first stream replaces the presentation's list of media (\<open>p == NULL\<close>), each later one is
  appended. \<open>None\<close> is the crash of \<open>validate_stream\<close> or a line that runs over the end of an array.\<close>

function sd_streams :: "catalog_env \<Rightarrow> bool \<Rightarrow> string list \<Rightarrow> sd_scan \<Rightarrow> 'st SD_descr \<Rightarrow> ('st SD_descr \<times> int) option" where
  "sd_streams ce first cs st sd =
    (case skip_to_stream cs (st\<lparr>keyword := []\<rparr>) sd of
       None \<Rightarrow> None
     | Some (cs1, st1, sd1) \<Rightarrow>
         if sd_eof st1 then Some (sd1, ERR_NOERROR)
         else
           (case read_stream cs1 (st1\<lparr>keyword := []\<rparr>) zero_media of
              None \<Rightarrow> None
            | Some (cs2, st2, p) \<Rightarrow>
                (case validate_stream ce p sd1 of
                   None \<Rightarrow> None
                 | Some (p', sd2, res) \<Rightarrow>
                     let sd3 = sd2\<lparr>me_list := (if first then [] else me_list sd2) @ [p']\<rparr>
                     in if res \<noteq> ERR_NOERROR then Some (sd3, res)
                        else if sd_eof st2 then Some (sd3, ERR_NOERROR)
                        else sd_streams ce False cs2 st2 sd3)))"
  by pat_completeness auto

lemma sd_round_shorter:
  assumes "skip_to_stream cs (st\<lparr>keyword := []\<rparr>) sd = Some (cs1, st1, sd1)" and "\<not> sd_eof st1"
    and "read_stream cs1 st1' p = Some (cs2, st2, p2)"
  shows "length cs2 < length cs"
  using skip_to_stream_less [OF assms(1,2)] read_stream_length [OF assms(3)] by simp

termination sd_streams
  by (relation "measure (\<lambda>(ce, f, cs, st, sd). length cs)", simp, simp only: in_measure prod.case)
     (metis sd_round_shorter)

declare sd_streams.simps [simp del]

definition sd_path :: "string \<Rightarrow> string \<Rightarrow> string" where
  "sd_path rootdir name = take 253 (rootdir @ (if rootdir \<noteq> [] \<and> last rootdir = CHR ''/'' then [] else ''/'') @ name)"

text \<open>\<open>junk\<close> is what the parser's local variables hold at first.\<close>

definition parse_SD_file ::
    "catalog_env \<Rightarrow> sd_scan \<Rightarrow> string \<Rightarrow> 'st SD_descr \<Rightarrow> ('st SD_descr \<times> int) option" where
  "parse_SD_file ce junk object sd =
    (let thefile = sd_path (ce_root ce) object
     in case fs_ctime (ce_fs ce) thefile of
          None \<Rightarrow> Some (sd, ERR_NOT_FOUND)
        | Some ct \<Rightarrow>
            if last_change sd = ct then Some (sd, ERR_NOERROR)
            else
              let sd1 = sd\<lparr>last_change := ct\<rparr>
              in (case fs_text (ce_fs ce) thefile of
                    None \<Rightarrow> Some (sd1, ERR_NOT_FOUND)
                  | Some text \<Rightarrow> sd_streams ce True (chunks text) (junk\<lparr>sd_eof := False\<rparr>) sd1))"

text \<open>\<open>enum_media\<close>: the presentations read so far are a list; the result has the list, the position of the
  presentation and the return value. A presentation that cannot be read leaves the list.\<close>

definition enum_media ::
    "catalog_env \<Rightarrow> sd_scan \<Rightarrow> string \<Rightarrow> 'st SD_descr list \<Rightarrow> ('st SD_descr list \<times> nat option \<times> int) option" where
  "enum_media ce junk object l =
    (let l1 = (if \<exists>d \<in> set l. sd_filename d = object then l else l @ [zero_SD_descr\<lparr>sd_filename := object\<rparr>]);
         i = length (takeWhile (\<lambda>d. sd_filename d \<noteq> object) l1)
     in case parse_SD_file ce junk object (l1 ! i) of
          None \<Rightarrow> None
        | Some (d, res) \<Rightarrow>
            if res \<noteq> ERR_NOERROR then Some (take i l1 @ drop (i + 1) l1, None, res)
            else Some (l1[i := d], Some i, ERR_NOERROR))"

definition DIM_AUDIO_BUFFER :: uint32 where "DIM_AUDIO_BUFFER = 5"
definition DIM_VIDEO_BUFFER :: uint32 where "DIM_VIDEO_BUFFER = 5"

text \<open>\<open>mediacpy\<close>: the contents of the session's medium; for a live source it is the presentation's own entry, for a
  stored one a copy. \<open>shm\<close> is the buffer \<open>OMSbuff_shm_map\<close> finds under a name.\<close>

definition mediacpy :: "(string \<Rightarrow> OMSBuffer option) \<Rightarrow> 'st media_entry \<Rightarrow> 'st media_entry \<Rightarrow> 'st media_entry \<times> int" where
  "mediacpy shm out inp =
    (if mtype (description inp) \<noteq> audio \<and> mtype (description inp) \<noteq> video then (out, ERR_GENERIC)
     else
       let dim = (if mtype (description inp) = audio then DIM_AUDIO_BUFFER else DIM_VIDEO_BUFFER)
       in if pkt_buffer inp \<noteq> None then (inp, ERR_NOERROR)
          else if strcaseeq (encoding_name (description inp)) ''RTP_SHM''
          then (case shm (me_filename inp) of
                  None \<Rightarrow> (inp, ERR_ALLOC)
                | Some b \<Rightarrow> (inp\<lparr>pkt_buffer := Some b\<rparr>, ERR_NOERROR))
          else (inp\<lparr>pkt_buffer := OMSbuff_new dim\<rparr>, ERR_NOERROR))"

section \<open>What the catalogue offers can be played\<close>

lemma has_flag_set_mono: "has_flag fl g \<Longrightarrow> has_flag (set_flag fl f) g"
  by (auto simp: has_flag_def set_flag_def bit_eq_iff bit_simps)

lemma has_set_same: "f \<noteq> 0 \<Longrightarrow> has_flag (set_flag fl f) f"
  by (rule has_set_flag)

text \<open>What \<open>mediacpy\<close> can copy.\<close>

definition copyable :: "'st media_entry \<Rightarrow> bool" where
  "copyable me \<longleftrightarrow> mtype (description me) \<in> {audio, video} \<and> \<not> strcaseeq (encoding_name (description me)) ''RTP_SHM''"

definition playable :: "'st media_entry \<Rightarrow> bool" where
  "playable me \<longleftrightarrow> media_handler me \<in> {Some FILE_MP3, Some FILE_MPEG, Some FILE_H264} \<and>
     has_flag (me_flags me) ME_FILENAME \<and> has_flag (d_flags (description me)) MED_PKT_LEN \<and> copyable me"

text \<open>The lines of a stream name a format together with its file type.\<close>

definition enc_ok :: "media_descr \<Rightarrow> bool" where
  "enc_ok d \<longleftrightarrow> mtype d \<in> {audio, video} \<and> (ftype d \<noteq> FILE_NONE \<longrightarrow> encoding_name d \<in> {''MPA'', ''MPV'', ''H264''})"

lemma enc_ok_flag [simp]: "enc_ok (flag_descr f d) = enc_ok d"
  by (simp add: enc_ok_def flag_descr_def)

lemma enc_ok_encoding: "enc_ok d \<Longrightarrow> enc_ok (encoding_line e d)"
  by (auto simp: enc_ok_def encoding_line_def Let_def flag_descr_def)

lemma enc_ok_fields [simp]:
  "enc_ok (d\<lparr>bitrate := i\<rparr>) = enc_ok d" "enc_ok (d\<lparr>priority := i\<rparr>) = enc_ok d" "enc_ok (d\<lparr>payload_type := i\<rparr>) = enc_ok d"
  "enc_ok (d\<lparr>clock_rate := i\<rparr>) = enc_ok d" "enc_ok (d\<lparr>audio_channels := i\<rparr>) = enc_ok d" "enc_ok (d\<lparr>sample_rate := i\<rparr>) = enc_ok d"
  "enc_ok (d\<lparr>bit_per_sample := i\<rparr>) = enc_ok d" "enc_ok (d\<lparr>frame_len := i\<rparr>) = enc_ok d" "enc_ok (d\<lparr>coding_type := ct\<rparr>) = enc_ok d"
  "enc_ok (d\<lparr>pkt_len := x\<rparr>) = enc_ok d" "enc_ok (d\<lparr>frame_rate := i\<rparr>) = enc_ok d" "enc_ok (d\<lparr>byte_per_pckt := i\<rparr>) = enc_ok d"
  "enc_ok (d\<lparr>msource := ms\<rparr>) = enc_ok d" "enc_ok (d\<lparr>commons_dead := s\<rparr>) = enc_ok d" "enc_ok (d\<lparr>rdf_page := s\<rparr>) = enc_ok d"
  "enc_ok (d\<lparr>title := s\<rparr>) = enc_ok d" "enc_ok (d\<lparr>author := s\<rparr>) = enc_ok d"
  by (simp_all add: enc_ok_def)

lemma enc_ok_descr_line: "enc_ok d \<Longrightarrow> enc_ok (descr_line st d)"
  unfolding descr_line_def using enc_ok_encoding by simp

lemma use_line_enc: "use_line st p = Some (st', p') \<Longrightarrow> enc_ok (description p) \<Longrightarrow> enc_ok (description p')"
  by (auto simp: use_line_def stream_line_def enc_ok_descr_line bind_eq_Some_conv split: if_splits)

lemma read_stream_enc: "read_stream cs st p = Some (cs', st', p') \<Longrightarrow> enc_ok (description p) \<Longrightarrow> enc_ok (description p')"
  by (induction cs st p rule: read_stream.induct) (fastforce dest: use_line_enc split: if_splits option.splits)+

lemma static_names: "list_all (\<lambda>i. \<not> strcaseeq (EncName i) ''RTP_SHM'') RTP_payload"
  by (simp add: RTP_payload_def pt_def no_payload_def strcaseeq_def to_lower_def list_all_iff)

lemma enc_not_shm: "enc_ok d \<Longrightarrow> ftype d \<noteq> FILE_NONE \<Longrightarrow> \<not> strcaseeq (encoding_name d) ''RTP_SHM''"
  by (auto simp: enc_ok_def strcaseeq_def to_lower_def)

lemma static_copyable:
  assumes "static_payload d = Some d'" and "enc_ok d" and "ftype d \<noteq> FILE_NONE" and "payload_type d < 96"
  shows "mtype d' \<in> {audio, video} \<and> \<not> strcaseeq (encoding_name d') ''RTP_SHM''"
proof -
  have "nat (payload_type d) < length RTP_payload" using assms(4) by (simp add: RTP_payload_def)
  then have "\<not> strcaseeq (EncName (RTP_payload ! nat (payload_type d))) ''RTP_SHM''"
    using static_names by (simp add: list_all_length)
  then show ?thesis using assms enc_not_shm [OF assms(2,3)]
    by (auto simp: static_payload_def Let_def enc_ok_def split: if_splits)
qed

lemma flags_nonzero [simp]: "MED_PKT_LEN \<noteq> 0" "ME_FD \<noteq> 0" "ME_FILENAME \<noteq> 0"
  by (simp_all add: MED_PKT_LEN_def ME_FD_def ME_FILENAME_def)

lemma clear_fd_keeps_name: "has_flag (clear_flag fl ME_FD) ME_FILENAME = has_flag fl ME_FILENAME"
proof -
  have "and (and fl (not ME_FD)) ME_FILENAME = and fl ME_FILENAME"
    by (simp add: and.assoc ME_FD_def ME_FILENAME_def)
  then show ?thesis by (simp add: has_flag_def clear_flag_def)
qed

lemma mediaopen_name: "has_flag (me_flags (fst (mediaopen r os me))) ME_FILENAME = has_flag (me_flags me) ME_FILENAME"
  by (auto simp: mediaopen_def Let_def intro: has_flag_set_mono)

lemma mediaopen_rest: "description (fst (mediaopen r os me)) = description me"
    "media_handler (fst (mediaopen r os me)) = media_handler me"
  by (simp_all add: mediaopen_def Let_def)

lemma mediaclose_rest: "has_flag (me_flags (fst (mediaclose c me))) ME_FILENAME = has_flag (me_flags me) ME_FILENAME"
    "description (fst (mediaclose c me)) = description me" "media_handler (fst (mediaclose c me)) = media_handler me"
  by (simp_all add: mediaclose_def clear_fd_keeps_name)

lemma video_pkt_len_flag: "video_pkt_len d = (d', ERR_NOERROR) \<Longrightarrow> has_flag (d_flags d') MED_PKT_LEN"
  by (auto simp: video_pkt_len_def Let_def err_defs split: if_splits)

lemma mpa_header_flag: "mpa_header b d = (d', ERR_NOERROR) \<Longrightarrow> has_flag (d_flags d') MED_PKT_LEN"
  by (auto simp: mpa_header_def Let_def err_defs split: if_splits option.splits)

lemma video_pkt_len_keeps: "video_pkt_len d = (d', r) \<Longrightarrow> mtype d' = mtype d \<and> encoding_name d' = encoding_name d"
  by (auto simp: video_pkt_len_def Let_def split: if_splits)

lemma mpa_header_keeps: "mpa_header b d = (d', r) \<Longrightarrow> mtype d' = mtype d \<and> encoding_name d' = encoding_name d"
  by (auto simp: mpa_header_def Let_def split: if_splits option.splits)

lemma load_media_copyable:
  assumes "load_media r fs me = Some (me', res)" and "copyable me"
  shows "copyable me'"
proof -
  have "mtype (description me') = mtype (description me) \<and> encoding_name (description me') = encoding_name (description me)"
    using assms(1) mediaopen_rest [of r "fs_os fs" me]
    by (auto simp: load_media_def load_MPA_def load_MPV_def load_h264_def Let_def mediaclose_rest
        split: option.splits media_file_type.splits prod.splits if_splits dest!: video_pkt_len_keeps mpa_header_keeps)
  then show ?thesis using assms(2) by (simp add: copyable_def)
qed

lemma load_media_playable:
  assumes load: "load_media r fs me = Some (me', ERR_NOERROR)" and "has_flag (me_flags me) ME_FILENAME" and "copyable me"
  shows "playable me'"
proof -
  note cp = load_media_copyable [OF load assms(3)]
  consider (mp3) "media_handler me = Some FILE_MP3" "load_MPA r fs me = (me', ERR_NOERROR)"
    | (mpv) "media_handler me = Some FILE_MPEG" "load_MPV r fs me = (me', ERR_NOERROR)"
    | (h264) "media_handler me = Some FILE_H264" "load_h264 r (fs_os fs) 0 me = (me', ERR_NOERROR)"
    using load by (auto simp: load_media_def split: option.splits media_file_type.splits)
  then show ?thesis
  proof cases
    case mp3
    then show ?thesis using assms(2) cp mediaopen_name [of r "fs_os fs" me] mediaopen_rest [of r "fs_os fs" me]
      by (auto simp: load_MPA_def playable_def Let_def mediaclose_rest err_defs clear_fd_keeps_name mediaclose_def
          split: prod.splits if_splits dest!: mpa_header_flag [unfolded err_defs])
  next
    case mpv
    then show ?thesis using assms(2) cp mediaopen_name [of r "fs_os fs" me] mediaopen_rest [of r "fs_os fs" me]
      by (auto simp: load_MPV_def playable_def Let_def mediaclose_rest err_defs
          split: prod.splits if_splits dest!: video_pkt_len_flag [unfolded err_defs])
  next
    case h264
    then show ?thesis using assms(2) cp mediaopen_name [of r "fs_os fs" me] mediaopen_rest [of r "fs_os fs" me]
      by (auto simp: load_h264_def playable_def Let_def mediaclose_rest err_defs split: prod.splits if_splits)
  qed
qed

lemma validate_playable:
  assumes "validate_stream ce p sd = Some (p', sd', ERR_NOERROR)" and enc: "enc_ok (description p)"
  shows "playable p'"
proof -
  obtain d where d: "(if 96 \<le> payload_type (description p) then Some (description p) else static_payload (description p)) = Some d"
    and l: "load_media (ce_root ce) (ce_fs ce) (p\<lparr>description := d, media_handler := Some (ftype d)\<rparr>) = Some (p', ERR_NOERROR)"
    and n: "has_flag (me_flags p) ME_FILENAME"
    using assms(1) unfolding validate_stream_def Let_def
    by (auto simp: register_media_def err_defs split: if_split_asm Option.bind_split_asm prod.split_asm)
  have ft: "ftype d = ftype (description p)"
    using d by (auto simp: static_payload_def Let_def split: if_splits)
  have "ftype d \<noteq> FILE_NONE" using l by (auto simp: load_media_def)
  then have "copyable (p\<lparr>description := d, media_handler := Some (ftype d)\<rparr>)"
    using d enc ft static_copyable [OF _ enc] enc_not_shm [OF enc] by (auto simp: copyable_def enc_ok_def split: if_splits)
  then show ?thesis using load_media_playable [OF l] n by simp
qed

lemma validate_keeps: "validate_stream ce p sd = Some (p', sd', res) \<Longrightarrow> me_list sd' = me_list sd \<and> sd_filename sd' = sd_filename sd"
  by (auto simp: validate_stream_def Let_def bind_eq_Some_conv split: if_splits)

lemma use_head_keeps: "use_head st sd = Some (st', sd') \<Longrightarrow> me_list sd' = me_list sd \<and> sd_filename sd' = sd_filename sd"
  by (auto simp: use_head_def head_line_def Let_def split: if_splits)

lemma skip_keeps: "skip_to_stream cs st sd = Some (cs', st', sd') \<Longrightarrow> me_list sd' = me_list sd \<and> sd_filename sd' = sd_filename sd"
  by (induction cs st sd rule: skip_to_stream.induct) (fastforce dest: use_head_keeps split: if_splits option.splits)+

text \<open>All media satisfy a property that every medium just read satisfies.\<close>

definition offers :: "('st media_entry \<Rightarrow> bool) \<Rightarrow> 'st SD_descr \<Rightarrow> bool" where
  "offers Q sd \<longleftrightarrow> (\<forall>me \<in> set (me_list sd). Q me)"

lemma streams_offer:
  assumes "sd_streams ce first cs st sd = Some (sd', ERR_NOERROR)" and "offers Q sd"
    and Q: "\<And>m. playable m \<Longrightarrow> Q m"
  shows "offers Q sd'"
  using assms(1,2)
proof (induction ce first cs st sd rule: sd_streams.induct)
  case (1 ce first cs st sd)
  from "1.prems"(1) obtain cs1 st1 sd1 where sk: "skip_to_stream cs (st\<lparr>keyword := []\<rparr>) sd = Some (cs1, st1, sd1)"
    by (subst (asm) sd_streams.simps) (auto split: option.splits)
  have o1: "offers Q sd1" using skip_keeps [OF sk] "1.prems"(2) by (simp add: offers_def)
  have zero_enc: "enc_ok (description (zero_media :: 'a media_entry))" by (simp add: zero_media_def zero_descr_def enc_ok_def)
  note un = "1.prems"(1) [unfolded sd_streams.simps [of ce first cs st sd] sk option.case prod.case]
  show ?case
  proof (cases "sd_eof st1")
    case True
    then show ?thesis using un o1 by simp
  next
    case False
    then obtain cs2 st2 p p' sd2 res where rd: "read_stream cs1 (st1\<lparr>keyword := []\<rparr>) zero_media = Some (cs2, st2, p)"
      and v: "validate_stream ce p sd1 = Some (p', sd2, res)"
      using un by (auto split: option.splits prod.splits)
    note un = un [unfolded rd option.case prod.case]
    let ?sd3 = "sd2\<lparr>me_list := (if first then [] else me_list sd2) @ [p']\<rparr>"
    have res: "res = ERR_NOERROR" using un False v by (auto simp: Let_def split: if_splits)
    have o3: "offers Q ?sd3"
      using Q [OF validate_playable [OF _ read_stream_enc [OF rd]]] v res validate_keeps [OF v] o1 zero_enc by (auto simp: offers_def)
    show ?thesis
    proof (cases "sd_eof st2")
      case True
      then show ?thesis using un False v res o3 by (auto simp: Let_def)
    next
      case F2: False
      then have "sd_streams ce False cs2 st2 ?sd3 = Some (sd', ERR_NOERROR)" using un False v res by (simp add: Let_def)
      moreover have nr: "\<not> res \<noteq> ERR_NOERROR" using res by simp
      ultimately show ?thesis using "1.IH" [OF sk refl refl False rd refl refl v refl refl refl nr F2 _ o3] by blast
    qed
  qed
qed

lemma streams_name: "sd_streams ce first cs st sd = Some (sd', res) \<Longrightarrow> sd_filename sd' = sd_filename sd"
proof (induction ce first cs st sd rule: sd_streams.induct)
  case (1 ce first cs st sd)
  from "1.prems" obtain cs1 st1 sd1 where sk: "skip_to_stream cs (st\<lparr>keyword := []\<rparr>) sd = Some (cs1, st1, sd1)"
    by (subst (asm) sd_streams.simps) (auto split: option.splits)
  note un = "1.prems" [unfolded sd_streams.simps [of ce first cs st sd] sk option.case prod.case]
  show ?case
  proof (cases "sd_eof st1")
    case True
    then show ?thesis using un skip_keeps [OF sk] by simp
  next
    case False
    then obtain cs2 st2 p p' sd2 r2 where rd: "read_stream cs1 (st1\<lparr>keyword := []\<rparr>) zero_media = Some (cs2, st2, p)"
      and v: "validate_stream ce p sd1 = Some (p', sd2, r2)"
      using un by (auto split: option.splits prod.splits)
    note un = un [unfolded rd option.case prod.case]
    let ?sd3 = "sd2\<lparr>me_list := (if first then [] else me_list sd2) @ [p']\<rparr>"
    have n3: "sd_filename ?sd3 = sd_filename sd" using validate_keeps [OF v] skip_keeps [OF sk] by simp
    show ?thesis
    proof (cases "r2 \<noteq> ERR_NOERROR \<or> sd_eof st2")
      case True
      then show ?thesis using un False v n3 by (auto simp: Let_def split: if_splits)
    next
      case F2: False
      then have "sd_streams ce False cs2 st2 ?sd3 = Some (sd', res)" "\<not> r2 \<noteq> ERR_NOERROR" "\<not> sd_eof st2"
        using un False v by (simp_all add: Let_def)
      then show ?thesis
        using "1.IH" [OF sk refl refl False rd refl refl v refl refl refl] n3 by simp
    qed
  qed
qed

definition catalog_ok :: "('st media_entry \<Rightarrow> bool) \<Rightarrow> 'st SD_descr list \<Rightarrow> bool" where
  "catalog_ok Q l \<longleftrightarrow> distinct (map sd_filename l) \<and> (\<forall>d \<in> set l. offers Q d)"

inductive catalog_step :: "'st SD_descr list \<Rightarrow> 'st SD_descr list \<Rightarrow> bool" where
  request: "enum_media ce junk object l = Some (l', i, res) \<Longrightarrow> catalog_step l l'"

inductive_cases catalog_stepE: "catalog_step l l'"

lemma parse_offers:
  assumes "parse_SD_file ce junk object sd = Some (sd', res)"
  shows "sd_filename sd' = sd_filename sd"
    and "res = ERR_NOERROR \<Longrightarrow> offers Q sd \<Longrightarrow> (\<And>m. playable m \<Longrightarrow> Q m) \<Longrightarrow> offers Q sd'"
proof -
  show "sd_filename sd' = sd_filename sd"
    using assms by (auto simp: parse_SD_file_def Let_def split: option.splits if_splits dest!: streams_name)
  show "offers Q sd'" if "res = ERR_NOERROR" "offers Q sd" and Q: "\<And>m. playable m \<Longrightarrow> Q m"
    using assms that(1,2) unfolding parse_SD_file_def Let_def
    by (auto simp: err_defs offers_def split: option.splits if_splits
        dest!: streams_offer [where Q = Q, unfolded err_defs offers_def, simplified, OF _ _ Q])
qed

lemma length_takeWhile_found: "\<exists>d \<in> set l. P d \<Longrightarrow> length (takeWhile (\<lambda>d. \<not> P d) l) < length l"
  by (induction l) auto

lemma enum_ok:
  assumes "catalog_ok Q l" and "enum_media ce junk object l = Some (l', i, res)" and Q: "\<And>m. playable m \<Longrightarrow> Q m"
  shows "catalog_ok Q l' \<and> (res = ERR_NOERROR \<longrightarrow> (\<exists>k < length l'. i = Some k \<and> sd_filename (l' ! k) = object))"
proof -
  define l1 where "l1 = (if \<exists>d \<in> set l. sd_filename d = object then l else l @ [zero_SD_descr\<lparr>sd_filename := object\<rparr>])"
  define k where "k = length (takeWhile (\<lambda>d. sd_filename d \<noteq> object) l1)"
  have ex: "\<exists>d \<in> set l1. sd_filename d = object" by (auto simp: l1_def)
  then have k: "k < length l1" "sd_filename (l1 ! k) = object"
    using length_takeWhile_found [of l1 "\<lambda>d. sd_filename d = object"] nth_length_takeWhile [of "\<lambda>d. sd_filename d \<noteq> object" l1]
    by (auto simp: k_def)
  have ok1: "catalog_ok Q l1"
    using assms(1) by (auto simp: l1_def catalog_ok_def offers_def zero_SD_descr_def)
  obtain d r where p: "parse_SD_file ce junk object (l1 ! k) = Some (d, r)"
    "if r \<noteq> ERR_NOERROR then l' = take k l1 @ drop (k + 1) l1 \<and> res = r
     else l' = l1[k := d] \<and> i = Some k \<and> res = r"
    using assms(2) unfolding enum_media_def Let_def l1_def [symmetric] k_def [symmetric]
    by (auto split: option.splits prod.splits if_splits)
  note name = parse_offers(1) [OF p(1)] and off = parse_offers(2) [OF p(1)]
  show ?thesis
  proof (cases "r = ERR_NOERROR")
    case True
    then have l': "l' = l1[k := d]" "i = Some k" using p(2) by auto
    have "offers Q d" using off Q True ok1 k by (auto simp: catalog_ok_def)
    moreover have "map sd_filename l' = map sd_filename l1"
      using name k by (metis l'(1) map_update list_update_id nth_map)
    ultimately have "catalog_ok Q l'" using ok1 set_update_subset_insert [of l1 k d] by (auto simp: catalog_ok_def l')
    then show ?thesis using k name l' by auto
  next
    case False
    then have l': "l' = take k l1 @ drop (k + 1) l1" and res: "res = r" using p(2) by auto
    have "l1 = take k l1 @ l1 ! k # drop (k + 1) l1" using k by (simp add: id_take_nth_drop)
    then have l1: "map sd_filename l1 = map sd_filename (take k l1) @ object # map sd_filename (drop (k + 1) l1)"
      using k(2) by (metis list.simps(9) map_append)
    have "set l' \<subseteq> set l1" unfolding l' using set_take_subset set_drop_subset by fastforce
    moreover have "distinct (map sd_filename l')" using ok1 by (simp add: catalog_ok_def l1 l')
    ultimately show ?thesis using ok1 False res by (auto simp: catalog_ok_def)
  qed
qed

lemma catalog_step_ok: "catalog_step l l' \<Longrightarrow> catalog_ok playable l \<Longrightarrow> catalog_ok playable l'"
  by (erule catalog_stepE) (rule enum_ok [THEN conjunct1])

interpretation catalog: step_system "\<lambda>l. l = []" catalog_step "catalog_ok playable"
  by unfold_locales (simp add: catalog_ok_def, rule catalog_step_ok)

text \<open>C6: whatever presentations are asked for, in whatever order and however their files change meanwhile, the
  catalogue holds each presentation once, and every medium it offers names a file, has a known packet length and belongs
  to a format with a loader and a reader.\<close>

theorem catalogue_playable:
  assumes "rtranclp catalog_step [] l"
  shows "distinct (map sd_filename l) \<and> (\<forall>d \<in> set l. \<forall>me \<in> set (me_list d). playable me)"
  using catalog.reachable_inv [OF refl assms] by (simp add: catalog_ok_def offers_def)

text \<open>A presentation without streams is catalogued.\<close>

definition demo_env :: catalog_env where
  "demo_env = \<lparr>ce_root = ''/'', ce_port = 554, ce_aton = (\<lambda>_. None),
     ce_fs = \<lparr>fs_os = \<lparr>os_open = (\<lambda>_ _. 4), os_isfifo = (\<lambda>_. False)\<rparr>, fs_bytes = (\<lambda>_. []), fs_ctime = (\<lambda>_. Some 7),
       fs_text = (\<lambda>_. Some (''#'' @ [LF]))\<rparr>\<rparr>"

definition demo_scan :: sd_scan where
  "demo_scan = \<lparr>sd_eof = False, keyword = [], sd_line = [], sparam = []\<rparr>"

lemma demo_enum: "\<exists>d. enum_media demo_env demo_scan ''x'' ([] :: nat SD_descr list) = Some ([d], Some 0, ERR_NOERROR)"
proof -
  have "map_option (\<lambda>(l, i, r). (length l, i, r)) (enum_media demo_env demo_scan ''x'' ([] :: nat SD_descr list)) =
      Some (1, Some 0, ERR_NOERROR)"
    by code_simp
  then show ?thesis by (auto simp: length_Suc_conv)
qed

lemma catalogue_playable_witness:
  "\<exists>d :: nat SD_descr. rtranclp catalog_step [] [d] \<and> (\<forall>me \<in> set (me_list d). playable me)"
proof -
  obtain d :: "nat SD_descr" where "enum_media demo_env demo_scan ''x'' [] = Some ([d], Some 0, ERR_NOERROR)"
    using demo_enum by blast
  then have r: "rtranclp catalog_step [] [d]" by (blast intro: catalog_step.request)
  then show ?thesis using catalogue_playable [OF r] by auto
qed

section \<open>Streams the server does not survive\<close>

definition stream_header_ok :: "'st media_entry \<Rightarrow> bool" where
  "stream_header_ok p \<longleftrightarrow> has_flag (me_flags p) ME_FILENAME \<and> has_flag (d_flags (description p)) MED_PAYLOAD_TYPE \<and>
     has_flag (d_flags (description p)) MED_PRIORITY \<and>
     (96 \<le> payload_type (description p) \<longrightarrow>
        has_flag (d_flags (description p)) MED_ENCODING_NAME \<and> has_flag (d_flags (description p)) MED_CLOCK_RATE)"

lemma static_payload_ftype: "static_payload d = Some d' \<Longrightarrow> ftype d' = ftype d"
  by (auto simp: static_payload_def Let_def split: if_splits)

lemma static_payload_None: "static_payload d = None \<longleftrightarrow> payload_type d < 0"
  by (auto simp: static_payload_def Let_def)

lemma load_media_None:
  "load_media r fs (fst (register_media (p\<lparr>description := d\<rparr>))) = None \<longleftrightarrow> ftype d \<notin> {FILE_MP3, FILE_MPEG, FILE_H264}"
  by (cases "ftype d") (auto simp: load_media_def register_media_def)

text \<open>C39: a stream whose lines are complete is validated without a crash exactly when its payload type is not negative
  and its encoding line named MPEG audio, MPEG video or H.264. Any other stream, for instance one with a static payload
  type and no encoding line, makes the server call a null pointer or read outside the table of payload types.\<close>

theorem validate_crash:
  assumes "stream_header_ok p"
  shows "validate_stream ce p sd = None \<longleftrightarrow>
     payload_type (description p) < 0 \<or> ftype (description p) \<notin> {FILE_MP3, FILE_MPEG, FILE_H264}"
proof -
  have "validate_stream ce p sd = None \<longleftrightarrow>
      payload_type (description p) < 96 \<and> static_payload (description p) = None \<or>
      (\<exists>d. d = (if 96 \<le> payload_type (description p) then description p else the (static_payload (description p))) \<and>
         load_media (ce_root ce) (ce_fs ce) (fst (register_media (p\<lparr>description := d\<rparr>))) = None)"
    using assms by (auto simp: validate_stream_def stream_header_ok_def Let_def bind_eq_None_conv split: prod.splits)
  then show ?thesis
    using static_payload_ftype [of "description p"]
    by (cases "static_payload (description p)") (auto simp: static_payload_None [symmetric] load_media_None, auto simp: static_payload_None)
qed

text \<open>Validation keeps a presentation's group address when it is not a multicast address, and replaces a good one
  by the default: the sense of the test is reversed.\<close>

theorem multicast_replaced:
  assumes "stream_header_ok p" and "validate_stream ce p sd = Some (p', sd', res)"
  shows "multicast sd' =
    (case ce_aton ce (multicast sd) of
       Some a \<Rightarrow> if and a 0xF0000000 = 0xE0000000 then DEFAULT_MULTICAST_ADDRESS else multicast sd
     | None \<Rightarrow> multicast sd)"
  using assms
  by (auto simp: validate_stream_def stream_header_ok_def Let_def bind_eq_Some_conv is_valid_multicast_address_def err_defs
      split: if_splits option.splits)

definition demo_stream :: "media_file_type \<Rightarrow> int \<Rightarrow> nat media_entry" where
  "demo_stream f n = zero_media\<lparr>me_flags := ME_FILENAME,
     description := (description (zero_media :: nat media_entry))\<lparr>d_flags := or (or MED_PAYLOAD_TYPE MED_PRIORITY) (or MED_ENCODING_NAME MED_CLOCK_RATE),
       payload_type := n, ftype := f\<rparr>\<rparr>"

lemma demo_stream_header: "stream_header_ok (demo_stream ft pty)"
  by (simp add: demo_stream_def stream_header_ok_def has_flag_def ME_FILENAME_def MED_PAYLOAD_TYPE_def MED_PRIORITY_def
      MED_ENCODING_NAME_def MED_CLOCK_RATE_def)

lemma validate_crash_witness: "validate_stream demo_env (demo_stream FILE_NONE 0) zero_SD_descr = None"
  using validate_crash [OF demo_stream_header, of demo_env FILE_NONE 0 zero_SD_descr] by (simp add: demo_stream_def)

definition group_env :: catalog_env where
  "group_env = demo_env\<lparr>ce_aton := (\<lambda>s. if s = ''224.2.2.2'' then Some 0xE0020202 else None)\<rparr>"

lemma multicast_replaced_witness:
  "\<exists>p' sd' r. validate_stream group_env (demo_stream FILE_H264 96) (zero_SD_descr\<lparr>multicast := ''224.2.2.2''\<rparr>) = Some (p', sd', r) \<and>
     multicast sd' = ''224.124.0.1''"
proof -
  let ?sd = "zero_SD_descr\<lparr>multicast := ''224.2.2.2''\<rparr>"
  have "load_media r fs (fst (register_media (demo_stream FILE_H264 96))) \<noteq> None" for r fs
    by (simp add: load_media_def register_media_def demo_stream_def)
  then have "validate_stream group_env (demo_stream FILE_H264 96) ?sd \<noteq> None"
    using demo_stream_header [of FILE_H264 96]
    by (auto simp: validate_stream_def stream_header_ok_def Let_def demo_stream_def bind_eq_None_conv split: prod.splits)
  then obtain p' sd' r where v: "validate_stream group_env (demo_stream FILE_H264 96) ?sd = Some (p', sd', r)" by auto
  show ?thesis using multicast_replaced [OF demo_stream_header v] v
    by (simp add: group_env_def DEFAULT_MULTICAST_ADDRESS_def)
qed

end
