(* ===== verification/Server_State.thy ===== *)
theory Server_State
  imports Media_Catalog
begin

text \<open>
  The state the two threads of the server share: the catalogue of presentations, the sessions, their media and
  buffers, the port pool, and the table of the scheduler (\<^verbatim>\<open>schedule/\<close>). Heap objects have addresses. A
  session's medium is its own copy of a catalogue entry or, for a live source or after a change of quality, the
  entry itself. An operation whose result is \<open>None\<close> crashes the server: it follows a null or dangling pointer or
  leaves the table.
\<close>

section \<open>Data\<close>

text \<open>A catalogue entry is named by its presentation, its place, and the number of times the presentation's list had been
  replaced: the entries of an older list stay in memory.\<close>

datatype media_ptr = Own nat | Entry string nat nat

text \<open>What a session (\<open>RTP_session\<close>) points to: its consumer with the buffer it consumes, its medium, and its
  presentation.\<close>

record rtp_cell =
  rtp :: RTP_session
  cons_buf :: "nat option"
  media_at :: media_ptr
  sd_of :: string

record sched_entry =
  valid :: bool
  sched_session :: "nat option"
  play_action :: bool

text \<open>The entries in the catalogue and the sessions' copies have no buffer of their own: \<open>buf_of\<close> has its
  address.\<close>

record 'st server =
  sd_list :: "'st SD_descr list"
  epochs :: "string \<Rightarrow> nat"
  retired :: "string \<times> nat \<times> nat \<Rightarrow> 'st media_entry option"
  own_media :: "nat \<Rightarrow> 'st media_entry option"
  buf_of :: "media_ptr \<Rightarrow> nat option"
  buffers :: "nat \<Rightarrow> OMSBuffer option"
  rtp_heap :: "nat \<Rightarrow> rtp_cell option"
  next_addr :: nat
  sched :: "sched_entry list"
  client_count :: uint64
  port_pool :: port_state
  num_conn :: int

section \<open>Following pointers\<close>

definition find_descr :: "string \<Rightarrow> 'st server \<Rightarrow> 'st SD_descr option" where
  "find_descr name sv = find (\<lambda>d. sd_filename d = name) (sd_list sv)"

definition get_entry :: "media_ptr \<Rightarrow> 'st server \<Rightarrow> 'st media_entry option" where
  "get_entry p sv =
    (case p of
       Own a \<Rightarrow> own_media sv a
     | Entry n e i \<Rightarrow>
         if e = epochs sv n
         then (case find_descr n sv of
                 Some d \<Rightarrow> (if i < length (me_list d) then Some (me_list d ! i) else None)
               | None \<Rightarrow> None)
         else retired sv (n, e, i))"

definition put_entry :: "media_ptr \<Rightarrow> 'st media_entry \<Rightarrow> 'st server \<Rightarrow> 'st server" where
  "put_entry p m sv =
    (case p of
       Own a \<Rightarrow> sv\<lparr>own_media := (own_media sv)(a := Some m)\<rparr>
     | Entry n e i \<Rightarrow>
         if e = epochs sv n
         then sv\<lparr>sd_list := map (\<lambda>d. if sd_filename d = n then d\<lparr>me_list := (me_list d)[i := m]\<rparr> else d) (sd_list sv)\<rparr>
         else sv\<lparr>retired := (retired sv)((n, e, i) := Some m)\<rparr>)"

text \<open>A medium with its buffer. A freed buffer is not followed.\<close>

definition load_medium :: "media_ptr \<Rightarrow> 'st server \<Rightarrow> 'st media_entry option" where
  "load_medium p sv =
    do {
      m \<leftarrow> get_entry p sv;
      case buf_of sv p of
        None \<Rightarrow> Some (m\<lparr>pkt_buffer := None\<rparr>)
      | Some b \<Rightarrow> map_option (\<lambda>bf. m\<lparr>pkt_buffer := Some bf\<rparr>) (buffers sv b)
    }"

text \<open>Storing it back: the buffer is written to its address, allocated when the medium had none, freed when it was
  set to null.\<close>

definition save_medium :: "media_ptr \<Rightarrow> 'st media_entry \<Rightarrow> 'st server \<Rightarrow> 'st server" where
  "save_medium p m sv =
    (let sv1 = put_entry p (m\<lparr>pkt_buffer := None\<rparr>) sv
     in case (buf_of sv p, pkt_buffer m) of
          (None, None) \<Rightarrow> sv1
        | (None, Some bf) \<Rightarrow>
            sv1\<lparr>buf_of := (buf_of sv)(p := Some (next_addr sv)), buffers := (buffers sv)(next_addr sv := Some bf),
                next_addr := next_addr sv + 1\<rparr>
        | (Some b, None) \<Rightarrow> sv1\<lparr>buf_of := (buf_of sv)(p := None), buffers := (buffers sv)(b := None)\<rparr>
        | (Some b, Some bf) \<Rightarrow> sv1\<lparr>buffers := (buffers sv)(b := Some bf)\<rparr>)"

definition put_cell :: "nat \<Rightarrow> rtp_cell \<Rightarrow> 'st server \<Rightarrow> 'st server" where
  "put_cell a c sv = sv\<lparr>rtp_heap := (rtp_heap sv)(a := Some c)\<rparr>"

text \<open>\<open>enum_media\<close> on the shared catalogue. When it is run with the presentation's list emptied and the list stays
  empty, the list has not been replaced; otherwise the old entries leave the catalogue.\<close>

definition sv_enum ::
    "catalog_env \<Rightarrow> sd_scan \<Rightarrow> string \<Rightarrow> 'st server \<Rightarrow> ('st server \<times> nat option \<times> int) option" where
  "sv_enum ce junk object sv =
    (case enum_media ce junk object (sd_list sv) of
       None \<Rightarrow> None
     | Some (l, i, res) \<Rightarrow>
         let e = epochs sv object;
             old = (case find_descr object sv of Some d \<Rightarrow> me_list d | None \<Rightarrow> []);
             emptied = map (\<lambda>d. if sd_filename d = object then d\<lparr>me_list := []\<rparr> else d) (sd_list sv);
             kept = (case enum_media ce junk object emptied of
                       Some (l0, _, _) \<Rightarrow> (\<exists>d \<in> set l0. sd_filename d = object \<and> me_list d = [])
                     | None \<Rightarrow> False)
         in Some (if kept then sv\<lparr>sd_list := l\<rparr>
                  else sv\<lparr>sd_list := l, epochs := (epochs sv)(object := e + 1),
                          retired := (\<lambda>(n, e', k). if n = object \<and> e' = e \<and> k < length old then Some (old ! k)
                                                   else retired sv (n, e', k))\<rparr>,
                  i, res))"

section \<open>The scheduler's table\<close>

text \<open>\<open>mnow\<close> in the code: the time of day in milliseconds.\<close>

definition msec :: "timeval \<Rightarrow> cdouble" where
  "msec t = real (tv_sec t) * 1000 + real (tv_usec t) / 1000"

record play_args =
  playback_time :: tm
  playback_time_valid :: bool
  start_time :: cdouble
  start_time_valid :: bool
  end_time :: cdouble

definition schedule_init :: "'st server \<Rightarrow> 'st server" where
  "schedule_init sv =
     sv\<lparr>sched := replicate ONE_FORK_MAX_CONNECTION \<lparr>valid = False, sched_session = None, play_action = False\<rparr>,
        client_count := 0\<rparr>"

text \<open>The first entry that is not valid is taken, whatever session it still holds.\<close>

definition schedule_add :: "nat \<Rightarrow> 'st server \<Rightarrow> ('st server \<times> int) option" where
  "schedule_add a sv =
    (case find (\<lambda>i. \<not> valid (sched sv ! i)) [0..<ONE_FORK_MAX_CONNECTION] of
       None \<Rightarrow> Some (sv, ERR_GENERIC)
     | Some i \<Rightarrow>
         do {
           c \<leftarrow> rtp_heap sv a;
           Some (sv\<lparr>sched := (sched sv)[i := \<lparr>valid = True, sched_session = Some a,
                      play_action = (play_action (sched sv ! i) \<or> is_multicast_dad (rtp c))\<rparr>],
                    client_count := client_count sv + 1\<rparr>, int i)
         })"

definition in_table :: "int \<Rightarrow> bool" where
  "in_table i \<longleftrightarrow> 0 \<le> i \<and> i < int ONE_FORK_MAX_CONNECTION"

definition schedule_remove :: "int \<Rightarrow> 'st server \<Rightarrow> 'st server option" where
  "schedule_remove i sv =
    (if in_table i
     then Some (sv\<lparr>sched := (sched sv)[nat i := (sched sv ! nat i)\<lparr>valid := False\<rparr>], client_count := client_count sv - 1\<rparr>)
     else None)"

text \<open>The session an entry of the table points to.\<close>

definition entry_cell :: "int \<Rightarrow> 'st server \<Rightarrow> (nat \<times> rtp_cell) option" where
  "entry_cell i sv =
    (if in_table i
     then do { a \<leftarrow> sched_session (sched sv ! nat i); c \<leftarrow> rtp_heap sv a; Some (a, c) }
     else None)"

definition zero_clock :: "rtp_cell \<Rightarrow> cdouble \<Rightarrow> rtp_cell" where
  "zero_clock c mnow =
    c\<lparr>rtp := (rtp c)\<lparr>mprev_tx_time := mnow, paused := False, started := True, MinimumReached := 0, MaximumReached := 0,
        PreviousCount := 0, client_stats := (client_stats (rtp c))\<lparr>RR_received := 0, SR_received := 0\<rparr>\<rparr>\<rparr>"

text \<open>Starting a session makes it a consumer of its medium's buffer; \<open>mktime\<close> is the C library's. Without a
  buffer \<open>OMSbuff_ref\<close> gives null and the count of its consumers is read through a null pointer.\<close>

definition schedule_start ::
    "(tm \<Rightarrow> int) \<Rightarrow> timeval \<Rightarrow> int \<Rightarrow> play_args \<Rightarrow> 'st server \<Rightarrow> ('st server \<times> int) option" where
  "schedule_start mktime now i args sv =
    do {
      (a, c) \<leftarrow> entry_cell i sv;
      m \<leftarrow> load_medium (media_at c) sv;
      b \<leftarrow> pkt_buffer m;
      (b1, cs) \<leftarrow> OMSbuff_ref b;
      let mnow = msec now;
      let m1 = m\<lparr>pkt_buffer := Some b1\<rparr>;
      let m2 = (if ctl_refs (control b1) = 1
                then m1\<lparr>mstart := (if playback_time_valid args then real_of_int (mktime (playback_time args)) else mnow),
                        mtime := mnow, mstart_offset := start_time args * 1000, play_offset := start_time args * 1000\<rparr>
                else m1);
      let c1 = zero_clock (c\<lparr>rtp := (rtp c)\<lparr>cons := cs\<rparr>, cons_buf := buf_of sv (media_at c)\<rparr>) mnow;
      Some (put_cell a c1 (save_medium (media_at c) m2 sv), ERR_NOERROR)
    }"

definition schedule_resume :: "timeval \<Rightarrow> int \<Rightarrow> play_args \<Rightarrow> 'st server \<Rightarrow> ('st server \<times> int) option" where
  "schedule_resume now i args sv =
    do {
      (a, c) \<leftarrow> entry_cell i sv;
      m \<leftarrow> get_entry (media_at c) sv;
      let mnow = msec now;
      let len = pkt_len (description m);
      let m1 = m\<lparr>mstart_offset := mstart_offset m + mtime m - mstart m + len,
                 play_offset := (if start_time_valid args then start_time args * 1000 else play_offset m),
                 mstart := mnow, mtime := mnow - len\<rparr>;
      Some (put_cell a (c\<lparr>rtp := (rtp c)\<lparr>mprev_tx_time := mnow - len, paused := False\<rparr>\<rparr>) (put_entry (media_at c) m1 sv), ERR_NOERROR)
    }"

text \<open>What the packets of \<open>RTCP_send_packet\<close> take from outside.\<close>

record rtcp_env =
  clock :: timeval
  host_name :: "uint8 list"
  pad_junk :: "uint8 list"

definition rtcp_queue :: "rtcp_env \<Rightarrow> 'st media_entry \<Rightarrow> RTP_session \<Rightarrow> rtcp_pkt_type \<Rightarrow> RTP_session" where
  "rtcp_queue env m s t = fst (RTCP_send_packet (clock env) (host_name env) (pad_junk env) (clock_rate (description m)) s t)"

definition schedule_stop :: "rtcp_env \<Rightarrow> int \<Rightarrow> 'st server \<Rightarrow> 'st server option" where
  "schedule_stop env i sv =
    do {
      (a, c) \<leftarrow> entry_cell i sv;
      m \<leftarrow> get_entry (media_at c) sv;
      let s = (rtp c)\<lparr>paused := True, started := False\<rparr>;
      Some (put_cell a (c\<lparr>rtp := rtcp_queue env m (rtcp_queue env m s SR) BYE\<rparr>) sv)
    }"

end
