(* ===== verification/Sdp.thy ===== *)
theory Sdp
  imports Server_State
begin

text \<open>
  The session descriptions \<^verbatim>\<open>DESCRIBE\<close> answers with (\<^verbatim>\<open>sdp/\<close>). The text is collected in an array
  of \<open>MAX_DESCR_LENGTH\<close> bytes of the caller. The marks \<open>reserved\<close> of the media are left out: nothing reads them.
\<close>

definition get_SDP_user_name :: string where "get_SDP_user_name = ''fenice''"

definition get_SDP_session_id :: "int \<Rightarrow> string" where "get_SDP_session_id t = dec (NTP_time t)"

definition get_SDP_version :: "int \<Rightarrow> string" where "get_SDP_version t = dec (NTP_time t)"

text \<open>The lines before the media; \<open>t\<close> is the time.\<close>

definition sdp_head :: "config \<Rightarrow> int \<Rightarrow> 'st SD_descr \<Rightarrow> string" where
  "sdp_head cfg t d =
     ''v=0'' @ EL @ ''o='' @ get_SDP_user_name @ '' '' @ get_SDP_session_id t @ '' '' @ get_SDP_version t @ EL @
     ''c=IN IP4 '' @
     (if has_flag (sd_flags d) SD_FL_MULTICAST then multicast d @ ''/'' @ dec DEFAULT_TTL else get_address cfg) @ EL @
     ''s=RTSP Session'' @ EL @ ''i='' @ PACKAGE cfg @ '' '' @ VERSION cfg @ '' Streaming Server'' @ EL"

definition sdp_control :: "string \<Rightarrow> 'st media_entry \<Rightarrow> string" where
  "sdp_control url p =
     (if has_flag (me_flags p) ME_AGGREGATE then ''a=control:'' @ url @ ''!'' @ aggregate p @ EL else []) @
     ''u='' @ url @ EL @ ''t=0 0'' @ EL"

definition mtype_name :: "media_type \<Rightarrow> string" where
  "mtype_name t = (case t of audio \<Rightarrow> ''audio '' | video \<Rightarrow> ''video '' | application \<Rightarrow> ''application ''
     | data \<Rightarrow> ''data '' | control_media \<Rightarrow> ''control '')"

text \<open>An optional line.\<close>

definition sdp_line :: "'st media_entry \<Rightarrow> uint32 \<Rightarrow> string \<Rightarrow> string" where
  "sdp_line p f s = (if med_flag p f then s @ EL else [])"

definition sdp_rtpmap :: "media_descr \<Rightarrow> string" where
  "sdp_rtpmap d =
    (if 96 \<le> payload_type d
     then ''a=rtpmap:'' @ dec (payload_type d) @ '' '' @ encoding_name d @ ''/'' @ dec (clock_rate d mod 2 ^ 32) @
          (if has_flag (d_flags d) MED_AUDIO_CHANNELS then ''/'' @ dec (audio_channels d) else []) @
          (if encoding_name d = ''MP4V-ES'' then EL @ ''a=fmtp:96'' else []) @ EL
     else [])"

text \<open>One medium. In an extended description the media that are not of the first priority have attribute names of
  their own.\<close>

definition sdp_medium :: "'st SD_descr \<Rightarrow> bool \<Rightarrow> string \<Rightarrow> 'st media_entry \<Rightarrow> string" where
  "sdp_medium d extended url p =
    (let m = description p; other = (priority m \<noteq> 1 \<and> extended)
     in (if other then ''a=med:'' else ''m='') @ mtype_name (mtype m) @
        dec (if has_flag (sd_flags d) SD_FL_MULTICAST_PORT then rtp_multicast_port p else 0) @
        '' RTP/AVP '' @ dec (payload_type m) @ EL @
        sdp_line p MED_LICENSE (''a=uriLicense:'' @ commons_dead m) @
        sdp_line p MED_RDF_PAGE (''a=uriMetadata:'' @ rdf_page m) @
        sdp_line p MED_TITLE (''a=title:'' @ title m) @
        sdp_line p MED_CREATOR (''a=creator:'' @ author m) @
        sdp_rtpmap m @
        (if other then ''a=ctrl:'' else ''a=control:'') @ url @ ''!'' @ me_filename p @ EL @
        (if has_flag (me_flags p) ME_AGGREGATE \<and> extended then ''a=aggregate:'' @ url @ ''!'' @ aggregate p @ EL else []))"

text \<open>The description of one medium and its aggregate: the next medium is the first with the same aggregate,
  described or not. \<open>None\<close> is a loop without end; the bound of the array is checked in \<open>get_SDP_descr\<close>, on the whole
  text.\<close>

definition req_aggregate :: "string \<Rightarrow> 'st media_entry" where
  "req_aggregate a = zero_media\<lparr>me_flags := or ME_AGGREGATE ME_RESERVED, aggregate := a\<rparr>"

partial_function (option) sdp_aggregate ::
    "'st SD_descr \<Rightarrow> string \<Rightarrow> 'st media_entry \<Rightarrow> string \<Rightarrow> string option" where
  "sdp_aggregate d url p acc =
    (let acc' = acc @ sdp_medium d False url p
     in if has_flag (me_flags p) ME_AGGREGATE
        then (case search_media (req_aggregate (aggregate p)) (me_list d) of
                None \<Rightarrow> Some acc'
              | Some j \<Rightarrow> sdp_aggregate d url (me_list d ! j) acc')
        else Some acc')"

declare sdp_aggregate.simps [code]

text \<open>The text only grows while it is collected: a description that leaves no room for its terminator has run over the
  end of the caller's array, which is \<open>None\<close>.\<close>

definition descr_text :: "string \<Rightarrow> string option" where
  "descr_text s = (if length s < MAX_DESCR_LENGTH then Some s else None)"

text \<open>\<open>which\<close> is the place of the medium to describe, a null pointer when \<open>None\<close>. The result has the description so
  far also when there is an error.\<close>

definition get_SDP_descr ::
    "config \<Rightarrow> int \<Rightarrow> catalog_env \<Rightarrow> sd_scan \<Rightarrow> nat option \<Rightarrow> bool \<Rightarrow> string \<Rightarrow> 'st server \<Rightarrow>
     ('st server \<times> string option \<times> int) option" where
  "get_SDP_descr cfg t ce junk which extended url sv =
    do {
      (sv1, i, res) \<leftarrow> sv_enum ce junk url sv;
      case i of
        None \<Rightarrow> Some (sv1, None, res)
      | Some i \<Rightarrow>
          (let d = sd_list sv1 ! i; l = me_list d; head = sdp_head cfg t d
           in case search_media (zero_media\<lparr>description := zero_descr\<lparr>d_flags := MED_PRIORITY, priority := 1\<rparr>\<rparr>) l of
                None \<Rightarrow> do { s \<leftarrow> descr_text head; Some (sv1, Some s, ERR_PARSE) }
              | Some k \<Rightarrow>
                  let head' = head @ sdp_control url (l ! k)
                  in if extended then do {
                       s \<leftarrow> descr_text (head' @ concat (map (sdp_medium d True url) l));
                       Some (sv1, Some s, ERR_NOERROR)
                     }
                     else do {
                       w \<leftarrow> which;
                       text \<leftarrow> sdp_aggregate d url (l ! w) head';
                       s \<leftarrow> descr_text text;
                       Some (sv1, Some s, ERR_NOERROR)
                     })
    }"

text \<open>A request without a file name is described by all media. The description is \<open>None\<close> where the caller's array
  is not written.\<close>

definition get_media_descr ::
    "config \<Rightarrow> int \<Rightarrow> catalog_env \<Rightarrow> sd_scan \<Rightarrow> string \<Rightarrow> 'st media_entry \<Rightarrow> 'st server \<Rightarrow>
     ('st server \<times> string option \<times> int) option" where
  "get_media_descr cfg t ce junk object req sv =
    (if \<not> has_flag (me_flags req) ME_DESCR_FORMAT then Some (sv, None, ERR_INPUT_PARAM)
     else do {
       ext \<leftarrow> strchr object (CHR ''.'');
       if \<not> strcaseeq ext ''.SD'' then Some (sv, None, ERR_NOT_SD)
       else do {
         (sv1, i, res) \<leftarrow> sv_enum ce junk object sv;
         case i of
           None \<Rightarrow> Some (sv1, None, res)
         | Some i \<Rightarrow>
             let l = me_list (sd_list sv1 ! i)
             in if l = [] then Some (sv1, None, ERR_GENERIC)
                else if media_is_empty (Some req) then get_SDP_descr cfg t ce junk (Some 0) True object sv1
                else do {
                  (sv2, s, r) \<leftarrow> get_SDP_descr cfg t ce junk (fst (get_media_entry (Some req) l)) False object sv1;
                  Some (sv2, s, if r = ERR_GENERIC then ERR_GENERIC else ERR_NOERROR)
                }
       }
     })"

section \<open>The description of an aggregate never ends\<close>

text \<open>C38: the description of a medium that belongs to an aggregate of its presentation does not come to an end: the
  search for the next member of the aggregate takes no notice of which members have been described, and finds the
  first one again and again.\<close>

theorem aggregate_never_ends:
  assumes "p \<in> set (me_list d)" and "\<forall>q \<in> set (me_list d). aggregate q = aggregate p \<longrightarrow> has_flag (me_flags q) ME_AGGREGATE"
  shows "sdp_aggregate d url p acc = None"
proof (cases "sdp_aggregate d url p acc")
  case (Some r)
  let ?P = "\<lambda>d' (u :: string) q (acc :: string) (r :: string). d' = d \<and> q \<in> set (me_list d) \<and> aggregate q = aggregate p \<longrightarrow> False"
  have "?P d url p acc r"
  proof (rule sdp_aggregate.raw_induct [OF _ Some, of ?P], goal_cases)
    case (1 rec d' url q acc r)
    show ?case
    proof
      assume q: "d' = d \<and> q \<in> set (me_list d) \<and> aggregate q = aggregate p"
      have m: "media_matches (req_aggregate (aggregate q)) x \<longleftrightarrow> aggregate x = aggregate q" for x :: "'a media_entry"
        by (simp add: media_matches_def Let_def req_aggregate_def zero_media_def zero_descr_def has_flag_def
            me_flag_defs med_flag_defs)
      obtain j where j: "search_media (req_aggregate (aggregate q)) (me_list d) = Some j"
        using q m [of q] by (cases "search_media (req_aggregate (aggregate q)) (me_list d)")
          (auto simp: search_media_def find_None_iff in_set_conv_nth)
      then have "j < length (me_list d)" "aggregate (me_list d ! j) = aggregate p"
        using q m by (auto simp: search_media_def find_Some_iff)
      moreover have "rec d' url (me_list d ! j) (acc @ sdp_medium d' False url q) = Some r"
        using 1(2) q assms(2) j by (simp add: Let_def)
      ultimately show False using 1(1) [of d' url "me_list d ! j"] q by auto
    qed
  qed
  then show ?thesis using assms(1) by simp
qed

lemma aggregate_never_ends_witness:
  "sdp_aggregate (zero_SD_descr\<lparr>me_list := [zero_media\<lparr>me_flags := ME_AGGREGATE, aggregate := ''a'', me_filename := ''f''\<rparr>]\<rparr>) ''x.sd''
     (zero_media\<lparr>me_flags := ME_AGGREGATE, aggregate := ''a'', me_filename := ''f''\<rparr> :: nat media_entry) [] = None"
  by (rule aggregate_never_ends) (auto simp: has_flag_def me_flag_defs)

end
