(* ===== verification/Adaptation.thy ===== *)
theory Adaptation
  imports Server_State
begin

text \<open>
  The adaptation of a stream to the receiver's reports (\<^verbatim>\<open>intnet/\<close>): what the last report asks for
  (\<^verbatim>\<open>change_check.c\<close>), and the change to another medium of the presentation
  (\<^verbatim>\<open>stream_change.c\<close>, \<^verbatim>\<open>stream_switch.c\<close>, the steps along the bit rates
  \<^verbatim>\<open>downgrade_*.c\<close>, \<^verbatim>\<open>half_*.c\<close>, \<^verbatim>\<open>upgrade_*.c\<close> and along the priorities
  \<^verbatim>\<open>priority_*.c\<close>). The fall-through chains of the code's \<open>switch\<close> statements are searches along a
  ladder of bit rates.
\<close>

section \<open>What the report asks for\<close>

definition change_check :: "RTP_session \<Rightarrow> RTP_session \<times> int" where
  "change_check s =
    (let res = RTCP_get_RR_received s
     in if res = PreviousCount s then (s, 0)
        else
          (s\<lparr>PreviousCount := res\<rparr>,
           if RTCP_get_fract_lost s > 3 / 100 then - 2
           else if RTCP_get_jitter s > 10 then - 1
           else if RTCP_get_fract_lost s < 2 / 100 \<and> RTCP_get_jitter s < 10 then 1
           else 0))"

section \<open>Changing the medium\<close>

text \<open>\<open>stream_switch\<close>: the descriptor of the old medium is closed, the new one takes over its buffer, and the session
  points to the catalogue's entry from now on.\<close>

definition stream_switch :: "nat \<Rightarrow> media_ptr \<Rightarrow> 'st server \<Rightarrow> ('st server \<times> int) option" where
  "stream_switch a new sv =
    do {
      c \<leftarrow> rtp_heap sv a;
      m \<leftarrow> get_entry (media_at c) sv;
      let sv1 = put_entry (media_at c) (m\<lparr>me_flags := clear_flag (me_flags m) ME_FD\<rparr>) sv;
      Some (put_cell a (c\<lparr>media_at := new\<rparr>) (sv1\<lparr>buf_of := (buf_of sv)(new := buf_of sv (media_at c))\<rparr>), ERR_NOERROR)
    }"

text \<open>The media a session can change to: those of its presentation, read again if its file has changed. When that
  fails, the presentation is freed memory.\<close>

definition presentation ::
    "catalog_env \<Rightarrow> sd_scan \<Rightarrow> string \<Rightarrow> 'st server \<Rightarrow> ('st server \<times> 'st media_entry list) option" where
  "presentation ce junk object sv =
    (case sv_enum ce junk object sv of
       Some (sv', Some i, _) \<Rightarrow> Some (sv', me_list (sd_list sv' ! i))
     | _ \<Rightarrow> None)"

definition req_priority :: "int \<Rightarrow> 'st media_entry" where
  "req_priority n = zero_media\<lparr>description := zero_descr\<lparr>d_flags := MED_PRIORITY, priority := n\<rparr>\<rparr>"

definition req_bitrate :: "string \<Rightarrow> int \<Rightarrow> 'st media_entry" where
  "req_bitrate enc n = zero_media\<lparr>description := zero_descr\<lparr>d_flags := or MED_BITRATE MED_ENCODING_NAME,
     encoding_name := enc, bitrate := n\<rparr>\<rparr>"

definition entry_at :: "string \<Rightarrow> nat \<Rightarrow> 'st server \<Rightarrow> media_ptr" where
  "entry_at object i sv = Entry object (epochs sv object) i"

text \<open>The session's record and medium when the functions of this directory start.\<close>

definition session_medium :: "nat \<Rightarrow> 'st server \<Rightarrow> (rtp_cell \<times> 'st media_entry) option" where
  "session_medium a sv = do { c \<leftarrow> rtp_heap sv a; m \<leftarrow> get_entry (media_at c) sv; Some (c, m) }"

definition set_reached :: "bool \<Rightarrow> int \<Rightarrow> rtp_cell \<Rightarrow> rtp_cell" where
  "set_reached least v c = c\<lparr>rtp := (if least then (rtp c)\<lparr>MinimumReached := v\<rparr> else (rtp c)\<lparr>MaximumReached := v\<rparr>)\<rparr>"

definition priority_decrease :: "catalog_env \<Rightarrow> sd_scan \<Rightarrow> nat \<Rightarrow> 'st server \<Rightarrow> ('st server \<times> int) option" where
  "priority_decrease ce junk a sv =
    do {
      c0 \<leftarrow> rtp_heap sv a;
      let object = rtp_sd_filename (rtp c0);
      (sv1, l) \<leftarrow> presentation ce junk object sv;
      (c, m) \<leftarrow> session_medium a sv1;
      case search_media (req_priority (priority (description m) + 1)) l of
        Some i \<Rightarrow> stream_switch a (entry_at object i sv1) sv1
      | None \<Rightarrow> Some (put_cell a (set_reached True 1 c) sv1, ERR_NOERROR)
    }"

definition priority_increase :: "catalog_env \<Rightarrow> sd_scan \<Rightarrow> nat \<Rightarrow> 'st server \<Rightarrow> ('st server \<times> int) option" where
  "priority_increase ce junk a sv =
    do {
      c0 \<leftarrow> rtp_heap sv a;
      let object = rtp_sd_filename (rtp c0);
      (sv1, l) \<leftarrow> presentation ce junk object sv;
      (c, m) \<leftarrow> session_medium a sv1;
      if priority (description m) \<noteq> 1
      then (case search_media (req_priority (priority (description m) - 1)) l of
              Some i \<Rightarrow> stream_switch a (entry_at object i sv1) sv1
            | None \<Rightarrow> Some (sv1, ERR_GENERIC))
      else Some (put_cell a (set_reached False 1 c) sv1, ERR_NOERROR)
    }"

text \<open>The bit rates of the two audio formats, the best first.\<close>

definition mp3_ladder :: "int list" where
  "mp3_ladder = [448000, 416000, 384000, 352000, 320000, 288000, 256000, 224000, 192000, 176000, 160000, 144000,
     128000, 112000, 96000, 80000, 64000, 56000, 48000, 40000, 32000, 24000, 16000, 8000]"

definition gsm_ladder :: "int list" where
  "gsm_ladder = [12200, 10200, 7950, 7400, 6700, 5900, 5150, 4750]"

text \<open>The steps a chain starting behind a bit rate tries, in order. A bit rate without a label has none.\<close>

definition after :: "int \<Rightarrow> int list \<Rightarrow> int list" where
  "after r l = drop 1 (dropWhile (\<lambda>x. x \<noteq> r) l)"

definition from_rate :: "int \<Rightarrow> int list \<Rightarrow> int list" where
  "from_rate r l = dropWhile (\<lambda>x. x \<noteq> r) l"

text \<open>Division of a bit rate by two, as C does it.\<close>

definition half_of :: "int \<Rightarrow> int" where
  "half_of b = (if b < 0 then - ((- b) div 2) else b div 2)"

definition half_mp3_rate :: "int \<Rightarrow> int" where
  "half_mp3_rate b =
    (case map_of [(208000, 224000), (88000, 96000), (72000, 80000), (28000, 32000), (20000, 24000), (12000, 16000)] (half_of b) of
       Some r \<Rightarrow> r | None \<Rightarrow> half_of b)"

definition half_gsm_rate :: "int \<Rightarrow> int" where
  "half_gsm_rate b = (case map_of [(6100, 6700), (5100, 5150)] (half_of b) of Some r \<Rightarrow> r | None \<Rightarrow> 4750)"

definition first_offered :: "string \<Rightarrow> int list \<Rightarrow> 'st media_entry list \<Rightarrow> nat option" where
  "first_offered enc rates l =
    (case find (\<lambda>r. search_media (req_bitrate enc r) l \<noteq> None) rates of
       Some r \<Rightarrow> search_media (req_bitrate enc r) l
     | None \<Rightarrow> None)"

text \<open>What the five chains share: read the presentation, try the steps, and go on to the priorities when no step is
  offered.\<close>

definition climb ::
    "catalog_env \<Rightarrow> sd_scan \<Rightarrow> string \<Rightarrow> (int \<Rightarrow> int list) \<Rightarrow>
     (catalog_env \<Rightarrow> sd_scan \<Rightarrow> nat \<Rightarrow> 'st server \<Rightarrow> ('st server \<times> int) option) \<Rightarrow>
     nat \<Rightarrow> 'st server \<Rightarrow> ('st server \<times> int) option" where
  "climb ce junk enc rates otherwise a sv =
    do {
      c0 \<leftarrow> rtp_heap sv a;
      let object = rtp_sd_filename (rtp c0);
      (sv1, l) \<leftarrow> presentation ce junk object sv;
      (c, m) \<leftarrow> session_medium a sv1;
      case first_offered enc (rates (bitrate (description m))) l of
        Some i \<Rightarrow> stream_switch a (entry_at object i sv1) sv1
      | None \<Rightarrow> otherwise ce junk a sv1
    }"

definition downgrade_MP3 :: "catalog_env \<Rightarrow> sd_scan \<Rightarrow> nat \<Rightarrow> 'st server \<Rightarrow> ('st server \<times> int) option" where
  "downgrade_MP3 ce junk = climb ce junk ''MPA'' (\<lambda>b. after b mp3_ladder) priority_decrease"

definition downgrade_GSM :: "catalog_env \<Rightarrow> sd_scan \<Rightarrow> nat \<Rightarrow> 'st server \<Rightarrow> ('st server \<times> int) option" where
  "downgrade_GSM ce junk = climb ce junk ''GSM'' (\<lambda>b. after b gsm_ladder) priority_decrease"

definition downgrade_L16 :: "catalog_env \<Rightarrow> sd_scan \<Rightarrow> nat \<Rightarrow> 'st server \<Rightarrow> ('st server \<times> int) option" where
  "downgrade_L16 ce junk = priority_decrease ce junk"

definition upgrade_MP3 :: "catalog_env \<Rightarrow> sd_scan \<Rightarrow> nat \<Rightarrow> 'st server \<Rightarrow> ('st server \<times> int) option" where
  "upgrade_MP3 ce junk = climb ce junk ''MPA'' (\<lambda>b. after b (rev mp3_ladder)) priority_increase"

definition upgrade_GSM :: "catalog_env \<Rightarrow> sd_scan \<Rightarrow> nat \<Rightarrow> 'st server \<Rightarrow> ('st server \<times> int) option" where
  "upgrade_GSM ce junk = climb ce junk ''GSM'' (\<lambda>b. after b (rev gsm_ladder)) priority_increase"

definition half_MP3 :: "catalog_env \<Rightarrow> sd_scan \<Rightarrow> nat \<Rightarrow> 'st server \<Rightarrow> ('st server \<times> int) option" where
  "half_MP3 ce junk =
     climb ce junk ''MPA'' (\<lambda>b. from_rate (half_mp3_rate b) (from_rate 224000 mp3_ladder)) priority_decrease"

definition half_GSM :: "catalog_env \<Rightarrow> sd_scan \<Rightarrow> nat \<Rightarrow> 'st server \<Rightarrow> ('st server \<times> int) option" where
  "half_GSM ce junk =
     climb ce junk ''GSM'' (\<lambda>b. if b = 4750 then [] else from_rate (half_gsm_rate b) [6700, 5900, 5150, 4750]) priority_decrease"

definition half_L16 :: "catalog_env \<Rightarrow> sd_scan \<Rightarrow> nat \<Rightarrow> 'st server \<Rightarrow> ('st server \<times> int) option" where
  "half_L16 ce junk = priority_decrease ce junk"

definition stream_change :: "catalog_env \<Rightarrow> sd_scan \<Rightarrow> nat \<Rightarrow> int \<Rightarrow> 'st server \<Rightarrow> ('st server \<times> int) option" where
  "stream_change ce junk a v sv =
    do {
      (c, m) \<leftarrow> session_medium a sv;
      let enc = encoding_name (description m);
      if v = - 1 \<and> MinimumReached (rtp c) \<noteq> 1
      then (let sv1 = put_cell a (set_reached False 0 c) sv
            in if enc = ''MPA'' then downgrade_MP3 ce junk a sv1
               else if enc = ''GSM'' then downgrade_GSM ce junk a sv1
               else if enc = ''L16'' then downgrade_L16 ce junk a sv1
               else Some (sv1, ERR_NOERROR))
      else if v = 1 \<and> MaximumReached (rtp c) \<noteq> 1
      then (let sv1 = put_cell a (set_reached True 0 c) sv
            in if enc = ''MPA'' then upgrade_MP3 ce junk a sv1
               else if enc = ''GSM'' then upgrade_GSM ce junk a sv1
               else Some (sv1, ERR_NOERROR))
      else if v = - 2 \<and> MinimumReached (rtp c) \<noteq> 1
      then (let sv1 = put_cell a (set_reached False 0 c) sv
            in if enc = ''MPA'' then half_MP3 ce junk a sv1
               else if enc = ''GSM'' then half_GSM ce junk a sv1
               else if enc = ''L16'' then half_L16 ce junk a sv1
               else Some (sv1, ERR_NOERROR))
      else Some (sv, ERR_NOERROR)
    }"

section \<open>The chain finds the nearest bit rate\<close>

lemma matches_bitrate: "media_matches (req_bitrate enc r) p \<longleftrightarrow> bitrate (description p) = r \<and> encoding_name (description p) = enc"
  by (auto simp: media_matches_def Let_def req_bitrate_def has_flag_def zero_media_def zero_descr_def med_flag_defs me_flag_defs)

lemma search_None: "search_media req l = None \<longleftrightarrow> (\<forall>p \<in> set l. \<not> media_matches req p)"
  unfolding search_media_def find_None_iff set_upt all_set_conv_all_nth by auto

lemma search_Some: "search_media req l = Some i \<Longrightarrow> i < length l \<and> media_matches req (l ! i)"
  by (auto simp: search_media_def find_Some_iff)

lemma after_sorted:
  assumes "sorted_wrt R l" and "r \<in> set l" and asym: "\<And>x y. R x y \<Longrightarrow> \<not> R y x"
  shows "after r l = filter (R r) l"
proof -
  from assms(2) obtain xs ys where l: "l = xs @ r # ys" and x: "r \<notin> set xs" by (meson split_list_first)
  have "after r l = ys" using x by (simp add: after_def l dropWhile_append3)
  moreover have "filter (R r) xs = []" using assms(1) asym by (auto simp: l sorted_wrt_append filter_empty_conv)
  moreover have "filter (R r) ys = ys" using assms(1) by (auto simp: l sorted_wrt_append filter_id_conv)
  ultimately show ?thesis using asym by (auto simp: l)
qed

lemma find_SomeD: "find P l = Some r \<Longrightarrow> r \<in> set l \<and> P r"
  by (induction l) (auto split: if_splits)

lemma find_sorted:
  assumes "sorted_wrt R l" and "find P l = Some r" and "x \<in> set l" and "P x" and "x \<noteq> r"
  shows "R r x"
  using assms by (induction l) (auto split: if_splits)

text \<open>The media of a format at the rates that lie on one side of a rate.\<close>

definition rates_beside :: "(int \<Rightarrow> int \<Rightarrow> bool) \<Rightarrow> int \<Rightarrow> int list \<Rightarrow> string \<Rightarrow> 'st media_entry list \<Rightarrow> int set" where
  "rates_beside R b ladder enc l =
     {r \<in> set ladder. R b r \<and> (\<exists>p \<in> set l. encoding_name (description p) = enc \<and> bitrate (description p) = r)}"

lemma first_offered_nearest:
  assumes "sorted_wrt R ladder" and "b \<in> set ladder" and asym: "\<And>x y. R x y \<Longrightarrow> \<not> R y x"
    and some: "rates_beside R b ladder enc l \<noteq> {}"
  obtains i where "first_offered enc (after b ladder) l = Some i" and "i < length l"
    and "encoding_name (description (l ! i)) = enc" and "bitrate (description (l ! i)) \<in> rates_beside R b ladder enc l"
    and "\<forall>x \<in> rates_beside R b ladder enc l. x = bitrate (description (l ! i)) \<or> R (bitrate (description (l ! i))) x"
proof -
  let ?P = "\<lambda>r. search_media (req_bitrate enc r) l \<noteq> None" and ?L = "filter (R b) ladder"
  have eq: "after b ladder = ?L" using after_sorted [OF assms(1,2) asym] .
  have in_L: "x \<in> rates_beside R b ladder enc l \<longleftrightarrow> x \<in> set ?L \<and> ?P x" for x
    by (auto simp: rates_beside_def search_None matches_bitrate)
  have srt: "sorted_wrt R ?L" using assms(1) by (simp add: sorted_wrt_filter)
  obtain r where r: "find ?P ?L = Some r"
    using some in_L by (cases "find ?P ?L") (auto simp: find_None_iff)
  have "r \<in> set ?L" "?P r" using find_SomeD [OF r] by blast+
  then have rm: "r \<in> rates_beside R b ladder enc l" using in_L by blast
  then obtain i where i: "search_media (req_bitrate enc r) l = Some i" using in_L by auto
  have il: "i < length l" "encoding_name (description (l ! i)) = enc" "bitrate (description (l ! i)) = r"
    using search_Some [OF i] by (auto simp: matches_bitrate)
  have "first_offered enc (after b ladder) l = Some i" using r i by (simp add: first_offered_def eq)
  moreover have "\<forall>x \<in> rates_beside R b ladder enc l. x = r \<or> R r x"
    using find_sorted [OF srt r] in_L by blast
  ultimately show ?thesis using that il rm by simp
qed

lemma ladders_sorted: "sorted_wrt (>) mp3_ladder" "sorted_wrt (>) gsm_ladder"
  by (simp_all add: mp3_ladder_def gsm_ladder_def)

lemma downgrade_nearest:
  assumes "rtp_heap sv a = Some c0" and "presentation ce junk (rtp_sd_filename (rtp c0)) sv = Some (sv1, l)"
    and "session_medium a sv1 = Some (c, m)" and "bitrate (description m) \<in> set mp3_ladder"
    and ne: "rates_beside (>) (bitrate (description m)) mp3_ladder ''MPA'' l \<noteq> {}"
  shows "\<exists>i < length l. encoding_name (description (l ! i)) = ''MPA'' \<and>
     bitrate (description (l ! i)) = Max (rates_beside (>) (bitrate (description m)) mp3_ladder ''MPA'' l) \<and>
     downgrade_MP3 ce junk a sv = stream_switch a (entry_at (rtp_sd_filename (rtp c0)) i sv1) sv1"
proof -
  let ?S = "rates_beside (>) (bitrate (description m)) mp3_ladder ''MPA'' l"
  obtain i where i: "first_offered ''MPA'' (after (bitrate (description m)) mp3_ladder) l = Some i" "i < length l"
      "encoding_name (description (l ! i)) = ''MPA''" "bitrate (description (l ! i)) \<in> ?S"
      "\<forall>x \<in> ?S. x = bitrate (description (l ! i)) \<or> bitrate (description (l ! i)) > x"
    using first_offered_nearest [OF ladders_sorted(1) assms(4) _ ne] by auto
  then have "Max ?S = bitrate (description (l ! i))" by (intro Max_eqI) (auto simp: rates_beside_def)
  then show ?thesis using i assms(1-3) by (auto simp: downgrade_MP3_def climb_def)
qed

lemma upgrade_nearest:
  assumes "rtp_heap sv a = Some c0" and "presentation ce junk (rtp_sd_filename (rtp c0)) sv = Some (sv1, l)"
    and "session_medium a sv1 = Some (c, m)" and "bitrate (description m) \<in> set mp3_ladder"
    and ne: "rates_beside (<) (bitrate (description m)) mp3_ladder ''MPA'' l \<noteq> {}"
  shows "\<exists>i < length l. encoding_name (description (l ! i)) = ''MPA'' \<and>
     bitrate (description (l ! i)) = Min (rates_beside (<) (bitrate (description m)) mp3_ladder ''MPA'' l) \<and>
     upgrade_MP3 ce junk a sv = stream_switch a (entry_at (rtp_sd_filename (rtp c0)) i sv1) sv1"
proof -
  let ?S = "rates_beside (<) (bitrate (description m)) mp3_ladder ''MPA'' l"
  have same: "rates_beside (<) (bitrate (description m)) (rev mp3_ladder) ''MPA'' l = ?S"
    by (simp add: rates_beside_def)
  have srt: "sorted_wrt (<) (rev mp3_ladder)" using ladders_sorted(1) by (simp add: sorted_wrt_rev)
  obtain i where i: "first_offered ''MPA'' (after (bitrate (description m)) (rev mp3_ladder)) l = Some i" "i < length l"
      "encoding_name (description (l ! i)) = ''MPA''" "bitrate (description (l ! i)) \<in> ?S"
      "\<forall>x \<in> ?S. x = bitrate (description (l ! i)) \<or> bitrate (description (l ! i)) < x"
    using first_offered_nearest [OF srt _ _ ne [folded same], unfolded same] assms(4) by auto
  then have "Min ?S = bitrate (description (l ! i))" by (intro Min_eqI) (auto simp: rates_beside_def)
  then show ?thesis using i assms(1-3) by (auto simp: upgrade_MP3_def climb_def)
qed

text \<open>C26: the fall-through chain of \<open>downgrade_MP3\<close> (and, on the same ladder backwards, of \<open>upgrade_MP3\<close>) is the choice of
  a best element: the session changes to an MPEG audio medium of its presentation with the highest standard bit rate
  below its own, and in the other direction to one with the lowest above it.\<close>

theorem rate_change_nearest:
  assumes "rtp_heap sv a = Some c0" and "presentation ce junk (rtp_sd_filename (rtp c0)) sv = Some (sv1, l)"
    and "session_medium a sv1 = Some (c, m)" and "bitrate (description m) \<in> set mp3_ladder"
  defines "lower \<equiv> rates_beside (>) (bitrate (description m)) mp3_ladder ''MPA'' l"
    and "higher \<equiv> rates_beside (<) (bitrate (description m)) mp3_ladder ''MPA'' l"
    and "switch \<equiv> \<lambda>i. stream_switch a (entry_at (rtp_sd_filename (rtp c0)) i sv1) sv1"
  shows "(lower \<noteq> {} \<longrightarrow> (\<exists>i < length l. encoding_name (description (l ! i)) = ''MPA'' \<and>
           bitrate (description (l ! i)) = Max lower \<and> downgrade_MP3 ce junk a sv = switch i)) \<and>
         (higher \<noteq> {} \<longrightarrow> (\<exists>i < length l. encoding_name (description (l ! i)) = ''MPA'' \<and>
           bitrate (description (l ! i)) = Min higher \<and> upgrade_MP3 ce junk a sv = switch i))"
  using downgrade_nearest [OF assms(1-4)] upgrade_nearest [OF assms(1-4)] unfolding lower_def higher_def switch_def by blast


text \<open>A session that plays the middle one of three MPEG audio media.\<close>

definition mp3_medium :: "int \<Rightarrow> nat media_entry" where
  "mp3_medium b = zero_media\<lparr>me_flags := ME_FILENAME, description := zero_descr\<lparr>encoding_name := ''MPA'', bitrate := b\<rparr>\<rparr>"

definition three_rates :: "nat media_entry list" where
  "three_rates = [mp3_medium 320000, mp3_medium 128000, mp3_medium 64000]"

definition rates_server :: "OMSConsumer \<Rightarrow> nat server" where
  "rates_server cs = \<lparr>sd_list = [zero_SD_descr\<lparr>sd_filename := ''x.sd'', last_change := 7, me_list := three_rates\<rparr>],
     epochs = (\<lambda>_. 0), retired = (\<lambda>_. None), own_media = (\<lambda>_. None), buf_of = (\<lambda>_. None), buffers = (\<lambda>_. None),
     rtp_heap = [0 \<mapsto> \<lparr>rtp = (zero_session cs)\<lparr>rtp_sd_filename := ''x.sd''\<rparr>, cons_buf = None,
                     media_at = Entry ''x.sd'' 0 1, sd_of = ''x.sd''\<rparr>],
     next_addr = 1, sched = [], client_count = 0, port_pool = RTP_port_pool_init 5000, num_conn = 0\<rparr>"

lemma rates_presentation:
  "presentation demo_env demo_scan ''x.sd'' (rates_server cs) = Some (rates_server cs, three_rates)"
  by (simp add: presentation_def sv_enum_def enum_media_def parse_SD_file_def Let_def rates_server_def demo_env_def
      three_rates_def find_descr_def)

lemma rate_change_nearest_witness:
  "downgrade_MP3 demo_env demo_scan 0 (rates_server sample_consumer) = stream_switch 0 (Entry ''x.sd'' 0 2) (rates_server sample_consumer) \<and>
   upgrade_MP3 demo_env demo_scan 0 (rates_server sample_consumer) = stream_switch 0 (Entry ''x.sd'' 0 0) (rates_server sample_consumer)"
proof -
  let ?sv = "rates_server sample_consumer" and ?m = "mp3_medium 128000"
  obtain c where h: "rtp_heap ?sv 0 = Some c" "rtp_sd_filename (rtp c) = ''x.sd''" "media_at c = Entry ''x.sd'' 0 1"
    by (simp add: rates_server_def)
  have g: "get_entry (Entry ''x.sd'' 0 1) ?sv = Some ?m"
    by (simp add: get_entry_def rates_server_def find_descr_def three_rates_def)
  have p: "presentation demo_env demo_scan (rtp_sd_filename (rtp c)) ?sv = Some (?sv, three_rates)"
    using rates_presentation by (simp add: h(2))
  have sm: "session_medium 0 ?sv = Some (c, ?m)"
    by (simp add: session_medium_def h g [unfolded One_nat_def])
  have b: "bitrate (description ?m) = 128000" "(128000 :: int) \<in> set mp3_ladder" by (simp_all add: mp3_medium_def mp3_ladder_def)
  have lo: "rates_beside (>) 128000 mp3_ladder ''MPA'' three_rates = {64000}"
    and hi: "rates_beside (<) 128000 mp3_ladder ''MPA'' three_rates = {320000}"
    by (auto simp: rates_beside_def three_rates_def mp3_medium_def mp3_ladder_def)
  have ix: "i < length three_rates \<Longrightarrow> bitrate (description (three_rates ! i)) = 64000 \<longleftrightarrow> i = 2"
    "i < length three_rates \<Longrightarrow> bitrate (description (three_rates ! i)) = 320000 \<longleftrightarrow> i = 0" for i
    by (auto simp: three_rates_def mp3_medium_def less_Suc_eq numeral_2_eq_2)
  have e: "entry_at ''x.sd'' i ?sv = Entry ''x.sd'' 0 i" for i by (simp add: entry_at_def rates_server_def)
  show ?thesis
    using rate_change_nearest [OF h(1) p sm] ix by (auto simp: b lo hi h(2) e)
qed

end
