(* ===== verification/Scheduler.thy ===== *)
theory Scheduler
  imports Adaptation
begin

text \<open>
  The thread that sends the packets (\<^verbatim>\<open>schedule/schedule_do.c\<close>): one visit of an entry of the table, the
  pass over the table, and what they leave alone. Each visit has its own answers of the clock and of the system.
\<close>

section \<open>A visit\<close>

record 'st sched_env =
  rtcp_out :: rtcp_env
  shm :: shm_env
  send_sys :: "int \<Rightarrow> uint8 list \<Rightarrow> int"
  can_write :: "bool option"
  readers :: "media_file_type \<Rightarrow> 'st reader option"
  cat_env :: catalog_env
  cat_scan :: sd_scan
  close_ret :: int

abbreviation env_clock :: "'st sched_env \<Rightarrow> timeval" where
  "env_clock env \<equiv> clock (rtcp_out env)"

text \<open>A medium without a handler makes the reader call follow a null pointer.\<close>

definition reader_of :: "'st sched_env \<Rightarrow> 'st media_entry \<Rightarrow> 'st reader option" where
  "reader_of env m = (case media_handler m of Some f \<Rightarrow> readers env f | None \<Rightarrow> Some (\<lambda>_ _. None))"

text \<open>What the result of \<open>play_action\<close> leads to.\<close>

definition after_packet :: "'st sched_env \<Rightarrow> nat \<Rightarrow> int \<Rightarrow> 'st media_entry \<Rightarrow> 'st server \<Rightarrow> 'st server option" where
  "after_packet env i res m sv =
    (if res = ERR_EOF
     then (if msource (description m) = live then Some sv else schedule_stop (rtcp_out env) (int i) sv)
     else if res = ERR_ALLOC then schedule_stop (rtcp_out env) (int i) sv
     else Some sv)"

text \<open>A packet is due. The session must consume the buffer its medium has: what happens when two sessions have been
  switched to one catalogue entry, and the second has replaced the first one's buffer, is left out.\<close>

definition play_entry :: "'st sched_env \<Rightarrow> nat \<Rightarrow> nat \<Rightarrow> 'st server \<Rightarrow> ('st server \<times> uint8 list list) option" where
  "play_entry env i a sv =
    do {
      c0 \<leftarrow> rtp_heap sv a;
      (sv1, _) \<leftarrow> stream_change (cat_env env) (cat_scan env) a (snd (change_check (rtp c0)))
                    (put_cell a (c0\<lparr>rtp := fst (change_check (rtp c0))\<rparr>) sv);
      c \<leftarrow> rtp_heap sv1 a;
      m \<leftarrow> load_medium (media_at c) sv1;
      let (s2, w1, _) = RTCP_handler (env_clock env) (host_name (rtcp_out env)) (pad_junk (rtcp_out env))
                          (clock_rate (description m)) (send_sys env) (can_write env) (rtp c);
      if \<not> play_action (sched sv1 ! i) \<or> cons_buf c \<noteq> buf_of sv1 (media_at c) then None
      else do {
        (s3, m3, w2, res) \<leftarrow> RTP_send_packet (shm env) (reader_of env m) (send_sys env) s2 m;
        sv4 \<leftarrow> after_packet env i res m3 (put_cell a (c\<lparr>rtp := s3\<rparr>) (save_medium (media_at c) m3 sv1));
        (c4, m4) \<leftarrow> session_medium a sv4;
        Some (put_cell a (c4\<lparr>rtp := (rtp c4)\<lparr>mprev_tx_time := mprev_tx_time (rtp c4) + pkt_len (description m4)\<rparr>\<rparr>) sv4,
              w1 @ w2)
      }
    }"

text \<open>The entry is not valid any more: its session is destroyed.\<close>

definition destroy_entry :: "'st sched_env \<Rightarrow> nat \<Rightarrow> nat \<Rightarrow> rtp_cell \<Rightarrow> 'st server \<Rightarrow> 'st server option" where
  "destroy_entry env i a c sv =
    do {
      m \<leftarrow> load_medium (media_at c) sv;
      if cons_buf c \<noteq> None \<and> cons_buf c \<noteq> buf_of sv (media_at c) then None
      else do {
        let fl = (case find_descr (sd_of c) sv of Some d \<Rightarrow> sd_flags d | None \<Rightarrow> 0);
        (ports, fl1, _, m1) \<leftarrow> RTP_session_destroy (shm env) (close_ret env) (port_pool sv) fl (cons_buf c \<noteq> None) (rtp c) m;
        let sv1 = save_medium (media_at c) m1 sv;
        Some (sv1\<lparr>port_pool := ports,
                  sd_list := map (\<lambda>d. if sd_filename d = sd_of c then d\<lparr>sd_flags := fl1\<rparr> else d) (sd_list sv1),
                  rtp_heap := (rtp_heap sv)(a := None),
                  sched := (sched sv)[i := (sched sv ! i)\<lparr>sched_session := None\<rparr>]\<rparr>)
      }
    }"

definition schedule_visit :: "'st sched_env \<Rightarrow> nat \<Rightarrow> 'st server \<Rightarrow> ('st server \<times> uint8 list list) option" where
  "schedule_visit env i sv =
    (let e = sched sv ! i
     in if valid e
        then do {
          a \<leftarrow> sched_session e;
          c \<leftarrow> rtp_heap sv a;
          if paused (rtp c) then Some (sv, [])
          else do {
            m \<leftarrow> get_entry (media_at c) sv;
            if mstart m \<le> msec (env_clock env) \<and>
               pkt_len (description m) \<le> msec (env_clock env) - mprev_tx_time (rtp c)
            then play_entry env i a sv
            else Some (sv, [])
          }
        }
        else (case sched_session e of
                None \<Rightarrow> Some (sv, [])
              | Some a \<Rightarrow>
                  do {
                    c \<leftarrow> rtp_heap sv a;
                    if is_multicast_dad (rtp c) then map_option (\<lambda>sv'. (sv', [])) (destroy_entry env i a c sv)
                    else Some (sv, [])
                  }))"

text \<open>The pass over the table; \<open>schedule_do\<close> repeats it while there is a client, and waits otherwise.\<close>

fun visit_all ::
    "(nat \<Rightarrow> 'st sched_env) \<Rightarrow> nat list \<Rightarrow> 'st server \<Rightarrow> ('st server \<times> uint8 list list) option" where
  "visit_all ev [] sv = Some (sv, [])"
| "visit_all ev (i # is) sv =
     do {
       (sv1, w1) \<leftarrow> schedule_visit (ev i) i sv;
       (sv2, w2) \<leftarrow> visit_all ev is sv1;
       Some (sv2, w1 @ w2)
     }"

definition schedule_do :: "(nat \<Rightarrow> 'st sched_env) \<Rightarrow> 'st server \<Rightarrow> ('st server \<times> uint8 list list) option" where
  "schedule_do ev sv =
    (if client_count sv = 0 then Some (sv, []) else visit_all ev [0..<ONE_FORK_MAX_CONNECTION] sv)"

section \<open>What the operations leave alone\<close>

text \<open>The scheduler's identification of a session: the value of \<open>sched_id\<close>, when the session is allocated.\<close>

definition ids :: "'st server \<Rightarrow> nat \<Rightarrow> int option" where
  "ids sv a = map_option (\<lambda>c. sched_id (rtp c)) (rtp_heap sv a)"

text \<open>Every medium a session can get hold of can be copied, and each presentation is in the catalogue once.\<close>

definition media_fine :: "'st server \<Rightarrow> bool" where
  "media_fine sv \<longleftrightarrow> catalog_ok copyable (sd_list sv) \<and> (\<forall>a m. own_media sv a = Some m \<longrightarrow> copyable m) \<and>
     (\<forall>k m. retired sv k = Some m \<longrightarrow> copyable m)"

definition quiet :: "'st server \<Rightarrow> 'st server \<Rightarrow> bool" where
  "quiet sv sv' \<longleftrightarrow> sched sv' = sched sv \<and> client_count sv' = client_count sv \<and> ids sv' = ids sv \<and>
     next_addr sv \<le> next_addr sv' \<and> (media_fine sv \<longrightarrow> media_fine sv')"

lemma copyable_cong: "description m' = description m \<Longrightarrow> copyable m' = copyable m"
  by (simp add: copyable_def)

lemma catalog_fine: "catalog_ok copyable l \<Longrightarrow> d \<in> set l \<Longrightarrow> m \<in> set (me_list d) \<Longrightarrow> copyable m"
  by (simp add: catalog_ok_def offers_def)

lemma find_descr_in: "find_descr n sv = Some d \<Longrightarrow> d \<in> set (sd_list sv) \<and> sd_filename d = n"
  by (auto simp: find_descr_def find_Some_iff)

lemma get_entry_fine:
  assumes "media_fine sv" and "get_entry p sv = Some m"
  shows "copyable m"
proof (cases p)
  case (Own a)
  then show ?thesis using assms by (auto simp: media_fine_def get_entry_def)
next
  case (Entry n e i)
  show ?thesis
  proof (cases "e = epochs sv n")
    case True
    then obtain d where d: "find_descr n sv = Some d" "i < length (me_list d)" "m = me_list d ! i"
      using assms(2) Entry by (cases "find_descr n sv") (simp_all add: get_entry_def split: if_split_asm)
    then have "d \<in> set (sd_list sv)" "m \<in> set (me_list d)" using find_descr_in [OF d(1)] by simp_all
    then show ?thesis using assms(1) catalog_fine by (simp add: media_fine_def) blast
  next
    case False
    then show ?thesis using assms Entry by (simp add: media_fine_def get_entry_def)
  qed
qed

lemma load_medium_entry: "load_medium p sv = Some m \<Longrightarrow> \<exists>m0. get_entry p sv = Some m0 \<and> description m = description m0"
  by (auto simp: load_medium_def bind_eq_Some_conv split: option.splits)

lemma load_medium_fine:
  assumes "media_fine sv" and "load_medium p sv = Some m"
  shows "copyable m"
proof -
  obtain m0 where "get_entry p sv = Some m0" "description m = description m0" using load_medium_entry [OF assms(2)] by blast
  then show ?thesis using get_entry_fine [OF assms(1)] copyable_cong by blast
qed

lemma catalog_update:
  assumes "catalog_ok copyable l" and "copyable m"
  shows "catalog_ok copyable (map (\<lambda>d. if sd_filename d = n then d\<lparr>me_list := (me_list d)[i := m]\<rparr> else d) l)"
proof -
  have "map sd_filename (map (\<lambda>d. if sd_filename d = n then d\<lparr>me_list := (me_list d)[i := m]\<rparr> else d) l) = map sd_filename l"
    by (simp add: fun_eq_iff)
  moreover have "copyable x" if "d \<in> set l" "x \<in> set ((me_list d)[i := m])" for d x
    using that assms set_update_subset_insert [of "me_list d" i m] by (auto dest: catalog_fine)
  moreover have "distinct (map sd_filename l)" "\<forall>d \<in> set l. \<forall>x \<in> set (me_list d). copyable x"
    using assms(1) by (simp_all add: catalog_ok_def offers_def)
  ultimately show ?thesis unfolding catalog_ok_def offers_def by (simp del: map_map) (auto split: if_splits)
qed

lemma set_list_fine: "media_fine sv \<Longrightarrow> catalog_ok copyable l \<Longrightarrow> media_fine (sv\<lparr>sd_list := l\<rparr>)"
  by (simp add: media_fine_def)

lemma put_entry_fine: "media_fine sv \<Longrightarrow> copyable m \<Longrightarrow> media_fine (put_entry p m sv)"
  by (auto simp: put_entry_def media_fine_def catalog_update split: media_ptr.split if_splits)

lemma quiet_refl [simp]: "quiet sv sv"
  by (simp add: quiet_def)

lemma quiet_trans [trans]: "quiet a b \<Longrightarrow> quiet b c \<Longrightarrow> quiet a c"
  by (simp add: quiet_def)

lemma ids_Some: "ids sv a = Some i \<longleftrightarrow> (\<exists>c. rtp_heap sv a = Some c \<and> sched_id (rtp c) = i)"
  by (auto simp: ids_def)

lemma quiet_put_entry: "(media_fine sv \<Longrightarrow> copyable m) \<Longrightarrow> quiet sv (put_entry p m sv)"
  using put_entry_fine [of sv m p] by (auto simp: quiet_def put_entry_def ids_def fun_eq_iff split: media_ptr.split)

lemma fine_more [simp]:
  "media_fine (sv\<lparr>buf_of := f\<rparr>) = media_fine sv" "media_fine (sv\<lparr>buffers := g\<rparr>) = media_fine sv"
  "media_fine (sv\<lparr>next_addr := n\<rparr>) = media_fine sv" "media_fine (sv\<lparr>rtp_heap := h\<rparr>) = media_fine sv"
  "media_fine (sv\<lparr>sched := l\<rparr>) = media_fine sv" "media_fine (sv\<lparr>client_count := w\<rparr>) = media_fine sv"
  "media_fine (sv\<lparr>port_pool := q\<rparr>) = media_fine sv" "media_fine (sv\<lparr>num_conn := k\<rparr>) = media_fine sv"
  "media_fine (put_cell a c sv) = media_fine sv"
  by (simp_all add: media_fine_def put_cell_def)

lemma quiet_save_medium:
  assumes "media_fine sv \<Longrightarrow> copyable m"
  shows "quiet sv (save_medium p m sv)"
proof -
  have "media_fine sv \<Longrightarrow> media_fine (put_entry p (m\<lparr>pkt_buffer := None\<rparr>) sv)"
    using assms by (intro put_entry_fine) (simp_all add: copyable_def)
  then have "media_fine sv \<longrightarrow> media_fine (save_medium p m sv)"
    by (auto simp: save_medium_def Let_def split: option.split)
  then show ?thesis
    by (auto simp: quiet_def save_medium_def Let_def ids_def fun_eq_iff put_entry_def split: option.split media_ptr.split)
qed

lemma quiet_put_cell:
  assumes "quiet sv sv'" and "rtp_heap sv' a = Some c0" and "sched_id (rtp c) = sched_id (rtp c0)"
  shows "quiet sv (put_cell a c sv')"
proof -
  have "ids (put_cell a c sv') = ids sv'"
    using assms(2,3) by (auto simp: put_cell_def ids_def fun_eq_iff)
  moreover have "sched (put_cell a c sv') = sched sv'" "client_count (put_cell a c sv') = client_count sv'"
    "next_addr (put_cell a c sv') = next_addr sv'" by (simp_all add: put_cell_def)
  ultimately show ?thesis using assms(1) by (simp add: quiet_def)
qed

lemma heap_put_entry [simp]: "rtp_heap (put_entry p m sv) = rtp_heap sv" "sched (put_entry p m sv) = sched sv"
    "client_count (put_entry p m sv) = client_count sv" "next_addr (put_entry p m sv) = next_addr sv"
  by (simp_all add: put_entry_def split: media_ptr.split)

lemma heap_save_medium [simp]: "rtp_heap (save_medium p m sv) = rtp_heap sv" "sched (save_medium p m sv) = sched sv"
    "client_count (save_medium p m sv) = client_count sv"
  by (simp_all add: save_medium_def Let_def split: option.split)

lemma next_save_medium [simp]: "next_addr sv \<le> next_addr (save_medium p m sv)"
  by (simp add: save_medium_def Let_def split: option.split)

lemma quiet_enum:
  assumes "sv_enum ce junk object sv = Some (sv', i, res)"
  shows "quiet sv sv' \<and> rtp_heap sv' = rtp_heap sv"
proof -
  obtain l where l: "enum_media ce junk object (sd_list sv) = Some (l, i, res)" and sl: "sd_list sv' = l"
    using assms by (auto simp: sv_enum_def Let_def split: option.splits prod.splits if_splits)
  have rest: "sched sv' = sched sv" "client_count sv' = client_count sv" "rtp_heap sv' = rtp_heap sv" "next_addr sv' = next_addr sv"
      "own_media sv' = own_media sv"
    using assms by (auto simp: sv_enum_def Let_def split: option.splits prod.splits if_splits)
  have old: "copyable ((case find_descr object sv of Some d \<Rightarrow> me_list d | None \<Rightarrow> []) ! k)"
    if "k < length (case find_descr object sv of Some d \<Rightarrow> me_list d | None \<Rightarrow> [])" "media_fine sv" for k
  proof (cases "find_descr object sv")
    case (Some d)
    then have d: "d \<in> set (sd_list sv)" "me_list d ! k \<in> set (me_list d)" using that find_descr_in [OF Some] by simp_all
    have "copyable (me_list d ! k)" using that(2) catalog_fine [OF _ d] by (simp add: media_fine_def)
    then show ?thesis by (simp add: Some)
  qed (use that in simp)
  have "media_fine sv'" if f: "media_fine sv"
  proof -
    have "catalog_ok copyable l"
      using f enum_ok [OF _ l, of copyable] by (auto simp: media_fine_def playable_def)
    moreover have "copyable m" if r: "retired sv' k = Some m" for k m
    proof -
      let ?l = "case find_descr object sv of Some d \<Rightarrow> me_list d | None \<Rightarrow> []"
      have "retired sv' = retired sv \<or> retired sv' = (\<lambda>(n, e', k).
          if n = object \<and> e' = epochs sv object \<and> k < length ?l then Some (?l ! k) else retired sv (n, e', k))"
        using assms l by (simp only: sv_enum_def Let_def option.case prod.case) (auto split: if_split_asm)
      then have "retired sv k = Some m \<or> snd (snd k) < length ?l \<and> m = ?l ! snd (snd k)"
        using r by (auto split: prod.split_asm if_split_asm simp del: not_less)
      then show ?thesis using f old [OF _ f] by (auto simp: media_fine_def simp del: split_paired_All)
    qed
    ultimately show ?thesis using f by (simp add: media_fine_def sl rest)
  qed
  then show ?thesis by (simp add: quiet_def ids_def rest fun_eq_iff)
qed

lemma quiet_presentation: "presentation ce junk object sv = Some (sv', l) \<Longrightarrow> quiet sv sv' \<and> rtp_heap sv' = rtp_heap sv"
  by (auto simp: presentation_def split: option.splits prod.splits dest: quiet_enum)

lemma quiet_switch:
  assumes "stream_switch a p sv = Some (sv', r)"
  shows "quiet sv sv'"
proof -
  obtain c m where c: "rtp_heap sv a = Some c" "get_entry (media_at c) sv = Some m" and
    sv': "sv' = put_cell a (c\<lparr>media_at := p\<rparr>) ((put_entry (media_at c) (m\<lparr>me_flags := clear_flag (me_flags m) ME_FD\<rparr>) sv)
            \<lparr>buf_of := (buf_of sv)(p := buf_of sv (media_at c))\<rparr>)"
    using assms by (auto simp: stream_switch_def Let_def split: Option.bind_split_asm)
  have "quiet sv (put_entry (media_at c) (m\<lparr>me_flags := clear_flag (me_flags m) ME_FD\<rparr>) sv)"
    using get_entry_fine [OF _ c(2)] by (intro quiet_put_entry) (simp add: copyable_def)
  then have "quiet sv ((put_entry (media_at c) (m\<lparr>me_flags := clear_flag (me_flags m) ME_FD\<rparr>) sv)
            \<lparr>buf_of := (buf_of sv)(p := buf_of sv (media_at c))\<rparr>)" (is "quiet sv ?sv1") by (simp add: quiet_def ids_def fun_eq_iff)
  moreover have "rtp_heap ?sv1 a = Some c" by (simp add: c(1))
  ultimately have "quiet sv (put_cell a (c\<lparr>media_at := p\<rparr>) ?sv1)" by (rule quiet_put_cell) simp
  then show ?thesis by (simp add: sv')
qed

lemma set_reached_id [simp]: "sched_id (rtp (set_reached b v c)) = sched_id (rtp c)"
  by (simp add: set_reached_def)

lemma session_medium_cell: "session_medium a sv = Some (c, m) \<Longrightarrow> rtp_heap sv a = Some c"
  by (auto simp: session_medium_def bind_eq_Some_conv)

lemma quiet_priority:
  "priority_decrease ce junk a sv = Some (sv', r) \<Longrightarrow> quiet sv sv'"
  "priority_increase ce junk a sv = Some (sv', r) \<Longrightarrow> quiet sv sv'"
  by (auto simp: priority_decrease_def priority_increase_def bind_eq_Some_conv Let_def split: option.splits if_splits
      dest!: quiet_presentation quiet_switch session_medium_cell intro: quiet_trans quiet_put_cell)

lemma quiet_climb:
  assumes "climb ce junk enc rates other a sv = Some (sv', r)"
    and "\<And>sv1. other ce junk a sv1 = Some (sv', r) \<Longrightarrow> quiet sv1 sv'"
  shows "quiet sv sv'"
  using assms(1) by (auto simp: climb_def bind_eq_Some_conv Let_def split: option.splits
      dest!: quiet_presentation quiet_switch assms(2) intro: quiet_trans)

lemma quiet_chains:
  "downgrade_MP3 ce junk a sv = Some (sv', r) \<Longrightarrow> quiet sv sv'" "downgrade_GSM ce junk a sv = Some (sv', r) \<Longrightarrow> quiet sv sv'"
  "upgrade_MP3 ce junk a sv = Some (sv', r) \<Longrightarrow> quiet sv sv'" "upgrade_GSM ce junk a sv = Some (sv', r) \<Longrightarrow> quiet sv sv'"
  "half_MP3 ce junk a sv = Some (sv', r) \<Longrightarrow> quiet sv sv'" "half_GSM ce junk a sv = Some (sv', r) \<Longrightarrow> quiet sv sv'"
  "downgrade_L16 ce junk a sv = Some (sv', r) \<Longrightarrow> quiet sv sv'" "half_L16 ce junk a sv = Some (sv', r) \<Longrightarrow> quiet sv sv'"
  by (auto simp: downgrade_MP3_def downgrade_GSM_def upgrade_MP3_def upgrade_GSM_def half_MP3_def half_GSM_def
      downgrade_L16_def half_L16_def elim!: quiet_climb intro: quiet_priority)

lemma quiet_change:
  assumes "stream_change ce junk a v sv = Some (sv', r)"
  shows "quiet sv sv'"
proof -
  from assms obtain c m where c: "session_medium a sv = Some (c, m)" by (auto simp: stream_change_def bind_eq_Some_conv)
  have q: "quiet sv (put_cell a (set_reached b x c) sv)" for b x
    using session_medium_cell [OF c] by (auto intro: quiet_put_cell)
  from assms c show ?thesis
    by (auto simp: stream_change_def Let_def split: if_splits dest!: quiet_chains intro: quiet_trans [OF q] q)
qed

section \<open>A session keeps its place in the table\<close>

lemma change_check_id [simp]: "sched_id (fst (change_check s)) = sched_id s"
  by (simp add: change_check_def Let_def)

lemma append_out_id [simp]: "sched_id (append_out p s) = sched_id s"
  by (simp add: append_out_def Let_def)

lemma rtcp_send_id [simp]: "sched_id (fst (RTCP_send_packet now h j r s t)) = sched_id s"
  by (simp add: RTCP_send_packet_def split: option.split)

lemma rtcp_queue_id [simp]: "sched_id (rtcp_queue env m s t) = sched_id s"
  by (simp add: rtcp_queue_def)

lemma rtcp_handler_id: "RTCP_handler now h j rate sys ready s = (s', out, r) \<Longrightarrow> sched_id s' = sched_id s"
  by (auto simp: RTCP_handler_def Let_def split: if_splits option.splits prod.splits)

lemma send_slots_id:
  assumes "send_slots e sys st s me b slot wire = Some r"
  shows "sched_id (fst r) = sched_id s"
proof (rule send_slots.raw_induct [OF _ assms, of "\<lambda>e sys st s me b slot wire r. sched_id (fst r) = sched_id s"], goal_cases)
  case (1 send_slots e sys st s me b slot wire r)
  show ?case
  proof (cases slot)
    case None
    with 1(2) show ?thesis by auto
  next
    case (Some i)
    define s1 where "s1 = (if fst (RTP_sendto sys s rtp_proto (rtp_packet s me (slot_at b i))) < 0 then s
       else s\<lparr>server_stats := (server_stats s)\<lparr>pkt_count := pkt_count (server_stats s) + 1,
                octet_count := octet_count (server_stats s) + data_size (slot_at b i)\<rparr>\<rparr>)"
    have "sched_id s1 = sched_id s" by (simp add: s1_def)
    moreover from 1(2) Some obtain c me2 b2 n w where
      "send_slots e sys st (s1\<lparr>cons := c\<rparr>) me2 b2 n w = Some r"
      by (auto simp: Let_def s1_def bind_eq_Some_conv split: prod.splits if_splits)
    ultimately show ?thesis using 1(1) by fastforce
  qed
qed

lemma rtp_send_id: "RTP_send_packet e rd sys s me = Some (s', me', wire, r) \<Longrightarrow> sched_id s' = sched_id s"
  by (auto simp: RTP_send_packet_def bind_eq_Some_conv split: option.splits if_splits prod.splits dest!: send_slots_id)

text \<open>The readers write to the medium's state; of its description they change the bit rate at most (the reader of MPEG video does).\<close>

definition kept_descr :: "media_descr \<Rightarrow> media_descr" where
  "kept_descr d = d\<lparr>bitrate := 0\<rparr>"

lemma kept_copyable: "kept_descr (description m') = kept_descr (description m) \<Longrightarrow> copyable m' = copyable m"
proof -
  assume k: "kept_descr (description m') = kept_descr (description m)"
  have "mtype (description m') = mtype (description m)" using arg_cong [OF k, of mtype] by (simp add: kept_descr_def)
  moreover have "encoding_name (description m') = encoding_name (description m)"
    using arg_cong [OF k, of encoding_name] by (simp add: kept_descr_def)
  ultimately show ?thesis by (simp add: copyable_def)
qed

definition reader_keeps :: "'st reader \<Rightarrow> bool" where
  "reader_keeps rd \<longleftrightarrow> (\<forall>me t r. rd me t = Some r \<longrightarrow> kept_descr (description (rd_me r)) = kept_descr (description me))"

definition env_ok :: "'st sched_env \<Rightarrow> bool" where
  "env_ok env \<longleftrightarrow> (\<forall>f rd. readers env f = Some rd \<longrightarrow> reader_keeps rd)"

lemma get_frame_descr:
  assumes "get_frame_loop e rd me mt = Some r" and "reader_keeps rd"
  shows "kept_descr (description (fst r)) = kept_descr (description me)"
proof (rule get_frame_loop.raw_induct [OF _ assms(1), of "\<lambda>e rd me mt r. reader_keeps rd \<longrightarrow> kept_descr (description (fst r)) = kept_descr (description me)",
      rule_format], goal_cases)
  case (1 get_frame_loop e rd me mt r)
  from 1(2) obtain b b1 rr b2 b4 where rr: "rd (me\<lparr>pkt_buffer := Some b1\<rparr>) mt = Some rr" and
    r: "(if rd_recall rr \<and> rd_res rr = ERR_NOERROR then get_frame_loop e rd ((rd_me rr)\<lparr>pkt_buffer := Some b4\<rparr>) (rd_mtime rr)
         else Some ((rd_me rr)\<lparr>pkt_buffer := Some b4\<rparr>, rd_mtime rr, rd_res rr)) = Some r"
    unfolding Let_def by (simp split: Option.bind_split_asm prod.split_asm)
  have d: "kept_descr (description (rd_me rr)) = kept_descr (description me)" using 1(3) rr by (simp add: reader_keeps_def)
  note IH = 1(1) [rule_format]
  show ?case
  proof (cases "rd_recall rr \<and> rd_res rr = ERR_NOERROR")
    case True
    then show ?thesis using r IH d 1(3) by fastforce
  next
    case False
    then show ?thesis using r d by auto
  qed
next
  case 2
  then show ?case by (rule assms(2))
qed

lemma send_slots_descr:
  assumes "send_slots e sys st s me b slot wire = Some r"
  shows "kept_descr (description (fst (snd r))) = kept_descr (description me)"
proof (rule send_slots.raw_induct [OF _ assms, of "\<lambda>e sys st s me b slot wire r. kept_descr (description (fst (snd r))) = kept_descr (description me)"],
    goal_cases)
  case (1 send_slots e sys st s me b slot wire r)
  show ?case
  proof (cases slot)
    case None
    with 1(2) show ?thesis by auto
  next
    case (Some i)
    with 1(2) obtain s1 me2 b2 n w where "send_slots e sys st s1 me2 b2 n w = Some r" "kept_descr (description me2) = kept_descr (description me)"
      by (auto simp: Let_def bind_eq_Some_conv split: prod.splits if_splits)
    then show ?thesis using 1(1) by fastforce
  qed
qed

lemma rtp_send_descr:
  assumes "RTP_send_packet e rd sys s me = Some (s', me', wire, r)" and "\<And>x. rd = Some x \<Longrightarrow> reader_keeps x"
  shows "kept_descr (description me') = kept_descr (description me)"
proof -
  have "kept_descr (description me1) = kept_descr (description me0)" if "get_frame e rd me0 mt = Some (me1, t, k)" for me0 mt me1 t k
    using that get_frame_descr [of e _ me0 mt] assms(2) by (force simp: get_frame_def split: option.splits)
  then show ?thesis using assms(1)
    by (fastforce simp: RTP_send_packet_def bind_eq_Some_conv split: option.splits if_splits prod.splits dest!: send_slots_descr)
qed

lemma reader_of_keeps: "env_ok env \<Longrightarrow> reader_of env m = Some x \<Longrightarrow> reader_keeps x"
  by (auto simp: reader_of_def env_ok_def reader_keeps_def split: option.splits)

lemma entry_cell_heap: "entry_cell i sv = Some (a, c) \<Longrightarrow> rtp_heap sv a = Some c"
  by (auto simp: entry_cell_def bind_eq_Some_conv split: if_splits)

lemma zero_clock_id [simp]: "sched_id (rtp (zero_clock c t)) = sched_id (rtp c)"
  by (simp add: zero_clock_def)

lemma quiet_update:
  assumes "rtp_heap sv a = Some c" and "get_entry p sv = Some m \<or> load_medium p sv = Some m"
    and "description m2 = description m" and "sched_id (rtp c1) = sched_id (rtp c)"
  shows "quiet sv (put_cell a c1 (save_medium p m2 sv))" and "quiet sv (put_cell a c1 (put_entry p m2 sv))"
proof -
  have "media_fine sv \<Longrightarrow> copyable m2" using assms(2,3) get_entry_fine load_medium_fine copyable_cong by metis
  then have "quiet sv (save_medium p m2 sv)" "quiet sv (put_entry p m2 sv)" by (intro quiet_save_medium quiet_put_entry; simp)+
  then show "quiet sv (put_cell a c1 (save_medium p m2 sv))" "quiet sv (put_cell a c1 (put_entry p m2 sv))"
    by (auto intro!: quiet_put_cell simp: assms)
qed

lemma quiet_start: "schedule_start mk now i args sv = Some (sv', r) \<Longrightarrow> quiet sv sv' \<and> r = ERR_NOERROR"
  unfolding schedule_start_def Let_def
  by (auto split: Option.bind_split_asm prod.split_asm dest!: entry_cell_heap intro!: quiet_update)

lemma quiet_resume: "schedule_resume now i args sv = Some (sv', r) \<Longrightarrow> quiet sv sv'"
  unfolding schedule_resume_def Let_def
  by (auto split: Option.bind_split_asm prod.split_asm dest!: entry_cell_heap intro!: quiet_update)

lemma quiet_stop: "schedule_stop env i sv = Some sv' \<Longrightarrow> quiet sv sv'"
  by (auto simp: schedule_stop_def bind_eq_Some_conv Let_def dest!: entry_cell_heap intro!: quiet_put_cell)

lemma quiet_after: "after_packet env i res m sv = Some sv' \<Longrightarrow> quiet sv sv'"
  by (auto simp: after_packet_def split: if_splits dest: quiet_stop)

lemma quiet_play:
  assumes "play_entry env i a sv = Some (sv', w)" and ok: "env_ok env"
  shows "quiet sv sv'"
proof -
  obtain c0 sv1 x c m s2 w1 y s3 m3 w2 res sv4 c4 m4 where
    h0: "rtp_heap sv a = Some c0" and
    ch: "stream_change (cat_env env) (cat_scan env) a (snd (change_check (rtp c0)))
           (put_cell a (c0\<lparr>rtp := fst (change_check (rtp c0))\<rparr>) sv) = Some (sv1, x)" and
    h1: "rtp_heap sv1 a = Some c" and
    lm: "load_medium (media_at c) sv1 = Some m" and
    ha: "RTCP_handler (env_clock env) (host_name (rtcp_out env)) (pad_junk (rtcp_out env))
           (clock_rate (description m)) (send_sys env) (can_write env) (rtp c) = (s2, w1, y)" and
    se: "RTP_send_packet (shm env) (reader_of env m) (send_sys env) s2 m = Some (s3, m3, w2, res)" and
    af: "after_packet env i res m3 (put_cell a (c\<lparr>rtp := s3\<rparr>) (save_medium (media_at c) m3 sv1)) = Some sv4" and
    sm: "session_medium a sv4 = Some (c4, m4)" and
    sv': "sv' = put_cell a (c4\<lparr>rtp := (rtp c4)\<lparr>mprev_tx_time := mprev_tx_time (rtp c4) + pkt_len (description m4)\<rparr>\<rparr>) sv4"
    using assms(1) unfolding play_entry_def Let_def by (simp split: Option.bind_split_asm prod.split_asm if_split_asm)
  have "quiet sv (put_cell a (c0\<lparr>rtp := fst (change_check (rtp c0))\<rparr>) sv)" using h0 by (auto intro: quiet_put_cell)
  also note quiet_change [OF ch]
  also have "quiet sv1 (put_cell a (c\<lparr>rtp := s3\<rparr>) (save_medium (media_at c) m3 sv1))"
  proof (rule quiet_put_cell)
    have "copyable m3 = copyable m" 
      by (rule kept_copyable, rule rtp_send_descr [OF se], rule reader_of_keeps [OF ok])
    then show "quiet sv1 (save_medium (media_at c) m3 sv1)"
      using load_medium_fine [OF _ lm] by (intro quiet_save_medium) simp
  qed (use h1 rtcp_handler_id [OF ha] rtp_send_id [OF se] in simp_all)
  also note quiet_after [OF af]
  also have "quiet sv4 sv'" unfolding sv' using session_medium_cell [OF sm] by (auto intro: quiet_put_cell)
  finally show ?thesis .
qed

section \<open>The table and the sessions that are held\<close>

definition valid_slots :: "'st server \<Rightarrow> nat set" where
  "valid_slots sv = {i. i < ONE_FORK_MAX_CONNECTION \<and> valid (sched sv ! i)}"

text \<open>\<open>held\<close> are the sessions the connections' lists point to. A session without an entry, whose \<open>schedule_add\<close>
  failed, has the number \<open>-1\<close>.\<close>

definition in_entry :: "'st server \<Rightarrow> nat \<Rightarrow> int \<Rightarrow> bool" where
  "in_entry sv a i \<longleftrightarrow> in_table i \<and> valid (sched sv ! nat i) \<and> sched_session (sched sv ! nat i) = Some a"

definition sched_ok :: "nat multiset \<Rightarrow> 'st server \<Rightarrow> bool" where
  "sched_ok held sv \<longleftrightarrow>
     length (sched sv) = ONE_FORK_MAX_CONNECTION \<and>
     client_count sv = of_nat (card (valid_slots sv)) \<and>
     (\<forall>a. count held a \<le> 1) \<and>
     (\<forall>a. ids sv a \<noteq> None \<longrightarrow> a < next_addr sv) \<and>
     (\<forall>i < ONE_FORK_MAX_CONNECTION. \<forall>a. sched_session (sched sv ! i) = Some a \<longrightarrow> ids sv a = Some (int i)) \<and>
     (\<forall>a \<in># held. \<exists>i. ids sv a = Some i \<and> (i = - 1 \<or> in_entry sv a i)) \<and>
     (\<forall>i < ONE_FORK_MAX_CONNECTION. valid (sched sv ! i) \<longrightarrow> (\<exists>a \<in># held. sched_session (sched sv ! i) = Some a))"

lemma sched_okD:
  assumes "sched_ok held sv"
  shows "length (sched sv) = ONE_FORK_MAX_CONNECTION"
    and "client_count sv = of_nat (card (valid_slots sv))"
    and "count held a \<le> 1"
    and "ids sv a \<noteq> None \<Longrightarrow> a < next_addr sv"
    and "i < ONE_FORK_MAX_CONNECTION \<Longrightarrow> sched_session (sched sv ! i) = Some a \<Longrightarrow> ids sv a = Some (int i)"
    and "a \<in># held \<Longrightarrow> \<exists>i. ids sv a = Some i \<and> (i = - 1 \<or> in_entry sv a i)"
    and "i < ONE_FORK_MAX_CONNECTION \<Longrightarrow> valid (sched sv ! i) \<Longrightarrow> \<exists>a \<in># held. sched_session (sched sv ! i) = Some a"
  using assms unfolding sched_ok_def by blast+

lemma finite_slots [simp]: "finite (valid_slots sv)"
  by (simp add: valid_slots_def)

lemma slots_bound: "card (valid_slots sv) \<le> ONE_FORK_MAX_CONNECTION"
  using card_mono [of "{..<ONE_FORK_MAX_CONNECTION}" "valid_slots sv"] by (auto simp: valid_slots_def)

lemma in_table_nat [simp]: "in_table (int i) \<longleftrightarrow> i < ONE_FORK_MAX_CONNECTION"
  by (simp add: in_table_def)

lemma in_tableE: "in_table i \<Longrightarrow> (\<And>n. i = int n \<Longrightarrow> n < ONE_FORK_MAX_CONNECTION \<Longrightarrow> thesis) \<Longrightarrow> thesis"
  by (metis in_table_def nat_less_iff int_nat_eq)

lemma ok_quiet: "sched_ok held sv \<Longrightarrow> quiet sv sv' \<Longrightarrow> sched_ok held sv'"
  unfolding sched_ok_def quiet_def in_entry_def valid_slots_def by (auto dest: order_less_le_trans)

text \<open>An entry that is not valid holds no session that is held.\<close>

lemma free_entry_not_held:
  assumes "sched_ok held sv" and "i < ONE_FORK_MAX_CONNECTION" and "\<not> valid (sched sv ! i)"
    and "sched_session (sched sv ! i) = Some a"
  shows "a \<notin># held"
proof
  assume "a \<in># held"
  then obtain j where j: "ids sv a = Some j" "j = - 1 \<or> in_entry sv a j" using sched_okD(6) [OF assms(1)] by blast
  moreover have "ids sv a = Some (int i)" using sched_okD(5) [OF assms(1,2,4)] .
  ultimately show False using assms(3) by (auto simp: in_entry_def)
qed

text \<open>Adding a new session, with the number \<open>schedule_add\<close> has given it.\<close>

lemma find_free:
  assumes "find (\<lambda>i. \<not> valid (sched sv ! i)) [0..<ONE_FORK_MAX_CONNECTION] = Some i"
  shows "i < ONE_FORK_MAX_CONNECTION" "\<not> valid (sched sv ! i)"
  using find_SomeD [OF assms] by auto

lemma ok_add:
  assumes ok: "sched_ok held sv" and fresh: "ids sv a = None" "a < next_addr sv"
    and add: "schedule_add a (put_cell a c0 sv) = Some (sv1, i)"
    and id: "sched_id (rtp c) = i"
  shows "sched_ok (add_mset a held) (put_cell a c sv1)"
proof -
  let ?sv2 = "put_cell a c sv1"
  note unalloc = fresh(1)
  then have na: "a \<notin># held" using sched_okD(6) [OF ok] by force
  show ?thesis
  proof (cases "find (\<lambda>i. \<not> valid (sched sv ! i)) [0..<ONE_FORK_MAX_CONNECTION]")
    case None
    then have sv1: "sv1 = sv\<lparr>rtp_heap := (rtp_heap sv)(a := Some c0)\<rparr>" "i = ERR_GENERIC"
      using add by (auto simp: schedule_add_def put_cell_def)
    have ids: "ids ?sv2 = (ids sv)(a := Some i)" using id by (auto simp: ids_def put_cell_def sv1 fun_eq_iff)
    have "sched ?sv2 = sched sv" "client_count ?sv2 = client_count sv" "next_addr ?sv2 = next_addr sv"
      by (simp_all add: put_cell_def sv1)
    then show ?thesis using ok fresh unalloc na sv1(2)
      unfolding sched_ok_def in_entry_def valid_slots_def ids
      by (auto simp: err_defs not_in_iff)
  next
    case (Some j)
    note j = find_free [OF Some]
    let ?e = "\<lparr>valid = True, sched_session = Some a, play_action = (play_action (sched sv ! j) \<or> is_multicast_dad (rtp c0))\<rparr>"
    have sv1: "sv1 = sv\<lparr>rtp_heap := (rtp_heap sv)(a := Some c0), sched := (sched sv)[j := ?e],
        client_count := client_count sv + 1\<rparr>" "i = int j"
      using add Some by (auto simp: schedule_add_def put_cell_def)
    have ids: "ids ?sv2 = (ids sv)(a := Some (int j))" using id sv1(2) by (auto simp: ids_def put_cell_def sv1(1) fun_eq_iff)
    have sch: "sched ?sv2 = (sched sv)[j := ?e]" and cnt: "client_count ?sv2 = client_count sv + 1"
      and nx: "next_addr ?sv2 = next_addr sv" by (simp_all add: put_cell_def sv1)
    have len: "length (sched sv) = ONE_FORK_MAX_CONNECTION" using sched_okD(1) [OF ok] .
    have slots: "valid_slots ?sv2 = insert j (valid_slots sv)"
      using j len by (auto simp: valid_slots_def sch nth_list_update)
    have "j \<notin> valid_slots sv" using j by (simp add: valid_slots_def)
    then have cnt': "client_count ?sv2 = of_nat (card (valid_slots ?sv2))"
      using sched_okD(2) [OF ok] by (simp add: slots cnt)
    have bound: "\<forall>b. ids ?sv2 b \<noteq> None \<longrightarrow> b < next_addr ?sv2"
      using sched_okD(4) [OF ok] fresh by (fastforce simp: ids nx)
    have sess: "\<forall>k < ONE_FORK_MAX_CONNECTION. \<forall>b. sched_session (sched ?sv2 ! k) = Some b \<longrightarrow> ids ?sv2 b = Some (int k)"
      using sched_okD(5) [OF ok] unalloc j len by (auto simp: ids sch nth_list_update)
    have heldok: "\<exists>k. ids ?sv2 b = Some k \<and> (k = - 1 \<or> in_entry ?sv2 b k)" if hb: "b \<in># add_mset a held" for b
    proof (cases "b = a")
      case True
      then show ?thesis using j len by (auto simp: ids in_entry_def sch)
    next
      case False
      then obtain k where k: "ids sv b = Some k" "k = - 1 \<or> in_entry sv b k" using hb False sched_okD(6) [OF ok, of b] by auto
      moreover have "k \<noteq> int j" if "in_entry sv b k" using that j by (auto simp: in_entry_def)
      ultimately show ?thesis using False len j by (auto simp: ids in_entry_def sch nth_list_update elim!: in_tableE)
    qed
    have valid: "\<forall>k < ONE_FORK_MAX_CONNECTION. valid (sched ?sv2 ! k) \<longrightarrow>
        (\<exists>b \<in># add_mset a held. sched_session (sched ?sv2 ! k) = Some b)"
      using sched_okD(7) [OF ok] len j by (auto simp: sch nth_list_update)
    have "\<forall>b. count (add_mset a held) b \<le> 1" using sched_okD(3) [OF ok] na by (auto simp: not_in_iff)
    then show ?thesis unfolding sched_ok_def using len cnt' bound sess heldok valid by (simp add: sch)
  qed
qed

text \<open>Taking a session out of the lists and out of the table.\<close>

lemma ok_remove:
  assumes ok: "sched_ok (add_mset a held) sv" and id: "ids sv a = Some i" and rem: "schedule_remove i sv = Some sv'"
  shows "sched_ok held sv'"
proof -
  from rem obtain j where j: "i = int j" "j < ONE_FORK_MAX_CONNECTION" by (auto simp: schedule_remove_def split: if_splits elim: in_tableE)
  have e: "in_entry sv a i" using sched_okD(6) [OF ok, of a] id j by auto
  have sv': "sv' = sv\<lparr>sched := (sched sv)[j := (sched sv ! j)\<lparr>valid := False\<rparr>], client_count := client_count sv - 1\<rparr>"
    using rem j by (simp add: schedule_remove_def)
  have len: "length (sched sv) = ONE_FORK_MAX_CONNECTION" using sched_okD(1) [OF ok] .
  have ids: "ids sv' = ids sv" by (auto simp: ids_def sv' fun_eq_iff)
  have slots: "valid_slots sv' = valid_slots sv - {j}"
    using j len by (auto simp: valid_slots_def sv' nth_list_update split: if_splits)
  have jin: "j \<in> valid_slots sv" using e j by (simp add: valid_slots_def in_entry_def)
  then obtain n where "card (valid_slots sv) = Suc n" "card (valid_slots sv') = n"
    using card_Suc_Diff1 [OF finite_slots jin] unfolding slots by metis
  then have "client_count sv' = of_nat (card (valid_slots sv'))" using sched_okD(2) [OF ok] by (simp add: sv')
  moreover have sess: "sched_session (sched sv' ! k) = sched_session (sched sv ! k)" if "k < ONE_FORK_MAX_CONNECTION" for k
    using that len j by (simp add: sv' nth_list_update)
  moreover have "\<exists>k. ids sv' b = Some k \<and> (k = - 1 \<or> in_entry sv' b k)" if b: "b \<in># held" for b
  proof -
    have "a \<notin># held" using sched_okD(3) [OF ok, of a] by (simp add: not_in_iff)
    then have ne: "b \<noteq> a" using b by auto
    obtain k where k: "ids sv b = Some k" "k = - 1 \<or> in_entry sv b k" using sched_okD(6) [OF ok, of b] b by auto
    moreover have "in_entry sv' b k" if b: "in_entry sv b k"
    proof -
      have "k \<noteq> i" using b e ne by (auto simp: in_entry_def)
      then show ?thesis using b len j by (auto simp: in_entry_def sv' elim!: in_tableE)
    qed
    ultimately show ?thesis by (auto simp: ids)
  qed
  moreover have "\<exists>b \<in># held. sched_session (sched sv' ! k) = Some b"
    if k: "k < ONE_FORK_MAX_CONNECTION" and v: "valid (sched sv' ! k)" for k
  proof -
    have kj: "k \<noteq> j" "valid (sched sv ! k)" using v k len j by (auto simp: sv' nth_list_update split: if_splits)
    then obtain b where b: "b \<in># add_mset a held" "sched_session (sched sv ! k) = Some b" using sched_okD(7) [OF ok k] by blast
    have "b \<noteq> a" using b(2) sched_okD(5) [OF ok k] id kj(1) j(1) by auto
    then show ?thesis using b sess [OF k] by auto
  qed
  moreover have "count held b \<le> 1" for b using sched_okD(3) [OF ok, of b] by (auto split: if_splits)
  moreover have "length (sched sv') = ONE_FORK_MAX_CONNECTION" using len by (simp add: sv')
  moreover have "\<forall>b. ids sv' b \<noteq> None \<longrightarrow> b < next_addr sv'" using sched_okD(4) [OF ok] by (simp add: ids) (simp add: sv')
  moreover have "\<forall>k < ONE_FORK_MAX_CONNECTION. \<forall>b. sched_session (sched sv' ! k) = Some b \<longrightarrow> ids sv' b = Some (int k)"
    using sched_okD(5) [OF ok] sess by (simp add: ids)
  ultimately show ?thesis unfolding sched_ok_def by blast
qed

text \<open>Destroying the session of an entry that is not valid.\<close>

lemma ok_destroy:
  assumes ok: "sched_ok held sv" and i: "i < ONE_FORK_MAX_CONNECTION" "\<not> valid (sched sv ! i)" "sched_session (sched sv ! i) = Some a"
    and d: "destroy_entry env i a c sv = Some sv'"
  shows "sched_ok held sv'"
proof -
  have sch: "sched sv' = (sched sv)[i := (sched sv ! i)\<lparr>sched_session := None\<rparr>]" and cnt: "client_count sv' = client_count sv"
    and hp: "rtp_heap sv' = (rtp_heap sv)(a := None)" and nx: "next_addr sv \<le> next_addr sv'"
    using d unfolding destroy_entry_def Let_def
    by (auto split: Option.bind_split_asm prod.split_asm if_split_asm)
  have ids: "ids sv' = (ids sv)(a := None)" by (auto simp: ids_def hp fun_eq_iff)
  have len: "length (sched sv) = ONE_FORK_MAX_CONNECTION" using sched_okD(1) [OF ok] .
  have na: "a \<notin># held" using free_entry_not_held [OF ok i] .
  have v: "valid (sched sv' ! k) = valid (sched sv ! k)" if "k < ONE_FORK_MAX_CONNECTION" for k
    using that len i by (simp add: sch nth_list_update)
  have s: "sched_session (sched sv' ! k) = (if k = i then None else sched_session (sched sv ! k))"
    if "k < ONE_FORK_MAX_CONNECTION" for k
    using that len i by (simp add: sch nth_list_update)
  have "valid_slots sv' = valid_slots sv" using v by (auto simp: valid_slots_def)
  then have "client_count sv' = of_nat (card (valid_slots sv'))" using sched_okD(2) [OF ok] cnt by simp
  moreover have "\<forall>b. ids sv' b \<noteq> None \<longrightarrow> b < next_addr sv'"
    using sched_okD(4) [OF ok] nx by (auto simp: ids dest: order_less_le_trans)
  moreover have "\<forall>k < ONE_FORK_MAX_CONNECTION. \<forall>b. sched_session (sched sv' ! k) = Some b \<longrightarrow> ids sv' b = Some (int k)"
    using sched_okD(5) [OF ok] sched_okD(5) [OF ok i(1,3)] s by (auto simp: ids split: if_splits)
  moreover have "\<exists>k. ids sv' b = Some k \<and> (k = - 1 \<or> in_entry sv' b k)" if b: "b \<in># held" for b
  proof -
    obtain k where k: "ids sv b = Some k" "k = - 1 \<or> in_entry sv b k" using sched_okD(6) [OF ok b] by blast
    moreover have "k \<noteq> int i" if "in_entry sv b k" using that i(2) by (auto simp: in_entry_def)
    ultimately show ?thesis using b na v s by (auto simp: ids in_entry_def elim!: in_tableE)
  qed
  moreover have "\<exists>b \<in># held. sched_session (sched sv' ! k) = Some b"
    if "k < ONE_FORK_MAX_CONNECTION" "valid (sched sv' ! k)" for k
    using sched_okD(7) [OF ok that(1)] that v s i(2) by auto
  moreover have "length (sched sv') = ONE_FORK_MAX_CONNECTION" using len by (simp add: sch)
  ultimately show ?thesis using sched_okD(3) [OF ok] unfolding sched_ok_def by blast
qed

lemma flags_fine:
  assumes "catalog_ok copyable l"
  shows "catalog_ok copyable (map (\<lambda>d. if P d then d\<lparr>sd_flags := fl d\<rparr> else d) l)"
proof -
  have "map sd_filename (map (\<lambda>d. if P d then d\<lparr>sd_flags := fl d\<rparr> else d) l) = map sd_filename l"
    by (simp add: fun_eq_iff)
  then show ?thesis using assms by (auto simp: catalog_ok_def offers_def simp del: map_map)
qed

lemma destroy_fine:
  assumes f: "media_fine sv" and d: "destroy_entry env i a c sv = Some sv'"
  shows "media_fine sv'"
proof -
  obtain m fl j ports fl1 fds m1 where lm: "load_medium (media_at c) sv = Some m" and
    de: "RTP_session_destroy (shm env) (close_ret env) (port_pool sv) fl j (rtp c) m = Some (ports, fl1, fds, m1)" and
    sv': "sd_list sv' = map (\<lambda>d. if sd_filename d = sd_of c then d\<lparr>sd_flags := fl1\<rparr> else d) (sd_list (save_medium (media_at c) m1 sv))"
      "own_media sv' = own_media (save_medium (media_at c) m1 sv)" "retired sv' = retired (save_medium (media_at c) m1 sv)"
    using d unfolding destroy_entry_def Let_def by (auto split: Option.bind_split_asm prod.split_asm if_split_asm)
  have "description m1 = description m"
    using de unfolding RTP_session_destroy_def Let_def
    by (auto simp: mediaclose_def split: Option.bind_split_asm prod.split_asm if_split_asm)
  then have "media_fine (save_medium (media_at c) m1 sv)"
    using f quiet_save_medium [of sv m1 "media_at c"] load_medium_fine [OF f lm] by (simp add: quiet_def copyable_def)
  moreover have "catalog_ok copyable (map (\<lambda>d. if sd_filename d = sd_of c then d\<lparr>sd_flags := fl1\<rparr> else d) l)"
    if "catalog_ok copyable l" for l :: "'a SD_descr list"
    by (rule flags_fine [OF that])
  ultimately show ?thesis by (simp add: media_fine_def sv')
qed

lemma visit_fine:
  assumes "media_fine sv" and "schedule_visit env i sv = Some (sv', w)" and "env_ok env"
  shows "media_fine sv'"
  using assms unfolding schedule_visit_def Let_def
  by (auto split: if_split_asm Option.bind_split_asm option.split_asm dest: destroy_fine quiet_play [OF sym] quiet_play simp: quiet_def)

lemma visit_all_fine:
  "visit_all ev is sv = Some (sv', w) \<Longrightarrow> media_fine sv \<Longrightarrow> \<forall>i. env_ok (ev i) \<Longrightarrow> media_fine sv'"
  by (induction ev "is" sv arbitrary: sv' w rule: visit_all.induct)
     (auto split: Option.bind_split_asm prod.split_asm dest: visit_fine)

lemma schedule_do_fine: "schedule_do ev sv = Some (sv', w) \<Longrightarrow> media_fine sv \<Longrightarrow> \<forall>i. env_ok (ev i) \<Longrightarrow> media_fine sv'"
  by (auto simp: schedule_do_def split: if_splits dest: visit_all_fine)

lemma ok_visit:
  assumes "sched_ok held sv" and "i < ONE_FORK_MAX_CONNECTION" and "schedule_visit env i sv = Some (sv', w)" and "env_ok env"
  shows "sched_ok held sv'"
  using assms unfolding schedule_visit_def Let_def
  by (auto split: if_split_asm Option.bind_split_asm option.split_asm
      intro: ok_quiet [OF _ quiet_play [OF sym]] ok_quiet [OF _ quiet_play] ok_destroy)

lemma ok_visit_all:
  "visit_all ev is sv = Some (sv', w) \<Longrightarrow> sched_ok held sv \<Longrightarrow> set is \<subseteq> {..<ONE_FORK_MAX_CONNECTION} \<Longrightarrow> \<forall>i. env_ok (ev i) \<Longrightarrow>
   sched_ok held sv'"
proof (induction ev "is" sv arbitrary: sv' w rule: visit_all.induct)
  case (2 ev i "is" sv)
  from "2.prems"(1) obtain sv1 w1 w2 where v: "schedule_visit (ev i) i sv = Some (sv1, w1)" "visit_all ev is sv1 = Some (sv', w2)"
    by (auto split: Option.bind_split_asm prod.split_asm)
  have "sched_ok held sv1" using ok_visit [OF "2.prems"(2) _ v(1)] "2.prems"(3,4) by simp
  then show ?case using "2.IH" [OF v(1) refl v(2)] "2.prems"(3,4) by simp
qed simp

lemma ok_schedule_do: "sched_ok held sv \<Longrightarrow> schedule_do ev sv = Some (sv', w) \<Longrightarrow> \<forall>i. env_ok (ev i) \<Longrightarrow> sched_ok held sv'"
  by (auto simp: schedule_do_def split: if_splits dest!: ok_visit_all)

end
