(* ===== verification/Rtsp_Methods.thy ===== *)
theory Rtsp_Methods
  imports Sdp Scheduler
begin

text \<open>
  The methods of RTSP but \<^verbatim>\<open>SETUP\<close> (\<^verbatim>\<open>rtsp/RTSP_describe.c\<close>, \<^verbatim>\<open>RTSP_play.c\<close>,
  \<^verbatim>\<open>RTSP_pause.c\<close>, \<^verbatim>\<open>RTSP_teardown.c\<close>, \<^verbatim>\<open>RTSP_options.c\<close>), and what they
  share. A method works on the server's state and on its connection; its result has the return value.
  \<open>None\<close> is a crash or a call that never returns. Local variables start with the arbitrary values the
  environment gives.
\<close>

section \<open>The environment\<close>

record rtsp_env =
  conf :: config
  now_tm :: tm
  now_tv :: timeval
  now_sec :: int
  ctl :: catalog_env
  scan0 :: sd_scan
  mk_time :: "tm \<Rightarrow> int"
  junk_url :: string
  junk_descr :: string
  junk_args :: play_args
  junk_double :: cdouble

definition HDR_ACCEPT :: string where "HDR_ACCEPT = ''Accept''"
definition HDR_REQUIRE :: string where "HDR_REQUIRE = ''Require''"
definition HDR_SESSION :: string where "HDR_SESSION = ''Session''"
definition HDR_TRANSPORT :: string where "HDR_TRANSPORT = ''Transport''"
definition HDR_RANGE :: string where "HDR_RANGE = ''Range''"
definition HDR_USER_AGENT :: string where "HDR_USER_AGENT = ''User-Agent''"

section \<open>What the methods share\<close>

text \<open>An error reply.\<close>

abbreviation reply :: "int \<Rightarrow> RTSP_buffer \<Rightarrow> RTSP_buffer" where
  "reply st r \<equiv> fst (send_reply st None r)"

text \<open>The request as a string.\<close>

abbreviation request :: "RTSP_buffer \<Rightarrow> string" where
  "request r \<equiv> in_str r 0"

text \<open>\<open>sscanf(in_buffer, " %*s %254s ", url)\<close>: only the result 0 is an error; without a second word \<open>url\<close> keeps
  its old contents.\<close>

definition request_url :: "rtsp_env \<Rightarrow> RTSP_buffer \<Rightarrow> string option" where
  "request_url env r =
    (case sscanf (request r) [Ws, Skip WIDE, Ws, Str 254, Ws] of
       (vs, n) \<Rightarrow> if n = 0 then None else Some (case vs of [V_str u] \<Rightarrow> u | _ \<Rightarrow> junk_url env))"

definition the_url :: "rtsp_env \<Rightarrow> string \<Rightarrow> parsed_url" where
  "the_url env u = parse_url (default_port (conf env)) u 255 255"

text \<open>The request's URL with the status of a failure.\<close>

definition get_url :: "rtsp_env \<Rightarrow> RTSP_buffer \<Rightarrow> int + parsed_url" where
  "get_url env r =
    (case request_url env r of
       None \<Rightarrow> Inl 400
     | Some u \<Rightarrow>
         let p = the_url env u
         in if url_code p = URL_BAD then Inl 400 else if url_code p = URL_ERROR then Inl 500 else Inr p)"

definition forbidden :: "string \<Rightarrow> bool" where
  "forbidden object \<longleftrightarrow> strstr object ''../'' \<noteq> None \<or> strstr object ''./'' \<noteq> None"

definition supported_file :: "string \<Rightarrow> bool" where
  "supported_file object = (case strrchr object (CHR ''.'') of None \<Rightarrow> False | Some p \<Rightarrow> is_supported_url p)"

definition get_cseq :: "RTSP_buffer \<Rightarrow> RTSP_buffer option" where
  "get_cseq r =
    (case strstr (request r) HDR_CSEQ of
       None \<Rightarrow> None
     | Some p \<Rightarrow>
         (case sscanf p [Str 254, Ws, Num] of
            ([_, V_num n], _) \<Rightarrow> Some (r\<lparr>rtsp_cseq := word_of_int n\<rparr>)
          | _ \<Rightarrow> None))"

text \<open>The number in the session header: \<open>Inl\<close> when the header has none, \<open>Inr None\<close> without a header.\<close>

definition get_session :: "RTSP_buffer \<Rightarrow> unit + int option" where
  "get_session r =
    (case strstr (request r) HDR_SESSION of
       None \<Rightarrow> Inr None
     | Some p \<Rightarrow> (case sscanf p [Str 254, Ws, Num] of ([_, V_num n], _) \<Rightarrow> Inr (Some n) | _ \<Rightarrow> Inl ()))"

text \<open>Every method logs the client's name; a name without an end of line makes it measure a null pointer.\<close>

definition log_agent :: "RTSP_buffer \<Rightarrow> unit option" where
  "log_agent r =
    (case strstr (request r) HDR_USER_AGENT of
       None \<Rightarrow> Some ()
     | Some p \<Rightarrow> (if LF \<in> set p then Some () else None))"

text \<open>A method that ends with a reply and a return value.\<close>

definition refuse :: "int \<Rightarrow> int \<Rightarrow> 'st server \<Rightarrow> RTSP_buffer \<Rightarrow> ('st server \<times> RTSP_buffer \<times> int) option" where
  "refuse st ret sv r = Some (sv, reply st r, ret)"

section \<open>OPTIONS and DESCRIBE\<close>

definition RTSP_options :: "RTSP_buffer \<Rightarrow> (RTSP_buffer \<times> int) option" where
  "RTSP_options r =
    (case get_cseq r of
       None \<Rightarrow> Some (reply 400 r, ERR_NOERROR)
     | Some r1 \<Rightarrow>
         let r2 = fst (send_options_reply (sint (rtsp_cseq r1)) r1)
         in do { log_agent r2; Some (r2, ERR_NOERROR) })"

text \<open>A description that \<open>get_media_descr\<close> has not written goes out as it was on the stack.\<close>

definition describe_media :: "rtsp_env \<Rightarrow> string \<Rightarrow> 'st server \<Rightarrow> ('st server \<times> string option \<times> int) option" where
  "describe_media env object sv =
     get_media_descr (conf env) (now_sec env) (ctl env) (scan0 env) object (zero_media\<lparr>me_flags := ME_DESCR_FORMAT\<rparr>) sv"

definition RTSP_describe :: "rtsp_env \<Rightarrow> 'st server \<Rightarrow> RTSP_buffer \<Rightarrow> ('st server \<times> RTSP_buffer \<times> int) option" where
  "RTSP_describe env sv r =
    (case get_url env r of
       Inl st \<Rightarrow> refuse st ERR_NOERROR sv r
     | Inr u \<Rightarrow>
         let object = url_file u in
         if forbidden object then refuse 403 ERR_NOERROR sv r
         else if \<not> supported_file object then refuse 415 ERR_NOERROR sv r
         else if strstr (request r) HDR_REQUIRE \<noteq> None then refuse 551 ERR_NOERROR sv r
         else if strstr (request r) HDR_ACCEPT \<noteq> None \<and> strstr (request r) ''application/sdp'' = None
         then refuse 551 ERR_NOERROR sv r
         else
           (case get_cseq r of
              None \<Rightarrow> refuse 400 ERR_NOERROR sv r
            | Some r1 \<Rightarrow>
                do {
                  (sv1, descr, res) \<leftarrow> describe_media env object sv;
                  if res = ERR_NOT_FOUND then refuse 404 ERR_NOERROR sv1 r1
                  else if res = ERR_PARSE \<or> res = ERR_GENERIC \<or> res = ERR_ALLOC then refuse 500 ERR_NOERROR sv1 r1
                  else if max_connection (conf env) (num_conn sv1) = ERR_GENERIC
                  then do {
                    (sv2, i, _) \<leftarrow> sv_enum (ctl env) (scan0 env) object sv1;
                    let (r2, ret) = send_redirect_3xx (conf env) (map_option (\<lambda>i. sd_list sv2 ! i) i) r1;
                    Some (sv2, r2, ret)
                  }
                  else do {
                    let d = (case descr of Some s \<Rightarrow> s | None \<Rightarrow> junk_descr env);
                    (r2, _) \<leftarrow> send_describe_reply (conf env) (now_tm env) object df_SDP_format d r1;
                    log_agent r2;
                    Some (sv1, r2, ERR_NOERROR)
                  }
                }))"

section \<open>PLAY\<close>

text \<open>Scanning one number; without one the variable keeps its value.\<close>

definition scan_number :: "string \<Rightarrow> cdouble \<Rightarrow> cdouble" where
  "scan_number s old = (case sscanf s [Dbl] of ([V_real v], _) \<Rightarrow> v | _ \<Rightarrow> old)"

text \<open>The three numbers separated by colons, from the first colon behind the name of the header on.\<close>

definition nemesi_range :: "rtsp_env \<Rightarrow> string \<Rightarrow> cdouble option" where
  "nemesi_range env p =
    do {
      q1 \<leftarrow> strstr p '':'';
      let t1 = scan_number (tl q1) (junk_double env);
      q2 \<leftarrow> strstr (tl q1) '':'';
      let t2 = scan_number (tl q2) t1;
      q3 \<leftarrow> strstr (tl q2) '':'';
      let t3 = scan_number (tl q3) t2;
      Some (t1 * 60 * 60 + t2 * 60 + t3)
    }"

text \<open>The range: \<open>None\<close> is a crash, \<open>Inl ()\<close> a bad request.\<close>

definition npt_range :: "string \<Rightarrow> play_args \<Rightarrow> unit + play_args" where
  "npt_range q a =
    (case strchr q (CHR ''='') of
       None \<Rightarrow> Inl ()
     | Some q1 \<Rightarrow>
         (case strchr q1 (CHR ''-'') of
            None \<Rightarrow> Inl ()
          | Some q2 \<Rightarrow> Inr (a\<lparr>start_time := scan_number (tl q1) (start_time a),
                             end_time := (case sscanf (tl q2) [Dbl] of ([V_real v], _) \<Rightarrow> v | _ \<Rightarrow> 0)\<rparr>)))"

definition start_range :: "rtsp_env \<Rightarrow> string \<Rightarrow> play_args \<Rightarrow> ((unit + play_args) \<times> bool) option" where
  "start_range env p a =
    (case strstr p ''npt'' of
       Some q \<Rightarrow> Some (npt_range q a, False)
     | None \<Rightarrow>
         if strstr p ''smpte'' \<noteq> None \<or> strstr p ''clock'' \<noteq> None
         then Some (Inr (a\<lparr>start_time := 0, end_time := 0\<rparr>), False)
         else if strstr p ''time'' \<noteq> None then Some (Inr (a\<lparr>start_time := 0, end_time := 0\<rparr>), True)
         else map_option (\<lambda>t. (Inr (a\<lparr>start_time := t, start_time_valid := True\<rparr>), False)) (nemesi_range env p))"

definition play_time :: "string \<Rightarrow> bool \<Rightarrow> play_args \<Rightarrow> play_args option" where
  "play_time p time_taken a =
    (case strstr p ''time'' of
       None \<Rightarrow> Some (a\<lparr>playback_time := zero_tm\<rparr>)
     | Some q \<Rightarrow>
         if time_taken then Some a
         else do {
           q1 \<leftarrow> strchr q (CHR ''='');
           let (t, res) = get_UTC_time (playback_time a) (tl q1);
           Some (a\<lparr>playback_time := (if res = ERR_NOERROR then t else zero_tm), playback_time_valid := True\<rparr>)
         })"

definition parse_range :: "rtsp_env \<Rightarrow> RTSP_buffer \<Rightarrow> (unit + play_args) option" where
  "parse_range env r =
    (let a = (junk_args env)\<lparr>playback_time_valid := False, start_time_valid := False\<rparr>
     in case strstr (request r) HDR_RANGE of
          None \<Rightarrow> Some (Inr (a\<lparr>start_time := 0, end_time := 0, playback_time := zero_tm\<rparr>))
        | Some p \<Rightarrow>
            do {
              (res, taken) \<leftarrow> start_range env p a;
              case res of
                Inl _ \<Rightarrow> Some (Inl ())
              | Inr a1 \<Rightarrow> map_option Inr (play_time p taken a1)
            })"

text \<open>Starting, or resuming, the sessions of a list that satisfy a condition.\<close>

definition start_or_resume :: "rtsp_env \<Rightarrow> play_args \<Rightarrow> rtp_cell \<Rightarrow> 'st server \<Rightarrow> 'st server option" where
  "start_or_resume env args c sv =
    (if \<not> started (rtp c) then map_option fst (schedule_start (mk_time env) (now_tv env) (sched_id (rtp c)) args sv)
     else if \<not> paused (rtp c) then Some sv
     else map_option fst (schedule_resume (now_tv env) (sched_id (rtp c)) args sv))"

fun play_sessions ::
    "rtsp_env \<Rightarrow> play_args \<Rightarrow> ('st media_entry \<Rightarrow> bool) \<Rightarrow> nat list \<Rightarrow> 'st server \<Rightarrow> 'st server option" where
  "play_sessions env args P [] sv = Some sv"
| "play_sessions env args P (a # as) sv =
     do {
       (c, m) \<leftarrow> session_medium a sv;
       sv1 \<leftarrow> (if P m then start_or_resume env args c sv else Some sv);
       play_sessions env args P as sv1
     }"

fun find_session :: "string \<Rightarrow> nat list \<Rightarrow> 'st server \<Rightarrow> rtp_cell option option" where
  "find_session name [] sv = Some None"
| "find_session name (a # as) sv =
     do {
       (c, m) \<leftarrow> session_medium a sv;
       if me_filename m = name then Some (Some c) else find_session name as sv
     }"

text \<open>The session with its streams and their media.\<close>

fun stream_list :: "nat list \<Rightarrow> 'st server \<Rightarrow> (RTP_session \<times> 'st media_entry) list option" where
  "stream_list [] sv = Some []"
| "stream_list (a # as) sv =
     do { (c, m) \<leftarrow> session_medium a sv; l \<leftarrow> stream_list as sv; Some ((rtp c, m) # l) }"

text \<open>What \<^verbatim>\<open>PLAY\<close> plays: the presentation (its media of the first priority), one file of it, or everything in
  the session. \<open>Inl\<close> is the status of a refusal.\<close>

definition play_object ::
    "rtsp_env \<Rightarrow> play_args \<Rightarrow> string \<Rightarrow> bool \<Rightarrow> RTSP_session \<Rightarrow> 'st server \<Rightarrow> (int + 'st server) option" where
  "play_object env args object is_file s sv =
    (case strchr object (CHR ''!'') of
       None \<Rightarrow> map_option Inr (play_sessions env args (\<lambda>m. priority (description m) = 1) (rtp_list s) sv)
     | Some q \<Rightarrow>
         if is_file then
           do {
             f \<leftarrow> find_session (tl q) (rtp_list s) sv;
             case f of
               None \<Rightarrow> Some (Inl 454)
             | Some c \<Rightarrow> map_option (Inr \<circ> fst) (schedule_start (mk_time env) (now_tv env) (sched_id (rtp c)) args sv)
           }
         else map_option Inr (play_sessions env args (\<lambda>_. True) (rtp_list s) sv))"

definition RTSP_play :: "rtsp_env \<Rightarrow> 'st server \<Rightarrow> RTSP_buffer \<Rightarrow> ('st server \<times> RTSP_buffer \<times> int) option" where
  "RTSP_play env sv r0 =
    (case get_cseq r0 of
       None \<Rightarrow> refuse 400 ERR_NOERROR sv r0
     | Some r \<Rightarrow>
         do {
           range \<leftarrow> parse_range env r;
           case range of
             Inl _ \<Rightarrow> refuse 400 ERR_NOERROR sv r
           | Inr args \<Rightarrow>
               (case get_session r of
                  Inl _ \<Rightarrow> refuse 454 ERR_NOERROR sv r
                | Inr None \<Rightarrow> refuse 400 ERR_NOERROR sv r
                | Inr (Some sid) \<Rightarrow>
                    (case get_url env r of
                       Inl st \<Rightarrow> refuse st ERR_NOERROR sv r
                     | Inr u \<Rightarrow>
                         let object = url_file u in
                         if forbidden object then refuse 403 ERR_NOERROR sv r
                         else if strrchr object (CHR ''.'') = None then refuse 415 ERR_NOERROR sv r
                         else
                           (case session_list r of
                              None \<Rightarrow> refuse 415 ERR_GENERIC sv r
                            | Some s \<Rightarrow>
                                if session_id s \<noteq> sid then refuse 454 ERR_NOERROR sv r
                                else do {
                                  played \<leftarrow> play_object env args object (supported_file object) s sv;
                                  case played of
                                    Inl st \<Rightarrow> refuse st ERR_NOERROR sv r
                                  | Inr sv1 \<Rightarrow>
                                      do {
                                        l \<leftarrow> stream_list (rtp_list s) sv1;
                                        (r1, _) \<leftarrow> send_play_reply (conf env) (now_tm env) s l r;
                                        log_agent r1;
                                        Some (sv1, r1, ERR_NOERROR)
                                      }
                                })))
         })"

section \<open>PAUSE and TEARDOWN\<close>

text \<open>\<open>strtok(object, "!")\<close>: the first stretch without an exclamation mark; there may be none.\<close>

definition before_mark :: "string \<Rightarrow> string option" where
  "before_mark object =
    (let t = dropWhile (\<lambda>c. c = CHR ''!'') object
     in if t = [] then None else Some (takeWhile (\<lambda>c. c \<noteq> CHR ''!'') t))"

fun pause_sessions :: "nat list \<Rightarrow> 'st server \<Rightarrow> 'st server option" where
  "pause_sessions [] sv = Some sv"
| "pause_sessions (a # as) sv =
     do { c \<leftarrow> rtp_heap sv a; pause_sessions as (put_cell a (c\<lparr>rtp := (rtp c)\<lparr>paused := True\<rparr>\<rparr>) sv) }"

definition RTSP_pause :: "rtsp_env \<Rightarrow> 'st server \<Rightarrow> RTSP_buffer \<Rightarrow> ('st server \<times> RTSP_buffer \<times> int) option" where
  "RTSP_pause env sv r0 =
    (case get_cseq r0 of
       None \<Rightarrow> refuse 400 ERR_NOERROR sv r0
     | Some r \<Rightarrow>
         (case get_url env r of
            Inl st \<Rightarrow> refuse st ERR_NOERROR sv r
          | Inr u \<Rightarrow>
              let object = url_file u in
              if url_server u \<noteq> prefs_hostname (conf env) then refuse 404 ERR_NOERROR sv r
              else if forbidden object then refuse 403 ERR_NOERROR sv r
              else do {
                name \<leftarrow> before_mark object;
                if \<not> supported_file name then refuse 415 ERR_NOERROR sv r
                else
                  (case get_session r of
                     Inl _ \<Rightarrow> refuse 454 ERR_NOERROR sv r
                   | Inr given \<Rightarrow>
                       (case session_list r of
                          None \<Rightarrow> refuse 415 ERR_GENERIC sv r
                        | Some s \<Rightarrow>
                            if session_id s \<noteq> (case given of Some n \<Rightarrow> n | None \<Rightarrow> - 1) then refuse 454 ERR_NOERROR sv r
                            else do {
                              sv1 \<leftarrow> pause_sessions (rtp_list s) sv;
                              let r1 = fst (send_pause_reply (conf env) (now_tm env) s r);
                              log_agent r1;
                              Some (sv1, r1, ERR_NOERROR)
                            }))
              }))"

text \<open>The streams with the file or aggregate name leave the list and the table.\<close>

fun release_named :: "string \<Rightarrow> nat list \<Rightarrow> 'st server \<Rightarrow> ('st server \<times> nat list) option" where
  "release_named name [] sv = Some (sv, [])"
| "release_named name (a # as) sv =
     do {
       (c, m) \<leftarrow> session_medium a sv;
       if me_filename m = name \<or> aggregate m = name
       then do { sv1 \<leftarrow> schedule_remove (sched_id (rtp c)) sv; release_named name as sv1 }
       else do { (sv1, l) \<leftarrow> release_named name as sv; Some (sv1, a # l) }
     }"

definition RTSP_teardown :: "rtsp_env \<Rightarrow> 'st server \<Rightarrow> RTSP_buffer \<Rightarrow> ('st server \<times> RTSP_buffer \<times> int) option" where
  "RTSP_teardown env sv r0 =
    (case get_cseq r0 of
       None \<Rightarrow> refuse 400 ERR_PARSE sv r0
     | Some r \<Rightarrow>
         (case get_url env r of
            Inl st \<Rightarrow> refuse st ERR_PARSE sv r
          | Inr u \<Rightarrow>
              let object = url_file u in
              if forbidden object then refuse 403 ERR_PARSE sv r
              else if \<not> supported_file object then refuse 415 ERR_PARSE sv r
              else
                (case get_session r of
                   Inl _ \<Rightarrow> refuse 454 ERR_PARSE sv r
                 | Inr given \<Rightarrow>
                     let sid = (case given of Some n \<Rightarrow> n | None \<Rightarrow> - 1) in
                     (case session_list r of
                        None \<Rightarrow> refuse 415 ERR_GENERIC sv r
                      | Some s \<Rightarrow>
                          if session_id s \<noteq> sid then refuse 454 ERR_PARSE sv r
                          else do {
                            let r1 = fst (send_teardown_reply (conf env) (now_tm env) sid (sint (rtsp_cseq r)) r);
                            log_agent r1;
                            let name = (case strchr object (CHR ''!'') of Some q \<Rightarrow> tl q | None \<Rightarrow> object);
                            (sv1, l) \<leftarrow> release_named name (rtp_list s) sv;
                            Some (sv1, r1\<lparr>session_list := (if l = [] then None else Some (s\<lparr>rtp_list := l\<rparr>))\<rparr>, ERR_NOERROR)
                          }))))"

end
