(* ===== verification/Rtsp_Setup.thy ===== *)
theory Rtsp_Setup
  imports Rtsp_Methods
begin

text \<open>
  \<^verbatim>\<open>SETUP\<close> (\<^verbatim>\<open>rtsp/RTSP_setup.c\<close>): the choice of a transport, with the sockets it opens
  (\<^verbatim>\<open>socket/udp_open.c\<close>, \<^verbatim>\<open>socket/udp_connect.c\<close>), and the new session with its copy of the
  medium and its entry in the scheduler's table.
\<close>

section \<open>Sockets\<close>

text \<open>The answers of the system to one call: \<open>socket\<close>'s descriptor, and whether \<open>ioctl\<close> and \<open>bind\<close> or
  \<open>connect\<close> succeed.\<close>

record udp_sys =
  new_fd :: int
  ioctl_ok :: bool
  bind_ok :: bool

text \<open>Descriptor 0 stands for a socket that has not been created.\<close>

definition udp_socket :: "udp_sys \<Rightarrow> int \<Rightarrow> int \<times> int" where
  "udp_socket u f =
    (if f \<noteq> 0 then (f, ERR_NOERROR)
     else if new_fd u < 0 \<or> \<not> ioctl_ok u then (new_fd u, ERR_GENERIC)
     else (new_fd u, ERR_NOERROR))"

definition udp_open :: "udp_sys \<Rightarrow> uint16 \<Rightarrow> sockaddr \<Rightarrow> int \<Rightarrow> sockaddr \<times> int \<times> int" where
  "udp_open u port sa f =
    (let (f1, res) = udp_socket u f
     in if res \<noteq> ERR_NOERROR \<or> \<not> bind_ok u then (sa, f1, ERR_GENERIC)
        else (\<lparr>sa_host = ''0.0.0.0'', sa_port = port\<rparr>, f1, ERR_NOERROR))"

definition udp_connect :: "udp_sys \<Rightarrow> uint16 \<Rightarrow> sockaddr \<Rightarrow> string \<Rightarrow> int \<Rightarrow> sockaddr \<times> int \<times> int" where
  "udp_connect u port sa host f =
    (let (f1, res) = udp_socket u f
     in if res \<noteq> ERR_NOERROR \<or> \<not> bind_ok u then (sa, f1, ERR_GENERIC)
        else (\<lparr>sa_host = host, sa_port = port\<rparr>, f1, ERR_NOERROR))"

section \<open>The environment of a request\<close>

text \<open>The answers of \<open>getpeername\<close>, of the four socket calls, of the two calls of \<open>socketpair\<close> and of the lookup of a
  shared buffer, and the random numbers.\<close>

record setup_env = rtsp_env +
  peer :: "string option"
  udp_calls :: "nat \<Rightarrow> udp_sys"
  pairs :: "nat \<Rightarrow> (int \<times> int) option"
  shm_find :: "string \<Rightarrow> OMSBuffer option"
  rnd_session :: int
  rnd_seq :: nat
  rnd_time :: nat
  rnd_ssrc :: uint32

section \<open>The name of the medium\<close>

text \<open>\<^verbatim>\<open>SETUP name.sd!stream\<close>: the presentation and the stream. A presentation that repeats its extension
  (RealOne) is cut behind the first one. Without the extension the search goes on from behind a null pointer
  (\<open>None\<close>).\<close>

definition setup_names :: "string \<Rightarrow> (int + string \<times> string) option" where
  "setup_names object =
    (case strchr object (CHR ''!'') of
       None \<Rightarrow> Some (Inl 500)
     | Some q \<Rightarrow>
         let base = takeWhile (\<lambda>c. c \<noteq> CHR ''!'') object
         in do {
              pd \<leftarrow> strstr base ''.sd'';
              Some (Inr (if strstr (tl pd) ''.sd'' \<noteq> None then drop 4 pd else base, tl q))
            })"

definition setup_req :: "string \<Rightarrow> 'st media_entry" where
  "setup_req name = zero_media\<lparr>me_flags := ME_FILENAME, me_filename := name\<rparr>"

section \<open>The transport\<close>

text \<open>The stretches between commas.\<close>

fun comma_tokens :: "string \<Rightarrow> string \<Rightarrow> string list" where
  "comma_tokens acc [] = (if acc = [] then [] else [acc])"
| "comma_tokens acc (c # s) =
     (if c = CHR '','' then (if acc = [] then comma_tokens [] s else acc # comma_tokens [] s)
      else comma_tokens (acc @ [c]) s)"

text \<open>The request's \<open>Transport\<close> header; \<open>Inl\<close> is the status of a refusal.\<close>

definition transport_tokens :: "RTSP_buffer \<Rightarrow> int + string list" where
  "transport_tokens r =
    (case strstr (request r) HDR_TRANSPORT of
       None \<Rightarrow> Inl 406
     | Some p \<Rightarrow>
         (case sscanf p [Skip 10, Str 255] of
            ([V_str s], _) \<Rightarrow> (if comma_tokens [] s = [] then Inl 400 else Inr (comma_tokens [] s))
          | _ \<Rightarrow> Inl 400))"

text \<open>Reading a number behind a character that must be there: \<open>None\<close> when the character is missing.\<close>

definition number_behind :: "string \<Rightarrow> string \<Rightarrow> int \<Rightarrow> (string \<times> int) option" where
  "number_behind mark s old =
    do {
      q \<leftarrow> strstr s mark;
      Some (q, case sscanf (tl q) [Num] of ([V_num n], _) \<Rightarrow> n | _ \<Rightarrow> old)
    }"

text \<open>What a token leads to: a transport, the next token, or a refusal that ends the request.\<close>

record 'st negotiation =
  n_sv :: "'st server"
  n_conn :: RTSP_buffer
  n_trans :: RTP_transport
  n_dad :: bool

datatype verdict = Found | Next | Refused

text \<open>The client's ports stay as they were when the token does not name them.\<close>

definition client_ports :: "string \<Rightarrow> port_pair \<Rightarrow> port_pair option" where
  "client_ports tok pp =
    (case strstr tok ''client_port'' of
       None \<Rightarrow> Some pp
     | Some p \<Rightarrow>
         do {
           (q, a) \<leftarrow> number_behind ''='' p (RTP_port pp);
           (_, b) \<leftarrow> number_behind ''-'' q (RTCP_port pp);
           Some (pp\<lparr>RTP_port := to_int32 a, RTCP_port := to_int32 b\<rparr>)
         })"

text \<open>Unicast: a pair of ports from the pool, and two sockets bound to them and connected to the client.\<close>

definition unicast_transport :: "setup_env \<Rightarrow> string \<Rightarrow> port_pair \<Rightarrow> RTP_transport \<Rightarrow> RTP_transport" where
  "unicast_transport env host sp t =
    (let u = udp_calls env;
         (p1, f1, _) = udp_open (u 0) (word_of_int (RTP_port sp)) (rtp_peer t) (rtp_fd t);
         (p2, f2, _) = udp_open (u 1) (word_of_int (RTCP_port sp)) (rtcp_in_peer t) (rtcp_fd_in t);
         (p3, f3, _) = udp_connect (u 2) (word_of_int (RTP_port (cli_ports t))) p1 host f1;
         (p4, f4, _) = udp_connect (u 3) (word_of_int (RTCP_port (cli_ports t))) (rtcp_out_peer t) host f2
     in t\<lparr>ser_ports := sp, rtp_peer := p3, rtp_fd := f3, rtcp_in_peer := p2, rtcp_fd_in := f2,
          rtcp_out_peer := p4, rtcp_fd_out := f4, is_multicast := False, trans_type := RTP_rtp_avp\<rparr>)"

definition try_unicast :: "setup_env \<Rightarrow> string \<Rightarrow> string \<Rightarrow> 'st negotiation \<Rightarrow> ('st negotiation \<times> verdict) option" where
  "try_unicast env host tok n =
    do {
      cp \<leftarrow> client_ports tok (cli_ports (n_trans n));
      let t = (n_trans n)\<lparr>cli_ports := cp\<rparr>;
      case RTP_get_port_pair (port_pool (n_sv n)) of
        (pool, sp, res) \<Rightarrow>
          if res \<noteq> ERR_NOERROR then Some (n\<lparr>n_conn := reply 500 (n_conn n)\<rparr>, Refused)
          else
            (case sp of
               None \<Rightarrow> None
             | Some sp \<Rightarrow> Some (n\<lparr>n_sv := (n_sv n)\<lparr>port_pool := pool\<rparr>, n_trans := unicast_transport env host sp t\<rparr>, Found))
    }"

text \<open>Multicast: the ports are the medium's. Until the group's ports are taken the session feeds the group.\<close>

definition try_multicast ::
    "setup_env \<Rightarrow> string \<Rightarrow> nat \<Rightarrow> 'st negotiation \<Rightarrow> ('st negotiation \<times> verdict) option" where
  "try_multicast env object k n =
    (case find_descr object (n_sv n) of
       None \<Rightarrow> None
     | Some d \<Rightarrow>
         if \<not> has_flag (sd_flags d) SD_FL_MULTICAST then Some (n, Next)
         else
           let m = me_list d ! k; t = n_trans n;
               pp = \<lparr>RTP_port = rtp_multicast_port m, RTCP_port = rtp_multicast_port m + 1\<rparr>;
               t1 = t\<lparr>cli_ports := pp, ser_ports := pp, trans_type := RTP_rtp_avp\<rparr>
           in if has_flag (sd_flags d) SD_FL_MULTICAST_PORT then Some (n\<lparr>n_trans := t1, n_dad := False\<rparr>, Found)
              else
                let (p1, f1, _) = udp_connect (udp_calls env 0) (word_of_int (RTP_port pp)) (rtp_peer t) (multicast d) (rtp_fd t);
                    (p2, f2, _) = udp_connect (udp_calls env 1) (word_of_int (RTCP_port pp)) (rtcp_out_peer t) (multicast d) (rtcp_fd_out t);
                    t2 = t1\<lparr>rtp_peer := p1, rtp_fd := f1, rtcp_out_peer := p2, rtcp_fd_out := f2, is_multicast := True\<rparr>;
                    last = (k + 1 = length (me_list d));
                    sv1 = (n_sv n)\<lparr>sd_list := map (\<lambda>e. if sd_filename e = object \<and> last
                             then e\<lparr>sd_flags := set_flag (sd_flags e) SD_FL_MULTICAST_PORT\<rparr> else e) (sd_list (n_sv n))\<rparr>
                in Some (n\<lparr>n_sv := sv1, n_trans := t2, n_dad := True\<rparr>, Found))"

text \<open>Interleaved in the RTSP connection: the channels the client suggests, or the next ones free; two socket pairs
  carry the packets to the connection.\<close>

definition used_channels :: "nat list \<Rightarrow> 'st server \<Rightarrow> int" where
  "used_channels l sv =
    fold (\<lambda>a x. case rtp_heap sv a of
        Some c \<Rightarrow> (if trans_type (transport (rtp c)) = RTP_rtp_avp_tcp then max x (uint (RTCP_ch (interleaved (transport (rtp c))))) else x)
      | None \<Rightarrow> x) l (- 1)"

text \<open>The channels and whether the client named them; \<open>None\<close> is a crash.\<close>

definition choose_channels :: "string \<Rightarrow> 'st negotiation \<Rightarrow> (stream_pair \<times> bool) option" where
  "choose_channels tok n =
    (case strstr tok ''interleaved'' of
       Some p \<Rightarrow>
         do {
           (q, a) \<leftarrow> number_behind ''='' p (uint (RTP_ch (interleaved (n_trans n))));
           let b = (case number_behind ''-'' q (uint (RTCP_ch (interleaved (n_trans n)))) of Some (_, b) \<Rightarrow> b | None \<Rightarrow> a + 1);
           Some (\<lparr>RTP_ch = word_of_int a, RTCP_ch = word_of_int b\<rparr>, True)
         }
     | None \<Rightarrow>
         let x = used_channels (case session_list (n_conn n) of Some s \<Rightarrow> rtp_list s | None \<Rightarrow> []) (n_sv n)
         in Some (\<lparr>RTP_ch = word_of_int (x + 1), RTCP_ch = word_of_int (x + 2)\<rparr>, False))"

definition try_interleaved :: "setup_env \<Rightarrow> string \<Rightarrow> 'st negotiation \<Rightarrow> ('st negotiation \<times> verdict) option" where
  "try_interleaved env tok n =
    do {
      (ch, named) \<leftarrow> choose_channels tok n;
      if 255 < RTP_ch ch \<or> 255 < RTCP_ch ch
      then Some (n\<lparr>n_conn := reply (if named then 400 else 500) (n_conn n)\<rparr>, Refused)
      else
        (case (pairs env 0, pairs env 1) of
           (Some (a, b), Some (c, d)) \<Rightarrow>
             let t = (n_trans n)\<lparr>interleaved := ch, rtp_fd := a, rtcp_fd_out := c, rtcp_fd_in := - 1, trans_type := RTP_rtp_avp_tcp\<rparr>;
                 il = \<lparr>ilv_rtp_fd = b, ilv_rtcp_fd = d, rtp_ch = RTP_ch ch, rtcp_ch = RTCP_ch ch\<rparr>
             in Some (n\<lparr>n_trans := t, n_conn := (n_conn n)\<lparr>interleaved_list := il # interleaved_list (n_conn n)\<rparr>\<rparr>, Found)
         | _ \<Rightarrow> Some (n\<lparr>n_conn := reply 500 (n_conn n)\<rparr>, Refused))
    }"

definition try_transport ::
    "setup_env \<Rightarrow> string \<Rightarrow> string \<Rightarrow> nat \<Rightarrow> string \<Rightarrow> 'st negotiation \<Rightarrow> ('st negotiation \<times> verdict) option" where
  "try_transport env host object k tok n =
    (case strstr tok ''RTP/AVP'' of
       None \<Rightarrow> Some (n, Next)
     | Some p0 \<Rightarrow>
         let p = drop 7 p0
         in if p = [] \<or> hd p = CHR '';'' \<or> hd p = CHR '' ''
            then (if strstr tok ''unicast'' \<noteq> None then try_unicast env host tok n else try_multicast env object k n)
            else if take 4 p = ''/TCP'' then try_interleaved env tok n
            else Some (n, Next))"

fun negotiate ::
    "setup_env \<Rightarrow> string \<Rightarrow> string \<Rightarrow> nat \<Rightarrow> string list \<Rightarrow> 'st negotiation \<Rightarrow> ('st negotiation \<times> verdict) option" where
  "negotiate env host object k [] n = Some (n, Next)"
| "negotiate env host object k (tok # toks) n =
     do {
       (n1, v) \<leftarrow> try_transport env host object k tok n;
       if v = Next then negotiate env host object k toks n1 else Some (n1, v)
     }"

section \<open>The session\<close>

text \<open>The number of the session: the client's, or a random one.\<close>

definition setup_session_id :: "setup_env \<Rightarrow> RTSP_buffer \<Rightarrow> unit + int" where
  "setup_session_id env r =
    (case strstr (request r) HDR_SESSION of
       None \<Rightarrow> Inr (rnd_session env)
     | Some p \<Rightarrow> (case sscanf p [Skip WIDE, Ws, Num] of ([V_num n], _) \<Rightarrow> Inr (to_int32 n) | _ \<Rightarrow> Inl ()))"

text \<open>The session's medium (\<open>mediacpy\<close>): the catalogue entry itself for a live source, otherwise a copy that shares the
  entry's buffer when it has one. A session of a multicast group that is fed already has an empty medium.\<close>

definition copy_medium ::
    "setup_env \<Rightarrow> bool \<Rightarrow> media_ptr \<Rightarrow> nat \<Rightarrow> 'st server \<Rightarrow> ('st server \<times> media_ptr \<times> int) option" where
  "copy_medium env dad p a sv =
    (let sv0 = sv\<lparr>own_media := (own_media sv)(a := Some zero_media), buf_of := (buf_of sv)(Own a := None)\<rparr>
     in if \<not> dad then Some (sv0, Own a, ERR_NOERROR)
        else do {
          inp \<leftarrow> load_medium p sv0;
          let (out, res) = mediacpy (shm_find env) zero_media inp;
          if msource (description inp) = live then Some (save_medium p out sv0, p, res)
          else if buf_of sv0 p \<noteq> None
          then Some (sv0\<lparr>own_media := (own_media sv0)(a := Some (out\<lparr>pkt_buffer := None\<rparr>)),
                         buf_of := (buf_of sv0)(Own a := buf_of sv0 p)\<rparr>, Own a, res)
          else Some (save_medium (Own a) out sv0, Own a, res)
        })"

definition new_session :: "setup_env \<Rightarrow> string \<Rightarrow> RTP_transport \<Rightarrow> bool \<Rightarrow> RTP_session" where
  "new_session env object t dad =
     (zero_session \<lparr>read_pos = 0, last_read_pos = 0, last_seq = 0, frames = 0, firstts = 0\<rparr>)
       \<lparr>paused := True, rtp_sd_filename := object, transport := t, is_multicast_dad := dad,
        start_seq := of_nat (1 + rnd_seq env mod 0xFFFF), start_rtptime := of_nat (1 + rnd_time env mod 0xFFFFFFFF)\<rparr>"

lemma new_session_fresh: "fresh_session (new_session env object t dad)"
  by (simp add: new_session_def fresh_session_def zero_session_def)

text \<open>The last part of the request. When the copy of the medium fails the session stays in the list of the connection,
  with the number 0 and without an entry of the table.\<close>

definition add_session ::
    "setup_env \<Rightarrow> string \<Rightarrow> nat \<Rightarrow> int \<Rightarrow> 'st negotiation \<Rightarrow> ('st server \<times> RTSP_buffer \<times> int) option" where
  "add_session env object k sid n =
    (let sv = n_sv n; a = next_addr sv; r = n_conn n;
         s = (case session_list r of Some s \<Rightarrow> s | None \<Rightarrow> zero_RTSP_session);
         s1 = s\<lparr>rtp_list := rtp_list s @ [a]\<rparr>
     in do {
          (sv1, mp, res) \<leftarrow> copy_medium env (n_dad n) (entry_at object k sv) a (sv\<lparr>next_addr := a + 1\<rparr>);
          let c = \<lparr>rtp = new_session env object (n_trans n) (n_dad n), cons_buf = None, media_at = mp, sd_of = object\<rparr>;
          if n_dad n \<and> res \<noteq> ERR_NOERROR
          then Some (put_cell a c sv1, reply 500 (r\<lparr>session_list := Some s1\<rparr>), ERR_GENERIC)
          else do {
            (sv2, i) \<leftarrow> schedule_add a (put_cell a c sv1);
            let c1 = c\<lparr>rtp := (rtp c)\<lparr>sched_id := i, ssrc := rnd_ssrc env\<rparr>\<rparr>;
            let s2 = s1\<lparr>session_id := sid\<rparr>;
            d \<leftarrow> find_descr object sv2;
            Some (put_cell a c1 sv2,
                  fst (send_setup_reply (conf env) (now_tm env) s2 d (rtp c1) (r\<lparr>session_list := Some s2\<rparr>)), ERR_NOERROR)
          }
        })"

section \<open>The request\<close>

definition setup_cseq :: "RTSP_buffer \<Rightarrow> RTSP_buffer option" where
  "setup_cseq r =
    (case strstr (request r) HDR_CSEQ of
       None \<Rightarrow> None
     | Some p \<Rightarrow>
         (case sscanf p [Skip WIDE, Ws, Num] of ([V_num n], _) \<Rightarrow> Some (r\<lparr>rtsp_cseq := word_of_int n\<rparr>) | _ \<Rightarrow> None))"

text \<open>From the medium on.\<close>

definition setup_medium ::
    "setup_env \<Rightarrow> string \<Rightarrow> nat \<Rightarrow> 'st server \<Rightarrow> RTSP_buffer \<Rightarrow> ('st server \<times> RTSP_buffer \<times> int) option" where
  "setup_medium env object k sv r0 =
    (case setup_cseq r0 of
       None \<Rightarrow> refuse 400 ERR_NOERROR sv r0
     | Some r \<Rightarrow>
         (case transport_tokens r of
            Inl st \<Rightarrow> refuse st ERR_NOERROR sv r
          | Inr toks \<Rightarrow>
              (case peer env of
                 None \<Rightarrow> refuse 415 ERR_GENERIC sv r
               | Some host \<Rightarrow>
                   do {
                     (n, v) \<leftarrow> negotiate env host object k toks
                                 \<lparr>n_sv = sv, n_conn = r, n_trans = zero_transport, n_dad = True\<rparr>;
                     case v of
                       Refused \<Rightarrow> Some (n_sv n, n_conn n, ERR_GENERIC)
                     | Next \<Rightarrow> refuse 461 ERR_NOERROR (n_sv n) (n_conn n)
                     | Found \<Rightarrow>
                         (case setup_session_id env (n_conn n) of
                            Inl _ \<Rightarrow> refuse 454 ERR_NOERROR (n_sv n) (n_conn n)
                          | Inr sid \<Rightarrow> add_session env object k sid n)
                   })))"

definition RTSP_setup :: "setup_env \<Rightarrow> 'st server \<Rightarrow> RTSP_buffer \<Rightarrow> ('st server \<times> RTSP_buffer \<times> int) option" where
  "RTSP_setup env sv r =
    (case get_url (rtsp_env.truncate env) r of
       Inl st \<Rightarrow> refuse st ERR_NOERROR sv r
     | Inr u \<Rightarrow>
         let object = url_file u in
         if forbidden object then refuse 403 ERR_NOERROR sv r
         else if \<not> supported_file object then refuse 415 ERR_NOERROR sv r
         else do {
           names \<leftarrow> setup_names object;
           case names of
             Inl st \<Rightarrow> refuse st ERR_NOERROR sv r
           | Inr (name, file) \<Rightarrow>
               do {
                 (sv1, i, _) \<leftarrow> sv_enum (ctl env) (scan0 env) name sv;
                 case i of
                   None \<Rightarrow> refuse 500 ERR_NOERROR sv1 r
                 | Some i \<Rightarrow>
                     (case get_media_entry (Some (setup_req file)) (me_list (sd_list sv1 ! i)) of
                        (Some k, _) \<Rightarrow> setup_medium env name k sv1 r
                      | (None, _) \<Rightarrow> refuse 404 ERR_NOERROR sv1 r)
               }
         })"

end
