(* ===== verification/Rtsp_Machine.thy ===== *)
theory Rtsp_Machine
  imports Rtsp_Setup
begin

text \<open>
  The state machine of a connection (\<^verbatim>\<open>rtsp/RTSP_state_machine.c\<close>) and the handler that takes the messages
  out of its input buffer (\<^verbatim>\<open>rtsp/RTSP_handler.c\<close>).
\<close>

section \<open>The state machine\<close>

definition set_state :: "int \<Rightarrow> RTSP_buffer \<Rightarrow> RTSP_buffer" where
  "set_state st r = r\<lparr>session_list := map_option (\<lambda>s. s\<lparr>cur_state := st\<rparr>) (session_list r)\<rparr>"

text \<open>A method whose return value is \<open>ERR_NOERROR\<close> moves the machine, whatever it has replied.\<close>

definition then_state ::
    "int \<Rightarrow> ('st server \<times> RTSP_buffer \<times> int) option \<Rightarrow> ('st server \<times> RTSP_buffer) option" where
  "then_state st x = map_option (\<lambda>(sv, r, ret). (sv, if ret = ERR_NOERROR then set_state st r else r)) x"

definition no_state :: "('st server \<times> RTSP_buffer \<times> int) option \<Rightarrow> ('st server \<times> RTSP_buffer) option" where
  "no_state x = map_option (\<lambda>(sv, r, ret). (sv, r)) x"

definition init_method :: "setup_env \<Rightarrow> int \<Rightarrow> 'st server \<Rightarrow> RTSP_buffer \<Rightarrow> ('st server \<times> RTSP_buffer) option" where
  "init_method env m sv r =
    (let e = rtsp_env.truncate env
     in if m = RTSP_ID_DESCRIBE then no_state (RTSP_describe e sv r)
        else if m = RTSP_ID_SETUP then then_state READY_STATE (RTSP_setup env sv r)
        else if m = RTSP_ID_TEARDOWN then no_state (RTSP_teardown e sv r)
        else if m = RTSP_ID_OPTIONS
        then then_state INIT_STATE (map_option (\<lambda>(r1, ret). (sv, r1, ret)) (RTSP_options r))
        else if m = RTSP_ID_PLAY \<or> m = RTSP_ID_PAUSE then Some (sv, reply 455 r)
        else Some (sv, reply 501 r))"

definition ready_method :: "setup_env \<Rightarrow> int \<Rightarrow> 'st server \<Rightarrow> RTSP_buffer \<Rightarrow> ('st server \<times> RTSP_buffer) option" where
  "ready_method env m sv r =
    (let e = rtsp_env.truncate env
     in if m = RTSP_ID_PLAY then then_state PLAY_STATE (RTSP_play e sv r)
        else if m = RTSP_ID_SETUP then then_state READY_STATE (RTSP_setup env sv r)
        else if m = RTSP_ID_TEARDOWN then no_state (RTSP_teardown e sv r)
        else if m = RTSP_ID_OPTIONS then Some (sv, r)
        else if m = RTSP_ID_PAUSE then Some (sv, reply 455 r)
        else if m = RTSP_ID_DESCRIBE then no_state (RTSP_describe e sv r)
        else Some (sv, reply 501 r))"

definition play_method :: "setup_env \<Rightarrow> int \<Rightarrow> 'st server \<Rightarrow> RTSP_buffer \<Rightarrow> ('st server \<times> RTSP_buffer) option" where
  "play_method env m sv r =
    (let e = rtsp_env.truncate env
     in if m = RTSP_ID_PLAY then Some (sv, reply 551 r)
        else if m = RTSP_ID_PAUSE then then_state READY_STATE (RTSP_pause e sv r)
        else if m = RTSP_ID_TEARDOWN then no_state (RTSP_teardown e sv r)
        else if m = RTSP_ID_DESCRIBE then no_state (RTSP_describe e sv r)
        else Some (sv, r))"

definition RTSP_state_machine :: "setup_env \<Rightarrow> int \<Rightarrow> 'st server \<Rightarrow> RTSP_buffer \<Rightarrow> ('st server \<times> RTSP_buffer) option" where
  "RTSP_state_machine env m sv r =
    (case get_session r of
       Inl _ \<Rightarrow> Some (sv, reply 454 r)
     | Inr _ \<Rightarrow>
         (case session_list r of
            None \<Rightarrow> Some (sv, r)
          | Some s \<Rightarrow>
              if cur_state s = INIT_STATE then init_method env m sv r
              else if cur_state s = READY_STATE then ready_method env m sv r
              else if cur_state s = PLAY_STATE then play_method env m sv r
              else Some (sv, r)))"

section \<open>Interleaved packets\<close>

text \<open>The members of the transport's union share memory: in a UDP session the channel numbers overlay the address
  family and the port of the peer, in network order, on a little-endian machine.\<close>

definition tcp_view :: "RTP_transport \<Rightarrow> stream_pair" where
  "tcp_view t =
    (if trans_type t = RTP_rtp_avp
     then (let p = sa_port (rtp_peer t)
           in if sa_host (rtp_peer t) = [] then \<lparr>RTP_ch = 0, RTCP_ch = 0\<rparr>
              else \<lparr>RTP_ch = 2, RTCP_ch = or (push_bit 8 p) (drop_bit 8 p)\<rparr>)
     else interleaved t)"

text \<open>The channel is a signed character.\<close>

definition channel :: "RTSP_buffer \<Rightarrow> int" where
  "channel r = sint (of_char (in_at r 1) :: uint8)"

fun channel_session :: "int \<Rightarrow> nat list \<Rightarrow> 'st server \<Rightarrow> (nat \<times> rtp_cell) option option" where
  "channel_session m [] sv = Some None"
| "channel_session m (a # as) sv =
     do {
       c \<leftarrow> rtp_heap sv a;
       let v = tcp_view (transport (rtp c));
       if uint (RTP_ch v) = m \<or> uint (RTCP_ch v) = m then Some (Some (a, c)) else channel_session m as sv
     }"

definition interleaved_packet :: "int \<Rightarrow> int \<Rightarrow> 'st server \<Rightarrow> RTSP_buffer \<Rightarrow> 'st server option" where
  "interleaved_packet hlen blen sv r =
    do {
      found \<leftarrow> channel_session (channel r) (case session_list r of Some s \<Rightarrow> rtp_list s | None \<Rightarrow> []) sv;
      case found of
        None \<Rightarrow> Some sv
      | Some (a, c) \<Rightarrow>
          if uint (RTCP_ch (tcp_view (transport (rtp c)))) \<noteq> channel r then Some sv
          else
            let n = nat (hlen + blen);
                bytes = map of_char (take n (drop (nat hlen) (in_buffer r) @ replicate n NUL));
                s = (if n \<le> RTCP_BUFFERSIZE
                     then (rtp c)\<lparr>rtcp_inbuffer := memcpy (rtcp_inbuffer (rtp c)) bytes n, rtcp_insize := word_of_int blen\<rparr>
                     else rtp c)
            in map_option (\<lambda>(s1, _). put_cell a (c\<lparr>rtp := s1\<rparr>) sv) (RTCP_recv_packet s)
    }"

section \<open>The handler\<close>

text \<open>One round of the loop for a complete message. \<open>junk\<close> is the value of an uninitialised sequence number.\<close>

definition handle_message ::
    "setup_env \<Rightarrow> uint32 \<Rightarrow> int \<Rightarrow> int \<times> int \<Rightarrow> 'st server \<Rightarrow> RTSP_buffer \<Rightarrow> ('st server \<times> RTSP_buffer) option" where
  "handle_message env junk kind lens sv r =
    do {
      (sv1, r1) \<leftarrow>
        (if kind = RTSP_method_rcvd
         then (if fst (RTSP_valid_response_msg junk r) = 0
               then (let (r0, m) = RTSP_validate_method r
                     in if m < 0 then Some (sv, reply 400 r0) else RTSP_state_machine env m sv r0)
               else Some (sv, r))
         else map_option (\<lambda>sv1. (sv1, r)) (interleaved_packet (fst lens) (snd lens) sv r));
      Some (sv1, RTSP_discard_msg r1)
    }"

text \<open>The loop; the environment of a round depends on its number. It may never end.\<close>

partial_function (option) RTSP_handler ::
    "(nat \<Rightarrow> setup_env \<times> uint32) \<Rightarrow> nat \<Rightarrow> 'st server \<Rightarrow> RTSP_buffer \<Rightarrow> ('st server \<times> RTSP_buffer \<times> int) option" where
  "RTSP_handler ev n sv r =
    (if in_size r = 0 then Some (sv, r, ERR_NOERROR)
     else
       (case RTSP_full_msg_rcvd r of
          (kind, Some lens) \<Rightarrow>
            do {
              (sv1, r1) \<leftarrow> handle_message (fst (ev n)) (snd (ev n)) kind lens sv r;
              RTSP_handler ev (n + 1) sv1 r1
            }
        | (kind, None) \<Rightarrow> Some (sv, r, kind)))"

declare RTSP_handler.simps [code]

end
