(* ===== verification/Event_Loop.thy ===== *)
theory Event_Loop
  imports Rtsp_Machine
begin

text \<open>
  The main thread (\<^verbatim>\<open>eventloop/\<close>): the descriptors it waits for (\<^verbatim>\<open>rtsp_set_fdsets.c\<close>), the
  work on one connection (\<^verbatim>\<open>rtsp_server.c\<close>), the pass over the connections with the release of the
  closed ones (\<^verbatim>\<open>schedule_connections.c\<close>), new connections (\<^verbatim>\<open>add_client.c\<close>), and one round
  of the loop (\<^verbatim>\<open>eventloop.c\<close>). The system then is the two threads: the main thread works on one
  connection at a time, the scheduler on one entry of its table at a time, in any order.
\<close>

section \<open>The descriptors\<close>

text \<open>A stream that does not play puts the whole connection into the ready state. \<open>None\<close> follows a dangling
  pointer.\<close>

fun set_streams :: "nat list \<Rightarrow> 'st server \<Rightarrow> RTSP_buffer \<Rightarrow> (RTSP_buffer \<times> int list) option" where
  "set_streams [] sv r = Some (r, [])"
| "set_streams (a # as) sv r =
     do {
       c \<leftarrow> rtp_heap sv a;
       let f = rtcp_fd_in (transport (rtp c));
       let (r1, fs) = (if \<not> started (rtp c) then (set_state READY_STATE r, [])
                       else if 0 \<le> f then (r, [f]) else (r, []));
       (r2, fs2) \<leftarrow> set_streams as sv r1;
       Some (r2, fs @ fs2)
     }"

abbreviation conn_streams :: "RTSP_buffer \<Rightarrow> nat list" where
  "conn_streams r \<equiv> (case session_list r of Some s \<Rightarrow> rtp_list s | None \<Rightarrow> [])"

definition rtsp_set_fdsets :: "'st server \<Rightarrow> RTSP_buffer \<Rightarrow> (RTSP_buffer \<times> int list \<times> int list) option" where
  "rtsp_set_fdsets sv r =
    do {
      (r1, fs) \<leftarrow> set_streams (conn_streams r) sv r;
      Some (r1, rtsp_fd r # concat (map (\<lambda>il. [ilv_rtp_fd il, ilv_rtcp_fd il]) (interleaved_list r)) @ fs,
            if 0 < out_size r then [rtsp_fd r] else [])
    }"

section \<open>The work on a connection\<close>

text \<open>The answers of the system: what \<open>send\<close> takes, what \<open>tcp_read\<close> delivers (\<open>None\<close> is an error, no character
  the end of the connection), what is read from the socket pairs of the interleaved streams and sent on, and the
  datagrams of the clients' reports.\<close>

record server_io =
  sent :: "nat option"
  received :: "string option"
  rounds :: "nat \<Rightarrow> setup_env \<times> uint32"
  pair_read :: "nat \<Rightarrow> string option"
  pair_sent :: "nat \<Rightarrow> nat option"
  reports :: "nat \<Rightarrow> uint8 list option"

text \<open>An interleaved packet in the output buffer: a dollar sign, the channel and the length in network order.\<close>

definition frame_out :: "uint16 \<Rightarrow> string \<Rightarrow> RTSP_buffer \<Rightarrow> RTSP_buffer" where
  "frame_out ch s r =
    (let d = take (length (out_buffer r) - 4) s; n = length d
     in r\<lparr>out_buffer := [CHR ''$'', char_of (unat ch mod 256), char_of (n div 256 mod 256), char_of (n mod 256)] @ d @
            drop (n + 4) (out_buffer r),
          out_size := n + 4\<rparr>)"

text \<open>The packets of the streams are forwarded while nothing waits for the connection; the last result is false when
  \<open>send\<close> has failed.\<close>

fun forward :: "server_io \<Rightarrow> int list \<Rightarrow> nat \<Rightarrow> RTSP_interleaved list \<Rightarrow> RTSP_buffer \<Rightarrow> RTSP_buffer \<times> string \<times> bool" where
  "forward io rset k [] r = (r, [], True)"
| "forward io rset k (il # ils) r =
     (if out_size r \<noteq> 0 then (r, [], True)
      else if ilv_rtcp_fd il \<in> set rset \<or> ilv_rtp_fd il \<in> set rset
      then (case pair_read io k of
              None \<Rightarrow> forward io rset (k + 1) ils r
            | Some s \<Rightarrow>
                let (r1, w1, n) = RTSP_send (pair_sent io k)
                      (frame_out (if ilv_rtcp_fd il \<in> set rset then rtcp_ch il else rtp_ch il) s r)
                in if n < 0 then (reply 500 r1, w1, False)
                   else let (r2, w2, ok) = forward io rset (k + 1) ils r1 in (r2, w1 @ w2, ok))
      else forward io rset (k + 1) ils r)"

fun recv_reports :: "server_io \<Rightarrow> int list \<Rightarrow> nat list \<Rightarrow> 'st server \<Rightarrow> 'st server option" where
  "recv_reports io rset [] sv = Some sv"
| "recv_reports io rset (a # as) sv =
     do {
       c \<leftarrow> rtp_heap sv a;
       let f = rtcp_fd_in (transport (rtp c));
       s \<leftarrow> (if 0 \<le> f \<and> f \<in> set rset
            then (let (s1, n) = RTP_recv (reports io a) (rtp c)
                  in if n < 0 then Some s1 else map_option fst (RTCP_recv_packet s1))
            else Some (rtp c));
       recv_reports io rset as (put_cell a (c\<lparr>rtp := s\<rparr>) sv)
     }"

text \<open>The part behind the request: the streams' packets and reports.\<close>

definition serve_streams ::
    "server_io \<Rightarrow> int list \<Rightarrow> string \<Rightarrow> 'st server \<Rightarrow> RTSP_buffer \<Rightarrow> ('st server \<times> RTSP_buffer \<times> string \<times> int) option" where
  "serve_streams io rset w sv r =
    (let (r1, w1, ok) = forward io rset 0 (interleaved_list r) r
     in if \<not> ok then Some (sv, r1, w @ w1, ERR_GENERIC)
        else do {
          sv1 \<leftarrow> recv_reports io rset (conn_streams r1) sv;
          Some (sv1, r1, w @ w1, ERR_NOERROR)
        })"

definition rtsp_server ::
    "server_io \<Rightarrow> int list \<Rightarrow> int list \<Rightarrow> 'st server \<Rightarrow> RTSP_buffer \<Rightarrow> ('st server \<times> RTSP_buffer \<times> string \<times> int) option" where
  "rtsp_server io rset wset sv r =
    (let (r1, w, n) = (if rtsp_fd r \<in> set wset then RTSP_send (sent io) r else (r, [], 0))
     in if n < 0 then Some (sv, reply 500 r1, w, ERR_GENERIC)
        else if rtsp_fd r1 \<notin> set rset then serve_streams io rset w sv r1
        else
          (case map_option (take RTSP_BUFFERSIZE) (received io) of
             None \<Rightarrow> Some (sv, reply 500 r1, w, ERR_GENERIC)
           | Some s \<Rightarrow>
               if s = [] then Some (sv, r1, w, ERR_CONNECTION_CLOSE)
               else if RTSP_BUFFERSIZE < in_size r1 + length s then Some (sv, reply 500 r1, w, ERR_GENERIC)
               else do {
                 (sv1, r2, res) \<leftarrow> RTSP_handler (rounds io) 0 sv
                   (r1\<lparr>in_buffer := take (in_size r1) (in_buffer r1) @ s @ drop (in_size r1 + length s) (in_buffer r1),
                       in_size := in_size r1 + length s\<rparr>);
                 if res = ERR_GENERIC then Some (sv1, r2, w, ERR_NOERROR) else serve_streams io rset w sv1 r2
               }))"

section \<open>The connections\<close>

definition RTP_DEFAULT_PORT :: int where "RTP_DEFAULT_PORT = 5004"

fun release_all :: "nat list \<Rightarrow> 'st server \<Rightarrow> 'st server option" where
  "release_all [] sv = Some sv"
| "release_all (a # as) sv =
     do { c \<leftarrow> rtp_heap sv a; sv1 \<leftarrow> schedule_remove (sched_id (rtp c)) sv; release_all as sv1 }"

record 'st fenice =
  srv :: "'st server"
  rtsp_list :: "RTSP_buffer list"
  conn_count :: int
  child_count :: uint32
  stop_schedule :: bool

text \<open>One connection of the list: it stays, or its sessions leave the scheduler and it goes.\<close>

definition serve_connection ::
    "server_io \<Rightarrow> int list \<Rightarrow> int list \<Rightarrow> 'st server \<Rightarrow> RTSP_buffer \<Rightarrow> ('st server \<times> RTSP_buffer option \<times> string) option" where
  "serve_connection io rset wset sv r =
    do {
      (sv1, r1, w, res) \<leftarrow> rtsp_server io rset wset sv r;
      if res = ERR_CONNECTION_CLOSE \<or> res = ERR_GENERIC
      then do {
        sv2 \<leftarrow> release_all (conn_streams r1) sv1;
        Some (sv2\<lparr>num_conn := num_conn sv2 - 1\<rparr>, None, w)
      }
      else Some (sv1, Some r1, w)
    }"

text \<open>The pass over the list. Closing the last connection of the list stops the scheduler when the process takes no
  new ones (a negative count).\<close>

fun schedule_connections ::
    "(nat \<Rightarrow> server_io) \<Rightarrow> int list \<Rightarrow> int list \<Rightarrow> nat \<Rightarrow> RTSP_buffer list \<Rightarrow> 'st fenice \<Rightarrow> 'st fenice option" where
  "schedule_connections io rset wset k [] sys = Some sys"
| "schedule_connections io rset wset k (r # rs) sys =
     do {
       (sv1, kept, _) \<leftarrow> serve_connection (io k) rset wset (srv sys) r;
       case kept of
         Some r1 \<Rightarrow> schedule_connections io rset wset (k + 1) rs (sys\<lparr>srv := sv1, rtsp_list := rtsp_list sys @ [r1]\<rparr>)
       | None \<Rightarrow>
           schedule_connections io rset wset (k + 1) rs
             (sys\<lparr>srv := sv1, conn_count := conn_count sys - 1,
                  stop_schedule := stop_schedule sys \<or> rs = [] \<and> conn_count sys - 1 < 0\<rparr>)
     }"

definition add_client :: "int \<Rightarrow> RTSP_proto \<Rightarrow> RTSP_buffer list \<Rightarrow> RTSP_buffer list" where
  "add_client f p l = l @ [RTSP_initserver f p zero_RTSP_buffer]"

text \<open>\<open>forked\<close> tells whether this process is the child of \<open>fork\<close>.\<close>

definition accept_client :: "int \<Rightarrow> bool \<Rightarrow> 'st fenice \<Rightarrow> 'st fenice" where
  "accept_client f forked sys =
    (if f < 0 \<or> (\<exists>r \<in> set (rtsp_list sys). rtsp_fd r = f) then sys
     else
       let sys1 =
         (if conn_count sys < int ONE_FORK_MAX_CONNECTION
          then sys\<lparr>conn_count := conn_count sys + 1, rtsp_list := add_client f TCP (rtsp_list sys)\<rparr>
          else if forked
          then let n = child_count sys + 1
               in sys\<lparr>child_count := n,
                    srv := schedule_init ((srv sys)\<lparr>port_pool :=
                             RTP_port_pool_init (int (ONE_FORK_MAX_CONNECTION * unat n * 2) + RTP_DEFAULT_PORT)\<rparr>),
                    conn_count := 1, rtsp_list := add_client f TCP []\<rparr>
          else sys\<lparr>conn_count := - 1\<rparr>)
       in sys1\<lparr>srv := (srv sys1)\<lparr>num_conn := num_conn (srv sys1) + 1\<rparr>\<rparr>)"

section \<open>One round\<close>

text \<open>The descriptors of all connections.\<close>

fun set_all :: "'st server \<Rightarrow> RTSP_buffer list \<Rightarrow> (RTSP_buffer list \<times> int list \<times> int list) option" where
  "set_all sv [] = Some ([], [], [])"
| "set_all sv (r # rs) =
     do {
       (r1, i1, o1) \<leftarrow> rtsp_set_fdsets sv r;
       (rs1, i2, o2) \<leftarrow> set_all sv rs;
       Some (r1 # rs1, i1 @ i2, o1 @ o2)
     }"

record loop_io =
  ready :: "int list option"
  ready_out :: "int list"
  conn_io :: "nat \<Rightarrow> server_io"
  accepted :: int
  is_child :: bool

text \<open>What \<open>select\<close> waits to read from: the connections, and the listening socket unless the count is $-1$.\<close>

definition wait_fds :: "int \<Rightarrow> 'st fenice \<Rightarrow> int list \<Rightarrow> int list" where
  "wait_fds main_fd sys rset = (if conn_count sys \<noteq> - 1 then main_fd # rset else rset)"

text \<open>The largest descriptor is left out: a process that takes no new connections never sets it before
  \<open>select\<close>.\<close>

definition eventloop :: "int \<Rightarrow> loop_io \<Rightarrow> 'st fenice \<Rightarrow> 'st fenice option" where
  "eventloop main_fd io sys =
    do {
      (l, rset, wset) \<leftarrow> set_all (srv sys) (rtsp_list sys);
      let rset0 = wait_fds main_fd sys rset;
      case ready io of
        None \<Rightarrow> Some (sys\<lparr>rtsp_list := l\<rparr>)
      | Some fs \<Rightarrow>
          do {
            let rd = filter (\<lambda>f. f \<in> set fs) rset0;
            sys1 \<leftarrow> schedule_connections (conn_io io) rd (filter (\<lambda>f. f \<in> set (ready_out io)) wset) 0 l (sys\<lparr>rtsp_list := []\<rparr>);
            Some (if conn_count sys1 \<noteq> - 1 \<and> main_fd \<in> set rd
                  then accept_client (accepted io) (is_child io) sys1 else sys1)
          }
    }"

section \<open>The start\<close>

text \<open>What \<open>main\<close> sets up before the first round: an empty table and the pool of ports.\<close>

definition empty_server :: "'st server" where
  "empty_server =
    \<lparr>sd_list = [], epochs = (\<lambda>_. 0), retired = (\<lambda>_. None), own_media = (\<lambda>_. None), buf_of = (\<lambda>_. None),
     buffers = (\<lambda>_. None), rtp_heap = (\<lambda>_. None), next_addr = 0, sched = [], client_count = 0,
     port_pool = RTP_port_pool_init RTP_DEFAULT_PORT, num_conn = 0\<rparr>"

definition fenice_start :: "'st fenice" where
  "fenice_start =
    \<lparr>srv = schedule_init empty_server, rtsp_list = [], conn_count = 0, child_count = 0, stop_schedule = False\<rparr>"

section \<open>The two threads\<close>

text \<open>The steps of the main thread and of the scheduler.\<close>

inductive fenice_step :: "'st fenice \<Rightarrow> 'st fenice \<Rightarrow> bool" where
  fdsets: "set_all (srv sys) (rtsp_list sys) = Some (l, rset, wset) \<Longrightarrow> fenice_step sys (sys\<lparr>rtsp_list := l\<rparr>)"
| serve: "rtsp_list sys = as @ r # bs \<Longrightarrow> serve_connection io rset wset (srv sys) r = Some (sv1, Some r1, w) \<Longrightarrow>
    fenice_step sys (sys\<lparr>srv := sv1, rtsp_list := as @ r1 # bs\<rparr>)"
| close: "rtsp_list sys = as @ r # bs \<Longrightarrow> serve_connection io rset wset (srv sys) r = Some (sv1, None, w) \<Longrightarrow>
    fenice_step sys (sys\<lparr>srv := sv1, conn_count := conn_count sys - 1, stop_schedule := stop, rtsp_list := as @ bs\<rparr>)"
| accept: "fenice_step sys (accept_client f forked sys)"
| visit: "i < ONE_FORK_MAX_CONNECTION \<Longrightarrow> env_ok env \<Longrightarrow> schedule_visit env i (srv sys) = Some (sv1, w) \<Longrightarrow>
    fenice_step sys (sys\<lparr>srv := sv1\<rparr>)"

end
