(* ===== verification/Table_Safety.thy ===== *)
theory Table_Safety
  imports Event_Loop
begin

text \<open>
  The scheduler's table and the connections agree: what each method of a connection keeps of this, the state machine
  and the handler over them, and the invariant of the two threads.
\<close>

section \<open>Connections\<close>

text \<open>\<open>others\<close> are the sessions of the other connections.\<close>

definition conn_ok :: "nat multiset \<Rightarrow> 'st server \<Rightarrow> RTSP_buffer \<Rightarrow> bool" where
  "conn_ok others sv r \<longleftrightarrow> sched_ok (mset (conn_streams r) + others) sv \<and> media_fine sv"

lemma conn_quiet: "conn_ok H sv r \<Longrightarrow> quiet sv sv' \<Longrightarrow> session_list r' = session_list r \<Longrightarrow> conn_ok H sv' r'"
  by (auto simp: conn_ok_def quiet_def intro: ok_quiet [unfolded quiet_def])

lemma bwrite_conn [simp]: "session_list (fst (bwrite s r)) = session_list r"
  by (simp add: bwrite_def Let_def)

lemma send_reply_conn [simp]: "session_list (fst (send_reply st a r)) = session_list r"
  by (simp add: send_reply_def)

lemma replies_conn [simp]:
  "session_list (fst (send_options_reply n r)) = session_list r"
  "session_list (fst (send_pause_reply cfg now s r)) = session_list r"
  "session_list (fst (send_teardown_reply cfg now i n r)) = session_list r"
  "session_list (fst (send_setup_reply cfg now s d p r)) = session_list r"
  "session_list (fst (send_redirect_3xx cfg f r)) = session_list r"
  by (simp_all add: send_options_reply_def send_pause_reply_def send_teardown_reply_def send_setup_reply_def
      send_redirect_3xx_def Let_def split: option.split)

lemma describe_reply_conn [simp]: "send_describe_reply cfg now ob fm t r = Some (r', x) \<Longrightarrow> session_list r' = session_list r"
  by (auto simp: send_describe_reply_def split: option.splits)

lemma play_reply_conn: "send_play_reply cfg now s l r = Some (r', x) \<Longrightarrow> session_list r' = session_list r"
  by (auto simp: send_play_reply_def Let_def split: option.splits)

lemma redirect_conn: "send_redirect_3xx cfg f r = (r', x) \<Longrightarrow> session_list r' = session_list r"
  by (metis fst_conv replies_conn(5))

lemma get_cseq_conn: "get_cseq r = Some r' \<Longrightarrow> session_list r' = session_list r"
  by (auto simp: get_cseq_def split: option.splits prod.splits list.splits scan_val.splits)

lemma setup_cseq_conn: "setup_cseq r = Some r' \<Longrightarrow> session_list r' = session_list r"
  by (auto simp: setup_cseq_def split: option.splits prod.splits list.splits scan_val.splits)

lemma refuse_conn: "refuse st ret sv r = Some (sv', r', x) \<Longrightarrow> sv' = sv \<and> session_list r' = session_list r"
  by (auto simp: refuse_def)

text \<open>An operation of a connection keeps the agreement.\<close>

locale connection_op =
  fixes run :: "'st server \<Rightarrow> RTSP_buffer \<Rightarrow> ('st server \<times> RTSP_buffer \<times> int) option"
  assumes keeps: "conn_ok H sv r \<Longrightarrow> run sv r = Some (sv', r', ret) \<Longrightarrow> conn_ok H sv' r'"
begin

lemma then_state_keeps:
  assumes "conn_ok H sv r" and "then_state st (run sv r) = Some (sv', r')"
  shows "conn_ok H sv' r'"
proof -
  obtain r1 ret where run: "run sv r = Some (sv', r1, ret)" and r': "r' = (if ret = ERR_NOERROR then set_state st r1 else r1)"
    using assms(2) by (auto simp: then_state_def)
  have "conn_streams r' = conn_streams r1" by (simp add: r' set_state_def option.case_eq_if option.map_sel)
  then show ?thesis using keeps [OF assms(1) run] by (simp add: conn_ok_def)
qed

lemma no_state_keeps:
  assumes "conn_ok H sv r" and "no_state (run sv r) = Some (sv', r')"
  shows "conn_ok H sv' r'"
  using assms keeps by (auto simp: no_state_def)

end

section \<open>The methods\<close>

interpretation options_op: connection_op "\<lambda>sv r. map_option (\<lambda>(r1, ret). (sv, r1, ret)) (RTSP_options r)"
proof
  fix H :: "nat multiset" and sv sv' :: "'a server" and r r' ret
  assume ok: "conn_ok H sv r" and run: "map_option (\<lambda>(r1, ret). (sv, r1, ret)) (RTSP_options r) = Some (sv', r', ret)"
  have "sv' = sv \<and> session_list r' = session_list r"
    using run by (auto simp: RTSP_options_def Let_def bind_eq_Some_conv split: option.splits dest!: get_cseq_conn)
  then show "conn_ok H sv' r'" using ok by (simp add: conn_ok_def)
qed

lemma describe_quiet: "describe_media env ob sv = Some (sv', d, res) \<Longrightarrow> quiet sv sv'"
  unfolding describe_media_def get_media_descr_def get_SDP_descr_def Let_def
  by (auto split: if_split_asm Option.bind_split_asm option.split_asm prod.split_asm dest!: quiet_enum intro: quiet_trans)

interpretation describe_op: connection_op "RTSP_describe env" for env
proof
  fix H :: "nat multiset" and sv sv' :: "'a server" and r r' ret
  assume ok: "conn_ok H sv r" and run: "RTSP_describe env sv r = Some (sv', r', ret)"
  have "quiet sv sv' \<and> session_list r' = session_list r"
    using run unfolding RTSP_describe_def Let_def refuse_def
    by (auto split: sum.split_asm if_split_asm option.split_asm Option.bind_split_asm prod.split_asm
        dest!: get_cseq_conn describe_quiet quiet_enum redirect_conn intro: quiet_trans)
  then show "conn_ok H sv' r'" using ok conn_quiet by blast
qed

lemma start_or_resume_quiet: "start_or_resume env args c sv = Some sv' \<Longrightarrow> quiet sv sv'"
  by (auto simp: start_or_resume_def split: if_splits dest!: quiet_start quiet_resume)

lemma play_sessions_quiet: "play_sessions env args P as sv = Some sv' \<Longrightarrow> quiet sv sv'"
  by (induction as arbitrary: sv)
     (auto split: Option.bind_split_asm prod.split_asm if_split_asm dest!: start_or_resume_quiet intro: quiet_trans)

lemma play_object_quiet: "play_object env args ob f s sv = Some (Inr sv') \<Longrightarrow> quiet sv sv'"
  by (auto simp: play_object_def split: option.split_asm Option.bind_split_asm if_split_asm
      dest!: play_sessions_quiet quiet_start)

interpretation play_op: connection_op "RTSP_play env" for env
proof
  fix H :: "nat multiset" and sv sv' :: "'a server" and r r' ret
  assume ok: "conn_ok H sv r" and run: "RTSP_play env sv r = Some (sv', r', ret)"
  have "quiet sv sv' \<and> session_list r' = session_list r"
    using run unfolding RTSP_play_def Let_def refuse_def
    by (auto split: sum.split_asm if_split_asm option.split_asm Option.bind_split_asm prod.split_asm
        dest!: get_cseq_conn play_object_quiet play_reply_conn)
  then show "conn_ok H sv' r'" using ok conn_quiet by blast
qed

lemma pause_sessions_quiet: "pause_sessions as sv = Some sv' \<Longrightarrow> quiet sv sv'"
proof (induction as arbitrary: sv)
  case (Cons a as)
  then obtain c where c: "rtp_heap sv a = Some c" "pause_sessions as (put_cell a (c\<lparr>rtp := (rtp c)\<lparr>paused := True\<rparr>\<rparr>) sv) = Some sv'"
    by (auto split: Option.bind_split_asm)
  have "quiet sv (put_cell a (c\<lparr>rtp := (rtp c)\<lparr>paused := True\<rparr>\<rparr>) sv)" using c(1) by (auto intro: quiet_put_cell)
  then show ?case using Cons.IH [OF c(2)] quiet_trans by blast
qed simp

interpretation pause_op: connection_op "RTSP_pause env" for env
proof
  fix H :: "nat multiset" and sv sv' :: "'a server" and r r' ret
  assume ok: "conn_ok H sv r" and run: "RTSP_pause env sv r = Some (sv', r', ret)"
  have "quiet sv sv' \<and> session_list r' = session_list r"
    using run unfolding RTSP_pause_def Let_def refuse_def
    by (auto split: sum.split_asm if_split_asm option.split_asm Option.bind_split_asm prod.split_asm
        dest!: get_cseq_conn pause_sessions_quiet)
  then show "conn_ok H sv' r'" using ok conn_quiet by blast
qed

text \<open>Taking streams out of a connection.\<close>

lemma remove_head:
  assumes "sched_ok (add_mset a H) sv" and "media_fine sv" and "rtp_heap sv a = Some c"
    and "schedule_remove (sched_id (rtp c)) sv = Some sv'"
  shows "sched_ok H sv'" and "media_fine sv'"
proof -
  have "ids sv a = Some (sched_id (rtp c))" using assms(3) by (simp add: ids_def)
  then show "sched_ok H sv'" using ok_remove [OF assms(1) _ assms(4)] by blast
  show "media_fine sv'" using assms(2,4) by (auto simp: schedule_remove_def split: if_splits)
qed

lemma release_named_ok:
  "release_named name as sv = Some (sv', l) \<Longrightarrow> sched_ok (mset as + H) sv \<Longrightarrow> media_fine sv \<Longrightarrow>
   sched_ok (mset l + H) sv' \<and> media_fine sv'"
proof (induction as arbitrary: sv l H)
  case (Cons a as)
  from Cons.prems(1) obtain c m where c: "session_medium a sv = Some (c, m)"
    by (auto split: Option.bind_split_asm)
  show ?case
  proof (cases "me_filename m = name \<or> aggregate m = name")
    case True
    then obtain sv1 where s: "schedule_remove (sched_id (rtp c)) sv = Some sv1" "release_named name as sv1 = Some (sv', l)"
      using Cons.prems(1) c by (auto split: Option.bind_split_asm)
    have "sched_ok (mset as + H) sv1" "media_fine sv1"
      using remove_head [OF _ Cons.prems(3) session_medium_cell [OF c] s(1)] Cons.prems(2) by simp_all
    then show ?thesis by (rule Cons.IH [OF s(2)])
  next
    case False
    then obtain l1 where l: "release_named name as sv = Some (sv', l1)" "l = a # l1"
      using Cons.prems(1) c by (auto split: Option.bind_split_asm prod.split_asm)
    then show ?thesis using Cons.IH [OF l(1), of "add_mset a H"] Cons.prems(2,3) by simp
  qed
qed simp

lemma release_all_ok:
  "release_all as sv = Some sv' \<Longrightarrow> sched_ok (mset as + H) sv \<Longrightarrow> media_fine sv \<Longrightarrow> sched_ok H sv' \<and> media_fine sv'"
proof (induction as arbitrary: sv)
  case (Cons a as)
  from Cons.prems(1) obtain c sv1 where c: "rtp_heap sv a = Some c" "schedule_remove (sched_id (rtp c)) sv = Some sv1"
    "release_all as sv1 = Some sv'" by (auto split: Option.bind_split_asm)
  have "sched_ok (mset as + H) sv1" "media_fine sv1" using remove_head [OF _ Cons.prems(3) c(1,2)] Cons.prems(2) by simp_all
  then show ?case by (rule Cons.IH [OF c(3)])
qed simp

interpretation teardown_op: connection_op "RTSP_teardown env" for env
proof
  fix H :: "nat multiset" and sv sv' :: "'a server" and r r' ret
  assume ok: "conn_ok H sv r" and run: "RTSP_teardown env sv r = Some (sv', r', ret)"
  consider "sv' = sv" "session_list r' = session_list r"
    | s name l where "session_list r = Some s" "release_named name (rtp_list s) sv = Some (sv', l)"
      "session_list r' = (if l = [] then None else Some (s\<lparr>rtp_list := l\<rparr>))"
    using run unfolding RTSP_teardown_def Let_def refuse_def
    by (fastforce split: sum.split_asm if_split_asm option.split_asm Option.bind_split_asm prod.split_asm
        dest!: get_cseq_conn)
  then show "conn_ok H sv' r'"
  proof cases
    case 1
    then show ?thesis using ok by (simp add: conn_ok_def)
  next
    case 2
    then show ?thesis using ok release_named_ok [OF 2(2), of H] by (auto simp: conn_ok_def)
  qed
qed

section \<open>SETUP\<close>

lemma fine_enter [simp]: "media_fine (sv\<lparr>own_media := (own_media sv)(a := Some m)\<rparr>) \<longleftrightarrow>
    media_fine (sv\<lparr>own_media := (own_media sv)(a := None)\<rparr>) \<and> copyable m"
  by (auto simp: media_fine_def)

lemma fine_forget: "media_fine sv \<Longrightarrow> media_fine (sv\<lparr>own_media := (own_media sv)(a := None)\<rparr>)"
  by (auto simp: media_fine_def)

lemma copyable_zero [simp]: "copyable zero_media"
  by (simp add: copyable_def zero_media_def zero_descr_def strcaseeq_def)

lemma mediacpy_ok: "copyable inp \<Longrightarrow> mediacpy look out inp = (o1, res) \<Longrightarrow> res = ERR_NOERROR \<and> copyable o1"
  by (auto simp: mediacpy_def copyable_def Let_def split: if_splits option.splits)

lemma copy_medium_ok:
  assumes "copy_medium env dad p a sv = Some (sv', mp, res)" and f: "media_fine sv"
  shows "quiet sv sv' \<and> rtp_heap sv' = rtp_heap sv \<and> res = ERR_NOERROR"
proof -
  let ?sv0 = "sv\<lparr>own_media := (own_media sv)(a := Some zero_media), buf_of := (buf_of sv)(Own a := None)\<rparr>"
  have f0: "media_fine ?sv0" using fine_forget [OF f] by simp
  then have q0: "quiet sv ?sv0" by (simp add: quiet_def ids_def fun_eq_iff)
  show ?thesis
  proof (cases dad)
    case False
    then show ?thesis using assms(1) q0 by (auto simp: copy_medium_def)
  next
    case True
    then obtain inp where lm: "load_medium p ?sv0 = Some inp"
      using assms(1) unfolding copy_medium_def Let_def by (auto split: Option.bind_split_asm)
    obtain out res' where mc: "mediacpy (shm_find env) zero_media inp = (out, res')" by fastforce
    have inp: "load_medium p ?sv0 = Some inp" "mediacpy (shm_find env) zero_media inp = (out, res)"
      and sv': "sv' = (if msource (description inp) = live then save_medium p out ?sv0
        else if buf_of ?sv0 p \<noteq> None
        then ?sv0\<lparr>own_media := (own_media ?sv0)(a := Some (out\<lparr>pkt_buffer := None\<rparr>)), buf_of := (buf_of ?sv0)(Own a := buf_of ?sv0 p)\<rparr>
        else save_medium (Own a) out ?sv0)"
      using assms(1) lm mc True unfolding copy_medium_def Let_def by (auto split: if_split_asm)
    have out: "res = ERR_NOERROR" "copyable out" using mediacpy_ok [OF load_medium_fine [OF f0 inp(1)] inp(2)] by simp_all
    then have "copyable (out\<lparr>pkt_buffer := None\<rparr>)" by (simp add: copyable_def)
    then have "media_fine (?sv0\<lparr>own_media := (own_media ?sv0)(a := Some (out\<lparr>pkt_buffer := None\<rparr>)), buf_of := (buf_of ?sv0)(Own a := buf_of ?sv0 p)\<rparr>)"
      using fine_forget [OF f] by simp
    then have "quiet ?sv0 sv'"
      unfolding sv' using quiet_save_medium [of ?sv0 out] out(2) by (auto simp: quiet_def ids_def fun_eq_iff)
    then show ?thesis using quiet_trans [OF q0] out(1) by (auto simp: sv' simp del: fine_enter)
  qed
qed

text \<open>The negotiation of the transport leaves the table and the sessions alone.\<close>

lemma try_quiet:
  assumes "try_transport env host ob k tok n = Some (n', v)"
  shows "quiet (n_sv n) (n_sv n') \<and> session_list (n_conn n') = session_list (n_conn n)"
proof -
  consider "try_unicast env host tok n = Some (n', v)" | "try_multicast env ob k n = Some (n', v)"
    | "try_interleaved env tok n = Some (n', v)" | "n' = n"
    using assms unfolding try_transport_def Let_def by (auto split: option.split_asm if_split_asm)
  then show ?thesis
  proof cases
    case 1
    then show ?thesis unfolding try_unicast_def Let_def
      by (auto split: Option.bind_split_asm option.split_asm if_split_asm prod.split_asm simp: quiet_def ids_def)
  next
    case 2
    then consider "n' = n" | t b where "n' = n\<lparr>n_trans := t, n_dad := b\<rparr>"
      | l t b where "n' = n\<lparr>n_sv := (n_sv n)\<lparr>sd_list := map (\<lambda>e. if sd_filename e = ob \<and> l
                             then e\<lparr>sd_flags := set_flag (sd_flags e) SD_FL_MULTICAST_PORT\<rparr> else e) (sd_list (n_sv n))\<rparr>, n_trans := t, n_dad := b\<rparr>"
      unfolding try_multicast_def Let_def by (auto split: option.split_asm if_split_asm prod.split_asm)
    then show ?thesis
      by cases (auto simp: quiet_def ids_def fun_eq_iff media_fine_def intro: flags_fine)
  next
    case 3
    then show ?thesis unfolding try_interleaved_def Let_def
      by (auto split: Option.bind_split_asm option.split_asm if_split_asm prod.split_asm)
  qed simp
qed

lemma negotiate_quiet:
  "negotiate env host ob k toks n = Some (n', v) \<Longrightarrow> quiet (n_sv n) (n_sv n') \<and> session_list (n_conn n') = session_list (n_conn n)"
proof (induction env host ob k toks n rule: negotiate.induct)
  case (2 env host ob k tok toks n)
  from "2.prems" obtain n1 u where t: "try_transport env host ob k tok n = Some (n1, u)"
    and r: "(if u = Next then negotiate env host ob k toks n1 else Some (n1, u)) = Some (n', v)"
    by (auto split: Option.bind_split_asm prod.split_asm)
  show ?case using try_quiet [OF t] r "2.IH" [OF t refl] by (auto split: if_splits intro: quiet_trans)
qed simp

lemma new_session_id [simp]: "sched_id (new_session env ob t d) = 0"
  by (simp add: new_session_def zero_session_def)

lemma add_session_ok:
  assumes ok: "conn_ok H (n_sv n) (n_conn n)" and add: "add_session env ob k sid n = Some (sv', r', ret)"
  shows "conn_ok H sv' r'"
proof -
  define sv where "sv = n_sv n"
  let ?a = "next_addr sv"
  obtain sv1 mp res where cm: "copy_medium env (n_dad n) (entry_at ob k sv) ?a (sv\<lparr>next_addr := ?a + 1\<rparr>) = Some (sv1, mp, res)"
    using add unfolding add_session_def Let_def sv_def by (auto split: Option.bind_split_asm)
  have f: "media_fine sv" and sk: "sched_ok (mset (conn_streams (n_conn n)) + H) sv" using ok by (simp_all add: conn_ok_def sv_def)
  note q = copy_medium_ok [OF cm]
  have q1: "quiet sv sv1" and hp: "rtp_heap sv1 = rtp_heap sv" and res: "res = ERR_NOERROR"
    and nx: "?a < next_addr sv1"
    using q f by (auto simp: quiet_def ids_def fun_eq_iff)
  let ?c = "\<lparr>rtp = new_session env ob (n_trans n) (n_dad n), cons_buf = None, media_at = mp, sd_of = ob\<rparr>"
  obtain sv2 i where sa: "schedule_add ?a (put_cell ?a ?c sv1) = Some (sv2, i)"
    and sv': "sv' = put_cell ?a (?c\<lparr>rtp := (rtp ?c)\<lparr>sched_id := i, ssrc := rnd_ssrc env\<rparr>\<rparr>) sv2"
    and st: "conn_streams r' = conn_streams (n_conn n) @ [?a]"
    using add cm res unfolding add_session_def Let_def sv_def
    by (cases "session_list (n_conn n)") (auto split: Option.bind_split_asm prod.split_asm simp: zero_RTSP_session_def)
  have "sched_ok (mset (conn_streams (n_conn n)) + H) sv1" using ok_quiet [OF sk q1] .
  moreover have "ids sv1 ?a = None"
    using sched_okD(4) [OF sk, of ?a] by (cases "ids sv ?a") (auto simp: ids_def hp)
  ultimately have "sched_ok (add_mset ?a (mset (conn_streams (n_conn n)) + H)) sv'"
    unfolding sv' using nx sa by (intro ok_add [where ?c0.0 = ?c]) simp_all
  moreover have "media_fine sv'"
    using q1 f sa by (auto simp: sv' quiet_def schedule_add_def split: option.splits Option.bind_splits)
  ultimately show ?thesis by (simp add: conn_ok_def st)
qed

lemma setup_medium_ok:
  assumes ok: "conn_ok H sv r" and run: "setup_medium env ob k sv r = Some (sv', r', ret)"
  shows "conn_ok H sv' r'"
proof (cases "\<exists>toks host n r1. setup_cseq r = Some r1 \<and>
    negotiate env host ob k toks \<lparr>n_sv = sv, n_conn = r1, n_trans = zero_transport, n_dad = True\<rparr> = Some (n, Found)
    \<and> (\<exists>sid. add_session env ob k sid n = Some (sv', r', ret))")
  case True
  then obtain toks host n r1 sid where r1: "setup_cseq r = Some r1" and
    n: "negotiate env host ob k toks \<lparr>n_sv = sv, n_conn = r1, n_trans = zero_transport, n_dad = True\<rparr> = Some (n, Found)" and
    a: "add_session env ob k sid n = Some (sv', r', ret)" by blast
  have "conn_ok H (n_sv n) (n_conn n)"
    using negotiate_quiet [OF n] setup_cseq_conn [OF r1] by (intro conn_quiet [OF ok]) simp_all
  then show ?thesis using a by (rule add_session_ok)
next
  case False
  then have "quiet sv sv' \<and> session_list r' = session_list r"
    using run unfolding setup_medium_def refuse_def
    by (auto split: option.split_asm sum.split_asm Option.bind_split_asm verdict.split_asm prod.split_asm
        dest!: setup_cseq_conn negotiate_quiet)
  then show ?thesis using conn_quiet [OF ok] by blast
qed

interpretation setup_op: connection_op "RTSP_setup env" for env
proof
  fix H :: "nat multiset" and sv sv' :: "'a server" and r r' ret
  assume ok: "conn_ok H sv r" and run: "RTSP_setup env sv r = Some (sv', r', ret)"
  consider "quiet sv sv'" "session_list r' = session_list r"
    | sv1 ob k where "quiet sv sv1" "setup_medium env ob k sv1 r = Some (sv', r', ret)"
    using run unfolding RTSP_setup_def Let_def refuse_def
    by (auto split: sum.split_asm if_split_asm option.split_asm Option.bind_split_asm prod.split_asm dest!: quiet_enum)
  then show "conn_ok H sv' r'"
  proof cases
    case 1
    then show ?thesis using conn_quiet [OF ok] by blast
  next
    case 2
    then show ?thesis using conn_quiet [OF ok 2(1) refl] setup_medium_ok by blast
  qed
qed

section \<open>The state machine and the handler\<close>

lemma then_none: "then_state st x = Some y \<Longrightarrow> x \<noteq> None" by (auto simp: then_state_def)

lemma reply_ok: "conn_ok H sv r \<Longrightarrow> conn_ok H sv (reply st r)"
  by (simp add: conn_ok_def)

lemmas method_keeps =
  options_op.then_state_keeps describe_op.no_state_keeps play_op.then_state_keeps pause_op.then_state_keeps
  teardown_op.no_state_keeps setup_op.then_state_keeps

lemma machine_ok:
  assumes ok: "conn_ok H sv r" and run: "RTSP_state_machine env m sv r = Some (sv', r')"
  shows "conn_ok H sv' r'"
  using run ok unfolding RTSP_state_machine_def init_method_def ready_method_def play_method_def Let_def
  by (auto split: sum.split_asm option.split_asm if_split_asm intro: reply_ok method_keeps)

lemma discard_conn [simp]: "session_list (RTSP_discard_msg r) = session_list r"
  by (simp add: RTSP_discard_msg_def RTSP_remove_msg_def Let_def split: prod.split option.split)

lemma validate_conn: "RTSP_validate_method r = (r', m) \<Longrightarrow> session_list r' = session_list r"
  by (auto simp: RTSP_validate_method_def split: prod.splits list.splits scan_val.splits if_splits)

lemma recv_loop_id:
  assumes "recv_loop s len = Some r"
  shows "sched_id (fst r) = sched_id s"
proof (rule recv_loop.raw_induct [OF _ assms, of "\<lambda>s len r. sched_id (fst r) = sched_id s"], goal_cases)
  case (1 rec s len r)
  have id: "sched_id s1 = sched_id s" if "read_rtcp s len = Some s1" for s1
    using that by (auto simp: read_rtcp_def Let_def split: if_splits)
  show ?case using 1(2) by (fastforce split: if_splits option.splits dest: 1(1) id)
qed

lemma recv_packet_id: "RTCP_recv_packet s = Some (s', r) \<Longrightarrow> sched_id s' = sched_id s"
  using recv_loop_id [of s 0] by (fastforce simp: RTCP_recv_packet_def)

lemma channel_session_heap: "channel_session m as sv = Some (Some (a, c)) \<Longrightarrow> rtp_heap sv a = Some c"
  by (induction as) (auto simp: Let_def split: Option.bind_split_asm if_split_asm)

lemma interleaved_quiet: "interleaved_packet h b sv r = Some sv' \<Longrightarrow> quiet sv sv'"
  unfolding interleaved_packet_def Let_def
  by (auto split: Option.bind_split_asm option.split_asm if_split_asm prod.split_asm
      dest!: recv_packet_id channel_session_heap intro: quiet_put_cell)

lemma discard_ok: "conn_ok H sv (RTSP_discard_msg r) = conn_ok H sv r"
  by (simp add: conn_ok_def)

lemma handle_ok:
  assumes ok: "conn_ok H sv r" and run: "handle_message env junk kind lens sv r = Some (sv', r')"
  shows "conn_ok H sv' r'"
proof -
  have v: "conn_ok H sv r0" if "RTSP_validate_method r = (r0, m)" for r0 m
    using ok validate_conn [OF that] by (simp add: conn_ok_def)
  show ?thesis using run ok unfolding handle_message_def Let_def
    by (auto simp: discard_ok split: Option.bind_split_asm prod.split_asm if_split_asm
        dest!: v interleaved_quiet intro: machine_ok reply_ok conn_quiet)
qed

lemma handler_ok:
  assumes "RTSP_handler ev n sv r = Some x" and "conn_ok H sv r"
  shows "conn_ok H (fst x) (fst (snd x))"
proof (rule RTSP_handler.raw_induct [OF _ assms(1), of "\<lambda>ev n sv r x. conn_ok H sv r \<longrightarrow> conn_ok H (fst x) (fst (snd x))",
      rule_format], goal_cases)
  case (1 rec ev n sv r x)
  note IH = 1(1) [rule_format]
  show ?case using 1(2,3)
    by (auto split: if_split_asm prod.split_asm option.split_asm Option.bind_split_asm dest!: handle_ok [OF 1(3)] dest: IH)
next
  case 2
  then show ?case by (rule assms(2))
qed

section \<open>A connection is served\<close>

lemma send_conn: "RTSP_send k r = (r', w, n) \<Longrightarrow> session_list r' = session_list r"
  by (auto simp: RTSP_send_def Let_def split: if_splits RTSP_proto.splits option.splits)

lemma frame_conn [simp]: "session_list (frame_out ch s r) = session_list r"
  by (simp add: frame_out_def Let_def)

lemma forward_conn: "forward io rset k ils r = (r', w, ok) \<Longrightarrow> session_list r' = session_list r"
proof (induction ils arbitrary: k r r' w ok)
  case (Cons il ils)
  let ?ch = "if ilv_rtcp_fd il \<in> set rset then rtcp_ch il else rtp_ch il"
  consider "r' = r" | "forward io rset (k + 1) ils r = (r', w, ok)"
    | s r1 w1 n where "RTSP_send (pair_sent io k) (frame_out ?ch s r) = (r1, w1, n)" "r' = reply 500 r1"
    | s r1 w1 n w2 where "RTSP_send (pair_sent io k) (frame_out ?ch s r) = (r1, w1, n)" "forward io rset (k + 1) ils r1 = (r', w2, ok)"
    using Cons.prems unfolding forward.simps(2) Let_def
    by (force split: if_split_asm option.split_asm prod.split_asm)
  then show ?case by cases (auto dest!: send_conn Cons.IH)
qed simp

lemma rtp_recv_id [simp]: "sched_id (fst (RTP_recv g s)) = sched_id s"
  by (simp add: RTP_recv_def Let_def split: option.split transport_type.split)

lemma recv_reports_quiet: "recv_reports io rset as sv = Some sv' \<Longrightarrow> quiet sv sv'"
proof (induction "as" arbitrary: sv)
  case (Cons a as)
  have rr: "RTP_recv g s = (s1, n) \<Longrightarrow> sched_id s1 = sched_id s" for g s s1 n
    using rtp_recv_id [of g s] by simp
  from Cons.prems obtain c s where c: "rtp_heap sv a = Some c"
    "(if 0 \<le> rtcp_fd_in (transport (rtp c)) \<and> rtcp_fd_in (transport (rtp c)) \<in> set rset
      then (case RTP_recv (reports io a) (rtp c) of (s1, n) \<Rightarrow> if n < 0 then Some s1 else map_option fst (RTCP_recv_packet s1))
      else Some (rtp c)) = Some s"
    "recv_reports io rset as (put_cell a (c\<lparr>rtp := s\<rparr>) sv) = Some sv'"
    unfolding recv_reports.simps Let_def by (auto split: Option.bind_split_asm simp del: if_split)
  have "sched_id s = sched_id (rtp c)"
    using c(2) by (auto split: if_split_asm prod.split_asm dest!: recv_packet_id rr)
  then have "quiet sv (put_cell a (c\<lparr>rtp := s\<rparr>) sv)" using c(1) by (auto intro: quiet_put_cell)
  then show ?case using Cons.IH [OF c(3)] quiet_trans by blast
qed simp

lemma serve_streams_ok:
  assumes "conn_ok H sv r" and "serve_streams io rset w sv r = Some (sv', r', w', res)"
  shows "conn_ok H sv' r'"
  using assms unfolding serve_streams_def Let_def
  by (auto split: prod.split_asm if_split_asm Option.bind_split_asm dest!: forward_conn recv_reports_quiet intro: conn_quiet)

lemma server_ok:
  assumes ok: "conn_ok H sv r" and run: "rtsp_server io rset wset sv r = Some (sv', r', w, res)"
  shows "conn_ok H sv' r'"
proof -
  obtain r1 w1 n where r1: "(if rtsp_fd r \<in> set wset then RTSP_send (sent io) r else (r, [], 0)) = (r1, w1, n)"
    by (metis prod_cases3)
  have ok1: "conn_ok H sv r1" using ok r1 by (auto simp: conn_ok_def split: if_splits dest: send_conn)
  have in1: "conn_ok H sv (r1\<lparr>in_buffer := b, in_size := k\<rparr>)" for b k using ok1 by (simp add: conn_ok_def)
  have h: "conn_ok H sv2 r2"
    if "RTSP_handler (rounds io) 0 sv (r1\<lparr>in_buffer := b, in_size := k\<rparr>) = Some (sv2, r2, x)" for sv2 r2 x b k
    using handler_ok [OF that in1] by simp
  show ?thesis using run ok1 unfolding rtsp_server_def r1 Let_def prod.case
    by (auto split: if_split_asm option.split_asm Option.bind_split_asm prod.split_asm dest!: h
        intro: serve_streams_ok reply_ok)
qed

lemma serve_kept: "conn_ok H sv r \<Longrightarrow> serve_connection io rset wset sv r = Some (sv', Some r', w) \<Longrightarrow> conn_ok H sv' r'"
  by (auto simp: serve_connection_def split: Option.bind_split_asm prod.split_asm if_split_asm intro: server_ok)

lemma fine_num_conn: "sched_ok H (sv\<lparr>num_conn := k\<rparr>) = sched_ok H sv"
  by (simp add: sched_ok_def ids_def in_entry_def valid_slots_def)

lemma serve_closed:
  assumes "conn_ok H sv r" and "serve_connection io rset wset sv r = Some (sv', None, w)"
  shows "sched_ok H sv' \<and> media_fine sv'"
proof -
  obtain sv1 r1 w1 res sv2 where "rtsp_server io rset wset sv r = Some (sv1, r1, w1, res)" and
    rel: "release_all (conn_streams r1) sv1 = Some sv2" and sv': "sv' = sv2\<lparr>num_conn := num_conn sv2 - 1\<rparr>"
    using assms(2) by (auto simp: serve_connection_def split: Option.bind_split_asm prod.split_asm if_split_asm)
  then have "conn_ok H sv1 r1" using server_ok assms(1) by blast
  then show ?thesis using release_all_ok [OF rel, of H] by (simp add: conn_ok_def sv' fine_num_conn)
qed

section \<open>The invariant of the two threads\<close>

definition held_by :: "RTSP_buffer list \<Rightarrow> nat multiset" where
  "held_by l = mset (concat (map conn_streams l))"

definition fenice_ok :: "'st fenice \<Rightarrow> bool" where
  "fenice_ok sys \<longleftrightarrow> sched_ok (held_by (rtsp_list sys)) (srv sys) \<and> media_fine (srv sys)"

lemma held_append [simp]: "held_by (as @ bs) = held_by as + held_by bs" "held_by (r # l) = mset (conn_streams r) + held_by l"
    "held_by [] = {#}"
  by (simp_all add: held_by_def)

lemma ok_split: "rtsp_list sys = as @ r # bs \<Longrightarrow> fenice_ok sys \<longleftrightarrow> conn_ok (held_by as + held_by bs) (srv sys) r"
  by (simp add: fenice_ok_def conn_ok_def add_ac)

lemma set_state_conn [simp]: "conn_streams (set_state st r) = conn_streams r"
  by (cases "session_list r") (simp_all add: set_state_def)

lemma set_streams_conn: "set_streams as sv r = Some (r', fs) \<Longrightarrow> conn_streams r' = conn_streams r"
proof (induction "as" arbitrary: r r' fs)
  case (Cons a as)
  then obtain r1 fs1 where "set_streams as sv r1 = Some (r', fs1)" "r1 = r \<or> r1 = set_state READY_STATE r"
    by (auto simp: Let_def split: Option.bind_split_asm prod.split_asm if_split_asm)
  then show ?case using Cons.IH by (metis set_state_conn)
qed simp

lemma set_all_held: "set_all sv l = Some (l', i, o') \<Longrightarrow> held_by l' = held_by l"
proof (induction l arbitrary: l' i o')
  case (Cons r l)
  then obtain r1 i1 o1 l1 i2 o2 where "rtsp_set_fdsets sv r = Some (r1, i1, o1)" "set_all sv l = Some (l1, i2, o2)" "l' = r1 # l1"
    by (auto split: Option.bind_split_asm prod.split_asm)
  then show ?case using Cons.IH by (auto simp: rtsp_set_fdsets_def split: Option.bind_split_asm prod.split_asm dest: set_streams_conn)
qed simp

lemma add_client_held [simp]: "held_by (add_client f p l) = held_by l"
  by (simp add: add_client_def RTSP_initserver_def zero_RTSP_session_def)

lemma init_sched_ok:
  assumes "\<forall>a. ids sv a \<noteq> None \<longrightarrow> a < next_addr sv"
  shows "sched_ok {#} (schedule_init sv)"
proof -
  have "ids (schedule_init sv) = ids sv" by (simp add: schedule_init_def ids_def fun_eq_iff)
  moreover have "valid_slots (schedule_init sv) = {}" by (simp add: valid_slots_def schedule_init_def)
  ultimately show ?thesis using assms
    by (simp add: sched_ok_def) (simp add: schedule_init_def)
qed

lemma accept_ok:
  assumes "fenice_ok sys"
  shows "fenice_ok (accept_client f forked sys)"
proof -
  have i: "sched_ok {#} (schedule_init ((srv sys)\<lparr>port_pool := p\<rparr>))" for p
    using assms sched_okD(4) by (intro init_sched_ok) (auto simp: fenice_ok_def ids_def)
  have m: "media_fine (schedule_init sv) = media_fine sv" for sv :: "'a server" by (simp add: schedule_init_def)
  show ?thesis using assms i m
    by (simp add: accept_client_def Let_def fenice_ok_def fine_num_conn)
qed

interpretation fenice: step_system "\<lambda>s. s = fenice_start" fenice_step fenice_ok
proof (unfold_locales, goal_cases)
  case (1 s)
  have "sched_ok {#} (schedule_init (empty_server :: 'a server))" by (rule init_sched_ok) (simp add: ids_def empty_server_def)
  moreover have "media_fine (schedule_init (empty_server :: 'a server))"
    by (simp add: media_fine_def catalog_ok_def schedule_init_def empty_server_def)
  ultimately show ?case using 1 by (simp add: fenice_ok_def fenice_start_def)
next
  case (2 s t)
  from 2(2,1) show ?case
  proof (induction rule: fenice_step.induct)
    case (fdsets sys l rset wset)
    then show ?case using set_all_held [OF fdsets(1)] by (simp add: fenice_ok_def)
  next
    case (serve sys "as" r bs io rset wset sv1 r1 w)
    have "conn_ok (held_by as + held_by bs) sv1 r1" using serve_kept [OF _ serve(2)] ok_split [OF serve(1)] serve(3) by blast
    then show ?case by (simp add: ok_split [of _ "as" r1 bs])
  next
    case (close sys "as" r bs io rset wset sv1 w stop)
    then show ?case using serve_closed [OF _ close(2)] ok_split [OF close(1)] by (simp add: fenice_ok_def)
  next
    case (accept f forked sys)
    then show ?case by (rule accept_ok)
  next
    case (visit i env sys sv1 w)
    then show ?case using ok_visit visit_fine by (auto simp: fenice_ok_def)
  qed
qed

section \<open>What holds in every state\<close>

lemma once_distinct: "(\<And>a. count (mset xs) a \<le> 1) \<Longrightarrow> distinct xs"
proof (induction xs)
  case (Cons x xs)
  have "count (mset xs) a \<le> 1" for a using order_trans [OF _ Cons.prems [of a]] by simp
  moreover have "x \<notin> set xs"
    using Cons.prems [of x] by (simp flip: count_mset_0_iff)
  ultimately show ?case using Cons.IH by simp
qed simp

text \<open>C2: in every state the two threads reach together, whatever the clients send and however the system answers, no
  pointer of the table or of a connection dangles: a stream is in the list of one connection, once; it is allocated,
  and either the table had no room for it or the entry it is numbered with is valid and points back to it; every
  session an entry points to, valid or not, is allocated and has the entry's number; a valid entry belongs to a
  connection; and the count of the scheduler's clients is the number of the valid entries.\<close>

theorem table_consistent:
  assumes "rtranclp fenice_step fenice_start sys"
  shows "distinct (concat (map conn_streams (rtsp_list sys))) \<and>
    (\<forall>r \<in> set (rtsp_list sys). \<forall>a \<in> set (conn_streams r). \<exists>c. rtp_heap (srv sys) a = Some c \<and>
       (sched_id (rtp c) = - 1 \<or> in_entry (srv sys) a (sched_id (rtp c)))) \<and>
    (\<forall>i < ONE_FORK_MAX_CONNECTION. \<forall>a. sched_session (sched (srv sys) ! i) = Some a \<longrightarrow>
       (\<exists>c. rtp_heap (srv sys) a = Some c \<and> sched_id (rtp c) = int i)) \<and>
    (\<forall>i \<in> valid_slots (srv sys). \<exists>r \<in> set (rtsp_list sys). \<exists>a \<in> set (conn_streams r).
       sched_session (sched (srv sys) ! i) = Some a) \<and>
    client_count (srv sys) = of_nat (card (valid_slots (srv sys)))"
proof -
  have "fenice_ok sys" using fenice.reachable_inv [OF refl assms] .
  then have ok: "sched_ok (held_by (rtsp_list sys)) (srv sys)" by (simp add: fenice_ok_def)
  have "distinct (concat (map conn_streams (rtsp_list sys)))"
    using sched_okD(3) [OF ok] by (simp add: held_by_def once_distinct)
  moreover have "\<forall>r \<in> set (rtsp_list sys). \<forall>a \<in> set (conn_streams r). a \<in># held_by (rtsp_list sys)"
    and "\<forall>a \<in># held_by (rtsp_list sys). \<exists>r \<in> set (rtsp_list sys). a \<in> set (conn_streams r)" by (auto simp: held_by_def)
  moreover have "\<forall>a \<in># held_by (rtsp_list sys). \<exists>c. rtp_heap (srv sys) a = Some c \<and>
      (sched_id (rtp c) = - 1 \<or> in_entry (srv sys) a (sched_id (rtp c)))"
    using sched_okD(6) [OF ok] by (fastforce simp: ids_Some)
  moreover have "\<forall>i < ONE_FORK_MAX_CONNECTION. \<forall>a. sched_session (sched (srv sys) ! i) = Some a \<longrightarrow>
       (\<exists>c. rtp_heap (srv sys) a = Some c \<and> sched_id (rtp c) = int i)"
    using sched_okD(5) [OF ok] by (simp add: ids_Some)
  moreover have "\<forall>i \<in> valid_slots (srv sys). \<exists>a \<in># held_by (rtsp_list sys). sched_session (sched (srv sys) ! i) = Some a"
    using sched_okD(7) [OF ok] by (simp add: valid_slots_def)
  ultimately show ?thesis using sched_okD(2) [OF ok] by blast
qed

lemma table_consistent_witness:
  "client_count (srv (accept_client 5 False (fenice_start :: nat fenice))) =
   of_nat (card (valid_slots (srv (accept_client 5 False (fenice_start :: nat fenice)))))"
proof -
  have "rtranclp fenice_step (fenice_start :: nat fenice) (accept_client 5 False fenice_start)"
    by (intro r_into_rtranclp fenice_step.accept)
  from table_consistent [OF this] show ?thesis by blast
qed

text \<open>Every state the threads reach satisfies the invariant.\<close>

lemma reachable_ok: "rtranclp fenice_step fenice_start sys \<Longrightarrow> fenice_ok sys"
  using fenice.reachable_inv by blast

text \<open>C20: when a connection is closed none of the streams it had is served any more: no valid entry of the scheduler
  points to one of them, whatever the closing connection's last messages did.\<close>

theorem closed_not_served:
  assumes "fenice_ok sys" and "rtsp_list sys = as @ r # bs"
    and "serve_connection io rset wset (srv sys) r = Some (sv1, None, w)"
    and "a \<in> set (conn_streams r)" and "i < ONE_FORK_MAX_CONNECTION"
  shows "\<not> (valid (sched sv1 ! i) \<and> sched_session (sched sv1 ! i) = Some a)"
proof
  assume v: "valid (sched sv1 ! i) \<and> sched_session (sched sv1 ! i) = Some a"
  have ok: "conn_ok (held_by as + held_by bs) (srv sys) r"
    using assms(1) ok_split [OF assms(2)] by blast
  have "sched_ok (held_by as + held_by bs) sv1" using serve_closed [OF ok assms(3)] by blast
  then have "a \<in># held_by as + held_by bs" using sched_okD(7) [OF _ assms(5)] v by fastforce
  then have "0 < count (held_by as + held_by bs) a" by simp
  moreover have "0 < count (mset (conn_streams r)) a" using assms(4) by (simp only: count_mset_gt_0)
  moreover have "count (mset (conn_streams r) + (held_by as + held_by bs)) a \<le> 1"
    using ok sched_okD(3) unfolding conn_ok_def by blast
  ultimately show False unfolding count_union by linarith
qed

text \<open>A server with one connection and one stream.\<close>

definition one_cell :: rtp_cell where
  "one_cell = \<lparr>rtp = zero_session sample_consumer, cons_buf = None, media_at = Own 0, sd_of = ''x.sd''\<rparr>"

definition one_conn :: RTSP_buffer where
  "one_conn = zero_RTSP_buffer\<lparr>rtsp_fd := 5, session_list := Some (zero_RTSP_session\<lparr>rtp_list := [0]\<rparr>)\<rparr>"

definition one_table :: "sched_entry list" where
  "one_table = \<lparr>valid = True, sched_session = Some 0, play_action = True\<rparr> #
     replicate (ONE_FORK_MAX_CONNECTION - 1) \<lparr>valid = False, sched_session = None, play_action = False\<rparr>"

definition one_stream :: "nat fenice" where
  "one_stream =
    \<lparr>srv = empty_server\<lparr>rtp_heap := [0 \<mapsto> one_cell], next_addr := 1, sched := one_table, client_count := 1\<rparr>,
     rtsp_list = [one_conn], conn_count = 1, child_count = 0, stop_schedule = False\<rparr>"

definition hang_up :: server_io where
  "hang_up = \<lparr>sent = None, received = Some [], rounds = (\<lambda>_. undefined), pair_read = (\<lambda>_. None), pair_sent = (\<lambda>_. None),
     reports = (\<lambda>_. None)\<rparr>"

lemma one_stream_ok: "fenice_ok one_stream"
proof -
  have n: "one_table ! i = (if i = 0 then \<lparr>valid = True, sched_session = Some 0, play_action = True\<rparr>
      else \<lparr>valid = False, sched_session = None, play_action = False\<rparr>)" if "i < ONE_FORK_MAX_CONNECTION" for i
    using that by (cases i) (auto simp: one_table_def)
  have l: "length one_table = ONE_FORK_MAX_CONNECTION" "0 < ONE_FORK_MAX_CONNECTION" by (simp_all add: one_table_def ONE_FORK_MAX_CONNECTION_def)
  have v: "valid_slots (srv one_stream) = {0}"
    using n l by (auto simp: valid_slots_def one_stream_def split: if_splits)
  have i: "ids (srv one_stream) = [0 \<mapsto> 0]"
    by (simp add: ids_def one_stream_def one_cell_def zero_session_def fun_eq_iff)
  have "sched_ok {#0#} (srv one_stream)"
    unfolding sched_ok_def v i
    using n l by (auto simp: one_stream_def in_entry_def in_table_def split: if_splits)
  moreover have "media_fine (srv one_stream)" by (simp add: media_fine_def one_stream_def catalog_ok_def empty_server_def)
  ultimately show ?thesis
    by (simp add: fenice_ok_def one_stream_def one_conn_def zero_RTSP_session_def)
qed

lemma closed_not_served_witness:
  "\<exists>sv w. serve_connection hang_up [5] [] (srv one_stream) one_conn = Some (sv, None, w) \<and>
     \<not> (valid (sched sv ! 0) \<and> sched_session (sched sv ! 0) = Some 0)"
proof -
  have c: "rtsp_list one_stream = [] @ one_conn # []" "0 \<in> set (conn_streams one_conn)" "(0::nat) < ONE_FORK_MAX_CONNECTION"
    by (simp_all add: one_stream_def one_conn_def zero_RTSP_session_def ONE_FORK_MAX_CONNECTION_def)
  have "rtsp_server hang_up [5] [] (srv one_stream) one_conn = Some (srv one_stream, one_conn, [], ERR_CONNECTION_CLOSE)"
    by (simp add: rtsp_server_def hang_up_def one_conn_def)
  moreover have "\<exists>sv. release_all [0] (srv one_stream) = Some sv"
    by (simp add: one_stream_def one_cell_def zero_session_def schedule_remove_def in_table_def ONE_FORK_MAX_CONNECTION_def)
  moreover have "conn_streams one_conn = [0]" by (simp add: one_conn_def zero_RTSP_session_def)
  ultimately obtain sv w where "serve_connection hang_up [5] [] (srv one_stream) one_conn = Some (sv, None, w)"
    by (auto simp: serve_connection_def simp del: release_all.simps)
  with closed_not_served [OF one_stream_ok c(1) this c(2,3)] show ?thesis by blast
qed

section \<open>A round of the loop is a sequence of steps\<close>

lemma schedule_connections_steps:
  "schedule_connections io rset wset k l sys = Some sys' \<Longrightarrow>
   rtranclp fenice_step (sys\<lparr>rtsp_list := rtsp_list sys @ l\<rparr>) sys'"
proof (induction l arbitrary: k sys)
  case (Cons r rs)
  from Cons.prems obtain sv1 kept w where s: "serve_connection (io k) rset wset (srv sys) r = Some (sv1, kept, w)"
    by (auto split: Option.bind_split_asm)
  let ?sys = "sys\<lparr>rtsp_list := rtsp_list sys @ r # rs\<rparr>"
  show ?case
  proof (cases kept)
    case None
    let ?next = "sys\<lparr>srv := sv1, conn_count := conn_count sys - 1, stop_schedule := stop_schedule sys \<or> rs = [] \<and> conn_count sys - 1 < 0\<rparr>"
    have "schedule_connections io rset wset (k + 1) rs ?next = Some sys'" using Cons.prems s None by simp
    then have "rtranclp fenice_step (?next\<lparr>rtsp_list := rtsp_list ?next @ rs\<rparr>) sys'" by (rule Cons.IH)
    moreover have "fenice_step ?sys (?next\<lparr>rtsp_list := rtsp_list ?next @ rs\<rparr>)"
      using fenice_step.close [of ?sys "rtsp_list sys" r rs "io k" rset wset sv1 w "stop_schedule ?next"] s None by simp
    ultimately show ?thesis by (rule converse_rtranclp_into_rtranclp [rotated])
  next
    case (Some r1)
    let ?next = "sys\<lparr>srv := sv1, rtsp_list := rtsp_list sys @ [r1]\<rparr>"
    have "schedule_connections io rset wset (k + 1) rs ?next = Some sys'" using Cons.prems s Some by simp
    then have "rtranclp fenice_step (?next\<lparr>rtsp_list := rtsp_list ?next @ rs\<rparr>) sys'" by (rule Cons.IH)
    moreover have "fenice_step ?sys (?next\<lparr>rtsp_list := rtsp_list ?next @ rs\<rparr>)"
      using fenice_step.serve [of ?sys "rtsp_list sys" r rs "io k" rset wset sv1 r1 w] s Some by simp
    ultimately show ?thesis by (rule converse_rtranclp_into_rtranclp [rotated])
  qed
qed simp

text \<open>One round of the main loop is a sequence of the main thread's steps, so that everything the steps keep, the
  loop keeps: the refinement between the loop and the step relation.\<close>

theorem eventloop_refines_steps:
  assumes "eventloop main_fd io sys = Some sys'"
  shows "rtranclp fenice_step sys sys'"
proof -
  obtain l rset wset where s: "set_all (srv sys) (rtsp_list sys) = Some (l, rset, wset)"
    using assms by (auto simp: eventloop_def split: Option.bind_split_asm)
  have a: "fenice_step sys (sys\<lparr>rtsp_list := l\<rparr>)" using s by (rule fenice_step.fdsets)
  show ?thesis
  proof (cases "ready io")
    case None
    then show ?thesis using assms s a by (auto simp: eventloop_def Let_def)
  next
    case (Some fs)
    then obtain rd wd sys1 b where c: "schedule_connections (conn_io io) rd wd 0 l (sys\<lparr>rtsp_list := []\<rparr>) = Some sys1"
      and sys': "sys' = (if b then accept_client (accepted io) (is_child io) sys1 else sys1)"
      using assms s by (auto simp: eventloop_def Let_def split: Option.bind_split_asm)
    have "rtranclp fenice_step (sys\<lparr>rtsp_list := l\<rparr>) sys1" using schedule_connections_steps [OF c] by simp
    moreover have "rtranclp fenice_step sys1 sys'" by (auto simp: sys' intro: fenice_step.accept)
    ultimately show ?thesis using a by (meson converse_rtranclp_into_rtranclp rtranclp_trans)
  qed
qed

definition first_client :: loop_io where
  "first_client = \<lparr>ready = Some [3], ready_out = [], conn_io = (\<lambda>_. hang_up), accepted = 5, is_child = False\<rparr>"

section \<open>The number of connections\<close>












lemma eventloop_refines_steps_witness:
  "\<exists>sys. eventloop 3 first_client (fenice_start :: nat fenice) = Some sys \<and> length (rtsp_list sys) = 1 \<and>
     rtranclp fenice_step fenice_start sys"
proof -
  have "\<exists>sys. eventloop 3 first_client (fenice_start :: nat fenice) = Some sys \<and> length (rtsp_list sys) = 1"
    by (simp add: eventloop_def wait_fds_def first_client_def fenice_start_def Let_def accept_client_def add_client_def ONE_FORK_MAX_CONNECTION_def)
  then show ?thesis using eventloop_refines_steps by blast
qed

end
