(* ===== verification/Media_Readers.thy ===== *)
theory Media_Readers
  imports Mpeg_Video H264 Table_Safety
begin

text \<open>
  The handler table of \<^verbatim>\<open>mediainfo/register_media.c\<close>: the three readers with the states of their formats joined in
  one type, and what the rest of the server relies on: a reader keeps the description of its medium but for the bit
  rate, and does not look at the packet buffer.
\<close>

section \<open>The table\<close>

datatype reader_state = State_h264 static_h264 | State_MP3 os_file | State_MPEG static_MPEG_video

definition with_stat :: "'b option \<Rightarrow> 'a media_entry \<Rightarrow> 'b media_entry" where
  "with_stat x me = \<lparr>me_flags = me_flags me, fd = fd me, media_stat = x, media_handler = media_handler me,
     data_chunk = data_chunk me, buff_data = buff_data me, buff_size = buff_size me, pkt_buffer = pkt_buffer me,
     mtime = mtime me, mstart = mstart me, mstart_offset = mstart_offset me, h264_time = h264_time me,
     play_offset = play_offset me, prev_mstart_offset = prev_mstart_offset me, rtp_multicast_port = rtp_multicast_port me,
     reserved = reserved me, me_filename = me_filename me, aggregate = aggregate me, descr_format = descr_format me,
     description = description me\<rparr>"

lemma with_stat_fields [simp]:
  "description (with_stat x me) = description me" "media_stat (with_stat x me) = x" "me_flags (with_stat x me) = me_flags me"
  "with_stat x (me\<lparr>pkt_buffer := b\<rparr>) = (with_stat x me)\<lparr>pkt_buffer := b\<rparr>" "with_stat x (with_stat y me) = with_stat x me"
  by (simp_all add: with_stat_def)

lemma with_stat_same [simp]: "with_stat (media_stat me) me = me"
  by (simp add: with_stat_def)

definition lift_reader :: "('a \<Rightarrow> reader_state) \<Rightarrow> (reader_state \<Rightarrow> 'a option) \<Rightarrow> 'a reader \<Rightarrow> reader_state reader" where
  "lift_reader mk un rd me mt =
    map_option (\<lambda>r. \<lparr>rd_me = with_stat (map_option mk (media_stat (rd_me r))) (rd_me r), rd_res = rd_res r, rd_data = rd_data r,
                     rd_mtime = rd_mtime r, rd_recall = rd_recall r, rd_marker = rd_marker r\<rparr>)
      (rd (with_stat (Option.bind (media_stat me) un) me) mt)"

fun state_h264 :: "reader_state \<Rightarrow> static_h264 option" where
  "state_h264 (State_h264 s) = Some s" | "state_h264 _ = None"

fun state_MP3 :: "reader_state \<Rightarrow> os_file option" where
  "state_MP3 (State_MP3 s) = Some s" | "state_MP3 _ = None"

fun state_MPEG :: "reader_state \<Rightarrow> static_MPEG_video option" where
  "state_MPEG (State_MPEG s) = Some s" | "state_MPEG _ = None"

text \<open>What a call of a reader meets: the contents of the file it may open and the memory it did not initialise.\<close>

record reader_env =
  re_root :: string
  re_os :: os_files
  re_bytes :: "uint8 list"
  re_raw :: static_h264
  re_held :: "uint8 list"
  re_heap :: "uint8 list"
  re_code :: bool

text \<open>\<open>get_frame\<close> has reset \<open>recallme\<close> before each call.\<close>

definition media_func :: "reader_env \<Rightarrow> media_file_type \<Rightarrow> reader_state reader option" where
  "media_func re f = (case f of
      FILE_NONE \<Rightarrow> None
    | FILE_MP3 \<Rightarrow> Some (lift_reader State_MP3 state_MP3 (read_MP3 (re_root re) (re_os re) (re_held re) (re_bytes re)))
    | FILE_MPEG \<Rightarrow> Some (lift_reader State_MPEG state_MPEG
        (\<lambda>me mt. read_MPEG_video (re_root re) (re_os re) (re_held re) (re_heap re) (re_code re) (re_bytes re) me mt False))
    | FILE_H264 \<Rightarrow> Some (lift_reader State_h264 state_h264
        (\<lambda>me mt. read_h264 (re_root re) (re_os re) (re_raw re) (re_bytes re) me mt False)))"

section \<open>The readers keep the description\<close>

lemma lift_keeps: "reader_keeps rd \<Longrightarrow> reader_keeps (lift_reader mk un rd)"
  by (fastforce simp: reader_keeps_def lift_reader_def)

lemma mediaopen_descr [simp]: "description (fst (mediaopen r os me)) = description me"
  by (simp add: mediaopen_def Let_def)

lemma mp3_packet_keeps: "mp3_packet held me mt = Some r \<Longrightarrow> description (rd_me r) = description me"
proof -
  have "mp3_read held m f mt = Some r \<Longrightarrow> description (rd_me r) = description m" for m f
    unfolding mp3_read_def Let_def by (auto split: prod.split_asm if_split_asm)
  then show "mp3_packet held me mt = Some r \<Longrightarrow> description (rd_me r) = description me"
    by (fastforce simp: mp3_packet_def Let_def split: Option.bind_split_asm if_split_asm)
qed

lemma mediaopen_pair: "mediaopen r os me = (me1, k) \<Longrightarrow> description me1 = description me"
  using mediaopen_descr [of r os me] by simp

lemma mp3_keeps: "reader_keeps (read_MP3 r os held bytes)"
  unfolding reader_keeps_def read_MP3_def Let_def
  by (auto split: if_split_asm prod.split_asm dest!: mp3_packet_keeps mediaopen_pair)

lemma start_unit_keeps: "start_unit me s mt rc = Some r \<Longrightarrow> description (rd_me r) = description me"
  unfolding start_unit_def Let_def by (auto split: Option.bind_split_asm prod.split_asm if_split_asm)

lemma h264_keeps: "reader_keeps (\<lambda>me mt. read_h264 r os raw bytes me mt False)"
  unfolding reader_keeps_def read_h264_def next_fragment_def Let_def
  by (auto split: if_split_asm prod.split_asm Option.bind_split_asm dest!: start_unit_keeps mediaopen_pair)

lemma kept_bitrate [simp]: "kept_descr (d\<lparr>bitrate := x\<rparr>) = kept_descr d"
  by (simp add: kept_descr_def)

lemma seq_head_keeps: "read_seq_head st me io = Some (me', io', b) \<Longrightarrow> kept_descr (description me') = kept_descr (description me)"
  unfolding read_seq_head_def Let_def by (auto split: Option.bind_split_asm prod.split_asm)

lemma probe_keeps: "probe_standard st me io = Some (me', io', b) \<Longrightarrow> kept_descr (description me') = kept_descr (description me)"
  unfolding probe_standard_def Let_def by (auto split: Option.bind_split_asm prod.split_asm if_split_asm dest: seq_head_keeps)

lemma header_step_keeps: "header_step nb me s io seq = Some (me', s', io', seq') \<Longrightarrow> kept_descr (description me') = kept_descr (description me)"
  unfolding header_step_def Let_def by (auto split: Option.bind_split_asm prod.split_asm if_split_asm dest: seq_head_keeps)

lemma header_loop_keeps:
  assumes "header_loop nb me s io seq rc = Some r"
  shows "kept_descr (description (fst (snd r))) = kept_descr (description me)"
proof (rule header_loop.raw_induct [OF _ assms, of "\<lambda>nb me s io seq rc r. kept_descr (description (fst (snd r))) = kept_descr (description me)"], goal_cases)
  case (1 header_loop nb me s io seq rc r)
  show ?case
  proof (cases "header_code (final_byte s) \<and> rc")
    case True
    then obtain me1 s1 io1 seq1 where st: "header_step nb me s io seq = Some (me1, s1, io1, seq1)"
      using 1(2) by (auto split: Option.bind_split_asm)
    let ?s = "if final_byte s1 = 0xB7 then s1\<lparr>fragmented := False\<rparr> else s1"
    obtain ok s3 io3 where ext: "extension_loop ?s io1 = Some (ok, s3, io3)"
      using 1(2) True st by (auto simp: Let_def split: Option.bind_split_asm)
    have "kept_descr (description (fst (snd r))) = kept_descr (description me1)"
    proof (cases ok)
      case True
      then have "header_loop nb me1 s3 io3 seq1 (final_byte s1 \<noteq> 0xB7) = Some r"
        using 1(2) \<open>header_code (final_byte s) \<and> rc\<close> st ext by (simp add: Let_def)
      then show ?thesis using 1(1) by blast
    next
      case False
      then show ?thesis using 1(2) \<open>header_code (final_byte s) \<and> rc\<close> st ext by (auto simp: Let_def)
    qed
    then show ?thesis using header_step_keeps [OF st] by simp
  next
    case False
    then show ?thesis using 1(2) by auto
  qed
qed

lemma finish_descr: "mpeg_finish me s io seq rc mt = Some r \<Longrightarrow> description (rd_me r) = description me"
  by (auto simp: mpeg_finish_def Let_def split: if_split_asm)

lemma mpeg_eof_descr [simp]: "description (rd_me (mpeg_eof held me st n mt rc)) = description me"
  by (simp add: mpeg_eof_def)

lemma mpeg_slices_keeps: "mpeg_slices held code0 nb me s io seq rc mt = Some r \<Longrightarrow> description (rd_me r) = description me"
  unfolding mpeg_slices_def
  by (auto split: Option.bind_split_asm sum.split_asm dest!: finish_descr)

lemma mpeg_unit_keeps: "mpeg_unit held code0 nb me s io probed seq rc mt = Some r \<Longrightarrow> kept_descr (description (rd_me r)) = kept_descr (description me)"
  unfolding mpeg_unit_def
  by (auto split: Option.bind_split_asm if_split_asm dest!: mpeg_slices_keeps header_loop_keeps)

lemma mpeg_fragment_keeps: "mpeg_fragment held nb me s io seq rc mt = Some r \<Longrightarrow> description (rd_me r) = description me"
  unfolding mpeg_fragment_def Let_def
  by (auto split: Option.bind_split_asm prod.split_asm if_split_asm sum.split_asm dest!: finish_descr)

lemma mpeg_seek_keeps: "mpeg_seek me s io probed mt = Some (me', x) \<Longrightarrow> kept_descr (description me') = kept_descr (description me)"
  unfolding mpeg_seek_def Let_def
  by (auto split: Option.bind_split_asm prod.split_asm if_split_asm dest!: probe_keeps)

lemma mpeg_keeps: "reader_keeps (\<lambda>me mt. read_MPEG_video r os held heap code0 bytes me mt False)"
  unfolding reader_keeps_def read_MPEG_video_def Let_def
  by (auto split: if_split_asm prod.split_asm Option.bind_split_asm
      dest!: mpeg_unit_keeps mpeg_fragment_keeps mpeg_seek_keeps probe_keeps mediaopen_pair)

text \<open>C27: The three readers of the handler table change nothing of a medium's description but its bit rate: what the scheduler
  and the catalogue require of the readers holds for the server's own.\<close>
theorem readers_keep_description: "env_ok (env\<lparr>readers := media_func re\<rparr>)"
  by (auto simp: env_ok_def media_func_def intro!: lift_keeps mp3_keeps h264_keeps mpeg_keeps split: media_file_type.split_asm)

section \<open>From the file to the queue\<close>

lemma mediaopen_blind: "mediaopen r os (me\<lparr>pkt_buffer := x\<rparr>) = map_prod (\<lambda>m. m\<lparr>pkt_buffer := x\<rparr>) id (mediaopen r os me)"
  by (simp add: mediaopen_def Let_def)

lemma mp3_read_blind:
  "mp3_read held (me\<lparr>pkt_buffer := x\<rparr>) f mt = map_option (\<lambda>r. r\<lparr>rd_me := (rd_me r)\<lparr>pkt_buffer := x\<rparr>\<rparr>) (mp3_read held me f mt)"
  by (auto simp: mp3_read_def Let_def split: prod.split)

lemma offset_buffer: "me\<lparr>pkt_buffer := x, play_offset := y\<rparr> = me\<lparr>play_offset := y, pkt_buffer := x\<rparr>"
  by simp

lemma mp3_packet_blind:
  "mp3_packet held (me\<lparr>pkt_buffer := x\<rparr>) mt = map_option (\<lambda>r. r\<lparr>rd_me := (rd_me r)\<lparr>pkt_buffer := x\<rparr>\<rparr>) (mp3_packet held me mt)"
  by (cases "media_stat me") (simp_all add: mp3_packet_def Let_def mp3_read_blind offset_buffer)

lemma stat_buffer: "me\<lparr>pkt_buffer := x, media_stat := y\<rparr> = me\<lparr>media_stat := y, pkt_buffer := x\<rparr>"
  by simp

lemma mp3_blind: "buffer_blind (read_MP3 r os held bytes)"
  unfolding buffer_blind_def read_MP3_def Let_def
  by (auto simp: mediaopen_blind stat_buffer mp3_packet_blind split: prod.split)

lemma lift_blind: "buffer_blind rd \<Longrightarrow> buffer_blind (lift_reader mk un rd)"
  by (simp add: buffer_blind_def lift_reader_def option.map_comp comp_def)

text \<open>Calls of \<open>get_frame\<close> at given times.\<close>

fun get_frames :: "shm_env \<Rightarrow> 'st reader option \<Rightarrow> cdouble list \<Rightarrow> 'st media_entry \<Rightarrow> 'st media_entry option" where
  "get_frames e rd [] me = Some me"
| "get_frames e rd (t # ts) me =
    do { (me1, _, res) \<leftarrow> get_frame e rd me t; if res = ERR_NOERROR then get_frames e rd ts me1 else None }"

definition mp3_packet_of :: "cdouble \<Rightarrow> uint8 list \<Rightarrow> packet" where
  "mp3_packet_of t f = \<lparr>pkt_ts = word_of_int (c_trunc t), pkt_marker = 0, pkt_bytes = [0, 0, 0, 0] @ f\<rparr>"

lemma get_frames_mp3:
  assumes "fresh_page e"
  shows "mp3_ready me (concat fs) \<Longrightarrow> list_all (mp3_frame (description me)) fs \<Longrightarrow> length ts = length fs \<Longrightarrow>
    chan_inv (b, c) \<Longrightarrow> length fs \<le> chan_room (b, c) \<Longrightarrow>
    \<exists>me' b'. get_frames e (Some (read_MP3 rootdir os held bytes)) ts (me\<lparr>pkt_buffer := Some b\<rparr>) = Some (me'\<lparr>pkt_buffer := Some b'\<rparr>) \<and>
      chan_inv (b', c) \<and> chan_queue (b', c) = chan_queue (b, c) @ map2 mp3_packet_of ts fs"
proof (induction fs arbitrary: me ts b)
  case Nil
  then show ?case by auto
next
  case (Cons f fs)
  let ?rd = "read_MP3 rootdir os held bytes"
  from Cons.prems(3) obtain t ts' where ts: "ts = t # ts'" "length ts' = length fs" by (cases ts) auto
  have "mp3_ready me (f @ concat fs)" and f: "mp3_frame (description me) f" using Cons.prems by simp_all
  from mp3_step [OF this, of rootdir os held bytes t] obtain me1 where
    rd: "?rd me t = Some \<lparr>rd_me = me1, rd_res = ERR_NOERROR, rd_data = Some ([0, 0, 0, 0] @ f), rd_mtime = t,
           rd_recall = False, rd_marker = 0\<rparr>"
    and m1: "mp3_ready me1 (concat fs)" "description me1 = description me" by auto
  have room: "0 < chan_room (b, c)" using Cons.prems(5) by simp
  have "[0, 0, 0, 0] @ f \<noteq> []" "length ([0, 0, 0, 0] @ f) \<le> OMSSLOT_DATASIZE" using f by (simp_all add: mp3_frame_def)
  from frame_step [OF Cons.prems(4) room assms mp3_blind rd _ _ this] obtain b1 where
    b1: "chan_inv (b1, c)" "chan_queue (b1, c) = chan_queue (b, c) @ [mp3_packet_of t f]"
      "chan_room (b, c) \<le> Suc (chan_room (b1, c))"
      "get_frame_loop e ?rd (me\<lparr>pkt_buffer := Some b\<rparr>) t = Some (me1\<lparr>pkt_buffer := Some b1\<rparr>, t, ERR_NOERROR)"
    by (auto simp: read_packet_def mp3_packet_of_def)
  from Cons.IH [OF m1(1) _ ts(2) b1(1)] m1(2) Cons.prems(2,5) b1(3) obtain me' b' where
    "get_frames e (Some ?rd) ts' (me1\<lparr>pkt_buffer := Some b1\<rparr>) = Some (me'\<lparr>pkt_buffer := Some b'\<rparr>)"
    "chan_inv (b', c)" "chan_queue (b', c) = chan_queue (b1, c) @ map2 mp3_packet_of ts' fs" by auto
  then show ?case using b1(2,4) by (simp add: ts get_frame_def) blast
qed

text \<open>From the file to the session's queue: as many calls of \<open>get_frame\<close> as the MP3 file has frames put its frames, each
  whole, in order, behind the four bytes of RFC 2250 and with the time of its call, behind what already waits.\<close>
theorem mp3_file_to_queue:
  assumes "fresh_page e" and "mp3_ready me (concat fs)" and "list_all (mp3_frame (description me)) fs"
    and "length ts = length fs" and "chan_inv (b, c)" and "length fs \<le> chan_room (b, c)"
  shows "\<exists>me' b'. get_frames e (Some (read_MP3 rootdir os held bytes)) ts (me\<lparr>pkt_buffer := Some b\<rparr>) = Some (me'\<lparr>pkt_buffer := Some b'\<rparr>) \<and>
      chan_inv (b', c) \<and>
      chan_queue (b', c) = chan_queue (b, c) @ map2 (\<lambda>t f. \<lparr>pkt_ts = word_of_int (c_trunc t), pkt_marker = 0, pkt_bytes = [0, 0, 0, 0] @ f\<rparr>) ts fs"
  using get_frames_mp3 [OF assms] unfolding mp3_packet_of_def .

theorem mp3_file_to_queue_witness:
  "\<exists>me' b c b'. chan_queue (b, c) = [] \<and>
     get_frames page_env (Some (read_MP3 [] \<lparr>os_open = (\<lambda>_ _. 3), os_isfifo = (\<lambda>_. False)\<rparr> [] [])) [0, 26] (mp3_sample\<lparr>pkt_buffer := Some b\<rparr>) =
       Some (me'\<lparr>pkt_buffer := Some b'\<rparr>) \<and>
     chan_queue (b', c) = [\<lparr>pkt_ts = 0, pkt_marker = 0, pkt_bytes = [0, 0, 0, 0, 1, 2, 3, 4, 5]\<rparr>,
        \<lparr>pkt_ts = 26, pkt_marker = 0, pkt_bytes = [0, 0, 0, 0, 0xFF, 0xE0, 2, 4, 5, 6]\<rparr>]"
proof -
  obtain b0 where n: "OMSbuff_new 3 = Some b0" by (simp add: OMSbuff_new_def)
  obtain b c where r: "chan_inv (b, c)" "chan_queue (b, c) = []" "chan_room (b, c) = (2 ^ 32 - 1 - unat (3 :: 32 word)) div 9"
    by (rule ref_new [OF n])
  have "length [[1, 2, 3, 4, 5], [0xFF, 0xE0, 2, 4, 5, 6 :: uint8]] \<le> chan_room (b, c)" using r(3) by simp
  from mp3_file_to_queue [OF page_env_fresh mp3_sample_ready _ r(1) this, of "[0, 26]"] show ?thesis
    using r(2) by (simp add: c_trunc_def del: get_frames.simps) blast
qed

end
