(* ===== verification/Other_Readers.thy ===== *)
theory Other_Readers
  imports Mp3_Reader "HOL-Library.Signed_Division"
begin

text \<open>
  Readers that the handler table does not name and that nothing else calls: PCM (\<^verbatim>\<open>mediainfo/read_PCM.c\<close>),
  GSM (\<^verbatim>\<open>read_GSM.c\<close>), H.26L (\<^verbatim>\<open>read_H26L.c\<close>) and MPEG transport streams
  (\<^verbatim>\<open>read_MPEG_ts.c\<close>). \<open>junk\<close> is what the slot or the stack held. \<open>None\<close> is a write past the slot or a loop
  that never ends.
\<close>

section \<open>What they share\<close>

text \<open>The file is opened on the first call; \<open>st\<close> is the state a new reader has.\<close>

definition first_open ::
    "string \<Rightarrow> os_files \<Rightarrow> 'st \<Rightarrow> 'st media_entry \<Rightarrow> cdouble \<Rightarrow> 'st read_result + 'st media_entry" where
  "first_open rootdir os st me mt =
    (if has_flag (me_flags me) ME_FD then Inr me
     else
       let (me1, ret) = mediaopen rootdir os me
       in if ret < 0 then Inl \<lparr>rd_me = me1, rd_res = ret, rd_data = None, rd_mtime = mt, rd_recall = False, rd_marker = 0\<rparr>
          else Inr (me1\<lparr>media_stat := Some st\<rparr>))"

definition fd_skip :: "nat \<Rightarrow> os_file \<Rightarrow> os_file" where
  "fd_skip n f = f\<lparr>file_pos := file_pos f + n\<rparr>"

section \<open>PCM\<close>

text \<open>Whole chunks are skipped up to the sample the time asks for. When a chunk has no sample the loop never ends.\<close>

partial_function (option) pcm_skip :: "uint32 \<Rightarrow> uint32 \<Rightarrow> nat \<Rightarrow> uint32 \<Rightarrow> os_file \<Rightarrow> (uint32 \<times> os_file) option" where
  "pcm_skip start samples bytes chunk f =
    (if chunk < start
     then pcm_skip start samples bytes (chunk + samples) (if chunk + samples < start then fd_skip bytes f else f)
     else Some (chunk, f))"

declare pcm_skip.simps [code]

text \<open>Pairs of bytes, each pair swapped. A pair that is cut off is not counted.\<close>

fun pcm_pairs :: "nat \<Rightarrow> os_file \<Rightarrow> uint8 list \<times> os_file" where
  "pcm_pairs 0 f = ([], f)"
| "pcm_pairs (Suc n) f =
     (let (a, f1) = fd_read 1 f; (b, f2) = fd_read 1 f1
      in if a = [] then ([], f1)
         else if b = [] then ([], f2)
         else let (r, f3) = pcm_pairs n f2 in (b @ a @ r, f3))"

text \<open>A rate of zero makes the time not a number in the code, and 0 here.\<close>

definition pcm_bytes :: "media_descr \<Rightarrow> uint32 \<Rightarrow> uint32" where
  "pcm_bytes d samples = samples * word_of_int (bit_per_sample d) div 8 * word_of_int (audio_channels d)"

definition pcm_packet :: "os_file media_entry \<Rightarrow> cdouble \<Rightarrow> os_file read_result option" where
  "pcm_packet me mt =
    do {
      f \<leftarrow> media_stat me;
      let d = description me;
      let samples = (word_of_int (c_trunc (pkt_len d * real_of_int (clock_rate d) / 1000)) :: uint32);
      let start = (word_of_int (c_trunc (mt * real_of_int (clock_rate d) / 1000)) :: uint32);
      let bytes = pcm_bytes d samples;
      (chunk, f1) \<leftarrow> pcm_skip start samples (unat bytes) (data_chunk me) f;
      let (got, f2) = pcm_pairs ((unat bytes + 1) div 2) f1;
      let used = file_pos f2 - file_pos f1;
      if OMSSLOT_DATASIZE < used + used mod 2 then None
      else Some \<lparr>rd_me = me\<lparr>data_chunk := chunk, media_stat := Some f2\<rparr>, rd_res = (if got = [] then ERR_EOF else ERR_NOERROR),
                 rd_data = Some got, rd_mtime = real (unat chunk) / real_of_int (clock_rate d) * 1000, rd_recall = False,
                 rd_marker = 0\<rparr>
    }"

definition read_PCM :: "string \<Rightarrow> os_files \<Rightarrow> uint8 list \<Rightarrow> os_file media_entry \<Rightarrow> cdouble \<Rightarrow> os_file read_result option" where
  "read_PCM rootdir os bytes me mt =
    (case first_open rootdir os \<lparr>file_bytes = bytes, file_pos = 0\<rparr> me mt of
       Inl r \<Rightarrow> Some r
     | Inr me1 \<Rightarrow> pcm_packet (if has_flag (me_flags me) ME_FD then me1 else me1\<lparr>data_chunk := 0\<rparr>) mt)"

section \<open>GSM\<close>

text \<open>\<open>lround\<close> rounds halves away from zero.\<close>

definition c_lround :: "cdouble \<Rightarrow> int" where
  "c_lround x = (if 0 \<le> x then \<lfloor>x + 1 / 2\<rfloor> else \<lceil>x - 1 / 2\<rceil>)"

definition gsm_size :: "uint8 \<Rightarrow> nat" where
  "gsm_size b = [12, 13, 15, 17, 18, 20, 25, 30] ! unat (and b 0x07)"

text \<open>The frames up to the one the time asks for: the number of those that could not be skipped, the position, and the
  first byte and the size of the last frame, unless the file has ended.\<close>

fun gsm_skip :: "nat \<Rightarrow> uint8 \<Rightarrow> nat \<Rightarrow> os_file \<Rightarrow> nat \<times> os_file \<times> (uint8 \<times> nat) option" where
  "gsm_skip 0 b N f = (0, f, Some (b, N))"
| "gsm_skip (Suc n) b N f =
     (let (h, f1) = fd_read 1 f
      in if h = [] then (Suc n, f1, None)
         else let N1 = gsm_size (hd h) in gsm_skip n (hd h) N1 (if 0 < n then fd_skip N1 f1 else f1))"

definition gsm_packet :: "uint8 \<Rightarrow> uint8 list \<Rightarrow> os_file media_entry \<Rightarrow> cdouble \<Rightarrow> os_file read_result option" where
  "gsm_packet junk slot me mt =
    do {
      f \<leftarrow> media_stat me;
      let d = description me;
      let skip = (word_of_int (c_lround (mt / pkt_len d)) :: uint32);
      let t = real (unat skip) * pkt_len d;
      let (left, f1, fr) = gsm_skip (unat skip - unat (data_chunk me)) junk 0 f;
      let me1 = me\<lparr>data_chunk := (if data_chunk me < skip then skip - of_nat left else data_chunk me), media_stat := Some f1\<rparr>;
      let res = \<lparr>rd_me = me1, rd_res = ERR_EOF, rd_data = None, rd_mtime = t, rd_recall = False, rd_marker = 0\<rparr>;
      case fr of
        None \<Rightarrow> Some res
      | Some (b, N) \<Rightarrow>
          let (got, f2) = fd_read N f1; me2 = me1\<lparr>media_stat := Some f2\<rparr>
          in if got = [] then Some (res\<lparr>rd_me := me2, rd_data := Some (b # take N (tl slot))\<rparr>)
             else Some (res\<lparr>rd_me := me2, rd_res := ERR_NOERROR, rd_data := Some (b # got)\<rparr>)
    }"

definition read_GSM ::
    "string \<Rightarrow> os_files \<Rightarrow> uint8 \<Rightarrow> uint8 list \<Rightarrow> uint8 list \<Rightarrow> os_file media_entry \<Rightarrow> cdouble \<Rightarrow> os_file read_result option" where
  "read_GSM rootdir os junk slot bytes me mt =
    (case first_open rootdir os \<lparr>file_bytes = bytes, file_pos = 0\<rparr> me mt of
       Inl r \<Rightarrow> Some r
     | Inr me1 \<Rightarrow> gsm_packet junk slot (if has_flag (me_flags me) ME_FD then me1 else me1\<lparr>data_chunk := 0\<rparr>) mt)"

section \<open>H.26L\<close>

record static_H26L =
  h26_file :: os_file
  bufsize :: uint32
  pkt_sent :: int
  current_timestamp :: int
  next_timestamp :: int

text \<open>A packet of the file: its size, a time of four bytes, a header of twelve. What \<open>read\<close> does not deliver stays as it
  was. The C code stores the time stamp's bytes in an \<open>int\<close>.\<close>

definition little_word :: "uint8 list \<Rightarrow> uint32" where
  "little_word b = or (ucast (b ! 0)) (or (push_bit 8 (ucast (b ! 1))) (or (push_bit 16 (ucast (b ! 2))) (push_bit 24 (ucast (b ! 3)))))"

definition little_bytes :: "uint32 \<Rightarrow> uint8 list" where
  "little_bytes w = map (\<lambda>k. ucast (drop_bit (8 * k) w)) [0, 1, 2, 3]"

definition h26l_head :: "uint8 list \<Rightarrow> os_file \<Rightarrow> uint32 \<Rightarrow> uint32 \<times> uint8 list \<times> os_file" where
  "h26l_head head f old =
    (let (b, f1) = fd_read 4 f; (_, f2) = fd_read 4 f1; (h, f3) = fd_read 12 f2
     in (little_word (b @ drop (length b) (little_bytes old)), h @ drop (length h) head, f3))"

definition h26l_time :: "uint8 list \<Rightarrow> int" where
  "h26l_time head = sint (little_word (drop 4 head))"

definition h26l_packet :: "uint8 list \<Rightarrow> uint8 list \<Rightarrow> static_H26L media_entry \<Rightarrow> cdouble \<Rightarrow> static_H26L read_result option" where
  "h26l_packet junk slot me mt =
    do {
      s0 \<leftarrow> media_stat me;
      let (s, head) =
        (if pkt_sent s0 = 0
         then (let (sz, h, f) = h26l_head junk ((h26_file s0)\<lparr>file_pos := 0\<rparr>) (bufsize s0)
               in (s0\<lparr>bufsize := sz, current_timestamp := h26l_time h, h26_file := f\<rparr>, h))
         else (s0, junk));
      let n = unat (bufsize s - 12);
      let (got, f1) = fd_read n (h26_file s);
      if OMSSLOT_DATASIZE < length got then None
      else if got = []
      then Some \<lparr>rd_me = me\<lparr>media_stat := Some (s\<lparr>h26_file := f1, pkt_sent := 0\<rparr>)\<rparr>, rd_res = ERR_EOF, rd_data = Some (take n slot),
                 rd_mtime = mt, rd_recall = False, rd_marker = 0\<rparr>
      else
        let (sz, h, f2) = h26l_head head f1 (bufsize s); d = description me; ts = h26l_time h; same = (current_timestamp s = ts);
            s1 = s\<lparr>bufsize := sz, next_timestamp := ts, h26_file := f2, pkt_sent := pkt_sent s + 1, current_timestamp := ts\<rparr>;
            d1 = (if same then d else d\<lparr>delta_mtime := real_of_int ((ts - current_timestamp s) sdiv 1000) * pkt_len d\<rparr>)
        in Some \<lparr>rd_me = me\<lparr>media_stat := Some s1, description := d1\<rparr>, rd_res = ERR_NOERROR,
                 rd_data = Some (got @ drop (length got) (take n slot)), rd_mtime = real_of_int (current_timestamp s) * pkt_len d / 1000,
                 rd_recall = same, rd_marker = 0\<rparr>
    }"

definition read_H26L ::
    "string \<Rightarrow> os_files \<Rightarrow> uint8 list \<Rightarrow> uint8 list \<Rightarrow> uint8 list \<Rightarrow> static_H26L media_entry \<Rightarrow> cdouble \<Rightarrow> static_H26L read_result option" where
  "read_H26L rootdir os junk slot bytes me mt =
    (case first_open rootdir os \<lparr>h26_file = \<lparr>file_bytes = bytes, file_pos = 0\<rparr>, bufsize = 0, pkt_sent = 0, current_timestamp = 0,
                                  next_timestamp = 0\<rparr> me mt of
       Inl r \<Rightarrow> Some r
     | Inr me1 \<Rightarrow> h26l_packet junk slot me1 mt)"

section \<open>MPEG transport streams\<close>

definition ts_bytes :: "media_descr \<Rightarrow> uint32" where
  "ts_bytes d = word_of_int (byte_per_pckt d sdiv 188 * 188)"

definition read_MPEG_ts ::
    "string \<Rightarrow> os_files \<Rightarrow> bool \<Rightarrow> uint8 list \<Rightarrow> os_file media_entry \<Rightarrow> cdouble \<Rightarrow> os_file read_result option" where
  "read_MPEG_ts rootdir os memory bytes me mt =
    (if \<not> memory
     then Some \<lparr>rd_me = me, rd_res = ERR_ALLOC, rd_data = None, rd_mtime = mt, rd_recall = False, rd_marker = 0\<rparr>
     else
       (case first_open rootdir os \<lparr>file_bytes = bytes, file_pos = 0\<rparr> me mt of
          Inl r \<Rightarrow> Some r
        | Inr me1 \<Rightarrow>
            do {
              f \<leftarrow> media_stat me1;
              let (got, f1) = fd_read (unat (ts_bytes (description me))) f;
              if OMSSLOT_DATASIZE < length got then None
              else Some \<lparr>rd_me = me1\<lparr>media_stat := Some f1\<rparr>, rd_res = (if got = [] then ERR_EOF else ERR_NOERROR),
                         rd_data = Some got, rd_mtime = mt, rd_recall = False, rd_marker = 0\<rparr>
            }))"

section \<open>What they deliver\<close>

text \<open>Samples in network order: each pair of bytes swapped.\<close>

lemma pcm_swaps:
  "drop (file_pos f) (file_bytes f) = concat (map (\<lambda>(a, b). [a, b]) ps) @ rest \<Longrightarrow>
   fst (pcm_pairs (length ps) f) = concat (map (\<lambda>(a, b). [b, a]) ps)"
proof (induction ps arbitrary: f)
  case (Cons x ps)
  obtain a b where x: "x = (a, b)" by fastforce
  let ?f2 = "fd_skip 2 f"
  have d: "drop (file_pos f) (file_bytes f) = a # b # concat (map (\<lambda>(a, b). [a, b]) ps) @ rest" using Cons.prems by (simp add: x)
  then have d1: "drop (Suc (file_pos f)) (file_bytes f) = b # concat (map (\<lambda>(a, b). [a, b]) ps) @ rest" by (metis drop_Suc list.sel(3) tl_drop)
  then have d2: "drop (Suc (Suc (file_pos f))) (file_bytes f) = concat (map (\<lambda>(a, b). [a, b]) ps) @ rest" by (metis drop_Suc list.sel(3) tl_drop)
  have r: "fd_read 1 f = ([a], fd_skip 1 f)" "fd_read 1 (fd_skip 1 f) = ([b], ?f2)"
    using d d1 by (simp_all add: fd_read_def fd_skip_def)
  obtain r f3 where q: "pcm_pairs (length ps) ?f2 = (r, f3)" by fastforce
  have "fst (pcm_pairs (length ps) ?f2) = concat (map (\<lambda>(a, b). [b, a]) ps)"
    by (rule Cons.IH) (simp add: fd_skip_def d2)
  then have "r = concat (map (\<lambda>(a, b). [b, a]) ps)" by (simp add: q)
  then show ?case by (simp add: x r [unfolded One_nat_def] q)
qed simp

text \<open>A chunk without samples is skipped for ever.\<close>

lemma pcm_skip_stuck: "start \<le> chunk \<or> pcm_skip start 0 n chunk f = None"
proof (cases "pcm_skip start 0 n chunk f")
  case (Some r)
  have "start \<le> chunk"
    by (rule pcm_skip.raw_induct [OF _ Some, of "\<lambda>st sa n c f r. sa = 0 \<longrightarrow> st \<le> c", rule_format])
       (auto split: if_split_asm)
  then show ?thesis ..
qed simp

text \<open>At time zero the GSM reader has no frame to read and reports the end of the file.\<close>

lemma gsm_starts_with_end:
  assumes "has_flag (me_flags me) ME_FD" and "media_stat me = Some f"
  shows "\<exists>r. read_GSM rdir os junk slot bytes me 0 = Some r \<and> rd_res r = ERR_EOF"
  using assms by (simp add: read_GSM_def first_open_def gsm_packet_def c_lround_def fd_read_def Let_def)

text \<open>The packets of a transport stream are the bytes of the file, in order.\<close>

lemma ts_in_order:
  "read_calls (read_MPEG_ts rdir os True bytes) k me mt = Some (ds, me') \<Longrightarrow> has_flag (me_flags me) ME_FD \<Longrightarrow> media_stat me = Some f \<Longrightarrow>
   \<exists>f'. media_stat me' = Some f' \<and> file_bytes f' = file_bytes f \<and>
     drop (file_pos f) (file_bytes f) = concat ds @ drop (file_pos f') (file_bytes f)"
proof (induction k arbitrary: me mt ds f)
  case (Suc k)
  let ?n = "unat (ts_bytes (description me))"
  let ?got = "take ?n (drop (file_pos f) (file_bytes f))"
  let ?f1 = "f\<lparr>file_pos := file_pos f + length ?got\<rparr>"
  let ?me1 = "me\<lparr>media_stat := Some ?f1\<rparr>"
  have step: "read_MPEG_ts rdir os True bytes me mt = (if OMSSLOT_DATASIZE < length ?got then None
      else Some \<lparr>rd_me = ?me1, rd_res = (if ?got = [] then ERR_EOF else ERR_NOERROR), rd_data = Some ?got, rd_mtime = mt,
                 rd_recall = False, rd_marker = 0\<rparr>)"
    using Suc.prems(2,3) by (simp add: read_MPEG_ts_def first_open_def fd_read_def Let_def)
  obtain ds1 where ds: "ds = ?got # ds1" "read_calls (read_MPEG_ts rdir os True bytes) k ?me1 mt = Some (ds1, me')"
    using Suc.prems(1) unfolding read_calls.simps step
    by (auto simp del: length_take split: Option.bind_split_asm if_split_asm prod.split_asm)
  have fl: "has_flag (me_flags ?me1) ME_FD" "media_stat ?me1 = Some ?f1" using Suc.prems(2) by simp_all
  obtain f' where f': "media_stat me' = Some f'" "file_bytes f' = file_bytes f"
      "drop (file_pos ?f1) (file_bytes f) = concat ds1 @ drop (file_pos f') (file_bytes f)"
    using Suc.IH [OF ds(2) fl] by auto
  have "drop (file_pos ?f1) (file_bytes f) = drop (length ?got) (drop (file_pos f) (file_bytes f))"
    by (simp del: length_take add: add.commute)
  also have "\<dots> = drop ?n (drop (file_pos f) (file_bytes f))" by (simp add: min_def)
  finally have "drop (file_pos f) (file_bytes f) = ?got @ drop (file_pos ?f1) (file_bytes f)"
    by (metis append_take_drop_id)
  then show ?case using f' ds(1) by auto
qed auto

end
