(* ===== verification/Mpeg4_Video.thy ===== *)
theory Mpeg4_Video
  imports Mpeg_Video Other_Readers
begin

text \<open>
  The reader of MPEG-4 visual streams (\<^verbatim>\<open>mediainfo/read_MPEG4ES_video.c\<close>, \<^verbatim>\<open>read_MPEG4ES_utils.c\<close>,
  \<^verbatim>\<open>include/fenice/mpeg4es.h\<close>), which the handler table does not name. It collects the bytes up to the next video
  object plane in a local array, of which \<open>heap\<close> is the content; \<open>held\<close> is the content of the slot. A resolution of zero
  makes the times infinite in the code; here they are 0.
\<close>

section \<open>Data\<close>

definition VOS_START_CODE :: uint8 where "VOS_START_CODE = 0xB0"
definition VOS_END_CODE :: uint8 where "VOS_END_CODE = 0xB1"
definition VO_START_CODE :: uint8 where "VO_START_CODE = 0xB5"
definition VOP_START_CODE :: uint8 where "VOP_START_CODE = 0xB6"

record mpeg4_time_ref =
  vop_time_increment_resolution :: uint32
  vop_time_increment :: uint32
  var_time_increment :: uint32
  modulo_time_base :: uint32

definition zero_time_ref :: mpeg4_time_ref where
  "zero_time_ref = \<lparr>vop_time_increment_resolution = 0, vop_time_increment = 0, var_time_increment = 0, modulo_time_base = 0\<rparr>"

record static_MPEG4_video_es =
  profile_id :: int
  vtir_bitlen :: nat
  ref1 :: "mpeg4_time_ref option"
  ref2 :: "mpeg4_time_ref option"
  last_non_b_timestamp :: cdouble
  last_b_timestamp :: cdouble
  timestamp4 :: cdouble
  time_resolution :: uint32
  final_byte4 :: uint8
  fragmented4 :: bool
  data_read :: uint32
  remained_data_size :: uint32
  more_data :: "uint8 list option"
  vop_coding_type :: uint32
  mpeg4_file :: os_file

definition new_MPEG4 :: "uint8 list \<Rightarrow> static_MPEG4_video_es" where
  "new_MPEG4 bytes = \<lparr>profile_id = 0, vtir_bitlen = 0, ref1 = None, ref2 = None, last_non_b_timestamp = 0,
     last_b_timestamp = 0, timestamp4 = 0, time_resolution = 0, final_byte4 = 0, fragmented4 = False, data_read = 0,
     remained_data_size = 0, more_data = None, vop_coding_type = 0, mpeg4_file = \<lparr>file_bytes = bytes, file_pos = 0\<rparr>\<rparr>"

section \<open>Bit fields\<close>

text \<open>\<open>get_field\<close> takes whole bytes where it can. \<open>None\<close> is an access outside of the array.\<close>

fun field_loop :: "uint8 list \<Rightarrow> nat \<Rightarrow> uint32 \<Rightarrow> nat \<Rightarrow> (uint32 \<times> nat) option" where
  "field_loop d n v off =
    (if n = 0 then Some (v, off)
     else if length d \<le> off div 8 then None
     else if 8 \<le> n \<and> off mod 8 = 0
     then field_loop d (n - 8) (or (push_bit 8 v) (ucast (d ! (off div 8)))) (off + 8)
     else field_loop d (n - 1) (or (push_bit 1 v) (and (drop_bit (7 - off mod 8) (ucast (d ! (off div 8)))) 1)) (off + 1))"

declare field_loop.simps [simp del]

definition get_field :: "uint8 list \<Rightarrow> nat \<Rightarrow> nat \<Rightarrow> (uint32 \<times> nat) option" where
  "get_field d bits offset = field_loop d bits 0 offset"

section \<open>Reading on\<close>

text \<open>A byte, or the end of the file; a start code and a byte.\<close>

definition read_byte :: "mpeg_io \<Rightarrow> (mpeg_io + mpeg_io) option" where
  "read_byte io =
    (let (got, f) = fd_read 1 (io_file io)
     in if got = [] then Some (Inl io) else map_option Inr (io_put (hd got) (io\<lparr>io_file := f\<rparr>)))"

definition code_then_byte :: "mpeg_io \<Rightarrow> (mpeg_io + mpeg_io) option" where
  "code_then_byte io = do { (io1, n) \<leftarrow> next_start_code io; if n < 0 then Some (Inl io1) else read_byte io1 }"

section \<open>The parts of the stream\<close>

definition parse_visual_object_sequence ::
    "static_MPEG4_video_es \<Rightarrow> mpeg_io \<Rightarrow> (static_MPEG4_video_es \<times> mpeg_io \<times> int) option" where
  "parse_visual_object_sequence s io =
    do {
      r \<leftarrow> read_byte io;
      case r of
        Inl io1 \<Rightarrow> Some (s, io1, ERR_EOF)
      | Inr io1 \<Rightarrow> do { b \<leftarrow> io_back 1 io1; Some (s\<lparr>profile_id := uint b\<rparr>, io1, ERR_NOERROR) }
    }"

definition parse_visual_object :: "mpeg_io \<Rightarrow> (mpeg_io \<times> int) option" where
  "parse_visual_object io =
    do {
      let off = io_size io * 8;
      r \<leftarrow> code_then_byte io;
      case r of
        Inl io1 \<Rightarrow> Some (io1, ERR_EOF)
      | Inr io1 \<Rightarrow>
          do {
            (ident, off1) \<leftarrow> get_field (io_buf io1) 1 off;
            (ty, _) \<leftarrow> get_field (io_buf io1) 4 (if ident \<noteq> 0 then off1 + 7 else off1);
            Some (io1, ERR_NOERROR)
          }
    }"

definition parse_video_object :: "mpeg_io \<Rightarrow> (mpeg_io \<times> int) option" where
  "parse_video_object io =
    do { r \<leftarrow> code_then_byte io; case r of Inl io1 \<Rightarrow> Some (io1, ERR_EOF) | Inr io1 \<Rightarrow> Some (io1, ERR_NOERROR) }"

definition parse_group_video_object_plane :: "mpeg_io \<Rightarrow> (mpeg_io \<times> int) option" where
  "parse_group_video_object_plane io =
    do { r \<leftarrow> code_then_byte io; case r of Inl io1 \<Rightarrow> Some (io1, ERR_EOF) | Inr io1 \<Rightarrow> Some (io1, ERR_NOERROR) }"

text \<open>The number of bits of a number.\<close>

fun bitlen :: "nat \<Rightarrow> nat" where
  "bitlen i = (if i = 0 then 0 else Suc (bitlen (i div 2)))"

declare bitlen.simps [simp del]

text \<open>The offset behind the fields in front of the first marker.\<close>

definition layer_offset :: "uint8 list \<Rightarrow> nat \<Rightarrow> nat option" where
  "layer_offset d off =
    do {
      (ident, o1) \<leftarrow> get_field d 1 off;
      (ratio, o2) \<leftarrow> get_field d 4 (if ident \<noteq> 0 then o1 + 7 else o1);
      (ctrl, o3) \<leftarrow> get_field d 1 (if ratio = 15 then o2 + 16 else o2);
      o4 \<leftarrow> (if ctrl \<noteq> 0 then do { (vbw, p) \<leftarrow> get_field d 1 (o3 + 3); Some (if vbw \<noteq> 0 then p + 79 else p) } else Some o3);
      Some (o4 + 2)
    }"

text \<open>The references are allocated when they are missing.\<close>

definition layer_refs :: "static_MPEG4_video_es \<Rightarrow> mpeg4_time_ref \<times> mpeg4_time_ref" where
  "layer_refs s =
    (let r2 = (case ref2 s of Some r \<Rightarrow> r | None \<Rightarrow> zero_time_ref);
         r1 = (case ref1 s of Some r \<Rightarrow> r | None \<Rightarrow> r2)
     in (r1, r2))"

text \<open>The increment of the layer, if it is fixed; a fixed increment of zero is an error.\<close>

definition layer_increment :: "uint8 list \<Rightarrow> nat \<Rightarrow> nat \<Rightarrow> (unit + uint32) option" where
  "layer_increment d n off =
    do {
      (fixed, o1) \<leftarrow> get_field d 1 off;
      if fixed = 0 then Some (Inr 0)
      else do { (inc, _) \<leftarrow> get_field d n o1; Some (if inc = 0 then Inl () else Inr inc) }
    }"

definition parse_video_object_layer ::
    "static_MPEG4_video_es \<Rightarrow> mpeg_io \<Rightarrow> (static_MPEG4_video_es \<times> mpeg_io \<times> int) option" where
  "parse_video_object_layer s io =
    do {
      r \<leftarrow> code_then_byte io;
      case r of
        Inl io1 \<Rightarrow> Some (s, io1, ERR_EOF)
      | Inr io1 \<Rightarrow>
          do {
            let d = io_buf io1;
            off \<leftarrow> layer_offset d (io_size io * 8 + 9);
            (mark, o1) \<leftarrow> get_field d 1 off;
            if mark = 0 then Some (s, io1, ERR_PARSE)
            else do {
              let (r1, r2) = layer_refs s;
              (res, o2) \<leftarrow> get_field d 16 o1;
              let r1' = r1\<lparr>vop_time_increment_resolution := vop_time_increment_resolution r2\<rparr>;
              let r2' = r2\<lparr>vop_time_increment_resolution := res\<rparr>;
              let s1 = s\<lparr>ref1 := Some r1', ref2 := Some r2'\<rparr>;
              (mark2, o3) \<leftarrow> get_field d 1 o2;
              if mark2 = 0 then Some (s1, io1, ERR_PARSE)
              else do {
                let n = bitlen (unat res);
                let s2 = s1\<lparr>vtir_bitlen := n\<rparr>;
                inc \<leftarrow> layer_increment d n o3;
                case inc of
                  Inl _ \<Rightarrow> Some (s2, io1, ERR_PARSE)
                | Inr i \<Rightarrow> Some (s2\<lparr>ref1 := Some (r1'\<lparr>vop_time_increment := vop_time_increment r2'\<rparr>),
                                     ref2 := Some (r2'\<lparr>vop_time_increment := i\<rparr>)\<rparr>, io1, ERR_NOERROR)
              }
            }
          }
    }"

text \<open>Ones up to the first zero, within the bytes of the plane.\<close>

function modulo_bits :: "uint8 list \<Rightarrow> nat \<Rightarrow> nat \<Rightarrow> uint32 \<Rightarrow> (uint32 \<times> nat) option" where
  "modulo_bits d len off m =
    (if off div 8 < len
     then (case get_field d 1 off of
             None \<Rightarrow> None
           | Some (b, o1) \<Rightarrow> if b = 0 then Some (m, o1) else modulo_bits d len (off + 1) (m + 1))
     else Some (m, off))"
  by pat_completeness auto
termination by (relation "measure (\<lambda>(d, len, off, m). 8 * len + 8 - off)") auto

declare modulo_bits.simps [simp del]

text \<open>The time of a plane in milliseconds.\<close>

definition plane_time :: "mpeg4_time_ref \<Rightarrow> cdouble" where
  "plane_time r =
    (real (unat (modulo_time_base r)) * real (unat (vop_time_increment_resolution r)) + real (unat (var_time_increment r))) *
    (1000 / real (unat (vop_time_increment_resolution r)))"

definition plane_resolution :: "mpeg4_time_ref \<Rightarrow> uint32 \<Rightarrow> uint32" where
  "plane_resolution r old =
    (if old = 0 \<and> var_time_increment r \<noteq> 0
     then word_of_int (c_trunc (real (unat (var_time_increment r)) / real (unat (vop_time_increment_resolution r)) * 1000))
     else old)"

text \<open>Planes that are not bidirectional advance the clock, but neither backwards nor by more than six frames.\<close>

definition plane_clock :: "uint32 \<Rightarrow> static_MPEG4_video_es \<Rightarrow> mpeg4_time_ref \<Rightarrow> mpeg4_time_ref \<Rightarrow> static_MPEG4_video_es" where
  "plane_clock m s r1 r2 =
    (let res = plane_resolution r2 (time_resolution s); s1 = s\<lparr>time_resolution := res\<rparr>
     in if vop_coding_type s \<noteq> 2
        then
          (let r1' = r1\<lparr>modulo_time_base := modulo_time_base r2\<rparr>;
               r2' = r2\<lparr>modulo_time_base := modulo_time_base r2 + m\<rparr>;
               t = plane_time r2'; last = last_non_b_timestamp s; late = last + real (unat res);
               (t1, r3) = (if t < last then (late, r2'\<lparr>modulo_time_base := modulo_time_base r2' + 1\<rparr>) else (t, r2'));
               t2 = (if last + real (unat (6 * res)) < t1 then late else t1)
           in s1\<lparr>ref1 := Some r1', ref2 := Some r3, timestamp4 := t2, last_non_b_timestamp := t2\<rparr>)
        else s1\<lparr>ref1 := Some r1, ref2 := Some r2, timestamp4 := plane_time r1, last_b_timestamp := plane_time r1\<rparr>)"

definition parse_video_object_plane ::
    "static_MPEG4_video_es \<Rightarrow> mpeg_io \<Rightarrow> (static_MPEG4_video_es \<times> mpeg_io \<times> int) option" where
  "parse_video_object_plane s io =
    do {
      r \<leftarrow> code_then_byte io;
      case r of
        Inl io1 \<Rightarrow> Some (s, io1, ERR_EOF)
      | Inr io1 \<Rightarrow>
          do {
            let d = io_buf io1;
            (ty, o1) \<leftarrow> get_field d 2 (io_size io * 8);
            let s1 = s\<lparr>vop_coding_type := ty\<rparr>;
            (m, o2) \<leftarrow> modulo_bits d (io_size io1 - 4) o1 0;
            (mark, o3) \<leftarrow> get_field d 1 o2;
            if mark = 0 then Some (s1, io1, ERR_PARSE)
            else do {
              (v, _) \<leftarrow> get_field d (vtir_bitlen s) o3;
              let r1 = (case ref1 s of Some r \<Rightarrow> r | None \<Rightarrow> zero_time_ref)\<lparr>var_time_increment := v\<rparr>;
              let r2 = (case ref2 s of Some r \<Rightarrow> r | None \<Rightarrow> zero_time_ref)\<lparr>var_time_increment := v\<rparr>;
              Some (plane_clock m s1 r1 r2, io1, ERR_NOERROR)
            }
          }
    }"

section \<open>The reader\<close>

definition mpeg4_bytes :: "media_descr \<Rightarrow> nat" where
  "mpeg4_bytes d = (if 261 < byte_per_pckt d then nat (byte_per_pckt d) else 1400)"

text \<open>The parts in front of a plane, one after the other. The code after \<open>VOS_END_CODE\<close> is read on like any other.\<close>

definition header_part ::
    "static_MPEG4_video_es \<Rightarrow> mpeg_io \<Rightarrow> (static_MPEG4_video_es \<times> mpeg_io \<times> int) option" where
  "header_part s io =
    (let code = final_byte4 s;
         last = (\<lambda>s io ret. if ret \<noteq> ERR_NOERROR then Some (s, io, ret)
                   else do { b \<leftarrow> io_back 1 io; Some (s\<lparr>final_byte4 := b\<rparr>, io, ERR_NOERROR) });
         onward = (\<lambda>s io. do {
             r \<leftarrow> code_then_byte io;
             case r of Inl io1 \<Rightarrow> Some (s, io1, ERR_EOF) | Inr io1 \<Rightarrow> last s io1 ERR_NOERROR })
     in if code = VOS_START_CODE
        then do {
          (s1, io1, ret) \<leftarrow> parse_visual_object_sequence s io;
          if ret \<noteq> ERR_NOERROR then Some (s1, io1, ret) else onward s1 io1
        }
        else if code = VO_START_CODE then do { (io1, ret) \<leftarrow> parse_visual_object io; last s io1 ret }
        else if code \<le> 0x1F then do { (io1, ret) \<leftarrow> parse_video_object io; last s io1 ret }
        else if 0x20 \<le> code \<and> code \<le> 0x2F then do { (s1, io1, ret) \<leftarrow> parse_video_object_layer s io; last s1 io1 ret }
        else onward s io)"

partial_function (option) header_parts ::
    "static_MPEG4_video_es \<Rightarrow> mpeg_io \<Rightarrow> (static_MPEG4_video_es \<times> mpeg_io \<times> int) option" where
  "header_parts s io =
    (if final_byte4 s = VOP_START_CODE then Some (s, io, ERR_NOERROR)
     else do {
       (s1, io1, ret) \<leftarrow> header_part s io;
       if ret \<noteq> ERR_NOERROR then Some (s1, io1, ret) else header_parts s1 io1
     })"

declare header_parts.simps [code]

text \<open>What waits of a plane is sent piece by piece.\<close>

definition mpeg4_fragment ::
    "nat \<Rightarrow> static_MPEG4_video_es media_entry \<Rightarrow> static_MPEG4_video_es \<Rightarrow> static_MPEG4_video_es read_result option" where
  "mpeg4_fragment num me s =
    do {
      more \<leftarrow> more_data s;
      let left = unat (remained_data_size s);
      let n = (if num < left then num else left);
      let again = num < left;
      if length more < unat (data_read s) + n \<or> OMSSLOT_DATASIZE < n then None
      else Some \<lparr>rd_me = me\<lparr>media_stat := Some (s\<lparr>remained_data_size := of_nat (left - n), data_read := data_read s + of_nat n,
                                                  fragmented4 := again\<rparr>)\<rparr>,
                 rd_res = ERR_NOERROR, rd_data = Some (take n (drop (unat (data_read s)) more)), rd_mtime = timestamp4 s,
                 rd_recall = again, rd_marker = (if again then 0 else 1)\<rparr>
    }"

text \<open>A whole plane goes out at once or begins a series of pieces.\<close>

definition mpeg4_finish ::
    "nat \<Rightarrow> static_MPEG4_video_es media_entry \<Rightarrow> static_MPEG4_video_es \<Rightarrow> mpeg_io \<Rightarrow> static_MPEG4_video_es read_result option" where
  "mpeg4_finish num me s io =
    do {
      more \<leftarrow> more_data s;
      let size = (if final_byte4 s \<noteq> VOS_END_CODE then io_size io - 4 else io_size io);
      let again = num < size;
      let out = take (min num size) (io_buf io);
      let s1 = (if again then s\<lparr>more_data := Some (take size (io_buf io) @ drop size more), remained_data_size := of_nat (size - num),
                               data_read := of_nat num, fragmented4 := True\<rparr>
                else s\<lparr>fragmented4 := False\<rparr>);
      let d = description me;
      let own = time_resolution s1 \<noteq> 0 \<and> \<not> has_flag (d_flags d) MED_FORCE_FRAME_RATE;
      let d1 = (if own then d\<lparr>pkt_len := real (unat (time_resolution s1))\<rparr> else d);
      let s2 = (if own then s1 else s1\<lparr>time_resolution := word_of_int (c_trunc (pkt_len d))\<rparr>);
      if length more < size \<and> again \<or> OMSSLOT_DATASIZE < length out then None
      else Some \<lparr>rd_me = me\<lparr>media_stat := Some (s2\<lparr>mpeg4_file := io_file io\<rparr>), description := d1\<rparr>, rd_res = ERR_NOERROR,
                 rd_data = Some out, rd_mtime = timestamp4 s2, rd_recall = again, rd_marker = (if again then 0 else 1)\<rparr>
    }"

text \<open>A live source is skipped to the first plane that moves the clock by one second.\<close>

definition live_start :: "static_MPEG4_video_es \<Rightarrow> static_MPEG4_video_es" where
  "live_start s = s\<lparr>ref1 := map_option (\<lambda>r. r\<lparr>modulo_time_base := 0\<rparr>) (ref1 s),
                    ref2 := map_option (\<lambda>r. r\<lparr>modulo_time_base := 0\<rparr>) (ref2 s), timestamp4 := 0\<rparr>"

definition mpeg4_plane ::
    "uint8 list \<Rightarrow> nat \<Rightarrow> static_MPEG4_video_es media_entry \<Rightarrow> static_MPEG4_video_es \<Rightarrow> mpeg_io \<Rightarrow> cdouble \<Rightarrow>
     static_MPEG4_video_es read_result option" where
  "mpeg4_plane held num me s0 io0 mt =
    do {
      (s1, io1, ret1) \<leftarrow> header_parts s0 io0;
      (s2, io2, ret2) \<leftarrow> (if ret1 \<noteq> ERR_NOERROR then Some (s1, io1, ret1) else parse_video_object_plane s1 io1);
      let fail = \<lparr>rd_me = me\<lparr>media_stat := Some (s2\<lparr>mpeg4_file := io_file io2\<rparr>)\<rparr>, rd_res = ret2, rd_data = Some (take (io_size io2) held),
                  rd_mtime = mt, rd_recall = False, rd_marker = 0\<rparr>;
      if ret2 \<noteq> ERR_NOERROR then Some fail
      else do {
        b \<leftarrow> io_back 1 io2;
        let s3 = s2\<lparr>final_byte4 := b\<rparr>;
        let start = (msource (description me) = live \<and> c_trunc mt = 0);
        r2 \<leftarrow> ref2 s3;
        if start \<and> modulo_time_base r2 \<noteq> 1
        then Some (fail\<lparr>rd_me := me\<lparr>media_stat := Some (s3\<lparr>mpeg4_file := io_file io2, fragmented4 := False\<rparr>)\<rparr>, rd_data := Some [],
                        rd_recall := True\<rparr>)
        else mpeg4_finish num me (if start then live_start s3 else s3) io2
      }
    }"

text \<open>The state is completed on every call. The branch that would read the first start code asks for the flag that
  opening the file has just set, so that the first packet begins with a start code that is not in the file.\<close>

definition mpeg4_state :: "media_descr \<Rightarrow> static_MPEG4_video_es \<Rightarrow> static_MPEG4_video_es" where
  "mpeg4_state d s =
    (let more = (case more_data s of Some m \<Rightarrow> m | None \<Rightarrow> replicate 65000 0);
         r1 = (case ref1 s of Some r \<Rightarrow> r | None \<Rightarrow> zero_time_ref);
         r2 = (case ref2 s of Some r \<Rightarrow> r | None \<Rightarrow> zero_time_ref);
         rate = word_of_int (frame_rate d);
         unset = (vop_time_increment_resolution r2 = 0)
     in s\<lparr>more_data := Some more,
          ref1 := Some (if unset then r1\<lparr>vop_time_increment_resolution := rate\<rparr> else r1),
          ref2 := Some (if unset then r2\<lparr>vop_time_increment_resolution := rate\<rparr> else r2)\<rparr>)"

definition read_MPEG4ES_video ::
    "string \<Rightarrow> os_files \<Rightarrow> uint8 list \<Rightarrow> uint8 list \<Rightarrow> uint8 list \<Rightarrow> static_MPEG4_video_es media_entry \<Rightarrow> cdouble \<Rightarrow>
     static_MPEG4_video_es read_result option" where
  "read_MPEG4ES_video rootdir os held heap bytes me mt =
    (case first_open rootdir os (new_MPEG4 bytes) me mt of
       Inl r \<Rightarrow> Some (r\<lparr>rd_data := Some []\<rparr>)
     | Inr me1 \<Rightarrow>
         do {
           s0 \<leftarrow> media_stat me1;
           let s = mpeg4_state (description me1) s0;
           let num = mpeg4_bytes (description me1);
           let io = \<lparr>io_buf = heap, io_size = 0, io_file = mpeg4_file s\<rparr>;
           if fragmented4 s then mpeg4_fragment num me1 s
           else do {
             io1 \<leftarrow> (if final_byte4 s \<noteq> VOS_END_CODE
                     then do { i \<leftarrow> io_put3 0 0 1 io; io_put (final_byte4 s) i } else Some io);
             mpeg4_plane held num me1 s io1 mt
           }
         })"

section \<open>Bit fields read as numbers\<close>

text \<open>The reference: bit after bit, the most significant first.\<close>

definition stream_bit :: "uint8 list \<Rightarrow> nat \<Rightarrow> bool" where
  "stream_bit d k = bit (d ! (k div 8)) (7 - k mod 8)"

definition shift_in :: "bool \<Rightarrow> uint32 \<Rightarrow> uint32" where
  "shift_in b v = or (push_bit 1 v) (of_bool b)"

fun bits_num :: "uint8 list \<Rightarrow> nat \<Rightarrow> nat \<Rightarrow> uint32 \<Rightarrow> uint32" where
  "bits_num d 0 off v = v"
| "bits_num d (Suc n) off v = bits_num d n (off + 1) (shift_in (stream_bit d off) v)"

lemma shift_in_bit: "n < 32 \<Longrightarrow> bit (shift_in b v) n = (if n = 0 then b else bit v (n - 1))"
  unfolding shift_in_def by (simp only: bit_or_iff bit_push_bit_iff bit_of_bool_iff) (cases n; simp)

lemma shift_byte_bit: "n < 32 \<Longrightarrow> bit (or (push_bit 8 v) (ucast (x :: uint8)) :: uint32) n = (if n < 8 then bit x n else bit v (n - 8))"
proof -
  assume n: "n < 32"
  have "\<not> 8 \<le> n" if "bit x n" using bit_imp_le_length [OF that] by simp
  then show ?thesis using n by (simp only: bit_or_iff bit_push_bit_iff bit_ucast_iff) auto
qed

lemma byte_bits:
  "shift_in (bit x 0) (shift_in (bit x 1) (shift_in (bit x 2) (shift_in (bit x 3) (shift_in (bit x 4) (shift_in (bit x 5)
     (shift_in (bit x 6) (shift_in (bit x 7) v))))))) = or (push_bit 8 v) (ucast (x :: uint8))" (is "?l = ?r")
proof (rule bit_word_eqI)
  fix n
  assume "n < LENGTH(32)"
  then have n: "n < 32" by simp
  show "bit ?l n = bit ?r n" unfolding shift_byte_bit [OF n]
  proof (cases "n < 8")
    case True
    then consider "n = 0" | "n = 1" | "n = 2" | "n = 3" | "n = 4" | "n = 5" | "n = 6" | "n = 7" by linarith
    then show "bit ?l n = (if n < 8 then bit x n else bit v (n - 8))" by cases (simp_all add: shift_in_bit)
  next
    case False
    then obtain m where "n = m + 8" by (metis add.commute le_Suc_ex not_less)
    then show "bit ?l n = (if n < 8 then bit x n else bit v (n - 8))" using n by (simp add: shift_in_bit)
  qed
qed

lemma one_bit: "and (drop_bit k (ucast (x :: uint8) :: uint32)) 1 = of_bool (bit x k)"
proof -
  have "k < 32" if "bit x k" using bit_imp_le_length [OF that] by simp
  then show ?thesis
    by (intro bit_word_eqI) (auto simp: bit_and_iff bit_drop_bit_eq bit_ucast_iff bit_1_iff bit_of_bool_iff)
qed

lemma field_loop_bits: "off + n \<le> 8 * length d \<Longrightarrow> field_loop d n v off = Some (bits_num d n off v, off + n)"
proof (induction d n v off rule: field_loop.induct)
  case (1 d n v off)
  show ?case
  proof (cases "n = 0")
    case True
    then show ?thesis by (subst field_loop.simps) simp
  next
    case False
    then have "off < length d * 8" using "1.prems" by simp
    then have inb: "\<not> length d \<le> off div 8" by (simp add: less_mult_imp_div_less not_le)
    show ?thesis
    proof (cases "8 \<le> n \<and> off mod 8 = 0")
      case True
      then obtain m where n: "n = 8 + m" using le_Suc_ex by blast
      obtain k where k: "off = 8 * k" using True by (auto elim: dvdE simp: mod_eq_0_iff_dvd)
      have near: "Suc (8 * k) div 8 = k" "Suc (8 * k) mod 8 = 1" "Suc (Suc (8 * k)) div 8 = k" "Suc (Suc (8 * k)) mod 8 = 2"
        "Suc (Suc (Suc (Suc (Suc (Suc (Suc (Suc (8 * k)))))))) = 8 * k + 8" by presburger+
      have eight: "8 + m = Suc (Suc (Suc (Suc (Suc (Suc (Suc (Suc m)))))))" by simp
      have "bits_num d n off v = bits_num d m (off + 8) (or (push_bit 8 v) (ucast (d ! k)))"
        unfolding n k byte_bits [of "d ! k" v, symmetric]
        by (simp only: eight bits_num.simps) (simp add: stream_bit_def near)
      then show ?thesis
        using "1.IH"(1) [OF False inb True] "1.prems" False inb True by (subst field_loop.simps) (simp add: n k)
    next
      case odd: False
      obtain m where n: "n = Suc m" using False by (cases n) auto
      show ?thesis
        using "1.IH"(2) [OF False inb odd] "1.prems" inb odd
        by (subst field_loop.simps) (auto simp: n one_bit stream_bit_def shift_in_def)
    qed
  qed
qed

text \<open>\<open>get_field\<close> is the number its bits denote, however the field lies to the bytes.\<close>

theorem get_field_bits: "offset + n \<le> 8 * length d \<Longrightarrow> get_field d n offset = Some (bits_num d n offset 0, offset + n)"
  by (simp add: get_field_def field_loop_bits)

end
