(* ===== verification/Mpeg_System.thy ===== *)
theory Mpeg_System
  imports Mpeg_Video Other_Readers
begin

text \<open>
  The reader of MPEG-1 system streams (\<^verbatim>\<open>mediainfo/read_MPEG_system.c\<close>, \<^verbatim>\<open>read_MPEGSYSTEM_utils.c\<close>,
  \<^verbatim>\<open>include/fenice/mpeg_system.h\<close>), which the handler table does not name. It writes into the slot itself, of which
  \<open>held\<close> is the content; \<open>None\<close> is an access outside of it, or a size below zero. A clock rate of zero makes
  the times infinite in the code; here they are 0.
\<close>

section \<open>Clocks\<close>

record sys_clock =
  clk_msb :: bool
  clk_low :: uint32

definition zero_clk :: sys_clock where "zero_clk = \<lparr>clk_msb = False, clk_low = 0\<rparr>"

record static_MPEG_system =
  final_byte_s :: uint8
  pts :: sys_clock
  next_pts :: sys_clock
  dts :: sys_clock
  next_dts :: sys_clock
  pts_audio :: sys_clock
  scr :: sys_clock
  data_total_s :: uint32
  offset_flag :: bool
  offset_s :: uint32
  new_dts :: bool
  system_file :: os_file

definition new_MPEG_system :: "uint8 list \<Rightarrow> static_MPEG_system" where
  "new_MPEG_system bytes = \<lparr>final_byte_s = 0, pts = zero_clk, next_pts = zero_clk, dts = zero_clk, next_dts = zero_clk,
     pts_audio = zero_clk, scr = zero_clk, data_total_s = 0, offset_flag = False, offset_s = 0, new_dts = False,
     system_file = \<lparr>file_bytes = bytes, file_pos = 0\<rparr>\<rparr>"

text \<open>The five bytes of a clock hold its highest bit and 32 others between markers; the arrays \<open>vett_scr\<close>,
  \<open>vett_pts\<close> and \<open>vett_dts\<close> take the 32 as numbers.\<close>

definition clock_bits :: "uint8 \<Rightarrow> uint8 \<Rightarrow> uint8 \<Rightarrow> uint8 \<Rightarrow> uint8 \<Rightarrow> uint8 list" where
  "clock_bits a b c d e = map of_bool
     ([bit a 2, bit a 1] @ map (bit b) [7, 6, 5, 4, 3, 2, 1, 0] @ map (bit c) [7, 6, 5, 4, 3, 2, 1] @
      map (bit d) [7, 6, 5, 4, 3, 2, 1, 0] @ map (bit e) [7, 6, 5, 4, 3, 2, 1])"

text \<open>The loops over the arrays go on from the old value.\<close>

definition shift_clock :: "uint8 list \<Rightarrow> uint32 \<Rightarrow> uint32" where
  "shift_clock bs v = fold (\<lambda>b v. v * 2 + ucast b) bs v"

text \<open>The four bytes behind the first one, and all five of a decoding time.\<close>

definition read_clock :: "uint8 \<Rightarrow> mpeg_io \<Rightarrow> (mpeg_io \<times> uint8 list) option" where
  "read_clock a io =
    do {
      io1 \<leftarrow> io_read 1 io; b \<leftarrow> io_back 1 io1;
      io2 \<leftarrow> io_read 1 io1; c \<leftarrow> io_back 1 io2;
      io3 \<leftarrow> io_read 1 io2; d \<leftarrow> io_back 1 io3;
      io4 \<leftarrow> io_read 1 io3; e \<leftarrow> io_back 1 io4;
      Some (io4, clock_bits a b c d e)
    }"

section \<open>The parts of the stream\<close>

text \<open>A start code and the byte behind it, with the bytes that were passed; at the end of the file the
  byte is what the slot held.\<close>

definition code_last :: "mpeg_io \<Rightarrow> (mpeg_io \<times> int \<times> uint8) option" where
  "code_last io =
    do { (io1, n) \<leftarrow> next_start_code io; io2 \<leftarrow> io_read 1 io1; b \<leftarrow> io_back 1 io2; Some (io2, n, b) }"

definition read_pack_head :: "sys_clock \<Rightarrow> mpeg_io \<Rightarrow> (mpeg_io \<times> uint8 \<times> sys_clock \<times> int) option" where
  "read_pack_head clk io =
    do {
      io1 \<leftarrow> io_read 1 io; a \<leftarrow> io_back 1 io1;
      (io2, bits) \<leftarrow> read_clock a io1;
      (io3, n, fb) \<leftarrow> code_last io2;
      (io4, fb', m) \<leftarrow> (if fb = 0xBB then do { (i, k, f) \<leftarrow> code_last io3; Some (i, f, k) } else Some (io3, fb, 0));
      Some (io4, fb', \<lparr>clk_msb = bit a 3, clk_low = shift_clock bits (clk_low clk)\<rparr>, 6 + n + m)
    }"

text \<open>Bytes up to the first that is not stuffing.\<close>

partial_function (option) stuffing :: "mpeg_io \<Rightarrow> int \<Rightarrow> (mpeg_io \<times> int) option" where
  "stuffing io n =
    do { io1 \<leftarrow> io_read 1 io; b \<leftarrow> io_back 1 io1; if b = 0xFF then stuffing io1 (n + 1) else Some (io1, n + 1) }"

text \<open>What a packet's header tells: the time stamps as far as they are there. \<open>junk\<close> is what the array of the presentation
  time held, which the code reads for audio packets without a time stamp.\<close>

record packet_head =
  ph_time_set :: bool
  ph_pts :: sys_clock
  ph_dts :: sys_clock
  ph_dts_present :: bool
  ph_audio :: sys_clock

definition stamps ::
    "uint8 list \<Rightarrow> uint8 \<Rightarrow> uint8 \<Rightarrow> mpeg_io \<Rightarrow> packet_head \<Rightarrow> (mpeg_io \<times> int \<times> packet_head \<times> bool \<times> uint8 list \<times> uint8 list) option" where
  "stamps junk fb a io h =
    (let msb = bit a 3;
         h1 = (if fb \<noteq> 0xC0 then h\<lparr>ph_pts := (ph_pts h)\<lparr>clk_msb := msb\<rparr>\<rparr> else h\<lparr>ph_audio := (ph_audio h)\<lparr>clk_msb := msb\<rparr>\<rparr>)
     in if and a 0xF0 = 0x20
        then do { (io1, p) \<leftarrow> read_clock a io; Some (io1, 4, h1, True, p, []) }
        else if and a 0xF0 = 0x30
        then do {
          (io1, p) \<leftarrow> read_clock a io;
          io2 \<leftarrow> io_read 1 io1; x \<leftarrow> io_back 1 io2;
          (io3, q) \<leftarrow> read_clock x io2;
          Some (io3, 9, h1\<lparr>ph_dts_present := True, ph_dts := (ph_dts h1)\<lparr>clk_msb := bit x 3\<rparr>\<rparr>, True, p, q)
        }
        else Some (io, 0, h, False, junk, []))"

text \<open>The values are assembled at the end.\<close>

definition set_clocks :: "uint8 \<Rightarrow> packet_head \<Rightarrow> bool \<Rightarrow> uint8 list \<Rightarrow> uint8 list \<Rightarrow> packet_head" where
  "set_clocks fb h present p q =
    (let h1 = (if \<not> ph_time_set h \<and> present \<and> fb \<noteq> 0xC0
               then h\<lparr>ph_pts := (ph_pts h)\<lparr>clk_low := shift_clock p (clk_low (ph_pts h))\<rparr>, ph_time_set := True\<rparr> else h);
         h2 = (if \<not> ph_time_set h1 \<and> fb = 0xC0
               then h1\<lparr>ph_audio := (ph_audio h1)\<lparr>clk_low := shift_clock p (clk_low (ph_audio h1))\<rparr>, ph_time_set := True\<rparr> else h1)
     in if ph_dts_present h2 then h2\<lparr>ph_dts := (ph_dts h2)\<lparr>clk_low := shift_clock q (clk_low (ph_dts h2))\<rparr>\<rparr> else h2)"

definition read_packet_head :: "uint8 list \<Rightarrow> uint8 \<Rightarrow> mpeg_io \<Rightarrow> packet_head \<Rightarrow> (mpeg_io \<times> int \<times> packet_head) option" where
  "read_packet_head junk fb io h0 =
    do {
      io1 \<leftarrow> io_read 2 io;
      let h = h0\<lparr>ph_dts_present := False\<rparr>;
      if fb = 0xBF then Some (io1, 2, set_clocks fb h False junk [])
      else do {
        (io2, n) \<leftarrow> stuffing io1 2;
        b \<leftarrow> io_back 1 io2;
        (io3, n3, a) \<leftarrow> (if and b 0xC0 = 0x40 then do { i \<leftarrow> io_read 2 io2; x \<leftarrow> io_back 1 i; Some (i, n + 2, x) } else Some (io2, n, b));
        (io4, m, h1, present, p, q) \<leftarrow> stamps junk fb a io3 h;
        Some (io4, n3 + m, set_clocks fb h1 present p q)
      }
    }"

text \<open>A packet ends at the first start code from \<open>B9\<close> on.\<close>

partial_function (option) read_packet :: "mpeg_io \<Rightarrow> int \<Rightarrow> (mpeg_io \<times> uint8 \<times> int) option" where
  "read_packet io n =
    do {
      (io1, k, fb) \<leftarrow> code_last io;
      (io2, n2) \<leftarrow> (if fb = 0 then do { i \<leftarrow> io_read 2 io1; Some (i, n + k + 2) } else Some (io1, n + k));
      if fb < 0xB9 then read_packet io2 n2 else Some (io2, fb, n2)
    }"

declare stuffing.simps [code] read_packet.simps [code]

section \<open>The reader\<close>

text \<open>\<open>read(fd, &final_byte, 1)\<close>, which leaves the byte at the end of the file, and its copy into the slot.\<close>

definition read_final :: "uint8 \<Rightarrow> mpeg_io \<Rightarrow> (mpeg_io \<times> uint8) option" where
  "read_final fb io =
    (let (got, f) = fd_read 1 (io_file io); b = (if got = [] then fb else hd got)
     in map_option (\<lambda>i. (i, b)) (io_put b (io\<lparr>io_file := f\<rparr>)))"

definition io_cut :: "int \<Rightarrow> mpeg_io \<Rightarrow> mpeg_io option" where
  "io_cut n io = (if n \<le> int (io_size io) then Some (io\<lparr>io_size := nat (int (io_size io) - n)\<rparr>) else None)"

definition io_seek_back :: "int \<Rightarrow> mpeg_io \<Rightarrow> mpeg_io" where
  "io_seek_back n io = io\<lparr>io_file := fd_seek (int (file_pos (io_file io)) - n) (io_file io)\<rparr>"

text \<open>Packets while there is room; at least one. The results: the last packet's count, whether it is the only one,
  whether the next one fits no more, and \<open>*recallme\<close>.\<close>

partial_function (option) system_packets ::
    "nat \<Rightarrow> mpeg_io \<Rightarrow> uint8 \<Rightarrow> bool \<Rightarrow> int \<times> bool \<times> bool \<times> bool \<Rightarrow> (mpeg_io \<times> uint8 \<times> int \<times> bool \<times> bool \<times> bool) option" where
  "system_packets num io fb done1 st =
    (case st of (count, only, flag, rc) \<Rightarrow>
       if io_size io \<le> num \<and> rc \<or> \<not> done1
       then do {
         (io1, fb1, n) \<leftarrow> read_packet io 0;
         (io2, _) \<leftarrow> next_start_code io1;
         (io3, b) \<leftarrow> read_final fb1 io2;
         let stop = (b < 0xBC \<and> io_size io3 \<le> num);
         system_packets num io3 b True (n, \<not> done1, flag \<and> \<not> stop, rc \<and> \<not> stop)
       }
       else Some (io, fb, count, only, flag, rc))"

text \<open>To the next packet, or to the end code \<open>B9\<close>.\<close>

partial_function (option) next_packet :: "uint8 \<Rightarrow> int \<Rightarrow> mpeg_io \<Rightarrow> (mpeg_io \<times> uint8 \<times> int) option" where
  "next_packet fb n io =
    do {
      (io1, k) \<leftarrow> next_start_code io;
      (io2, b) \<leftarrow> read_final fb io1;
      if b < 0xBC \<and> b \<noteq> 0xB9 then next_packet b (n + k + 4) io2 else Some (io2, b, n + k + 4)
    }"

declare system_packets.simps [code] next_packet.simps [code]

definition head_of :: "static_MPEG_system \<Rightarrow> bool \<Rightarrow> bool \<Rightarrow> packet_head" where
  "head_of s tset dp = \<lparr>ph_time_set = tset, ph_pts = pts s, ph_dts = dts s, ph_dts_present = dp, ph_audio = pts_audio s\<rparr>"

text \<open>The time of the packet; unsigned differences, divided as floats.\<close>

definition system_time :: "media_descr \<Rightarrow> bool \<Rightarrow> static_MPEG_system \<Rightarrow> cdouble" where
  "system_time d aud s =
    real (unat (clk_low (if aud then pts_audio s else pts s) - offset_s s)) * 1000 / real_of_int (clock_rate d)"

text \<open>The length of the packet: the distance to the next time stamp.\<close>

definition stamp_distance :: "static_MPEG_system \<Rightarrow> bool \<Rightarrow> int" where
  "stamp_distance s dp =
    sint (if \<not> dp then (if \<not> new_dts s then clk_low (next_pts s) - clk_low (pts s) else clk_low (next_pts s) - clk_low (dts s))
          else clk_low (next_dts s) - clk_low (pts s))"

text \<open>The part both branches end with: the head of the next packet and the times.\<close>

definition system_next ::
    "uint8 list \<Rightarrow> static_MPEG_system media_entry \<Rightarrow> static_MPEG_system \<Rightarrow> bool \<Rightarrow> bool \<Rightarrow> mpeg_io \<Rightarrow>
     static_MPEG_system read_result option" where
  "system_next junk me s aud rc io =
    do {
      (io1, fb, n) \<leftarrow> next_packet (final_byte_s s) 0 io;
      let s1 = s\<lparr>final_byte_s := fb\<rparr>;
      let res = \<lparr>rd_me = me, rd_res = ERR_NOERROR, rd_data = None, rd_mtime = system_time (description me) aud s, rd_recall = rc, rd_marker = 0\<rparr>;
      if fb = 0xB9
      then Some (res\<lparr>rd_me := me\<lparr>media_stat := Some (s1\<lparr>data_total_s := data_total_s s1 + 4, system_file := io_file io1\<rparr>)\<rparr>,
                     rd_data := Some (take (io_size io1) (io_buf io1)), rd_marker := (if rc then 0 else 1)\<rparr>)
      else do {
        (io2, m, h) \<leftarrow> read_packet_head junk fb io1
          ((head_of s1 False False)\<lparr>ph_pts := next_pts s1, ph_dts := next_dts s1\<rparr>);
        let s2 = s1\<lparr>next_pts := ph_pts h, next_dts := ph_dts h, pts_audio := ph_audio h\<rparr>;
        io3 \<leftarrow> io_cut (n + m) io2;
        let again = (clk_low (pts s2) = clk_low (next_pts s2) \<or> fb = 0xBE \<or> fb = 0xC0 \<or> offset_s s2 = 0);
        let rate = real_of_int (clock_rate (description me));
        let me1 = (if again then me else changePacketLength (real_of_int (stamp_distance s2 (ph_dts_present h)) * 1000 / rate) me);
        let s3 = (if again then s2 else s2\<lparr>new_dts := False\<rparr>);
        let delta = real (unat ((clk_low (next_pts s3) - clk_low (pts s3)) * 1000)) / rate;
        Some (res\<lparr>rd_me := me1\<lparr>media_stat := Some (s3\<lparr>system_file := io_file io3\<rparr>),
                               description := (description me1)\<lparr>delta_mtime := delta\<rparr>\<rparr>,
                  rd_data := Some (take (io_size io3) (io_buf io3)),
                  rd_mtime := real (unat (clk_low (scr s3) * 1000)) / rate, rd_recall := again, rd_marker := (if again then 0 else 1)\<rparr>)
      }
    }"

text \<open>The heads of the pack and of the first packet.\<close>

definition system_heads ::
    "uint8 list \<Rightarrow> static_MPEG_system \<Rightarrow> mpeg_io \<Rightarrow> (static_MPEG_system \<times> mpeg_io \<times> bool) option" where
  "system_heads junk s io =
    do {
      (s1, io1) \<leftarrow> (if final_byte_s s = 0xBA
        then do { (i, fb, clk, _) \<leftarrow> read_pack_head (scr s) io; Some (s\<lparr>final_byte_s := fb, scr := clk\<rparr>, i) } else Some (s, io));
      let fb = final_byte_s s1;
      if fb < 0xBC then Some (s1, io1, False)
      else do {
        (io2, _, h) \<leftarrow> read_packet_head junk fb io1 (head_of s1 False False);
        let s2 = s1\<lparr>pts := ph_pts h, dts := ph_dts h, pts_audio := ph_audio h, new_dts := (new_dts s1 \<or> ph_dts_present h)\<rparr>;
        let s3 = (if \<not> offset_flag s2 \<and> clk_low (pts s2) \<noteq> 0 then s2\<lparr>offset_s := clk_low (pts s2), offset_flag := True\<rparr> else s2);
        Some (s3, io2, fb = 0xC0)
      }
    }"

definition system_body ::
    "uint8 list \<Rightarrow> static_MPEG_system media_entry \<Rightarrow> static_MPEG_system \<Rightarrow> bool \<Rightarrow> bool \<Rightarrow> mpeg_io \<Rightarrow> static_MPEG_system read_result option" where
  "system_body junk me s aud rc io =
    (let num = unat (word_of_int (byte_per_pckt (description me)) :: uint32)
     in if num \<noteq> 0
        then do {
          (io1, fb, count, only, flag, rc1) \<leftarrow> system_packets num io (final_byte_s s) False (0, False, True, rc);
          let back = (if flag \<and> \<not> only then count + 4 else 4);
          io2 \<leftarrow> io_cut back (io_seek_back back io1);
          system_next junk me (s\<lparr>final_byte_s := fb, data_total_s := data_total_s s + of_nat (io_size io2)\<rparr>) aud rc1 io2
        }
        else do {
          (io1, fb, _) \<leftarrow> read_packet io 0;
          system_next junk me (s\<lparr>final_byte_s := fb, data_total_s := data_total_s s + of_nat (io_size io1)\<rparr>) aud rc io1
        })"

text \<open>At the end of the file the descriptor is closed, but the entry keeps the flag of an open one.\<close>

definition read_MPEG_system ::
    "string \<Rightarrow> os_files \<Rightarrow> uint8 list \<Rightarrow> uint8 list \<Rightarrow> uint8 list \<Rightarrow> static_MPEG_system media_entry \<Rightarrow> cdouble \<Rightarrow> bool \<Rightarrow>
     static_MPEG_system read_result option" where
  "read_MPEG_system rootdir os held junk bytes me mt rc =
    (case first_open rootdir os (new_MPEG_system bytes) me mt of
       Inl r \<Rightarrow> Some (r\<lparr>rd_recall := rc\<rparr>)
     | Inr me1 \<Rightarrow>
         do {
           s \<leftarrow> media_stat me1;
           (io, n) \<leftarrow> next_start_code \<lparr>io_buf = held, io_size = 0, io_file = fd_seek (uint (data_total_s s)) (system_file s)\<rparr>;
           if n = - 1
           then Some \<lparr>rd_me = me1\<lparr>media_stat := Some (s\<lparr>system_file := io_file io\<rparr>)\<rparr>, rd_res = ERR_EOF,
                      rd_data = Some (take (io_size io) (io_buf io)), rd_mtime = mt, rd_recall = rc, rd_marker = 0\<rparr>
           else do {
             (io1, fb) \<leftarrow> read_final (final_byte_s s) io;
             (s1, io2, aud) \<leftarrow> system_heads junk (s\<lparr>final_byte_s := fb\<rparr>) io1;
             system_body junk me1 s1 aud rc io2
           }
         })"

section \<open>Clocks are read as they are written\<close>

lemma shift_clock_bit:
  "k < 32 \<Longrightarrow> bit (shift_clock (map of_bool bs) v) k = (if k < length bs then bs ! (length bs - 1 - k) else bit v (k - length bs))"
proof (induction bs arbitrary: v)
  case (Cons b bs)
  have two: "v * 2 + ucast (of_bool b :: uint8) = or (push_bit 1 v) (of_bool b)"
    by (cases b) (simp_all add: or_one_eq mult.commute)
  have "bit (v * 2 + ucast (of_bool b :: uint8)) j = (if j = 0 then b else bit v (j - 1))" if "j < 32" for j
    unfolding two using that by (simp only: bit_or_iff bit_push_bit_iff bit_of_bool_iff) (cases j; simp)
  then show ?case using Cons.IH [of "v * 2 + ucast (of_bool b :: uint8)"] Cons.prems
    by (auto simp: shift_clock_def nth_Cons')
qed (simp add: shift_clock_def)

text \<open>A clock of 33 bits as ISO 11172 writes it in five bytes.\<close>

definition put3 :: "uint64 \<Rightarrow> uint8" where "put3 x = or 0x21 (and 0x0E (push_bit 1 (ucast x)))"
definition put8 :: "uint64 \<Rightarrow> uint8" where "put8 x = ucast x"
definition put7 :: "uint64 \<Rightarrow> uint8" where "put7 x = or 1 (push_bit 1 (ucast x))"

definition clock_bytes :: "uint64 \<Rightarrow> uint8 list" where
  "clock_bytes t = [put3 (drop_bit 30 t), put8 (drop_bit 22 t), put7 (drop_bit 15 t), put8 (drop_bit 7 t), put7 t]"

lemma put8_bit: "k < 8 \<Longrightarrow> bit (put8 x) k = bit x k"
  by (simp add: put8_def bit_ucast_iff)

lemma put7_bit: "0 < k \<Longrightarrow> k < 8 \<Longrightarrow> bit (put7 x) k = bit x (k - 1)"
  unfolding put7_def by (simp only: bit_or_iff bit_push_bit_iff bit_ucast_iff bit_1_iff) auto

lemma put3_bit: "bit (put3 x) 1 = bit x 0" "bit (put3 x) 2 = bit x 1"
proof -
  have "bit (0x21 :: uint8) 1 = False" "bit (0x21 :: uint8) 2 = False" "bit (0x0E :: uint8) 1" "bit (0x0E :: uint8) 2" by simp_all
  then show "bit (put3 x) 1 = bit x 0" "bit (put3 x) 2 = bit x 1"
    unfolding put3_def by (simp_all only: bit_or_iff bit_and_iff bit_push_bit_iff bit_ucast_iff) simp_all
qed

lemma below_32: "n < 32 \<Longrightarrow> n \<in> set [31, 30, 29, 28, 27, 26, 25, 24, 23, 22, 21, 20, 19, 18, 17, 16,
    15, 14, 13, 12, 11, 10, 9, 8, 7, 6, 5, 4, 3, 2, 1, 0 :: nat]"
  by (simp only: set_simps insert_iff empty_iff) presburger

text \<open>Whatever the clock was before, its low word becomes the low word of the clock that was written.\<close>

theorem clock_read:
  "shift_clock (case clock_bytes t of [a, b, c, d, e] \<Rightarrow> clock_bits a b c d e) v = ucast t" (is "?l = _")
proof (rule bit_word_eqI)
  fix n
  assume "n < LENGTH(32)"
  then have n: "n < 32" by simp
  show "bit ?l n = bit (ucast t :: uint32) n"
    unfolding clock_bytes_def clock_bits_def list.case shift_clock_bit [OF n]
    using below_32 [OF n] unfolding set_simps insert_iff empty_iff
    by (elim disjE) (simp_all add: put8_bit put7_bit put3_bit [unfolded One_nat_def] bit_drop_bit_eq bit_ucast_iff)
qed

end
