(* ===== verification/Shm_Buffer.thy ===== *)
theory Shm_Buffer
  imports Bufferpool_Ring
begin

text \<open>
  Buffers in shared memory (\<^verbatim>\<open>bufferpool/OMSbuff_shm_create.c\<close>, \<^verbatim>\<open>OMSbuff_shm_map.c\<close>,
  \<^verbatim>\<open>OMSbuff_shm_unmap.c\<close>, \<^verbatim>\<open>OMSbuff_shm_destroy.c\<close>, \<^verbatim>\<open>fnc_ipc_name.c\<close>), releasing a buffer (\<^verbatim>\<open>OMSbuff_free.c\<close>) and the
  alignment of aggregate buffers (\<^verbatim>\<open>OMSbuff_sync.c\<close>). The system's shared memory objects are a map from names to
  contents; what the system calls answer besides is an argument. A buffer is in two objects, one for the control block and one for the
  slots. The state of the objects is the one between two calls of these functions.
\<close>

section \<open>Objects and system calls\<close>

datatype shm_object = Shm_empty | Shm_control OMSControl | Shm_slots "OMSSlot list"

type_synonym shm_store = "string \<Rightarrow> shm_object option"

text \<open>Which calls succeed, in the order of the code: allocating the name, \<open>shm_open\<close>, \<open>ftruncate\<close> or \<open>fstat\<close>, \<open>mmap\<close>,
  the mutex, then the same for the slots, then \<open>malloc\<close>. The directory of the names comes from the environment or the
  configuration.\<close>

record shm_calls =
  name1_ok :: bool
  open1_ok :: bool
  size1_ok :: bool
  mmap1_ok :: bool
  mutex_ok :: bool
  name2_ok :: bool
  open2_ok :: bool
  size2_ok :: bool
  mmap2_ok :: bool
  malloc_ok :: bool
  ipc_dir :: "string option"
  ipc_prefix :: string

definition all_ok :: shm_calls where
  "all_ok = \<lparr>name1_ok = True, open1_ok = True, size1_ok = True, mmap1_ok = True, mutex_ok = True, name2_ok = True, open2_ok = True,
     size2_ok = True, mmap2_ok = True, malloc_ok = True, ipc_dir = None, ipc_prefix = []\<rparr>"

definition PATH_MAX :: nat where "PATH_MAX = 4096"
definition OMSBUFF_SHM_CTRLNAME :: string where "OMSBUFF_SHM_CTRLNAME = ''Buffer''"
definition OMSBUFF_SHM_SLOTSNAME :: string where "OMSBUFF_SHM_SLOTSNAME = ''Slots''"

definition fnc_ipc_name :: "shm_calls \<Rightarrow> bool \<Rightarrow> string \<Rightarrow> string \<Rightarrow> string option" where
  "fnc_ipc_name sys ok firstname lastname =
    (if \<not> ok then None
     else
       (let dir = (case ipc_dir sys of None \<Rightarrow> ipc_prefix sys | Some d \<Rightarrow> d);
            slash = (if dir \<noteq> [] \<and> last dir = CHR ''/'' then [] else ''/'')
        in Some (take (PATH_MAX - 1) (dir @ slash @ firstname @ ''.'' @ lastname))))"

section \<open>Creating a buffer\<close>

text \<open>\<open>ftruncate\<close> fills the new objects with zeros; a zero mutex is free. The links of the slots.\<close>

definition zero_control :: OMSControl where
  "zero_control = \<lparr>ctl_refs = 0, nslots = 0, write_pos = 0, valid_read_pos = 0, syn = False\<rparr>"

definition linked_slots :: "OMSSlot list \<Rightarrow> OMSSlot list" where
  "linked_slots ss =
    map (\<lambda>i. (ss ! i)\<lparr>refs := 0, slot_seq := 0, next_slot := (if i < length ss - 1 then int (i + 1) else 0)\<rparr>) [0..<length ss]"

text \<open>The second half: the slots, with the control block locked. No failure undoes what was done before.\<close>

definition create_slots ::
    "shm_calls \<Rightarrow> string \<Rightarrow> uint32 \<Rightarrow> string \<Rightarrow> OMSControl \<Rightarrow> shm_store \<Rightarrow> shm_store \<times> OMSBuffer option" where
  "create_slots sys shm_name buffer_size ctl_name ctl st =
    (case fnc_ipc_name sys (name2_ok sys) shm_name OMSBUFF_SHM_SLOTSNAME of
       None \<Rightarrow> (st, None)
     | Some n2 \<Rightarrow>
         if st n2 \<noteq> None \<or> \<not> open2_ok sys then (st, None)
         else if \<not> size2_ok sys then (st(n2 \<mapsto> Shm_empty), None)
         else if \<not> mmap2_ok sys then (st(n2 \<mapsto> Shm_slots (replicate (unat buffer_size) zero_slot)), None)
         else
           (let ss = linked_slots (replicate (unat buffer_size) zero_slot);
                ctl1 = ctl\<lparr>write_pos := int (unat (buffer_size - 1)), valid_read_pos := 0\<rparr>;
                st1 = st(n2 \<mapsto> Shm_slots ss, ctl_name \<mapsto> Shm_control ctl1)
            in if \<not> malloc_ok sys then (st1, None)
               else
                 (let ctl2 = ctl1\<lparr>syn := False\<rparr>
                  in (st1(ctl_name \<mapsto> Shm_control ctl2),
                      Some \<lparr>buf_type = buff_shm, control = ctl2, slots = ss, known_slots = nslots ctl2,
                            buf_filename = take (PATH_MAX - 1) shm_name\<rparr>))))"

definition OMSbuff_shm_create :: "shm_calls \<Rightarrow> string \<Rightarrow> uint32 \<Rightarrow> shm_store \<Rightarrow> shm_store \<times> OMSBuffer option" where
  "OMSbuff_shm_create sys shm_name buffer_size st =
    (if buffer_size = 0 then (st, None)
     else
       case fnc_ipc_name sys (name1_ok sys) shm_name OMSBUFF_SHM_CTRLNAME of
         None \<Rightarrow> (st, None)
       | Some n1 \<Rightarrow>
           if st n1 \<noteq> None \<or> \<not> open1_ok sys then (st, None)
           else if \<not> size1_ok sys then (st(n1 \<mapsto> Shm_empty), None)
           else if \<not> mmap1_ok sys \<or> \<not> mutex_ok sys then (st(n1 \<mapsto> Shm_control zero_control), None)
           else
             (let ctl = zero_control\<lparr>syn := True, ctl_refs := 0, nslots := buffer_size\<rparr>
              in create_slots sys shm_name buffer_size n1 ctl (st(n1 \<mapsto> Shm_control ctl))))"

section \<open>Mapping, unmapping and destroying\<close>

text \<open>Mapping waits for the creator to release the mutex: \<open>None\<close> when it never does. \<open>Some None\<close> is the null pointer.\<close>

definition OMSbuff_shm_map :: "shm_calls \<Rightarrow> string \<Rightarrow> shm_store \<Rightarrow> OMSBuffer option option" where
  "OMSbuff_shm_map sys shm_name st =
    (case fnc_ipc_name sys (name1_ok sys) shm_name OMSBUFF_SHM_CTRLNAME of
       None \<Rightarrow> Some None
     | Some n1 \<Rightarrow>
         if \<not> open1_ok sys \<or> \<not> size1_ok sys then Some None
         else
           (case st n1 of
              Some (Shm_control ctl) \<Rightarrow>
                if \<not> mmap1_ok sys then Some None
                else if syn ctl then None
                else
                  (case fnc_ipc_name sys (name2_ok sys) shm_name OMSBUFF_SHM_SLOTSNAME of
                     None \<Rightarrow> Some None
                   | Some n2 \<Rightarrow>
                       if \<not> open2_ok sys \<or> \<not> size2_ok sys then Some None
                       else
                         (case st n2 of
                            Some (Shm_slots ss) \<Rightarrow>
                              if length ss \<noteq> unat (nslots ctl) \<or> \<not> mmap2_ok sys \<or> \<not> malloc_ok sys then Some None
                              else Some (Some \<lparr>buf_type = buff_shm, control = ctl, slots = ss, known_slots = nslots ctl,
                                               buf_filename = take (PATH_MAX - 1) shm_name\<rparr>)
                          | _ \<Rightarrow> Some None))
            | _ \<Rightarrow> Some None))"

text \<open>The arguments are what the two calls of \<open>munmap\<close> return.\<close>

definition OMSbuff_shm_unmap :: "int \<Rightarrow> int \<Rightarrow> OMSBuffer \<Rightarrow> int" where
  "OMSbuff_shm_unmap slots_err control_err b =
    (if buf_type b \<noteq> buff_shm then 1 else if slots_err \<noteq> 0 then slots_err else control_err)"

text \<open>\<open>shm_unlink\<close> removes a name; \<open>errno1\<close> and \<open>errno2\<close> are the errors when it cannot (zero when nothing but a missing
  object can fail it).\<close>

definition ENOENT :: int where "ENOENT = 2"

definition shm_unlink :: "int \<Rightarrow> string \<Rightarrow> shm_store \<Rightarrow> shm_store \<times> int" where
  "shm_unlink err n st = (if st n = None then (st, ENOENT) else if err \<noteq> 0 then (st, err) else (st(n := None), 0))"

definition OMSbuff_shm_destroy :: "shm_calls \<Rightarrow> int \<Rightarrow> int \<Rightarrow> int \<Rightarrow> int \<Rightarrow> OMSBuffer \<Rightarrow> shm_store \<Rightarrow> shm_store \<times> int" where
  "OMSbuff_shm_destroy sys slots_err control_err errno1 errno2 b st =
    (let unmap_err = OMSbuff_shm_unmap slots_err control_err b
     in case fnc_ipc_name sys (name1_ok sys) (buf_filename b) OMSBUFF_SHM_CTRLNAME of
          None \<Rightarrow> (st, 1)
        | Some n1 \<Rightarrow>
            (let (st1, e1) = shm_unlink errno1 n1 st
             in case fnc_ipc_name sys (name2_ok sys) (buf_filename b) OMSBUFF_SHM_SLOTSNAME of
                  None \<Rightarrow> (st1, 1)
                | Some n2 \<Rightarrow>
                    (let (st2, e2) = shm_unlink errno2 n2 st1;
                         err = (if e1 \<noteq> 0 then e1 else e2)
                     in (st2, if unmap_err \<noteq> 0 then unmap_err else err))))"

text \<open>\<open>OMSbuff_free\<close>: whether the memory of the buffer itself is given back.\<close>

definition OMSbuff_free :: "OMSBuffer \<Rightarrow> bool" where
  "OMSbuff_free b = (case buf_type b of buff_shm \<Rightarrow> False | buff_local \<Rightarrow> True)"

section \<open>Aligning aggregate buffers\<close>

partial_function (option) sync_one :: "cdouble \<Rightarrow> OMSBuffer \<Rightarrow> OMSBuffer option" where
  "sync_one max_ts b =
    (let v = valid_read_pos (control b);
         curr_ts = timestamp (slot_at b v);
         next_ts = timestamp (slot_at b (next_slot (slot_at b v)))
     in if \<bar>max_ts - next_ts\<bar> < \<bar>max_ts - curr_ts\<bar>
        then sync_one max_ts (b\<lparr>control := (control b)\<lparr>valid_read_pos := next_slot (slot_at b v)\<rparr>\<rparr>)
        else Some b)"

fun sync_all :: "cdouble \<Rightarrow> OMSBuffer list \<Rightarrow> OMSBuffer list option" where
  "sync_all max_ts [] = Some []"
| "sync_all max_ts (b # bs) = do { b1 \<leftarrow> sync_one max_ts b; bs1 \<leftarrow> sync_all max_ts bs; Some (b1 # bs1) }"

definition OMSbuff_sync :: "OMSBuffer list \<Rightarrow> (OMSBuffer list \<times> int) option" where
  "OMSbuff_sync aggr =
    (let max_ts = fold (\<lambda>b m. max m (timestamp (slot_at b (valid_read_pos (control b))))) aggr 0
     in map_option (\<lambda>bs. (bs, 0)) (sync_all max_ts aggr))"

section \<open>Creation and mapping agree\<close>

definition ipc_path :: "shm_calls \<Rightarrow> string \<Rightarrow> string" where
  "ipc_path sys n =
    (let dir = (case ipc_dir sys of None \<Rightarrow> ipc_prefix sys | Some d \<Rightarrow> d)
     in dir @ (if dir \<noteq> [] \<and> last dir = CHR ''/'' then [] else ''/'') @ n)"

definition short_name :: "shm_calls \<Rightarrow> string \<Rightarrow> bool" where
  "short_name sys n \<longleftrightarrow> length (ipc_path sys n) + 7 < PATH_MAX"

lemma ipc_names:
  assumes "short_name sys n"
  shows "fnc_ipc_name sys True n OMSBUFF_SHM_CTRLNAME = Some (ipc_path sys n @ ''.Buffer'')"
    and "fnc_ipc_name sys True n OMSBUFF_SHM_SLOTSNAME = Some (ipc_path sys n @ ''.Slots'')"
  using assms by (auto simp: fnc_ipc_name_def ipc_path_def short_name_def Let_def OMSBUFF_SHM_CTRLNAME_def OMSBUFF_SHM_SLOTSNAME_def
      PATH_MAX_def split: option.split)

definition calls_ok :: "shm_calls \<Rightarrow> bool" where
  "calls_ok sys \<longleftrightarrow> name1_ok sys \<and> open1_ok sys \<and> size1_ok sys \<and> mmap1_ok sys \<and> mutex_ok sys \<and> name2_ok sys \<and> open2_ok sys \<and>
     size2_ok sys \<and> mmap2_ok sys \<and> malloc_ok sys"

lemma linked_ring:
  assumes "n \<noteq> 0" and "slots b = linked_slots (replicate (unat n) zero_slot)"
    and "write_pos (control b) = int (unat (n - 1))" and "nslots (control b) = n"
  shows "ring b [0..<unat n]"
proof -
  have pos: "0 < unat n" using assms(1) by (simp add: unat_gt_0)
  have len: "length (links b) = unat n" using assms(2) by (simp add: links_def linked_slots_def)
  have "links b ! ([0..<unat n] ! i) = int ([0..<unat n] ! (Suc i mod length [0..<unat n]))" if i: "i < length [0..<unat n]" for i
  proof -
    have "links b ! i = (if i < unat n - 1 then int (i + 1) else 0)" using i assms(2) by (simp add: links_def linked_slots_def)
    then show ?thesis using i pos by (cases "Suc i = unat n") auto
  qed
  then have "ring_links (links b) [0..<unat n]" unfolding ring_links_def using pos len by auto
  then show ?thesis using assms pos by (simp add: ring_def unat_minus_one linked_slots_def)
qed

text \<open>C31: When all system calls succeed and the names are free, a created buffer is a ring of the requested size; whoever maps
  its name gets the same buffer; destroying it leaves the system as it was before.\<close>
theorem shm_create_map_destroy:
  assumes "calls_ok sys" and "n \<noteq> 0" and "short_name sys name"
    and "st (ipc_path sys name @ ''.Buffer'') = None" and "st (ipc_path sys name @ ''.Slots'') = None"
  shows "\<exists>st' b. OMSbuff_shm_create sys name n st = (st', Some b) \<and> ring b [0..<unat n] \<and> \<not> syn (control b) \<and>
    OMSbuff_shm_map sys name st' = Some (Some b) \<and> OMSbuff_shm_destroy sys 0 0 0 0 b st' = (st, 0)"
proof -
  let ?n1 = "ipc_path sys name @ ''.Buffer''" and ?n2 = "ipc_path sys name @ ''.Slots''"
  let ?ss = "linked_slots (replicate (unat n) zero_slot)"
  let ?c = "zero_control\<lparr>ctl_refs := 0, nslots := n, write_pos := int (unat (n - 1)), valid_read_pos := 0, syn := False\<rparr>"
  let ?st = "st(?n1 \<mapsto> Shm_control ?c, ?n2 \<mapsto> Shm_slots ?ss)"
  have len: "length name \<le> PATH_MAX - 1" using assms(3) by (simp add: short_name_def ipc_path_def Let_def split: option.splits if_splits)
  let ?b = "\<lparr>buf_type = buff_shm, control = ?c, slots = ?ss, known_slots = n, buf_filename = name\<rparr>"
  note ok = assms(1) [unfolded calls_ok_def]
  have cr: "OMSbuff_shm_create sys name n st = (?st, Some ?b)"
    using assms(2,4,5) ok len ipc_names [OF assms(3)]
    by (simp add: OMSbuff_shm_create_def create_slots_def zero_control_def Let_def fun_upd_twist)
  have "ring ?b [0..<unat n]" by (rule linked_ring [OF assms(2)]) simp_all
  moreover have "OMSbuff_shm_map sys name ?st = Some (Some ?b)"
    using ok len ipc_names [OF assms(3)] by (simp add: OMSbuff_shm_map_def linked_slots_def)
  moreover have "OMSbuff_shm_destroy sys 0 0 0 0 ?b ?st = (st, 0)"
    using ok ipc_names [OF assms(3)] assms(4,5)
    by (auto simp: OMSbuff_shm_destroy_def OMSbuff_shm_unmap_def shm_unlink_def fun_eq_iff)
  ultimately show ?thesis using cr by (intro exI [of _ ?st] exI [of _ ?b]) simp
qed

text \<open>A creation that fails half way leaves its objects behind: from then on no buffer of this name can be created, and
  mapping it gives the null pointer or waits for ever, whatever the later calls of the system answer.\<close>
theorem shm_create_failure_leaks:
  assumes "OMSbuff_shm_create sys name n st = (st', None)" and "st' \<noteq> st" and "short_name sys name"
    and "st (ipc_path sys name @ ''.Buffer'') = None" and "st (ipc_path sys name @ ''.Slots'') = None"
    and "ipc_dir sys2 = ipc_dir sys" and "ipc_prefix sys2 = ipc_prefix sys"
  shows "OMSbuff_shm_create sys2 name m st' = (st', None) \<and> OMSbuff_shm_map sys2 name st' \<in> {None, Some None}"
proof -
  let ?n1 = "ipc_path sys name @ ''.Buffer''" and ?n2 = "ipc_path sys name @ ''.Slots''"
  have p2: "ipc_path sys2 name = ipc_path sys name" "short_name sys2 name" 
    using assms(3,6,7) by (cases "ipc_dir sys"; simp add: ipc_path_def short_name_def)+
  have names: "fnc_ipc_name sys2 ok name OMSBUFF_SHM_CTRLNAME = (if ok then Some ?n1 else None)"
    "fnc_ipc_name sys2 ok name OMSBUFF_SHM_SLOTSNAME = (if ok then Some ?n2 else None)" for ok
    using ipc_names [OF p2(2)] unfolding p2(1) by (cases ok; simp add: fnc_ipc_name_def)+
  have left: "st' ?n1 = Some Shm_empty \<or> st' ?n1 = Some (Shm_control zero_control) \<and> st' ?n2 = None \<or>
      (\<exists>c. st' ?n1 = Some (Shm_control c) \<and> syn c)"
    using assms(1-5) ipc_names [OF assms(3)] 
    by (cases "name1_ok sys"; cases "name2_ok sys")
      (auto simp: OMSbuff_shm_create_def create_slots_def Let_def fnc_ipc_name_def [of _ False] split: if_split_asm option.split_asm)
  have "OMSbuff_shm_create sys2 name m st' = (st', None)" using left by (auto simp: OMSbuff_shm_create_def names)
  moreover have "OMSbuff_shm_map sys2 name st' \<in> {None, Some None}"
    using left by (elim disjE exE conjE) (simp_all add: OMSbuff_shm_map_def names)
  ultimately show ?thesis by simp
qed

section \<open>Alignment ends\<close>

text \<open>The read position moves along the links, and each move comes nearer to the common time.\<close>

lemma sync_one_ends:
  assumes "\<forall>i < length (slots b). \<exists>j < length (slots b). next_slot (slots b ! i) = int j"
    and "v < length (slots b)" and "valid_read_pos (control b) = int v"
  shows "\<exists>v' < length (slots b). \<exists>j < length (slots b). next_slot (slots b ! v') = int j \<and>
      \<bar>t - timestamp (slots b ! v')\<bar> \<le> \<bar>t - timestamp (slots b ! v)\<bar> \<and> \<bar>t - timestamp (slots b ! v')\<bar> \<le> \<bar>t - timestamp (slots b ! j)\<bar> \<and>
      sync_one t b = Some (b\<lparr>control := (control b)\<lparr>valid_read_pos := int v'\<rparr>\<rparr>)"
  using assms
proof (induction "card {i. i < length (slots b) \<and> \<bar>t - timestamp (slots b ! i)\<bar> < \<bar>t - timestamp (slots b ! v)\<bar>}" arbitrary: b v rule: less_induct)
  case less
  obtain j where j: "j < length (slots b)" "next_slot (slots b ! v) = int j" using less.prems by blast
  let ?d = "\<lambda>i. \<bar>t - timestamp (slots b ! i)\<bar>"
  show ?case
  proof (cases "?d j < ?d v")
    case False
    then have "sync_one t b = Some b" using less.prems j by (subst sync_one.simps) (simp add: slot_at_def Let_def)
    moreover have "b\<lparr>control := (control b)\<lparr>valid_read_pos := int v\<rparr>\<rparr> = b" using less.prems(3) by simp
    ultimately show ?thesis using False j less.prems by (intro exI [of _ v]) auto
  next
    case True
    let ?b = "b\<lparr>control := (control b)\<lparr>valid_read_pos := int j\<rparr>\<rparr>"
    have run: "sync_one t b = sync_one t ?b" using True less.prems j by (subst sync_one.simps) (simp add: slot_at_def Let_def)
    have "card {i. i < length (slots ?b) \<and> ?d i < ?d j} < card {i. i < length (slots b) \<and> ?d i < ?d v}"
      using True j by (intro psubset_card_mono) auto
    from less.hyps [of ?b j] this less.prems(1) j(1) obtain v' k where
      "v' < length (slots b)" "k < length (slots b)" "next_slot (slots b ! v') = int k" "?d v' \<le> ?d j" "?d v' \<le> ?d k"
      "sync_one t ?b = Some (b\<lparr>control := (control b)\<lparr>valid_read_pos := int v'\<rparr>\<rparr>)" by fastforce
    then show ?thesis using True unfolding run by (intro exI [of _ v'] conjI exI [of _ k]) simp_all
  qed
qed

section \<open>Witnesses\<close>

lemma felix_short: "short_name all_ok ''felix''" "short_name (all_ok\<lparr>malloc_ok := False\<rparr>) ''felix''"
  by (simp_all add: short_name_def ipc_path_def all_ok_def PATH_MAX_def)

theorem shm_create_map_destroy_witness:
  "\<exists>st' b. OMSbuff_shm_create all_ok ''felix'' 3 (\<lambda>_. None) = (st', Some b) \<and> ring b [0, 1, 2] \<and>
     OMSbuff_shm_map all_ok ''felix'' st' = Some (Some b)"
proof -
  have "calls_ok all_ok" by (simp add: calls_ok_def all_ok_def)
  from shm_create_map_destroy [OF this _ felix_short(1), of 3 "\<lambda>_. None"] obtain st' b where
    "OMSbuff_shm_create all_ok ''felix'' 3 (\<lambda>_. None) = (st', Some b)" "ring b [0..<unat (3 :: uint32)]"
    "OMSbuff_shm_map all_ok ''felix'' st' = Some (Some b)" by auto
  moreover have "[0..<unat (3 :: uint32)] = [0, 1, 2]" by (simp add: upt_rec)
  ultimately show ?thesis by (metis (no_types))
qed

theorem shm_create_failure_leaks_witness:
  "\<exists>st'. OMSbuff_shm_create (all_ok\<lparr>malloc_ok := False\<rparr>) ''felix'' 3 (\<lambda>_. None) = (st', None) \<and>
     OMSbuff_shm_create all_ok ''felix'' 3 st' = (st', None)"
proof -
  obtain st' r where c: "OMSbuff_shm_create (all_ok\<lparr>malloc_ok := False\<rparr>) ''felix'' 3 (\<lambda>_. None) = (st', r)" by fastforce
  moreover have "r = None" "st' (ipc_path all_ok ''felix'' @ ''.Buffer'') \<noteq> None"
    using c ipc_names [OF felix_short(2)]
    by (auto simp: OMSbuff_shm_create_def create_slots_def Let_def all_ok_def ipc_path_def)
  ultimately show ?thesis
    using shm_create_failure_leaks [of "all_ok\<lparr>malloc_ok := False\<rparr>" "''felix''" 3 "\<lambda>_. None" st' all_ok 3] felix_short
    by (auto simp: all_ok_def fun_eq_iff)
qed

end
