(* ===== verification/Xmalloc.thy ===== *)
theory Xmalloc
  imports Fenice_Prelude
begin

text \<open>
  The checking allocator (\<^verbatim>\<open>src/en_xmalloc.c\<close>, \<^verbatim>\<open>include/fenice/en_xmalloc.h\<close>), through which the
  server allocates connections, sessions, packets and replies: a table of the live blocks by open addressing, and the
  counts of calls and bytes. \<open>malloc\<close>'s result is an argument of the operations, 0 is \<open>NULL\<close>. A loop over the
  table that does not end is \<open>None\<close>, the calls that end the program are errors.
\<close>

unbundle bit_operations_syntax

section \<open>The table\<close>

definition SZ :: nat where "SZ = 5000000"

record malloc_slot =
  mp_ptr :: uint64
  mp_file :: string
  mp_line :: int
  mp_size :: uint64

definition no_slot :: malloc_slot where
  "no_slot = \<lparr>mp_ptr = 0, mp_file = [], mp_line = 0, mp_size = 0\<rparr>"

type_synonym malloc_table = "nat \<Rightarrow> malloc_slot"

record alloc_state =
  malloc_count :: uint32
  free_count :: uint32
  malloc_size :: uint64
  free_size :: uint64
  regptr_locked :: bool
  table :: malloc_table

definition alloc_start :: alloc_state where
  "alloc_start = \<lparr>malloc_count = 0, free_count = 0, malloc_size = 0, free_size = 0, regptr_locked = False, table = (\<lambda>_. no_slot)\<rparr>"

text \<open>The ways the program ends: no memory, a full table, \<open>xfree\<close> of \<open>NULL\<close> or of a block that is not found.\<close>

datatype alloc_error = Memfatal | Increase_SZ | Xfree_NULL | Bad_xfree

definition hash_pointer :: "uint64 \<Rightarrow> uint64" where
  "hash_pointer ptr =
    (let key = ptr;
         key = key + push_bit 12 key;
         key = key XOR drop_bit 22 key;
         key = key + push_bit 4 key;
         key = key XOR drop_bit 9 key;
         key = key + push_bit 10 key;
         key = key XOR drop_bit 2 key;
         key = key + push_bit 7 key
     in key XOR drop_bit 12 key)"

definition home :: "uint64 \<Rightarrow> nat" where
  "home p = unat (hash_pointer p) mod SZ"

text \<open>The loop of \<open>ptr_position\<close>, from a position on.\<close>

partial_function (option) probe :: "uint64 \<Rightarrow> malloc_table \<Rightarrow> nat \<Rightarrow> nat option" where
  "probe p t i =
    (if mp_ptr (t i) = 0 then Some i
     else if mp_ptr (t i) = p then Some i
     else probe p t ((i + 1) mod SZ))"

definition ptr_position :: "uint64 \<Rightarrow> malloc_table \<Rightarrow> nat option" where
  "ptr_position p t = probe p t (home p)"

section \<open>Registering\<close>

text \<open>The counts are signed: their difference is compared as such.\<close>

definition register_ptr ::
    "uint64 \<Rightarrow> uint64 \<Rightarrow> string \<Rightarrow> int \<Rightarrow> alloc_state \<Rightarrow> (alloc_error + alloc_state) option" where
  "register_ptr p sz f l s =
    (if int SZ < sint (malloc_count s - free_count s) then Some (Inl Increase_SZ)
     else do {
       i \<leftarrow> ptr_position p (table s);
       Some (Inr (s\<lparr>table := (table s)(i := \<lparr>mp_ptr = p, mp_file = f, mp_line = l, mp_size = sz\<rparr>)\<rparr>))
     })"

text \<open>The two loops behind a freed slot. The inner one looks for the place of the block that stands at \<open>i\<close>; it compares
  that block's pointer with the slot \<open>i\<close> itself, so that the comparison holds whenever it is made (\<open>None\<close> inside, the
  jump to \<open>count_outer\<close>).\<close>

partial_function (option) rehash_place :: "uint64 \<Rightarrow> malloc_table \<Rightarrow> nat \<Rightarrow> nat \<Rightarrow> nat option option" where
  "rehash_place p2 t i j =
    (if mp_ptr (t j) = 0 then Some (Some j)
     else if p2 = mp_ptr (t i) then Some None
     else rehash_place p2 t i ((j + 1) mod SZ))"

partial_function (option) rehash :: "malloc_table \<Rightarrow> nat \<Rightarrow> malloc_table option" where
  "rehash t i =
    (if mp_ptr (t i) = 0 then Some t
     else do {
       let p2 = mp_ptr (t i);
       r \<leftarrow> rehash_place p2 t i (home p2);
       let t1 = (case r of
                   None \<Rightarrow> t
                 | Some j \<Rightarrow> (t(j := t i))(i := ((t(j := t i)) i)\<lparr>mp_ptr := 0, mp_size := 0\<rparr>));
       rehash t1 ((i + 1) mod SZ)
     })"

declare probe.simps [code] rehash_place.simps [code] rehash.simps [code]

text \<open>The first result is the C function's.\<close>

definition unregister_ptr :: "uint64 \<Rightarrow> alloc_state \<Rightarrow> (bool \<times> alloc_state) option" where
  "unregister_ptr p s =
    do {
      i \<leftarrow> ptr_position p (table s);
      if mp_ptr (table s i) = 0 then Some (False, s)
      else do {
        let t = (table s)(i := (table s i)\<lparr>mp_ptr := 0\<rparr>);
        t1 \<leftarrow> rehash t ((i + 1) mod SZ);
        Some (True, s\<lparr>table := t1, free_size := free_size s + mp_size (table s i)\<rparr>)
      }
    }"

section \<open>The calls\<close>

text \<open>The mutex is taken around the bookkeeping; a call that finds it locked waits for ever.\<close>

definition regptr_lock :: "alloc_state \<Rightarrow> alloc_state option" where
  "regptr_lock s = (if regptr_locked s then None else Some (s\<lparr>regptr_locked := True\<rparr>))"

definition account :: "uint64 \<Rightarrow> uint64 \<Rightarrow> string \<Rightarrow> int \<Rightarrow> alloc_state \<Rightarrow> (alloc_error + alloc_state) option" where
  "account p sz f l s =
    do {
      s1 \<leftarrow> regptr_lock s;
      r \<leftarrow> register_ptr p sz f l (s1\<lparr>malloc_count := malloc_count s1 + 1, malloc_size := malloc_size s1 + sz\<rparr>);
      Some (map_sum id (\<lambda>s2. s2\<lparr>regptr_locked := False\<rparr>) r)
    }"

text \<open>What the C library returned, checked: without memory the program ends.\<close>

definition checking_malloc :: "uint64 \<Rightarrow> alloc_error + uint64" where
  "checking_malloc p = (if p = 0 then Inl Memfatal else Inr p)"

definition checking_calloc :: "uint64 \<Rightarrow> alloc_error + uint64" where
  "checking_calloc p = (if p = 0 then Inl Memfatal else Inr p)"

definition checking_strdup :: "uint64 \<Rightarrow> alloc_error + uint64" where
  "checking_strdup p = (if p = 0 then Inl Memfatal else Inr p)"

lemmas checking_defs = checking_malloc_def checking_calloc_def checking_strdup_def

definition debugging_malloc ::
    "uint64 \<Rightarrow> uint64 \<Rightarrow> string \<Rightarrow> int \<Rightarrow> alloc_state \<Rightarrow> (alloc_error + alloc_state) option" where
  "debugging_malloc p sz f l s = (case checking_malloc p of Inl e \<Rightarrow> Some (Inl e) | Inr q \<Rightarrow> account q sz f l s)"

definition debugging_calloc ::
    "uint64 \<Rightarrow> uint64 \<Rightarrow> uint64 \<Rightarrow> string \<Rightarrow> int \<Rightarrow> alloc_state \<Rightarrow> (alloc_error + alloc_state) option" where
  "debugging_calloc p numb sz f l s = (case checking_calloc p of Inl e \<Rightarrow> Some (Inl e) | Inr q \<Rightarrow> account q (numb * sz) f l s)"

definition debugging_strdup ::
    "uint64 \<Rightarrow> string \<Rightarrow> string \<Rightarrow> int \<Rightarrow> alloc_state \<Rightarrow> (alloc_error + alloc_state) option" where
  "debugging_strdup p str f l s =
    (case checking_strdup p of Inl e \<Rightarrow> Some (Inl e) | Inr q \<Rightarrow> account q (of_nat (length str) + 1) f l s)"

definition debugging_free :: "uint64 \<Rightarrow> alloc_state \<Rightarrow> (alloc_error + alloc_state) option" where
  "debugging_free p s =
    (if p = 0 then Some (Inl Xfree_NULL)
     else do {
       s1 \<leftarrow> regptr_lock s;
       (found, s2) \<leftarrow> unregister_ptr p s1;
       if \<not> found then Some (Inl Bad_xfree)
       else Some (Inr (s2\<lparr>free_count := free_count s2 + 1, regptr_locked := False\<rparr>))
     })"

text \<open>A sequence of calls; the program ends at the first error.\<close>

datatype alloc_call = Xmalloc uint64 uint64 string int | Xcalloc uint64 uint64 uint64 string int
  | Xstrdup uint64 string string int | Xfree uint64

fun alloc_step :: "alloc_call \<Rightarrow> alloc_state \<Rightarrow> (alloc_error + alloc_state) option" where
  "alloc_step (Xmalloc p n f l) s = debugging_malloc p n f l s"
| "alloc_step (Xcalloc p m n f l) s = debugging_calloc p m n f l s"
| "alloc_step (Xstrdup p str f l) s = debugging_strdup p str f l s"
| "alloc_step (Xfree p) s = debugging_free p s"

fun alloc_run :: "alloc_call list \<Rightarrow> alloc_state \<Rightarrow> (alloc_error + alloc_state) option" where
  "alloc_run [] s = Some (Inr s)"
| "alloc_run (c # cs) s = do { r \<leftarrow> alloc_step c s; case r of Inl e \<Rightarrow> Some (Inl e) | Inr s1 \<Rightarrow> alloc_run cs s1 }"

section \<open>Walking the table\<close>

abbreviation next_pos :: "nat \<Rightarrow> nat" where
  "next_pos i \<equiv> (i + 1) mod SZ"

lemma SZ_pos [simp]: "0 < SZ" "i mod SZ < SZ" by (simp_all add: SZ_def)

lemma home_less [simp]: "home p < SZ" by (simp add: home_def)

text \<open>The steps from a slot to another one.\<close>

definition steps_to :: "nat \<Rightarrow> nat \<Rightarrow> nat" where
  "steps_to j i = (if i \<le> j then j - i else j + SZ - i)"

lemma steps_next: "i < SZ \<Longrightarrow> j < SZ \<Longrightarrow> i \<noteq> j \<Longrightarrow> steps_to j (next_pos i) < steps_to j i"
  by (cases "i + 1 = SZ") (auto simp: steps_to_def)

lemma probe_here: "mp_ptr (t i) = 0 \<or> mp_ptr (t i) = p \<Longrightarrow> probe p t i = Some i"
  by (subst probe.simps) auto

lemma probe_on: "mp_ptr (t i) \<noteq> 0 \<Longrightarrow> mp_ptr (t i) \<noteq> p \<Longrightarrow> probe p t i = probe p t (next_pos i)"
  by (subst probe.simps) auto

text \<open>While a slot is free the search ends, at the block or at a free slot.\<close>

lemma probe_ends:
  assumes "mp_ptr (t j) = 0" and "j < SZ"
  shows "i < SZ \<Longrightarrow> \<exists>k < SZ. probe p t i = Some k \<and> (mp_ptr (t k) = 0 \<or> mp_ptr (t k) = p)"
proof (induction "steps_to j i" arbitrary: i rule: less_induct)
  case less
  show ?case
  proof (cases "mp_ptr (t i) = 0 \<or> mp_ptr (t i) = p")
    case True
    then show ?thesis using probe_here less.prems by blast
  next
    case False
    then have "i \<noteq> j" using assms(1) by auto
    from less.hyps [OF steps_next [OF less.prems assms(2) this]] show ?thesis using False by (simp add: probe_on)
  qed
qed

text \<open>Behind a freed slot no block moves that stands where its search begins.\<close>

definition at_home :: "malloc_table \<Rightarrow> bool" where
  "at_home t \<longleftrightarrow> (\<forall>i < SZ. mp_ptr (t i) \<noteq> 0 \<longrightarrow> home (mp_ptr (t i)) = i)"

lemma rehash_at_home:
  assumes "at_home t" and "mp_ptr (t j) = 0" and "j < SZ"
  shows "i < SZ \<Longrightarrow> rehash t i = Some t"
proof (induction "steps_to j i" arbitrary: i rule: less_induct)
  case less
  show ?case
  proof (cases "mp_ptr (t i) = 0")
    case True
    then show ?thesis by (subst rehash.simps) simp
  next
    case False
    then have "i \<noteq> j" using assms(2) by auto
    from less.hyps [OF steps_next [OF less.prems assms(3) this]] have "rehash t (next_pos i) = Some t" by simp
    moreover have "rehash_place (mp_ptr (t i)) t i i = Some None" using False by (subst rehash_place.simps) simp
    ultimately show ?thesis
      using False assms(1) less.prems by (subst rehash.simps) (simp add: at_home_def Let_def)
  qed
qed

section \<open>Without collisions\<close>

text \<open>The live blocks with their sizes.\<close>

fun call_size :: "alloc_call \<Rightarrow> uint64" where
  "call_size (Xmalloc p n f l) = n"
| "call_size (Xcalloc p m n f l) = m * n"
| "call_size (Xstrdup p s f l) = of_nat (length s) + 1"
| "call_size (Xfree p) = 0"

fun call_ptr :: "alloc_call \<Rightarrow> uint64" where
  "call_ptr (Xmalloc p n f l) = p"
| "call_ptr (Xcalloc p m n f l) = p"
| "call_ptr (Xstrdup p s f l) = p"
| "call_ptr (Xfree p) = p"

definition is_free :: "alloc_call \<Rightarrow> bool" where
  "is_free c = (case c of Xfree p \<Rightarrow> True | _ \<Rightarrow> False)"

definition live_step :: "alloc_call \<Rightarrow> (uint64 \<times> uint64) list \<Rightarrow> (uint64 \<times> uint64) list" where
  "live_step c L = (if is_free c then filter (\<lambda>(q, n). q \<noteq> call_ptr c) L else (call_ptr c, call_size c) # L)"

text \<open>A new block does not share its place with a live one, and only live blocks are freed.\<close>

definition call_ok :: "alloc_call \<Rightarrow> (uint64 \<times> uint64) list \<Rightarrow> bool" where
  "call_ok c L \<longleftrightarrow> (if is_free c then call_ptr c \<in> set (map fst L)
     else call_ptr c \<noteq> 0 \<and> home (call_ptr c) \<notin> set (map (home \<circ> fst) L))"

fun calls_ok :: "alloc_call list \<Rightarrow> (uint64 \<times> uint64) list \<Rightarrow> bool" where
  "calls_ok [] L = True"
| "calls_ok (c # cs) L = (call_ok c L \<and> calls_ok cs (live_step c L))"

definition holds_blocks :: "(uint64 \<times> uint64) list \<Rightarrow> alloc_state \<Rightarrow> bool" where
  "holds_blocks L s \<longleftrightarrow> \<not> regptr_locked s \<and> distinct (map (home \<circ> fst) L) \<and> at_home (table s) \<and>
     (\<forall>p n. (p, n) \<in> set L \<longleftrightarrow> p \<noteq> 0 \<and> mp_ptr (table s (home p)) = p \<and> mp_size (table s (home p)) = n) \<and>
     malloc_count s - free_count s = of_nat (length L) \<and> malloc_size s - free_size s = sum_list (map snd L)"

lemma start_holds: "holds_blocks [] alloc_start"
  by (simp add: holds_blocks_def alloc_start_def at_home_def no_slot_def)

lemma live_room: "distinct (map (home \<circ> fst) L) \<Longrightarrow> length L \<le> SZ"
proof -
  assume "distinct (map (home \<circ> fst) L)"
  then have "length L = card (set (map (home \<circ> fst) L))" by (metis distinct_card length_map)
  also have "\<dots> \<le> card {..<SZ}" by (intro card_mono) auto
  finally show ?thesis by simp
qed

text \<open>Every allocation is the same bookkeeping.\<close>

lemma alloc_account:
  assumes "\<not> is_free c" and "call_ptr c \<noteq> 0"
  obtains f l where "alloc_step c s = account (call_ptr c) (call_size c) f l s"
  using assms that
  by (cases c) (auto simp: is_free_def debugging_malloc_def debugging_calloc_def debugging_strdup_def checking_defs)

lemma malloc_holds:
  assumes h: "holds_blocks L s" and p: "p \<noteq> 0" and new: "home p \<notin> set (map (home \<circ> fst) L)"
  shows "\<exists>s'. account p n f l s = Some (Inr s') \<and> holds_blocks ((p, n) # L) s'"
proof -
  have len: "Suc (length L) \<le> SZ" using h p new live_room [of "(p, n) # L"] by (simp add: holds_blocks_def)
  have free: "mp_ptr (table s (home p)) = 0"
  proof (rule ccontr)
    assume z: "mp_ptr (table s (home p)) \<noteq> 0"
    let ?q = "mp_ptr (table s (home p))"
    have q: "home ?q = home p" using h z by (simp add: holds_blocks_def at_home_def)
    then have "(?q, mp_size (table s (home p))) \<in> set L" using h z by (simp add: holds_blocks_def)
    then have "home ?q \<in> set (map (home \<circ> fst) L)" by force
    then show False using new q by simp
  qed
  let ?s = "s\<lparr>regptr_locked := False, malloc_count := malloc_count s + 1, malloc_size := malloc_size s + n,
    table := (table s)(home p := \<lparr>mp_ptr = p, mp_file = f, mp_line = l, mp_size = n\<rparr>)\<rparr>"
  have cnt: "malloc_count s + 1 - free_count s = of_nat (Suc (length L))" using h by (simp add: holds_blocks_def algebra_simps)
  have "sint (of_nat (Suc (length L)) :: uint32) = int (Suc (length L))"
    using len by (simp add: SZ_def signed_of_nat signed_take_bit_int_eq_self del: of_nat_Suc)
  then have lim: "\<not> int SZ < sint (malloc_count s + 1 - free_count s)" using len unfolding cnt by simp
  have "account p n f l s = Some (Inr ?s)"
    using h lim free by (simp add: account_def regptr_lock_def register_ptr_def ptr_position_def probe_here holds_blocks_def)
  moreover have "holds_blocks ((p, n) # L) ?s"
  proof -
    have "(q, m) \<in> set ((p, n) # L) \<longleftrightarrow> q \<noteq> 0 \<and> mp_ptr (table ?s (home q)) = q \<and> mp_size (table ?s (home q)) = m" for q m
    proof (cases "home q = home p")
      case True
      have "(q, m) \<notin> set L" using new True by force
      then show ?thesis using True p by auto
    next
      case False
      then show ?thesis using h by (auto simp: holds_blocks_def)
    qed
    then show ?thesis using h new cnt by (simp add: holds_blocks_def at_home_def algebra_simps)
  qed
  ultimately show ?thesis by blast
qed

lemma free_holds:
  assumes h: "holds_blocks L s" and p: "p \<in> set (map fst L)"
  shows "\<exists>s'. debugging_free p s = Some (Inr s') \<and> holds_blocks (filter (\<lambda>(q, n). q \<noteq> p) L) s'"
proof -
  let ?L = "filter (\<lambda>(q, n). q \<noteq> p) L" and ?i = "home p"
  let ?t = "(table s)(?i := (table s ?i)\<lparr>mp_ptr := 0\<rparr>)"
  obtain m where m: "(p, m) \<in> set L" using p by auto
  then have at: "p \<noteq> 0" "mp_ptr (table s ?i) = p" "mp_size (table s ?i) = m" using h by (auto simp: holds_blocks_def)
  have th: "at_home ?t" using h by (simp add: holds_blocks_def at_home_def)
  have rh: "rehash ?t (next_pos ?i) = Some ?t" by (rule rehash_at_home [OF th, of ?i]) simp_all
  let ?s = "s\<lparr>table := ?t, free_size := free_size s + m, free_count := free_count s + 1\<rparr>"
  have "debugging_free p s = Some (Inr ?s)"
    using h at rh
    by (simp add: debugging_free_def regptr_lock_def unregister_ptr_def ptr_position_def probe_here holds_blocks_def)
  moreover have "holds_blocks ?L ?s"
  proof -
    have dist: "distinct (map (home \<circ> fst) L)" using h by (simp add: holds_blocks_def)
    obtain as bs where L: "L = as @ (p, m) # bs" using m by (meson split_list)
    have hp: "home p \<notin> (home \<circ> fst) ` (set as \<union> set bs)" using dist by (auto simp: L)
    have np: "\<forall>(q, n) \<in> set as \<union> set bs. q \<noteq> p" using hp by force
    have fl: "?L = as @ bs" using np by (auto simp: L filter_id_conv)
    have "(q, n) \<in> set ?L \<longleftrightarrow> q \<noteq> 0 \<and> mp_ptr (table ?s (home q)) = q \<and> mp_size (table ?s (home q)) = n" for q n
    proof (cases "home q = home p")
      case True
      have "(q, n) \<notin> set as \<union> set bs" using hp True by force
      then show ?thesis unfolding fl using True by auto
    next
      case False
      then show ?thesis using h by (auto simp: holds_blocks_def)
    qed
    moreover have "distinct (map (home \<circ> fst) ?L)" using dist unfolding fl by (auto simp: L)
    moreover have "malloc_count s - (free_count s + 1) = of_nat (length ?L)"
    proof -
      have "malloc_count s - free_count s = of_nat (length ?L) + 1" using h unfolding fl by (simp add: holds_blocks_def L)
      then show ?thesis by (simp add: algebra_simps)
    qed
    moreover have "malloc_size s - (free_size s + m) = sum_list (map snd ?L)"
    proof -
      have "malloc_size s - free_size s = sum_list (map snd ?L) + m" using h unfolding fl by (simp add: holds_blocks_def L)
      then show ?thesis by (simp add: algebra_simps)
    qed
    ultimately show ?thesis using h th by (simp add: holds_blocks_def)
  qed
  ultimately show ?thesis by blast
qed

lemma run_holds:
  "holds_blocks L s \<Longrightarrow> calls_ok cs L \<Longrightarrow>
   \<exists>s'. alloc_run cs s = Some (Inr s') \<and> holds_blocks (fold live_step cs L) s'"
proof (induction cs arbitrary: L s)
  case (Cons c cs)
  have ok: "call_ok c L" using Cons.prems(2) by simp
  have "\<exists>s1. alloc_step c s = Some (Inr s1) \<and> holds_blocks (live_step c L) s1"
  proof (cases "is_free c")
    case True
    then obtain p where "c = Xfree p" by (auto simp: is_free_def split: alloc_call.splits)
    then show ?thesis using free_holds [OF Cons.prems(1), of p] ok by (simp add: call_ok_def live_step_def is_free_def)
  next
    case False
    then have p: "call_ptr c \<noteq> 0" "home (call_ptr c) \<notin> set (map (home \<circ> fst) L)" using ok by (simp_all add: call_ok_def)
    from malloc_holds [OF Cons.prems(1) this] show ?thesis
      using alloc_account [OF False p(1)] by (metis False live_step_def)
  qed
  then obtain s1 where s1: "alloc_step c s = Some (Inr s1)" "holds_blocks (live_step c L) s1" by blast
  from Cons.IH [OF s1(2)] Cons.prems(2) show ?case by (simp add: s1(1))
qed simp

text \<open>C14: As long as no two live blocks share a place, every sequence of calls in which only live blocks are freed goes
  through; afterwards the table finds exactly the live blocks, each with its size, and the balances of calls and bytes are
  their number and their sizes.\<close>

theorem alloc_exact:
  assumes "calls_ok cs []"
  defines "L \<equiv> fold live_step cs []"
  shows "\<exists>s. alloc_run cs alloc_start = Some (Inr s) \<and> \<not> regptr_locked s \<and>
    (\<forall>p n. (p, n) \<in> set L \<longleftrightarrow> p \<noteq> 0 \<and> mp_ptr (table s (home p)) = p \<and> mp_size (table s (home p)) = n) \<and>
    malloc_count s - free_count s = of_nat (length L) \<and> malloc_size s - free_size s = sum_list (map snd L)"
  using run_holds [OF start_holds assms(1)] unfolding L_def holds_blocks_def by blast

section \<open>Collisions\<close>

lemma next_distinct:
  assumes "h < SZ"
  shows "distinct [h, next_pos h, next_pos (next_pos h), next_pos (next_pos (next_pos h))]"
  using assms by (auto simp: SZ_def mod_Suc)

text \<open>Registering a block that is not in the table at the free slot its search ends at.\<close>

lemma account_at:
  assumes "ptr_position p (table s) = Some i" and "\<not> regptr_locked s" and "sint (malloc_count s + 1 - free_count s) \<le> int SZ"
  shows "account p n f l s = Some (Inr (s\<lparr>malloc_count := malloc_count s + 1, malloc_size := malloc_size s + n,
    table := (table s)(i := \<lparr>mp_ptr = p, mp_file = f, mp_line = l, mp_size = n\<rparr>)\<rparr>))"
  using assms by (simp add: account_def regptr_lock_def register_ptr_def)

text \<open>C15: Three blocks with one place: when the second is freed the third is not moved to the hole, because the comparison that
  should find it is made with its own slot. It is lost, and freeing it ends the server.\<close>

theorem third_block_lost:
  assumes "a \<noteq> 0" and "b \<noteq> 0" and "c \<noteq> 0" and "distinct [a, b, c]" and "home b = home a" and "home c = home a"
  shows "alloc_run [Xmalloc a n1 f1 l1, Xmalloc b n2 f2 l2, Xmalloc c n3 f3 l3, Xfree b, Xfree c] alloc_start = Some (Inl Bad_xfree)"
proof -
  let ?h0 = "home a"
  define h1 where "h1 = Suc ?h0 mod SZ"
  define h2 where "h2 = Suc h1 mod SZ"
  define h3 where "h3 = Suc h2 mod SZ"
  note n = h1_def [symmetric] h2_def [symmetric] h3_def [symmetric]
  have d: "distinct [?h0, h1, h2, h3]" using next_distinct [of ?h0] by (simp add: n)
  let ?ea = "\<lparr>mp_ptr = a, mp_file = f1, mp_line = l1, mp_size = n1\<rparr>" and ?eb = "\<lparr>mp_ptr = b, mp_file = f2, mp_line = l2, mp_size = n2\<rparr>"
    and ?ec = "\<lparr>mp_ptr = c, mp_file = f3, mp_line = l3, mp_size = n3\<rparr>"
  define t1 where "t1 = (\<lambda>_. no_slot)(?h0 := ?ea)"
  define t2 where "t2 = t1(h1 := ?eb)"
  define t3 where "t3 = t2(h2 := ?ec)"
  define t4 where "t4 = t3(h1 := ?eb\<lparr>mp_ptr := 0\<rparr>)"
  have e: "t1 ?h0 = ?ea" "t1 h1 = no_slot" "t2 ?h0 = ?ea" "t2 h1 = ?eb" "t2 h2 = no_slot"
    "t3 ?h0 = ?ea" "t3 h1 = ?eb" "t3 h2 = ?ec" "t3 h3 = no_slot"
    "t4 ?h0 = ?ea" "t4 h1 = ?eb\<lparr>mp_ptr := 0\<rparr>" "t4 h2 = ?ec" "t4 h3 = no_slot"
    using d by (simp_all add: t1_def t2_def t3_def t4_def eq_commute)
  have freed: "t3(h1 := \<lparr>mp_ptr = 0, mp_file = f2, mp_line = l2, mp_size = n2\<rparr>) = t4" by (simp add: t4_def)
  have p1: "ptr_position a (\<lambda>_. no_slot) = Some ?h0" by (simp add: ptr_position_def probe_here no_slot_def)
  have p2: "ptr_position b t1 = Some h1"
    using assms by (simp add: ptr_position_def probe_on probe_here n e no_slot_def)
  have p3: "ptr_position c t2 = Some h2"
    using assms by (simp add: ptr_position_def probe_on probe_here n e no_slot_def)
  have p4: "ptr_position b t3 = Some h1"
    using assms by (simp add: ptr_position_def probe_on probe_here n e no_slot_def)
  have rp: "rehash_place c t4 h2 ?h0 = Some None"
    using assms(1) by (subst rehash_place.simps) (simp add: e)
  have r3: "rehash t4 h3 = Some t4" by (subst rehash.simps) (simp add: e no_slot_def)
  have r2: "rehash t4 h2 = Some t4"
    using assms(3) rp r3 by (subst rehash.simps) (simp add: e n assms(6))
  have p5: "ptr_position c t4 = Some h1"
    using assms by (simp add: ptr_position_def probe_on probe_here n e)
  define s1 where "s1 = alloc_start\<lparr>malloc_count := 1, malloc_size := n1, table := t1\<rparr>"
  define s2 where "s2 = s1\<lparr>malloc_count := 2, malloc_size := n1 + n2, table := t2\<rparr>"
  define s3 where "s3 = s2\<lparr>malloc_count := 3, malloc_size := n1 + n2 + n3, table := t3\<rparr>"
  define s4 where "s4 = s3\<lparr>table := t4, free_size := n2, free_count := 1\<rparr>"
  have "account a n1 f1 l1 alloc_start = Some (Inr s1)"
    using account_at [of a alloc_start ?h0 n1 f1 l1] p1 by (simp add: alloc_start_def s1_def t1_def SZ_def)
  moreover have "account b n2 f2 l2 s1 = Some (Inr s2)"
    using account_at [of b s1 h1 n2 f2 l2] p2 by (simp add: alloc_start_def s1_def s2_def t2_def SZ_def)
  moreover have "account c n3 f3 l3 s2 = Some (Inr s3)"
    using account_at [of c s2 h2 n3 f3 l3] p3 by (simp add: alloc_start_def s1_def s2_def s3_def t3_def SZ_def)
  moreover have "debugging_free b s3 = Some (Inr s4)"
    using assms(2) p4 r2
    by (simp add: debugging_free_def regptr_lock_def unregister_ptr_def n e s1_def s2_def s3_def s4_def alloc_start_def freed)
  moreover have "debugging_free c s4 = Some (Inl Bad_xfree)"
    using assms(3) p5
    by (simp add: debugging_free_def regptr_lock_def unregister_ptr_def n e s1_def s2_def s3_def s4_def alloc_start_def)
  ultimately show ?thesis using assms(1-3) by (simp add: debugging_malloc_def checking_defs)
qed

text \<open>Three addresses of an ordinary heap with one place.\<close>

lemma colliding_homes:
  "home 0x55555555A590 = 4288892" "home 0x55555558A420 = 4288892" "home 0x5555558FB450 = 4288892"
  by (simp_all add: home_def hash_pointer_def SZ_def Let_def)

theorem third_block_lost_witness:
  "alloc_run [Xmalloc 0x55555555A590 16 [] 1, Xmalloc 0x55555558A420 16 [] 2, Xmalloc 0x5555558FB450 16 [] 3,
     Xfree 0x55555558A420, Xfree 0x5555558FB450] alloc_start = Some (Inl Bad_xfree)"
  by (rule third_block_lost) (simp_all add: colliding_homes)

theorem alloc_exact_witness:
  "\<exists>s. alloc_run [Xmalloc 0x55555555A590 16 [] 1, Xcalloc 0x55555555A5A0 2 8 [] 2, Xfree 0x55555555A590] alloc_start = Some (Inr s) \<and>
     malloc_size s - free_size s = 16"
proof -
  have h: "home 0x55555555A5A0 \<noteq> home 0x55555555A590" by (simp add: home_def hash_pointer_def SZ_def Let_def)
  let ?cs = "[Xmalloc 0x55555555A590 16 [] 1, Xcalloc 0x55555555A5A0 2 8 [] 2, Xfree 0x55555555A590]"
  have "calls_ok ?cs []" using h by (simp add: call_ok_def is_free_def live_step_def)
  from alloc_exact [OF this] show ?thesis by (auto simp: live_step_def is_free_def)
qed

section \<open>Blocks that are never given back\<close>

text \<open>After \<open>k\<close> allocations, of whatever addresses, at most \<open>k\<close> slots are taken.\<close>

definition taken :: "malloc_table \<Rightarrow> nat set" where
  "taken t = {i. i < SZ \<and> mp_ptr (t i) \<noteq> 0}"

definition grown :: "nat \<Rightarrow> alloc_state \<Rightarrow> bool" where
  "grown k s \<longleftrightarrow> \<not> regptr_locked s \<and> malloc_count s = of_nat k \<and> free_count s = 0 \<and> card (taken (table s)) \<le> k"

lemma finite_taken [simp]: "finite (taken t)" by (simp add: taken_def)

lemma taken_grows: "card (taken (t(i := e))) \<le> Suc (card (taken t))"
proof -
  have "taken (t(i := e)) \<subseteq> insert i (taken t)" by (auto simp: taken_def)
  then have "card (taken (t(i := e))) \<le> card (insert i (taken t))" by (intro card_mono) simp_all
  also have "\<dots> \<le> Suc (card (taken t))" by (simp add: card_insert_if)
  finally show ?thesis .
qed

lemma count_sint: "k \<le> SZ \<Longrightarrow> sint (of_nat k + 1 :: uint32) = int k + 1"
proof -
  assume "k \<le> SZ"
  then have "sint (of_nat (Suc k) :: uint32) = int (Suc k)"
    by (simp add: SZ_def signed_of_nat signed_take_bit_int_eq_self del: of_nat_Suc)
  then show ?thesis by (simp add: add.commute)
qed

lemma account_grows:
  assumes "grown k s" and "k < SZ"
  shows "\<exists>s'. account p n f l s = Some (Inr s') \<and> grown (Suc k) s'"
proof -
  have "card (taken (table s)) < card {..<SZ}" using assms by (simp add: grown_def)
  then have "taken (table s) \<noteq> {..<SZ}" by (metis less_irrefl)
  then obtain j where j: "j < SZ" "mp_ptr (table s j) = 0" by (auto simp: taken_def)
  from probe_ends [of "table s" j "home p" p] j obtain i where i: "ptr_position p (table s) = Some i"
    by (auto simp: ptr_position_def)
  have "account p n f l s = Some (Inr (s\<lparr>malloc_count := malloc_count s + 1, malloc_size := malloc_size s + n,
    table := (table s)(i := \<lparr>mp_ptr = p, mp_file = f, mp_line = l, mp_size = n\<rparr>)\<rparr>))"
    using assms by (intro account_at [OF i]) (simp_all add: grown_def count_sint)
  moreover have "card (taken ((table s)(i := e))) \<le> Suc k" for e
    using taken_grows [of "table s" i e] assms(1) by (simp add: grown_def)
  ultimately show ?thesis using assms(1) by (simp add: grown_def)
qed

lemma run_grows:
  "grown k s \<Longrightarrow> k \<le> SZ \<Longrightarrow> SZ < k + length cs \<Longrightarrow> \<forall>c \<in> set cs. \<not> is_free c \<and> call_ptr c \<noteq> 0 \<Longrightarrow>
   alloc_run cs s = Some (Inl Increase_SZ)"
proof (induction cs arbitrary: k s)
  case (Cons c cs)
  obtain f l where st: "alloc_step c s = account (call_ptr c) (call_size c) f l s"
    using Cons.prems(4) by (auto elim: alloc_account [of c s])
  show ?case
  proof (cases "k = SZ")
    case True
    then have "account (call_ptr c) (call_size c) f l s = Some (Inl Increase_SZ)"
      using Cons.prems(1) count_sint [of k] by (simp add: grown_def account_def regptr_lock_def register_ptr_def)
    then show ?thesis by (simp add: st)
  next
    case False
    then have "k < SZ" using Cons.prems(2) by simp
    from account_grows [OF Cons.prems(1) this] obtain s' where
      "account (call_ptr c) (call_size c) f l s = Some (Inr s')" "grown (Suc k) s'" by blast
    then show ?thesis using Cons.IH [of "Suc k" s'] Cons.prems(3,4) \<open>k < SZ\<close> by (simp add: st)
  qed
qed simp

lemma run_fits:
  "grown k s \<Longrightarrow> k + length cs \<le> SZ \<Longrightarrow> \<forall>c \<in> set cs. \<not> is_free c \<and> call_ptr c \<noteq> 0 \<Longrightarrow> \<exists>s'. alloc_run cs s = Some (Inr s')"
proof (induction cs arbitrary: k s)
  case (Cons c cs)
  obtain f l where st: "alloc_step c s = account (call_ptr c) (call_size c) f l s"
    using Cons.prems(3) by (auto elim: alloc_account [of c s])
  from account_grows [OF Cons.prems(1)] Cons.prems(2) obtain s' where
    "account (call_ptr c) (call_size c) f l s = Some (Inr s')" "grown (Suc k) s'" by fastforce
  then show ?case using Cons.IH [of "Suc k" s'] Cons.prems(2,3) by (simp add: st)
qed simp

text \<open>The counts along any run that goes on.\<close>

definition allocations :: "alloc_call list \<Rightarrow> nat" where
  "allocations cs = length (filter (\<lambda>c. \<not> is_free c) cs)"

definition frees :: "alloc_call list \<Rightarrow> nat" where
  "frees cs = length (filter is_free cs)"

lemma step_counts:
  assumes "alloc_step c s = Some (Inr s')" and "\<not> regptr_locked s"
  shows "malloc_count s' = malloc_count s + (if is_free c then 0 else 1) \<and>
    free_count s' = free_count s + (if is_free c then 1 else 0) \<and> \<not> regptr_locked s'"
  using assms
  by (cases c) (auto simp: is_free_def debugging_malloc_def debugging_calloc_def debugging_strdup_def debugging_free_def checking_defs
      account_def register_ptr_def unregister_ptr_def regptr_lock_def bind_eq_Some_conv Let_def split: if_splits)

lemma run_counts:
  "alloc_run cs s = Some (Inr s') \<Longrightarrow> \<not> regptr_locked s \<Longrightarrow>
   malloc_count s' = malloc_count s + of_nat (allocations cs) \<and> free_count s' = free_count s + of_nat (frees cs) \<and> \<not> regptr_locked s'"
proof (induction cs arbitrary: s)
  case (Cons c cs)
  from Cons.prems(1) obtain s1 where s1: "alloc_step c s = Some (Inr s1)" "alloc_run cs s1 = Some (Inr s')"
    by (cases "alloc_step c s") (auto split: sum.splits)
  from Cons.IH [OF s1(2)] step_counts [OF s1(1) Cons.prems(2)] show ?case
    by (simp add: allocations_def frees_def)
qed (simp add: allocations_def frees_def)

lemma balance_sint:
  assumes "a + f < 2 ^ 31 - 1"
  shows "sint (of_nat a + 1 - of_nat f :: uint32) = int a + 1 - int f"
proof -
  have "(of_nat a + 1 - of_nat f :: uint32) = of_int (int a + 1 - int f)" by simp
  moreover have "sint (of_int (int a + 1 - int f) :: uint32) = int a + 1 - int f"
    using assms by (subst signed_of_int) (simp add: signed_take_bit_int_eq_self)
  ultimately show ?thesis by simp
qed

lemma account_limit:
  assumes "\<not> regptr_locked s"
  shows "account p n f l s = Some (Inl Increase_SZ) \<longleftrightarrow> int SZ < sint (malloc_count s + 1 - free_count s)"
  using assms by (auto simp: account_def regptr_lock_def register_ptr_def bind_eq_Some_conv split: if_splits)

text \<open>C32: The table forgets a block only in \<open>xfree\<close>. The reports (\<open>RTCP_send_packet\<close>) are allocated through it but given back
  to the C library. After any run of calls that did not end the program the next allocation ends it with \<open>Increase_SZ\<close>
  exactly when five million more blocks have been allocated than given back through the table, whatever addresses they
  have; and without a single \<open>xfree\<close> exactly the first five million allocations succeed. The runs have fewer than
  $2^{31} - 1$ calls, so that the counts do not wrap.\<close>

theorem allocation_limit:
  assumes "length cs < 2147483647" and "\<not> is_free c" and "call_ptr c \<noteq> 0"
  shows "(alloc_run cs alloc_start = Some (Inr s) \<longrightarrow>
      (alloc_step c s = Some (Inl Increase_SZ) \<longleftrightarrow> frees cs + 5000000 \<le> allocations cs)) \<and>
    ((\<forall>x \<in> set cs. \<not> is_free x \<and> call_ptr x \<noteq> 0) \<longrightarrow>
      (if length cs \<le> 5000000 then \<exists>s'. alloc_run cs alloc_start = Some (Inr s')
       else alloc_run cs alloc_start = Some (Inl Increase_SZ)))"
proof (intro conjI impI)
  assume run: "alloc_run cs alloc_start = Some (Inr s)"
  obtain f l where st: "alloc_step c s = account (call_ptr c) (call_size c) f l s"
    using assms(2,3) by (auto elim: alloc_account [of c s])
  have "allocations cs + frees cs = length cs"
    using sum_length_filter_compl [of is_free cs] by (simp add: allocations_def frees_def)
  then have "sint (of_nat (allocations cs) + 1 - of_nat (frees cs) :: uint32) = int (allocations cs) + 1 - int (frees cs)"
    using assms(1) by (intro balance_sint) simp
  moreover have "malloc_count s = of_nat (allocations cs)" "free_count s = of_nat (frees cs)" "\<not> regptr_locked s"
    using run_counts [OF run] by (simp_all add: alloc_start_def)
  ultimately show "alloc_step c s = Some (Inl Increase_SZ) \<longleftrightarrow> frees cs + 5000000 \<le> allocations cs"
    unfolding st by (simp add: account_limit SZ_def) linarith
next
  assume plain: "\<forall>x \<in> set cs. \<not> is_free x \<and> call_ptr x \<noteq> 0"
  have "grown 0 alloc_start" by (simp add: grown_def alloc_start_def taken_def no_slot_def)
  then show "if length cs \<le> 5000000 then \<exists>s'. alloc_run cs alloc_start = Some (Inr s') else alloc_run cs alloc_start = Some (Inl Increase_SZ)"
    using run_grows [of 0 alloc_start cs] run_fits [of 0 alloc_start cs] plain by (simp add: SZ_def)
qed

theorem allocation_limit_witness:
  "alloc_run (replicate 5000001 (Xcalloc 0x55555555A590 1 28 ''RTCP_send_packet.c'' 49)) alloc_start = Some (Inl Increase_SZ) \<and>
   (\<exists>s. alloc_run [Xmalloc 0x55555555A590 16 [] 1] alloc_start = Some (Inr s) \<and>
     alloc_step (Xmalloc 0x55555555A5A0 16 [] 2) s \<noteq> Some (Inl Increase_SZ))"
proof
  let ?c = "Xcalloc 0x55555555A590 1 28 ''RTCP_send_packet.c'' 49"
  show "alloc_run (replicate 5000001 ?c) alloc_start = Some (Inl Increase_SZ)"
    using allocation_limit [of "replicate 5000001 ?c" ?c] by (simp add: is_free_def)
  have ok: "length [Xmalloc 0x55555555A590 16 [] 1] < 2147483647" "\<not> is_free (Xmalloc 0x55555555A5A0 16 [] 2)"
      "call_ptr (Xmalloc 0x55555555A5A0 16 [] 2) \<noteq> 0" by (simp_all add: is_free_def)
  then obtain s where s: "alloc_run [Xmalloc 0x55555555A590 16 [] 1] alloc_start = Some (Inr s)"
    using allocation_limit [OF ok] by (auto simp del: alloc_run.simps simp: is_free_def)
  have "\<not> frees [Xmalloc 0x55555555A590 16 [] 1] + 5000000 \<le> allocations [Xmalloc 0x55555555A590 16 [] 1]"
    by (simp add: frees_def allocations_def is_free_def)
  then have "alloc_step (Xmalloc 0x55555555A5A0 16 [] 2) s \<noteq> Some (Inl Increase_SZ)"
    using allocation_limit [OF ok, of s] s by (simp del: alloc_run.simps alloc_step.simps)
  with s show "\<exists>s. alloc_run [Xmalloc 0x55555555A590 16 [] 1] alloc_start = Some (Inr s) \<and>
     alloc_step (Xmalloc 0x55555555A5A0 16 [] 2) s \<noteq> Some (Inl Increase_SZ)" by blast
qed

end
