(* ===== verification/Startup.thy ===== *)
theory Startup
  imports Event_Loop
begin

text \<open>
  How the server starts: the preferences (\<^verbatim>\<open>src/prefs.c\<close>), the command line
  (\<^verbatim>\<open>command_environment/command_environment.c\<close>), the TCP sockets (\<^verbatim>\<open>socket/tcp_*.c\<close>) and the steps of \<open>main\<close> up to the loop
  (\<^verbatim>\<open>src/main.c\<close>). The strings and numbers that \<^verbatim>\<open>config.h\<close> fixes when the server is built are an argument.
\<close>

section \<open>Preferences\<close>

datatype pref_id = PREFS_ROOT | PREFS_TCP_PORT | PREFS_SCTP_PORT | PREFS_MAX_SESSION | PREFS_LOG | PREFS_HOSTNAME

definition all_prefs :: "pref_id list" where
  "all_prefs = [PREFS_ROOT, PREFS_TCP_PORT, PREFS_SCTP_PORT, PREFS_MAX_SESSION, PREFS_LOG, PREFS_HOSTNAME]"

datatype pref_type = INTEGER | STRING

datatype pref_data = Int_data int | Str_data string

fun pref_kind :: "pref_id \<Rightarrow> pref_type" where
  "pref_kind PREFS_ROOT = STRING"
| "pref_kind PREFS_TCP_PORT = INTEGER"
| "pref_kind PREFS_SCTP_PORT = INTEGER"
| "pref_kind PREFS_MAX_SESSION = INTEGER"
| "pref_kind PREFS_LOG = STRING"
| "pref_kind PREFS_HOSTNAME = STRING"

fun pref_tag :: "pref_id \<Rightarrow> string" where
  "pref_tag PREFS_ROOT = ''root''"
| "pref_tag PREFS_TCP_PORT = ''tcp_port''"
| "pref_tag PREFS_SCTP_PORT = ''sctp_port''"
| "pref_tag PREFS_MAX_SESSION = ''max_session''"
| "pref_tag PREFS_LOG = ''log_file''"
| "pref_tag PREFS_HOSTNAME = ''###''"

text \<open>The array \<open>prefs\<close>: what each \<open>data\<close> pointer points to.\<close>

type_synonym prefs = "pref_id \<Rightarrow> pref_data option"

record build_config =
  FENICE_AVROOT_DIR_DEFAULT_STR :: string
  FENICE_RTSP_PORT_DEFAULT :: int
  FENICE_MAX_SESSION_DEFAULT :: int
  FENICE_LOG_FILE_DEFAULT_STR :: string
  FENICE_CONF_PATH_DEFAULT_STR :: string

definition pref_default :: "build_config \<Rightarrow> pref_id \<Rightarrow> prefs \<Rightarrow> prefs" where
  "pref_default d i pf = (case i of
      PREFS_ROOT \<Rightarrow> pf(i \<mapsto> Str_data (FENICE_AVROOT_DIR_DEFAULT_STR d @ ''/''))
    | PREFS_TCP_PORT \<Rightarrow> pf(i \<mapsto> Int_data (FENICE_RTSP_PORT_DEFAULT d))
    | PREFS_SCTP_PORT \<Rightarrow> pf(i \<mapsto> Int_data (- 1))
    | PREFS_MAX_SESSION \<Rightarrow> pf(i \<mapsto> Int_data (FENICE_MAX_SESSION_DEFAULT d))
    | PREFS_LOG \<Rightarrow> pf(i \<mapsto> Str_data (FENICE_LOG_FILE_DEFAULT_STR d))
    | PREFS_HOSTNAME \<Rightarrow> pf)"

text \<open>\<open>prefs_use_default\<close>; \<open>None\<close> is \<open>PREFS_ALL\<close>.\<close>

definition prefs_use_default :: "build_config \<Rightarrow> pref_id option \<Rightarrow> prefs \<Rightarrow> prefs" where
  "prefs_use_default d index pf = (case index of
      Some i \<Rightarrow> pref_default d i pf
    | None \<Rightarrow> fold (pref_default d) [PREFS_ROOT, PREFS_TCP_PORT, PREFS_SCTP_PORT, PREFS_MAX_SESSION, PREFS_LOG] pf)"

definition get_pref :: "pref_id \<Rightarrow> prefs \<Rightarrow> pref_data option" where
  "get_pref i pf = pf i"

text \<open>The conversion \<open>%i\<close> of \<open>sscanf\<close>: white space, a sign, then a hexadecimal, octal or decimal number; \<open>strtol\<close>
  saturates and the assignment to an \<open>int\<close> keeps 32 bits.\<close>

definition hex_val :: "char \<Rightarrow> nat option" where
  "hex_val c =
    (let k = of_char c :: nat
     in if is_digit c then Some (digit_val c)
        else if 97 \<le> k \<and> k \<le> 102 then Some (k - 87)
        else if 65 \<le> k \<and> k \<le> 70 then Some (k - 55) else None)"

definition base_digit :: "nat \<Rightarrow> char \<Rightarrow> bool" where
  "base_digit base c = (case hex_val c of None \<Rightarrow> False | Some v \<Rightarrow> v < base)"

definition base_val :: "nat \<Rightarrow> string \<Rightarrow> nat" where
  "base_val base ds = foldl (\<lambda>n c. n * base + (case hex_val c of None \<Rightarrow> 0 | Some v \<Rightarrow> v)) 0 ds"

definition scan_i :: "string \<Rightarrow> int option" where
  "scan_i s =
    (let t = dropWhile is_space s;
         (neg, u) = (case t of c # r \<Rightarrow> (if c = CHR ''-'' then (True, r) else if c = CHR ''+'' then (False, r) else (False, t))
                             | [] \<Rightarrow> (False, []));
         (base, ds) = (case u of
             c # x # r \<Rightarrow> (if c = CHR ''0'' \<and> to_lower x = CHR ''x'' then (16, r) else if c = CHR ''0'' then (8, u) else (10, u))
           | c # r \<Rightarrow> (10, u)
           | [] \<Rightarrow> (10, u));
         digits = takeWhile (base_digit base) ds;
         v = (if neg then - int (base_val base digits) else int (base_val base digits))
     in if digits = [] then None else Some (to_int32 (max (- (2 ^ 63)) (min (2 ^ 63 - 1) v))))"

text \<open>One line: the first preference whose tag is in the line with an equals sign behind it. A string needs the end of the
  line, otherwise the search goes on.\<close>

fun pref_line :: "string \<Rightarrow> pref_id list \<Rightarrow> prefs \<Rightarrow> prefs" where
  "pref_line line [] pf = pf"
| "pref_line line (i # is) pf =
    (case strstr line (pref_tag i) of
       None \<Rightarrow> pref_line line is pf
     | Some p \<Rightarrow>
         (case strstr p ''='' of
            None \<Rightarrow> pref_line line is pf
          | Some e \<Rightarrow>
              (let q = tl e
               in case pref_kind i of
                    STRING \<Rightarrow> (if LF \<in> set q then pf(i \<mapsto> Str_data (takeWhile (\<lambda>c. c \<noteq> LF) q)) else pref_line line is pf)
                  | INTEGER \<Rightarrow> (case scan_i q of None \<Rightarrow> pf | Some l \<Rightarrow> pf(i \<mapsto> Int_data l)))))"

definition conf_line :: "string \<Rightarrow> prefs \<Rightarrow> prefs" where
  "conf_line chunk pf =
    (let line = c_str chunk in if line \<noteq> [] \<and> hd line = CHR ''#'' then pf else pref_line line all_prefs pf)"

text \<open>The host name: \<open>getdomainname\<close> writes behind the terminating character, so a domain that is found is not
  seen; when it fails the terminating character becomes a point and what \<open>line\<close> held behind it (\<open>behind\<close>) is taken along.\<close>

definition host_line :: "string \<Rightarrow> bool \<Rightarrow> string \<Rightarrow> string" where
  "host_line host domain_ok behind = (if domain_ok then host else host @ ''.'' @ c_str behind)"

text \<open>\<open>cfile\<close> gives the contents of the files that can be opened.\<close>

definition prefs_init ::
    "build_config \<Rightarrow> (string \<Rightarrow> string option) \<Rightarrow> string \<Rightarrow> bool \<Rightarrow> string \<Rightarrow> string option \<Rightarrow> prefs \<Rightarrow> prefs" where
  "prefs_init d cfile host domain_ok behind fileconf pf =
    (let pf1 = prefs_use_default d None pf;
         opened = (case Option.bind fileconf cfile of Some s \<Rightarrow> Some s | None \<Rightarrow> cfile (FENICE_CONF_PATH_DEFAULT_STR d));
         pf2 = (case opened of None \<Rightarrow> pf1 | Some s \<Rightarrow> fold conf_line (chunks s) pf1)
     in pf2(PREFS_HOSTNAME \<mapsto> Str_data (host_line host domain_ok behind)))"

section \<open>The command line\<close>

text \<open>The options as \<open>getopt_long\<close> delivers them.\<close>

record options_state =
  opt_flag :: bool
  opt_nerr :: uint32
  opt_noconf :: bool
  opt_view :: bool
  opt_prefs :: prefs

definition option_step :: "(string option \<Rightarrow> prefs \<Rightarrow> prefs) \<Rightarrow> char \<times> string \<Rightarrow> options_state \<Rightarrow> options_state" where
  "option_step init opt st =
    (let st1 = st\<lparr>opt_flag := True\<rparr>; n = fst opt
     in if n = CHR 0x00 then st1
        else if n = CHR ''c'' then st1\<lparr>opt_prefs := init (Some (snd opt)) (opt_prefs st1), opt_noconf := False\<rparr>
        else if n = CHR ''v'' then st1\<lparr>opt_view := True\<rparr>
        else if n = CHR ''p'' \<or> n = CHR ''r'' \<or> n = CHR '':'' then st1
        else if n = CHR 0x3F then st1\<lparr>opt_flag := False, opt_nerr := opt_nerr st1 + 1\<rparr>
        else st1\<lparr>opt_nerr := opt_nerr st1 + 1\<rparr>)"

definition command_environment :: "(string option \<Rightarrow> prefs \<Rightarrow> prefs) \<Rightarrow> (char \<times> string) list \<Rightarrow> prefs \<Rightarrow> prefs \<times> uint32" where
  "command_environment init opts pf =
    (let st = fold (option_step init) opts
                \<lparr>opt_flag = False, opt_nerr = 0, opt_noconf = True, opt_view = False, opt_prefs = pf\<rparr>
     in if \<not> opt_flag st then (opt_prefs st, opt_nerr st + 1)
        else ((if opt_noconf st then init None (opt_prefs st) else opt_prefs st), opt_nerr st))"

section \<open>TCP sockets\<close>

text \<open>What the calls answer: the descriptor of \<open>socket\<close> and whether the others succeed. A failure does not close the
  socket.\<close>

record tcp_sys =
  tcp_socket :: int
  tcp_bind_ok :: bool
  tcp_ioctl_ok :: bool
  tcp_listen_ok :: bool

definition tcp_listen :: "tcp_sys \<Rightarrow> uint16 \<Rightarrow> int" where
  "tcp_listen sys port =
    (if tcp_socket sys < 0 then ERR_GENERIC
     else if \<not> tcp_bind_ok sys then ERR_GENERIC
     else if \<not> tcp_ioctl_ok sys then ERR_GENERIC
     else if \<not> tcp_listen_ok sys then ERR_GENERIC
     else tcp_socket sys)"

text \<open>\<open>tcp_connect\<close>: \<open>tcp_bind_ok\<close> and \<open>tcp_listen_ok\<close> are the outcomes of \<open>connect\<close> and the last \<open>setsockopt\<close>.\<close>

definition tcp_connect :: "tcp_sys \<Rightarrow> uint16 \<Rightarrow> string \<Rightarrow> int" where
  "tcp_connect sys port addr =
    (if tcp_socket sys < 0 then ERR_GENERIC
     else if \<not> tcp_ioctl_ok sys then ERR_GENERIC
     else if \<not> tcp_bind_ok sys then ERR_GENERIC
     else if \<not> tcp_listen_ok sys then ERR_GENERIC
     else tcp_socket sys)"

text \<open>The address of the host in dotted notation: on a little-endian machine the lowest byte comes first.\<close>

definition get_address :: "uint32 \<Rightarrow> string" where
  "get_address InAddr =
    dec (uint (and InAddr 0xFF)) @ ''.'' @ dec (uint (drop_bit 8 (and InAddr 0xFF00))) @ ''.'' @
    dec (uint (drop_bit 16 (and InAddr 0xFF0000))) @ ''.'' @ dec (uint (drop_bit 24 (and InAddr 0xFF000000)))"

section \<open>The main program\<close>

text \<open>The server gets to its loop only when the command line had no error, the port can be listened to and the scheduler's
  thread started (\<open>thread_ok\<close>).\<close>

definition server_main ::
    "(string option \<Rightarrow> prefs \<Rightarrow> prefs) \<Rightarrow> tcp_sys \<Rightarrow> bool \<Rightarrow> (char \<times> string) list \<Rightarrow> (prefs \<times> int \<times> 'st fenice) option" where
  "server_main init sys thread_ok opts =
    (let (pf, nerr) = command_environment init opts (\<lambda>_. None)
     in if nerr \<noteq> 0 then None
        else
          (case get_pref PREFS_TCP_PORT pf of
             Some (Int_data port) \<Rightarrow>
               (let main_fd = tcp_listen sys (word_of_int port)
                in if main_fd < 0 \<or> \<not> thread_ok then None else Some (pf, main_fd, fenice_start))
           | _ \<Rightarrow> None))"

section \<open>A line of the configuration\<close>

lemma strstr_suffix: "strstr s pat = Some p \<Longrightarrow> set p \<subseteq> set s"
  by (induction s) (auto split: if_split_asm)

lemma strstr_absent: "c \<notin> set s \<Longrightarrow> strstr s [c] = None"
  by (induction s) auto

lemma no_equals: "CHR ''='' \<notin> set s \<Longrightarrow> (case strstr s pat of None \<Rightarrow> x | Some p \<Rightarrow> (case strstr p ''='' of None \<Rightarrow> x | Some e \<Rightarrow> f e)) = x"
proof (cases "strstr s pat")
  case (Some p)
  then have "CHR ''='' \<notin> set p" if "CHR ''='' \<notin> set s" using strstr_suffix that by blast
  then show "CHR ''='' \<notin> set s \<Longrightarrow> ?thesis" by (simp add: Some strstr_absent)
qed simp

text \<open>A log file whose name has no equals sign is set, and nothing else, although the name may contain the tags of other
  preferences.\<close>

lemma log_line:
  assumes v: "CHR ''='' \<notin> set v" "LF \<notin> set v" "NUL \<notin> set v"
  shows "conf_line (''log_file='' @ v @ [LF]) pf = pf(PREFS_LOG \<mapsto> Str_data v)"
proof -
  have eq: "CHR ''='' \<notin> set (v @ [LF])" using v(1) by (simp add: LF_def)
  have c: "c_str (''log_file='' @ v @ [LF]) = ''log_file='' @ v @ [LF]"
    using v(3) by (auto simp: c_str_def NUL_def LF_def takeWhile_eq_all_conv)
  have skip: "strstr (''log_file='' @ v @ [LF]) pat = strstr (v @ [LF]) pat" if "pat \<in> {''root'', ''tcp_port'', ''sctp_port'', ''max_session''}" for pat
    using that by (elim insertE emptyE) simp_all
  have "pref_line (''log_file='' @ v @ [LF]) all_prefs pf = pref_line (''log_file='' @ v @ [LF]) [PREFS_LOG, PREFS_HOSTNAME] pf"
    unfolding all_prefs_def pref_line.simps pref_tag.simps by (simp only: skip insert_iff simp_thms no_equals [OF eq])
  also have "\<dots> = pf(PREFS_LOG \<mapsto> Str_data v)" using v(2) by simp
  finally show ?thesis by (simp add: conf_line_def c [simplified])
qed

text \<open>Started without an option, the server prints how to use it and ends.\<close>

lemma no_option_no_server: "server_main init sys ok [] = None"
proof -
  have "command_environment init [] pf = (pf, 1)" for pf by (simp add: command_environment_def)
  then show ?thesis
    unfolding server_main_def Let_def by (simp only: split_conv one_neq_zero simp_thms if_True)
qed

end
