(* ===== verification/Connection_Types.thy ===== *)
theory Connection_Types
  imports Table_Safety
begin

text \<open>
  What every connection keeps: the state machine (\<^verbatim>\<open>rtsp/RTSP_state_machine.c\<close>) moves along the table of
  the protocol and never leaves its three states, and the replies never run over the output buffer
  (\<^verbatim>\<open>rtsp/bwrite.c\<close>, \<^verbatim>\<open>eventloop/rtsp_server.c\<close>).
\<close>

section \<open>Writing to a connection\<close>

text \<open>The session stays as it is, the output buffer keeps its length and what waits in it fits.\<close>

definition out_fits :: "RTSP_buffer \<Rightarrow> bool" where
  "out_fits r \<longleftrightarrow> length (out_buffer r) = RTSP_BUFFERSIZE + MAX_DESCR_LENGTH \<and> out_size r \<le> RTSP_BUFFERSIZE + MAX_DESCR_LENGTH"

definition talks :: "RTSP_buffer \<Rightarrow> RTSP_buffer \<Rightarrow> bool" where
  "talks r r' \<longleftrightarrow> session_list r' = session_list r \<and> (out_fits r \<longrightarrow> out_fits r')"

lemma talks_refl [simp, intro]: "talks r r"
  by (simp add: talks_def)

lemma talks_trans [trans]: "talks r s \<Longrightarrow> talks s t \<Longrightarrow> talks r t"
  by (simp add: talks_def)

lemma talks_same:
  "session_list r' = session_list r \<Longrightarrow> out_buffer r' = out_buffer r \<Longrightarrow> out_size r' \<le> out_size r \<Longrightarrow> talks r r'"
  by (auto simp: talks_def out_fits_def)

lemma bwrite_talks [simp]: "talks r (fst (bwrite s r))"
  by (auto simp: talks_def out_fits_def bwrite_def Let_def)

lemma send_reply_talks [simp]: "talks r (fst (send_reply st a r))"
  by (simp add: send_reply_def)

lemma replies_talk [simp]:
  "talks r (fst (send_options_reply n r))"
  "talks r (fst (send_pause_reply cfg now s r))"
  "talks r (fst (send_teardown_reply cfg now i n r))"
  "talks r (fst (send_setup_reply cfg now s d p r))"
  "talks r (fst (send_redirect_3xx cfg f r))"
  by (simp_all add: send_options_reply_def send_pause_reply_def send_teardown_reply_def send_setup_reply_def
      send_redirect_3xx_def Let_def split: option.split)

lemma describe_reply_talks: "send_describe_reply cfg now ob fm t r = Some (r', x) \<Longrightarrow> talks r r'"
  by (auto simp: send_describe_reply_def split: option.splits)

lemma play_reply_talks: "send_play_reply cfg now s l r = Some (r', x) \<Longrightarrow> talks r r'"
  by (auto simp: send_play_reply_def Let_def split: option.splits)

lemma get_cseq_talks: "get_cseq r = Some r' \<Longrightarrow> talks r r'"
  by (auto simp: get_cseq_def split: option.splits prod.splits list.splits scan_val.splits intro: talks_same)

lemma setup_cseq_talks: "setup_cseq r = Some r' \<Longrightarrow> talks r r'"
  by (auto simp: setup_cseq_def split: option.splits prod.splits list.splits scan_val.splits intro: talks_same)

lemma redirect_talks: "send_redirect_3xx cfg f r = (r', x) \<Longrightarrow> talks r r'"
  by (metis fst_conv replies_talk(5))

lemma validate_talks: "RTSP_validate_method r = (r', m) \<Longrightarrow> talks r r'"
  by (auto simp: RTSP_validate_method_def split: prod.splits list.splits scan_val.splits if_splits intro: talks_same)

lemma discard_talks: "talks r (RTSP_discard_msg r)"
  by (auto simp: RTSP_discard_msg_def RTSP_remove_msg_def Let_def split: prod.split option.split intro!: talks_same)

text \<open>A reply behind other calls.\<close>

lemma talks_reply: "talks r s \<Longrightarrow> talks r (fst (send_reply st a s))"
  using send_reply_talks talks_trans by blast

lemmas talk_intros = talks_reply talks_trans [OF _ replies_talk(1)] talks_trans [OF _ replies_talk(2)]

section \<open>The methods\<close>

lemma options_talks: "RTSP_options r = Some (r', ret) \<Longrightarrow> talks r r'"
  by (auto simp: RTSP_options_def Let_def bind_eq_Some_conv split: option.splits dest!: get_cseq_talks intro: talk_intros)

lemma describe_talks: "RTSP_describe env sv r = Some (sv', r', ret) \<Longrightarrow> talks r r'"
  unfolding RTSP_describe_def Let_def refuse_def
  by (auto split: sum.split_asm if_split_asm option.split_asm Option.bind_split_asm prod.split_asm
      dest!: get_cseq_talks redirect_talks describe_reply_talks intro: talk_intros talks_trans)

lemma play_talks: "RTSP_play env sv r = Some (sv', r', ret) \<Longrightarrow> talks r r'"
  unfolding RTSP_play_def Let_def refuse_def
  by (auto split: sum.split_asm if_split_asm option.split_asm Option.bind_split_asm prod.split_asm
      dest!: get_cseq_talks play_reply_talks intro: talk_intros talks_trans)

lemma pause_talks: "RTSP_pause env sv r = Some (sv', r', ret) \<Longrightarrow> talks r r'"
  unfolding RTSP_pause_def Let_def refuse_def
  by (auto split: sum.split_asm if_split_asm option.split_asm Option.bind_split_asm prod.split_asm
      dest!: get_cseq_talks intro: talk_intros)

text \<open>An operation that may end the session, but does not change its state, and its use by the state machine.\<close>

definition state_of :: "RTSP_buffer \<Rightarrow> int option" where
  "state_of r = map_option cur_state (session_list r)"

lemma talks_state: "talks r r' \<Longrightarrow> state_of r = Some k \<Longrightarrow> state_of r' = Some k"
  by (simp add: talks_def state_of_def)

lemma talks_out: "talks r r' \<Longrightarrow> out_fits r \<Longrightarrow> out_fits r'"
  by (simp add: talks_def)

lemma out_fits_session [simp]: "out_fits (r\<lparr>session_list := x\<rparr>) = out_fits r"
  by (simp add: out_fits_def)

lemma out_fits_set_state [simp]: "out_fits (set_state st r) = out_fits r"
  by (simp add: out_fits_def set_state_def)

lemma state_set_state [simp]: "state_of (set_state st r) = map_option (\<lambda>_. st) (state_of r)"
  by (simp add: state_of_def set_state_def option.map_comp comp_def)

locale session_op =
  fixes run :: "'st server \<Rightarrow> RTSP_buffer \<Rightarrow> ('st server \<times> RTSP_buffer \<times> int) option" and ends :: bool
  assumes out: "run sv r = Some (sv', r', ret) \<Longrightarrow> out_fits r \<Longrightarrow> out_fits r'"
    and state: "run sv r = Some (sv', r', ret) \<Longrightarrow> state_of r = Some k \<Longrightarrow>
      state_of r' = Some k \<or> ends \<and> state_of r' = None"
begin

lemma then_moves:
  "then_state st (run sv r) = Some (sv', r') \<Longrightarrow> state_of r = Some k \<Longrightarrow>
   state_of r' = Some k \<or> state_of r' = Some st \<or> ends \<and> state_of r' = None"
  by (auto simp: then_state_def split: if_split_asm dest: state)

lemma then_out: "then_state st (run sv r) = Some (sv', r') \<Longrightarrow> out_fits r \<Longrightarrow> out_fits r'"
  using out by (auto simp: then_state_def)

lemma no_moves:
  "no_state (run sv r) = Some (sv', r') \<Longrightarrow> state_of r = Some k \<Longrightarrow> state_of r' = Some k \<or> ends \<and> state_of r' = None"
  by (auto simp: no_state_def dest: state)

lemma no_out: "no_state (run sv r) = Some (sv', r') \<Longrightarrow> out_fits r \<Longrightarrow> out_fits r'"
  using out by (auto simp: no_state_def)

end

interpretation options_session: session_op "\<lambda>sv r. map_option (\<lambda>(r1, ret). (sv, r1, ret)) (RTSP_options r)" False
  by unfold_locales (auto dest: options_talks talks_state talks_out)

interpretation describe_session: session_op "RTSP_describe env" False for env
  by unfold_locales (auto dest: describe_talks talks_state talks_out)

interpretation play_session: session_op "RTSP_play env" False for env
  by unfold_locales (auto dest: play_talks talks_state talks_out)

interpretation pause_session: session_op "RTSP_pause env" False for env
  by unfold_locales (auto dest: pause_talks talks_state talks_out)

text \<open>The reply to TEARDOWN, and the list of streams behind it.\<close>

definition may_end :: "RTSP_buffer \<Rightarrow> RTSP_buffer \<Rightarrow> bool" where
  "may_end r r' \<longleftrightarrow> (out_fits r \<longrightarrow> out_fits r') \<and> (\<forall>k. state_of r = Some k \<longrightarrow> state_of r' = Some k \<or> state_of r' = None)"

lemma talks_may_end: "talks r r' \<Longrightarrow> may_end r r'"
  by (simp add: may_end_def talks_state talks_out)

lemma teardown_reply_may_end:
  assumes "talks r r0" and "session_list r0 = Some s"
  shows "may_end r ((fst (send_teardown_reply c n i q r0))\<lparr>session_list := None\<rparr>)"
    and "may_end r ((fst (send_teardown_reply c n i q r0))\<lparr>session_list := Some (s\<lparr>rtp_list := l\<rparr>)\<rparr>)"
proof -
  have "talks r (fst (send_teardown_reply c n i q r0))" using assms(1) replies_talk(3) talks_trans by blast
  moreover have "session_list r = Some s" using assms by (simp add: talks_def)
  ultimately show "may_end r ((fst (send_teardown_reply c n i q r0))\<lparr>session_list := None\<rparr>)"
    and "may_end r ((fst (send_teardown_reply c n i q r0))\<lparr>session_list := Some (s\<lparr>rtp_list := l\<rparr>)\<rparr>)"
    by (auto simp: may_end_def state_of_def dest: talks_out)
qed

lemma teardown_may_end: "RTSP_teardown env sv r = Some (sv', r', ret) \<Longrightarrow> may_end r r'"
  unfolding RTSP_teardown_def Let_def refuse_def
  by (auto split: sum.split_asm if_split_asm option.split_asm Option.bind_split_asm prod.split_asm
      dest!: get_cseq_talks intro: talks_may_end talk_intros teardown_reply_may_end)

interpretation teardown_session: session_op "RTSP_teardown env" True for env
  by unfold_locales (auto dest!: teardown_may_end simp: may_end_def)

section \<open>SETUP\<close>

text \<open>Lists of interleaved channels change; the session and the output do not.\<close>

lemma try_talks:
  assumes "try_transport env host ob k tok n = Some (n', v)"
  shows "talks (n_conn n) (n_conn n')"
proof -
  consider "try_unicast env host tok n = Some (n', v)" | "try_multicast env ob k n = Some (n', v)"
    | "try_interleaved env tok n = Some (n', v)" | "n' = n"
    using assms unfolding try_transport_def Let_def by (auto split: option.split_asm if_split_asm)
  then show ?thesis
  proof cases
    case 1
    then show ?thesis unfolding try_unicast_def Let_def
      by (auto split: Option.bind_split_asm option.split_asm if_split_asm prod.split_asm)
  next
    case 2
    then show ?thesis unfolding try_multicast_def Let_def
      by (auto split: option.split_asm if_split_asm prod.split_asm)
  next
    case 3
    then show ?thesis unfolding try_interleaved_def Let_def
      by (auto split: Option.bind_split_asm option.split_asm if_split_asm prod.split_asm intro: talks_same)
  qed simp
qed

lemma negotiate_talks:
  "negotiate env host ob k toks n = Some (n', v) \<Longrightarrow> talks (n_conn n) (n_conn n')"
proof (induction env host ob k toks n rule: negotiate.induct)
  case (2 env host ob k tok toks n)
  from "2.prems" obtain n1 u where t: "try_transport env host ob k tok n = Some (n1, u)"
    and r: "(if u = Next then negotiate env host ob k toks n1 else Some (n1, u)) = Some (n', v)"
    by (auto split: Option.bind_split_asm prod.split_asm)
  show ?case using try_talks [OF t] r "2.IH" [OF t refl] by (auto split: if_splits intro: talks_trans)
qed simp

text \<open>The reply of a session that has got a stream more.\<close>

lemma may_end_trans: "talks r r0 \<Longrightarrow> may_end r0 r' \<Longrightarrow> may_end r r'"
  by (simp add: may_end_def talks_state talks_out)

definition stays :: "RTSP_buffer \<Rightarrow> RTSP_buffer \<Rightarrow> bool" where
  "stays r r' \<longleftrightarrow> (out_fits r \<longrightarrow> out_fits r') \<and> (\<forall>k. state_of r = Some k \<longrightarrow> state_of r' = Some k)"

lemma talks_stays: "talks r r' \<Longrightarrow> stays r r'"
  by (simp add: stays_def talks_state talks_out)

lemma stays_trans: "stays r r0 \<Longrightarrow> stays r0 r' \<Longrightarrow> stays r r'"
  by (simp add: stays_def)

lemma stays_session:
  assumes "\<And>s. session_list r = Some s \<Longrightarrow> cur_state s' = cur_state s"
  shows "stays r (r\<lparr>session_list := Some s'\<rparr>)"
  using assms by (auto simp: stays_def state_of_def)

lemma setup_reply_stays: "stays r q \<Longrightarrow> stays r (fst (send_setup_reply c n s d p q))"
  by (blast intro: stays_trans talks_stays replies_talk(4))

lemma send_reply_stays: "stays r q \<Longrightarrow> stays r (fst (send_reply st a q))"
  by (blast intro: stays_trans talks_stays send_reply_talks)

lemma add_session_stays: "add_session env ob k sid n = Some (sv', r', ret) \<Longrightarrow> stays (n_conn n) r'"
  unfolding add_session_def Let_def
  by (auto split: Option.bind_split_asm prod.split_asm if_split_asm option.split_asm
      intro!: setup_reply_stays send_reply_stays stays_session)

lemma talks_chain: "talks q r \<Longrightarrow> talks r s \<Longrightarrow> stays q s" "talks q r \<Longrightarrow> talks r s \<Longrightarrow> stays q (fst (send_reply st a s))"
  by (blast intro: talks_stays talks_trans talks_reply)+

lemma talks_stays_trans: "talks p q \<Longrightarrow> talks q r \<Longrightarrow> stays r s \<Longrightarrow> stays p s"
  by (blast intro: talks_stays talks_trans stays_trans)

lemma setup_medium_stays: "setup_medium env ob k sv r = Some (sv', r', ret) \<Longrightarrow> stays r r'"
  unfolding setup_medium_def refuse_def
  by (auto split: option.split_asm sum.split_asm Option.bind_split_asm verdict.split_asm prod.split_asm
      dest!: setup_cseq_talks negotiate_talks add_session_stays
      intro: talks_stays talks_reply talks_chain talks_stays_trans)

lemma setup_stays: "RTSP_setup env sv r = Some (sv', r', ret) \<Longrightarrow> stays r r'"
  unfolding RTSP_setup_def Let_def refuse_def
  by (auto split: sum.split_asm if_split_asm option.split_asm Option.bind_split_asm prod.split_asm
      dest!: redirect_talks setup_medium_stays intro: talks_stays talks_reply)

interpretation setup_session: session_op "RTSP_setup env" False for env
  by unfold_locales (auto dest!: setup_stays simp: stays_def)

section \<open>The state machine\<close>

text \<open>The table of the protocol: the state a method may lead to, beside the one it is used in.\<close>

definition server_table :: "int \<Rightarrow> int \<Rightarrow> int" where
  "server_table k m =
    (if k = INIT_STATE \<and> m = RTSP_ID_SETUP then READY_STATE
     else if k = READY_STATE \<and> m = RTSP_ID_PLAY then PLAY_STATE
     else if k = PLAY_STATE \<and> m = RTSP_ID_PAUSE then READY_STATE
     else k)"

lemmas state_defs = INIT_STATE_def READY_STATE_def PLAY_STATE_def

lemmas method_id_defs = RTSP_ID_DESCRIBE_def RTSP_ID_SETUP_def RTSP_ID_TEARDOWN_def RTSP_ID_OPTIONS_def
  RTSP_ID_PLAY_def RTSP_ID_PAUSE_def

lemmas method_moves =
  options_session.then_moves [simplified] describe_session.no_moves play_session.then_moves pause_session.then_moves
  teardown_session.no_moves setup_session.then_moves

lemmas method_out =
  options_session.then_out options_session.then_out [simplified] describe_session.no_out play_session.then_out pause_session.then_out
  teardown_session.no_out setup_session.then_out

lemma reply_state [simp]: "state_of (fst (send_reply st a r)) = state_of r"
  using send_reply_talks [of r st a] by (simp add: talks_def state_of_def)

lemma init_moves:
  assumes "init_method env m sv r = Some (sv', r')" and "state_of r = Some INIT_STATE"
  shows "state_of r' = Some INIT_STATE \<or> state_of r' = Some (server_table INIT_STATE m) \<or> m = RTSP_ID_TEARDOWN \<and> state_of r' = None"
  using assms unfolding init_method_def Let_def
  by (auto simp: server_table_def state_defs split: if_split_asm dest: method_moves)

lemma ready_moves:
  assumes "ready_method env m sv r = Some (sv', r')" and "state_of r = Some READY_STATE"
  shows "state_of r' = Some READY_STATE \<or> state_of r' = Some (server_table READY_STATE m) \<or> m = RTSP_ID_TEARDOWN \<and> state_of r' = None"
  using assms unfolding ready_method_def Let_def
  by (auto simp: server_table_def state_defs split: if_split_asm dest: method_moves)

lemma play_moves:
  assumes "play_method env m sv r = Some (sv', r')" and "state_of r = Some PLAY_STATE"
  shows "state_of r' = Some PLAY_STATE \<or> state_of r' = Some (server_table PLAY_STATE m) \<or> m = RTSP_ID_TEARDOWN \<and> state_of r' = None"
  using assms unfolding play_method_def Let_def
  by (auto simp: server_table_def state_defs split: if_split_asm dest: method_moves)

lemma machine_moves:
  assumes run: "RTSP_state_machine env m sv r = Some (sv', r')" and k: "state_of r = Some k" "k \<in> {INIT_STATE, READY_STATE, PLAY_STATE}"
  shows "state_of r' = Some k \<or> state_of r' = Some (server_table k m) \<or> m = RTSP_ID_TEARDOWN \<and> state_of r' = None"
proof (cases "get_session r")
  case Inl
  then show ?thesis using run k(1) by (auto simp: RTSP_state_machine_def)
next
  case Inr
  obtain s where s: "session_list r = Some s" "cur_state s = k" using k(1) by (auto simp: state_of_def)
  have [simp]: "READY_STATE \<noteq> INIT_STATE" "PLAY_STATE \<noteq> INIT_STATE" "PLAY_STATE \<noteq> READY_STATE" by (simp_all add: state_defs)
  have "k = INIT_STATE \<and> init_method env m sv r = Some (sv', r') \<or> k = READY_STATE \<and> ready_method env m sv r = Some (sv', r')
    \<or> k = PLAY_STATE \<and> play_method env m sv r = Some (sv', r')"
    using run k(2) Inr s by (auto simp: RTSP_state_machine_def)
  then show ?thesis using k(1) init_moves [of env m sv r] ready_moves [of env m sv r] play_moves [of env m sv r] by blast
qed

lemma machine_out:
  assumes "RTSP_state_machine env m sv r = Some (sv', r')" and "out_fits r"
  shows "out_fits r'"
  using assms unfolding RTSP_state_machine_def init_method_def ready_method_def play_method_def Let_def
  by (auto split: sum.split_asm option.split_asm if_split_asm intro: method_out talks_out [OF send_reply_talks])

lemma machine_none:
  assumes "RTSP_state_machine env m sv r = Some (sv', r')" and "state_of r = None"
  shows "state_of r' = None"
  using assms unfolding RTSP_state_machine_def state_of_def
  by (auto split: sum.split_asm option.split_asm)

text \<open>C11: whatever a request contains and whatever the system answers, the method moves a connection only as the
  table of the protocol says: SETUP from the initial to the ready state, PLAY from ready to playing, PAUSE from playing
  to ready; any other method, and a method that fails, leaves the state; and only TEARDOWN ends the session.\<close>

theorem machine_transitions:
  assumes "RTSP_state_machine env m sv r = Some (sv', r')" and "session_list r = Some s"
    and "cur_state s \<in> {INIT_STATE, READY_STATE, PLAY_STATE}"
  shows "(\<exists>s'. session_list r' = Some s' \<and> (cur_state s' = cur_state s \<or> cur_state s' = server_table (cur_state s) m)) \<or>
    m = RTSP_ID_TEARDOWN \<and> session_list r' = None"
proof -
  have "state_of r = Some (cur_state s)" using assms(2) by (simp add: state_of_def)
  from machine_moves [OF assms(1) this assms(3)] show ?thesis by (auto simp: state_of_def)
qed

text \<open>A client that asks for PLAY before SETUP.\<close>

definition fresh_conn :: RTSP_buffer where
  "fresh_conn = RTSP_initserver 5 TCP (zero_RTSP_buffer\<lparr>in_buffer := ''PLAY rtsp://h/a.sd RTSP/1.0'', in_size := 27\<rparr>)"

lemma early_play: "RTSP_state_machine env RTSP_ID_PLAY (empty_server :: nat server) fresh_conn =
    Some (empty_server, reply 455 fresh_conn)"
proof -
  have "get_session fresh_conn = Inr None" by code_simp
  then show ?thesis
    by (simp add: RTSP_state_machine_def init_method_def fresh_conn_def RTSP_initserver_def zero_RTSP_session_def
        INIT_STATE_def method_id_defs)
qed

lemma machine_transitions_witness:
  "\<exists>s'. session_list (reply 455 fresh_conn) = Some s' \<and> cur_state s' \<in> {INIT_STATE, server_table INIT_STATE RTSP_ID_PLAY}"
proof -
  have s: "session_list fresh_conn = Some (zero_RTSP_session\<lparr>session_id := - 1\<rparr>)" by (simp add: fresh_conn_def RTSP_initserver_def)
  have c: "cur_state (zero_RTSP_session\<lparr>session_id := - 1\<rparr>) = INIT_STATE" by (simp add: zero_RTSP_session_def INIT_STATE_def)
  show ?thesis using machine_transitions [OF early_play s] by (auto simp: c method_id_defs)
qed

section \<open>The types of a connection\<close>

text \<open>One of the three states, and an output buffer that is not overrun.\<close>

definition conn_typed :: "RTSP_buffer \<Rightarrow> bool" where
  "conn_typed r \<longleftrightarrow> out_fits r \<and> (\<forall>k. state_of r = Some k \<longrightarrow> k \<in> {INIT_STATE, READY_STATE, PLAY_STATE})"

lemma table_typed: "k \<in> {INIT_STATE, READY_STATE, PLAY_STATE} \<Longrightarrow> server_table k m \<in> {INIT_STATE, READY_STATE, PLAY_STATE}"
  by (simp add: server_table_def)

lemma talks_typed: "talks r r' \<Longrightarrow> conn_typed r \<Longrightarrow> conn_typed r'"
  by (simp add: conn_typed_def talks_def state_of_def)

lemma set_state_typed: "st \<in> {INIT_STATE, READY_STATE, PLAY_STATE} \<Longrightarrow> conn_typed r \<Longrightarrow> conn_typed (set_state st r)"
  by (auto simp: conn_typed_def)

lemma machine_typed:
  assumes "RTSP_state_machine env m sv r = Some (sv', r')" and t: "conn_typed r"
  shows "conn_typed r'"
proof (cases "state_of r")
  case None
  then show ?thesis using machine_out [OF assms(1)] machine_none [OF assms(1)] t by (simp add: conn_typed_def)
next
  case (Some k)
  then have k: "k \<in> {INIT_STATE, READY_STATE, PLAY_STATE}" using t by (simp add: conn_typed_def)
  from machine_moves [OF assms(1) Some k] table_typed [OF k, of m] k
  show ?thesis using machine_out [OF assms(1)] t by (auto simp: conn_typed_def)
qed

lemma handle_typed:
  assumes t: "conn_typed r" and run: "handle_message env junk kind lens sv r = Some (sv', r')"
  shows "conn_typed r'"
proof -
  have v: "conn_typed r0" if "RTSP_validate_method r = (r0, m)" for r0 m
    using talks_typed [OF validate_talks [OF that] t] .
  have d: "conn_typed (RTSP_discard_msg q)" if "conn_typed q" for q
    using talks_typed [OF discard_talks that] .
  have w: "conn_typed (fst (send_reply st a q))" if "conn_typed q" for st a q
    using talks_typed [OF send_reply_talks that] .
  show ?thesis using run t unfolding handle_message_def Let_def
    by (auto split: Option.bind_split_asm prod.split_asm if_split_asm dest!: v intro!: d w intro: machine_typed)
qed

lemma handler_typed:
  assumes "RTSP_handler ev n sv r = Some x" and "conn_typed r"
  shows "conn_typed (fst (snd x))"
proof (rule RTSP_handler.raw_induct [OF _ assms(1), of "\<lambda>ev n sv r x. conn_typed r \<longrightarrow> conn_typed (fst (snd x))",
      rule_format], goal_cases)
  case (1 rec ev n sv r x)
  note IH = 1(1) [rule_format]
  show ?case using 1(2,3)
    by (auto split: if_split_asm prod.split_asm option.split_asm Option.bind_split_asm dest!: handle_typed [OF 1(3)] dest: IH)
next
  case 2
  then show ?case by (rule assms(2))
qed

section \<open>The main thread\<close>

lemma send_talks: "RTSP_send k r = (r', w, n) \<Longrightarrow> talks r r'"
  by (auto simp: RTSP_send_def Let_def split: if_splits RTSP_proto.splits option.splits intro: talks_same)

lemma frame_talks: "talks r (frame_out ch s r)"
  by (auto simp: talks_def frame_out_def out_fits_def Let_def RTSP_BUFFERSIZE_def MAX_DESCR_LENGTH_def min_def)

lemma forward_talks: "forward io rset k ils r = (r', w, ok) \<Longrightarrow> talks r r'"
proof (induction ils arbitrary: k r r' w ok)
  case (Cons il ils)
  let ?ch = "if ilv_rtcp_fd il \<in> set rset then rtcp_ch il else rtp_ch il"
  consider "r' = r" | "forward io rset (k + 1) ils r = (r', w, ok)"
    | s r1 w1 n where "RTSP_send (pair_sent io k) (frame_out ?ch s r) = (r1, w1, n)" "r' = reply 500 r1"
    | s r1 w1 n w2 where "RTSP_send (pair_sent io k) (frame_out ?ch s r) = (r1, w1, n)" "forward io rset (k + 1) ils r1 = (r', w2, ok)"
    using Cons.prems unfolding forward.simps(2) Let_def
    by (force split: if_split_asm option.split_asm prod.split_asm)
  then show ?case by cases (blast dest: send_talks Cons.IH intro: talks_trans talks_reply frame_talks)+
qed simp

lemma serve_streams_typed:
  assumes "conn_typed r" and "serve_streams io rset w sv r = Some (sv', r', w', res)"
  shows "conn_typed r'"
  using assms unfolding serve_streams_def Let_def
  by (auto split: prod.split_asm if_split_asm Option.bind_split_asm dest!: forward_talks intro: talks_typed)

lemma server_typed:
  assumes t: "conn_typed r" and run: "rtsp_server io rset wset sv r = Some (sv', r', w, res)"
  shows "conn_typed r'"
proof -
  obtain r1 w1 n where r1: "(if rtsp_fd r \<in> set wset then RTSP_send (sent io) r else (r, [], 0)) = (r1, w1, n)"
    by (metis prod_cases3)
  have t1: "conn_typed r1" using t r1 by (auto split: if_splits intro: talks_typed dest: send_talks)
  have w: "conn_typed (fst (send_reply st a q))" if "conn_typed q" for st a q
    using talks_typed [OF send_reply_talks that] .
  have h: "conn_typed r2"
    if "RTSP_handler (rounds io) 0 sv (r1\<lparr>in_buffer := b, in_size := k\<rparr>) = Some (sv2, r2, x)" for sv2 r2 x b k
  proof -
    have "conn_typed (r1\<lparr>in_buffer := b, in_size := k\<rparr>)" by (rule talks_typed [OF talks_same t1]) simp_all
    then show ?thesis using handler_typed [OF that] by simp
  qed
  show ?thesis using run t1 unfolding rtsp_server_def r1 Let_def prod.case
    by (auto split: if_split_asm option.split_asm Option.bind_split_asm prod.split_asm dest!: h
        intro: serve_streams_typed w)
qed

lemma serve_typed: "conn_typed r \<Longrightarrow> serve_connection io rset wset sv r = Some (sv', Some r', w) \<Longrightarrow> conn_typed r'"
  by (auto simp: serve_connection_def split: Option.bind_split_asm prod.split_asm if_split_asm intro: server_typed)

lemma set_streams_typed: "set_streams as sv r = Some (r', fs) \<Longrightarrow> conn_typed r \<Longrightarrow> conn_typed r'"
proof (induction "as" arbitrary: r r' fs)
  case (Cons a as)
  then obtain r1 fs1 where "set_streams as sv r1 = Some (r', fs1)" "r1 = r \<or> r1 = set_state READY_STATE r"
    by (auto simp: Let_def split: Option.bind_split_asm prod.split_asm if_split_asm)
  then show ?case using Cons.IH Cons.prems(2) set_state_typed by blast
qed simp

lemma set_all_typed: "set_all sv l = Some (l', i, o') \<Longrightarrow> \<forall>r \<in> set l. conn_typed r \<Longrightarrow> \<forall>r \<in> set l'. conn_typed r"
proof (induction l arbitrary: l' i o')
  case (Cons r l)
  then obtain r1 i1 o1 l1 i2 o2 where "rtsp_set_fdsets sv r = Some (r1, i1, o1)" "set_all sv l = Some (l1, i2, o2)" "l' = r1 # l1"
    by (auto split: Option.bind_split_asm prod.split_asm)
  then show ?case using Cons
    by (auto simp: rtsp_set_fdsets_def split: Option.bind_split_asm prod.split_asm dest: set_streams_typed)
qed simp

lemma new_client_typed: "conn_typed (RTSP_initserver f p zero_RTSP_buffer)"
  by (simp add: conn_typed_def out_fits_def state_of_def RTSP_initserver_def zero_RTSP_buffer_def zero_RTSP_session_def INIT_STATE_def)

interpretation typed: step_system "\<lambda>s. s = fenice_start" fenice_step "\<lambda>sys. \<forall>r \<in> set (rtsp_list sys). conn_typed r"
proof (unfold_locales, goal_cases)
  case (1 s)
  then show ?case by (simp add: fenice_start_def)
next
  case (2 s t)
  from 2(2,1) show ?case
  proof (induction rule: fenice_step.induct)
    case (fdsets sys l rset wset)
    then show ?case using set_all_typed [OF fdsets(1)] by simp
  next
    case (serve sys "as" r bs io rset wset sv1 r1 w)
    then show ?case using serve_typed [OF _ serve(2)] by simp
  next
    case (close sys "as" r bs io rset wset sv1 w stop)
    then show ?case by simp
  next
    case (accept f forked sys)
    then show ?case by (auto simp: accept_client_def add_client_def Let_def new_client_typed)
  next
    case (visit i env sys sv1 w)
    then show ?case by simp
  qed
qed

text \<open>C10: in every state the two threads reach, every connection is well typed: its session, if it still has one, is
  in one of the three states of the protocol, the output buffer has its length, and \<open>out_size\<close> never exceeds it, also where
  the terminator of a text has fallen on \<open>out_size\<close> itself.\<close>

theorem connections_typed:
  assumes "rtranclp fenice_step fenice_start sys" and "r \<in> set (rtsp_list sys)"
  shows "(session_list r = None \<or> cur_state (the (session_list r)) \<in> {INIT_STATE, READY_STATE, PLAY_STATE}) \<and>
    length (out_buffer r) = RTSP_BUFFERSIZE + MAX_DESCR_LENGTH \<and> out_size r \<le> RTSP_BUFFERSIZE + MAX_DESCR_LENGTH"
proof -
  have "conn_typed r" using typed.reachable_inv [OF refl assms(1)] assms(2) by blast
  then show ?thesis by (auto simp: conn_typed_def out_fits_def state_of_def)
qed

lemma connections_typed_witness:
  "out_size (RTSP_initserver 5 TCP zero_RTSP_buffer) \<le> RTSP_BUFFERSIZE + MAX_DESCR_LENGTH"
proof -
  have "rtranclp fenice_step (fenice_start :: nat fenice) (accept_client 5 False fenice_start)"
    by (intro r_into_rtranclp fenice_step.accept)
  moreover have "RTSP_initserver 5 TCP zero_RTSP_buffer \<in> set (rtsp_list (accept_client 5 False (fenice_start :: nat fenice)))"
    by (simp add: accept_client_def fenice_start_def add_client_def Let_def ONE_FORK_MAX_CONNECTION_def)
  ultimately show ?thesis using connections_typed by blast
qed

end
