(* ===== verification/File_To_Wire.thy ===== *)
theory File_To_Wire
  imports Media_Readers
begin

text \<open>
  The path of a medium through the server: the reader of its format cuts the file into frames, \<open>get_frame\<close> puts their
  packets into the session's buffer and \<open>RTP_send_packet\<close> takes them out and sends them. The calls are
  those that the scheduler of \<^verbatim>\<open>schedule/schedule_do.c\<close> makes for one session. The interface between the reader
  and the rest, a locale, says which frames an entry still has to deliver; the readers of H.264 and of MPEG audio,
  as the handler table names them, are its interpretations.
\<close>

section \<open>Sending until something fails\<close>

fun send_calls ::
    "shm_env \<Rightarrow> 'st reader option \<Rightarrow> (int \<Rightarrow> uint8 list \<Rightarrow> int) \<Rightarrow> nat \<Rightarrow> RTP_session \<Rightarrow> 'st media_entry \<Rightarrow>
     (RTP_session \<times> 'st media_entry \<times> uint8 list list \<times> int) option" where
  "send_calls e rd sys 0 s me = Some (s, me, [], ERR_NOERROR)"
| "send_calls e rd sys (Suc n) s me =
    do {
      (s1, me1, w1, r1) \<leftarrow> RTP_send_packet e rd sys s me;
      if r1 \<noteq> ERR_NOERROR then Some (s1, me1, w1, r1)
      else do {
        (s2, me2, w2, r2) \<leftarrow> send_calls e rd sys n s1 me1;
        Some (s2, me2, w1 @ w2, r2)
      }
    }"

text \<open>A session that can send, with what waits for it.\<close>

definition session_ready :: "RTP_session \<Rightarrow> 'st media_entry \<Rightarrow> packet list \<Rightarrow> nat \<Rightarrow> bool" where
  "session_ready s me q room \<longleftrightarrow> wire_ready s \<and>
     (\<exists>b. pkt_buffer me = Some b \<and> chan_inv (b, cons s) \<and> chan_queue (b, cons s) = q \<and> room \<le> chan_room (b, cons s))"

text \<open>What the RTP side changes in a session: its consumer and the counters of the server.\<close>

definition same_session :: "RTP_session \<Rightarrow> RTP_session \<Rightarrow> bool" where
  "same_session s s' \<longleftrightarrow> s' = s\<lparr>cons := cons s', server_stats := server_stats s'\<rparr>"

lemma same_session_fields:
  assumes "same_session s s'"
  shows "transport s' = transport s" "client_stats s' = client_stats s" "PreviousCount s' = PreviousCount s"
    "paused s' = paused s" "mprev_tx_time s' = mprev_tx_time s" "sched_id s' = sched_id s"
    "MinimumReached s' = MinimumReached s" "MaximumReached s' = MaximumReached s"
  by (subst assms [unfolded same_session_def], simp)+

lemma session_ready_le: "session_ready s me q m \<Longrightarrow> n \<le> m \<Longrightarrow> session_ready s me q n"
  by (auto simp: session_ready_def)

lemma carries_payload: "list_all2 carries ws ps \<Longrightarrow> map (drop 12) ws = map pkt_bytes ps"
  by (induction rule: list_all2_induct) (simp_all add: carries_def)

lemma produces_nonempty: "produces rd me mt ps me' mt' \<Longrightarrow> ps \<noteq> []"
  by (induction rule: produces.induct) simp_all

lemma send_waiting:
  assumes "session_ready s me q room" and "q \<noteq> []"
  shows "\<exists>s' me' wire k. RTP_send_packet e rd sys s me = Some (s', me', wire, ERR_NOERROR) \<and> 0 < k \<and>
    map (drop 12) wire = map pkt_bytes (take k q) \<and> session_ready s' me' (drop k q) room \<and> length wire = length (take k q) \<and> same_session s s' \<and>
    me' = me\<lparr>mtime := mtime me', pkt_buffer := pkt_buffer me'\<rparr>"
proof -
  from assms(1) obtain b where b: "pkt_buffer me = Some b" "chan_inv (b, cons s)" "wire_ready s" "chan_queue (b, cons s) = q"
    "room \<le> chan_room (b, cons s)" by (auto simp: session_ready_def)
  from send_packet_waiting [OF b(1-4) assms(2), of e rd sys] obtain s' me' b' wire k where
    R: "RTP_send_packet e rd sys s me = Some (s', me', wire, ERR_NOERROR)" "pkt_buffer me' = Some b'"
    "chan_inv (b', cons s')" "0 < k" "list_all2 carries wire (take k q)" "chan_queue (b', cons s') = drop k q"
    "chan_room (b', cons s') = chan_room (b, cons s)" "me' = me\<lparr>mtime := mtime me', pkt_buffer := Some b'\<rparr>" "same_session s s'"
    unfolding same_session_def by blast
  have "wire_ready s'" using same_session_fields(1) [OF R(9)] b(3) by (simp add: wire_ready_def)
  then have "session_ready s' me' (drop k q) room" using R b(5) by (simp add: session_ready_def)
  moreover have "length wire = length (take k q)" using R(5) by (rule list_all2_lengthD)
  ultimately show ?thesis using R carries_payload [OF R(5)]
    by (intro exI [of _ s'] exI [of _ me'] exI [of _ wire] exI [of _ k]) simp
qed

section \<open>Readers with frames to deliver\<close>

text \<open>\<open>src me fs\<close>: the reader will deliver the frames \<open>fs\<close>, each a list of payloads, whatever the time of the calls.\<close>

locale frame_source =
  fixes rd :: "'st reader" and src :: "'st media_entry \<Rightarrow> uint8 list list list \<Rightarrow> bool"
  assumes blind: "buffer_blind rd"
    and kept: "src me fs \<Longrightarrow> src (me\<lparr>mtime := t, pkt_buffer := b\<rparr>) fs"
    and frame: "src me (f # fs) \<Longrightarrow> \<exists>ps me' mt'. produces rd me mt ps me' mt' \<and> map pkt_bytes ps = f \<and> src me' fs"
begin

text \<open>A call with nothing waiting fetches a frame.\<close>

lemma send_fetching:
  assumes "src me (f # fs)" and "fresh_page e" and "session_ready s me [] (length f + room)"
  shows "\<exists>s' me' wire q'. RTP_send_packet e (Some rd) sys s me = Some (s', me', wire, ERR_NOERROR) \<and> wire \<noteq> [] \<and>
    f = map (drop 12) wire @ map pkt_bytes q' \<and> session_ready s' me' q' room \<and> src me' fs \<and> same_session s s'"
proof -
  from assms(3) obtain b where b: "pkt_buffer me = Some b" "chan_inv (b, cons s)" "wire_ready s" "chan_queue (b, cons s) = []"
    "length f + room \<le> chan_room (b, cons s)" by (auto simp: session_ready_def)
  from chan_getreader [OF b(2), of e] chan_select_empty [OF b(2,4)] obtain c1 where
    c1: "OMSbuff_getreader e b (cons s) = Some (b, c1, None)" "chan_inv (b, c1)" by auto
  define c2 where "c2 = c1\<lparr>frames := frames c1 + 1\<rparr>"
  have q1: "chan_queue (b, c2) = []" "chan_inv (b, c2)" "chan_room (b, c2) = chan_room (b, cons s)"
    using b(4) c1(2) chan_queue_consumer chan_room_consumer by (metis, simp add: c2_def, metis)
  let ?mt = "mtime me - mstart me + mstart_offset me"
  from frame [OF assms(1), of ?mt] obtain ps me' mt' where
    p: "produces rd me ?mt ps me' mt'" "map pkt_bytes ps = f" "src me' fs" by blast
  have "length ps \<le> chan_room (b, c2)" using b(5) q1(3) arg_cong [OF p(2), of length] by simp
  from get_frame_produces [OF p(1) blind assms(2) q1(2) this] q1(1) obtain b2 where
    g: "get_frame e (Some rd) (me\<lparr>pkt_buffer := Some b\<rparr>) ?mt = Some (me'\<lparr>pkt_buffer := Some b2\<rparr>, mt', ERR_NOERROR)"
    "chan_inv (b2, c2)" "chan_queue (b2, c2) = ps" "chan_room (b, c2) \<le> length ps + chan_room (b2, c2)" by auto
  from chan_getreader [OF g(2), of e] obtain c3 where
    c3: "OMSbuff_getreader e b2 c2 = Some (b2, c3, select_next b2 c2)" "chan_inv (b2, c3)" "select_next b2 c3 = select_next b2 c2"
    by blast
  define s3 where "s3 = s\<lparr>cons := c3\<rparr>"
  let ?me = "me'\<lparr>pkt_buffer := Some b2\<rparr>"
  have r3: "chan_inv (b2, cons s3)" "wire_ready s3" "chan_queue (b2, cons s3) = ps" "select_next b2 c2 = select_next b2 (cons s3)"
    using c3 b(3) g(3) chan_queue_consumer by (simp_all add: s3_def wire_ready_def) metis
  from send_slots_prefix [OF r3, of e sys mt' ?me "[]"] obtain s' me2 b' outs k where
    R: "send_slots e sys mt' s3 ?me b2 (select_next b2 c2) [] = Some (s', me2, outs)"
    "pkt_buffer me2 = Some b'" "chan_inv (b', cons s')" "chan_queue (b', cons s') = drop k ps"
    "list_all2 carries outs (take k ps)" "0 < k" "chan_room (b', cons s') = chan_room (b2, cons s3)"
    "me2 = ?me\<lparr>mtime := mtime me2, pkt_buffer := Some b'\<rparr>" "same_session s3 s'"
    unfolding same_session_def using produces_nonempty [OF p(1)] by auto
  have send: "RTP_send_packet e (Some rd) sys s me = Some (s', me2, outs, ERR_NOERROR)"
    using b(1) c1(1) g(1) c3(1) R(1) by (simp add: RTP_send_packet_def c2_def s3_def)
  have "take k ps \<noteq> []" using R(6) produces_nonempty [OF p(1)] by simp
  then have outs: "outs \<noteq> []" using R(5) by auto
  have "map (drop 12) outs @ map pkt_bytes (drop k ps) = f"
    unfolding carries_payload [OF R(5)] map_append [symmetric] append_take_drop_id p(2) ..
  moreover have "chan_room (b2, cons s3) = chan_room (b2, c2)" by (rule chan_room_consumer)
  then have "room \<le> chan_room (b', cons s')" using g(4) R(7) q1(3) b(5) arg_cong [OF p(2), of length] by simp
  then have "session_ready s' me2 (drop k ps) room"
    using R(2-4) same_session_fields(1) [OF R(9)] r3(2) by (simp add: session_ready_def wire_ready_def)
  moreover have "me2 = me'\<lparr>mtime := mtime me2, pkt_buffer := Some b'\<rparr>" using R(8) by simp
  then have "src me2 fs" using kept [OF p(3)] by metis
  moreover have "same_session s s'" using R(9) by (simp add: same_session_def s3_def)
  ultimately show ?thesis using send outs by metis
qed

text \<open>Any call while something waits or is to come.\<close>

lemma send_one:
  assumes "src me fs" and "fresh_page e" and "session_ready s me q (length (concat fs) + room)" and "q \<noteq> [] \<or> fs \<noteq> []"
  shows "\<exists>s' me' wire q' fs'. RTP_send_packet e (Some rd) sys s me = Some (s', me', wire, ERR_NOERROR) \<and> wire \<noteq> [] \<and>
    map pkt_bytes q @ concat fs = map (drop 12) wire @ map pkt_bytes q' @ concat fs' \<and> length fs \<le> Suc (length fs') \<and>
    session_ready s' me' q' (length (concat fs') + room) \<and> src me' fs' \<and> same_session s s'"
proof (cases "q = []")
  case True
  with assms(4) obtain f fs' where fs: "fs = f # fs'" by (cases fs) auto
  have "session_ready s me [] (length f + (length (concat fs') + room))" using assms(3) True fs by (simp add: add.assoc)
  from send_fetching [OF assms(1) [unfolded fs] assms(2) this, of sys] show ?thesis using True fs by fastforce
next
  case False
  from send_waiting [OF assms(3) False, of e "Some rd" sys] obtain s' me' wire k where
    R: "RTP_send_packet e (Some rd) sys s me = Some (s', me', wire, ERR_NOERROR)" "0 < k"
    "map (drop 12) wire = map pkt_bytes (take k q)" "session_ready s' me' (drop k q) (length (concat fs) + room)"
    "length wire = length (take k q)" "same_session s s'" "me' = me\<lparr>mtime := mtime me', pkt_buffer := pkt_buffer me'\<rparr>" by blast
  have "src me' fs" using kept [OF assms(1)] R(7) by metis
  moreover have "map pkt_bytes q = map (drop 12) wire @ map pkt_bytes (drop k q)"
    unfolding R(3) map_append [symmetric] append_take_drop_id ..
  moreover have "wire \<noteq> []" using R(2,5) False by (cases k; cases q) auto
  ultimately show ?thesis using R(1,4,6) by fastforce
qed

text \<open>As many calls as there are frames to come: what has been sent and what waits is what came from the file.\<close>

lemma send_many:
  "src me fs \<Longrightarrow> fresh_page e \<Longrightarrow> session_ready s me q (length (concat fs) + room) \<Longrightarrow> n \<le> length fs \<Longrightarrow>
   \<exists>s' me' wire q' fs'. send_calls e (Some rd) sys n s me = Some (s', me', wire, ERR_NOERROR) \<and> n \<le> length wire \<and>
     map pkt_bytes q @ concat fs = map (drop 12) wire @ map pkt_bytes q' @ concat fs' \<and>
     session_ready s' me' q' (length (concat fs') + room) \<and> src me' fs'"
proof (induction n arbitrary: s me q fs)
  case 0
  then show ?case by fastforce
next
  case (Suc n)
  then have "q \<noteq> [] \<or> fs \<noteq> []" by auto
  from send_one [OF Suc.prems(1-3) this, of sys] obtain s1 me1 w1 q1 fs1 where
    R: "RTP_send_packet e (Some rd) sys s me = Some (s1, me1, w1, ERR_NOERROR)" "w1 \<noteq> []"
    "map pkt_bytes q @ concat fs = map (drop 12) w1 @ map pkt_bytes q1 @ concat fs1" "length fs \<le> Suc (length fs1)"
    "session_ready s1 me1 q1 (length (concat fs1) + room)" "src me1 fs1" by blast
  have "n \<le> length fs1" using R(4) Suc.prems(4) by simp
  from Suc.IH [OF R(6) Suc.prems(2) R(5) this] obtain s' me' wire q' fs' where
    I: "send_calls e (Some rd) sys n s1 me1 = Some (s', me', wire, ERR_NOERROR)" "n \<le> length wire"
    "map pkt_bytes q1 @ concat fs1 = map (drop 12) wire @ map pkt_bytes q' @ concat fs'"
    "session_ready s' me' q' (length (concat fs') + room)" "src me' fs'" by blast
  have "Suc n \<le> length (w1 @ wire)" using R(2) I(2) by (cases w1) simp_all
  with R(1,3) I show ?case by (intro exI [of _ s'] exI [of _ me'] exI [of _ "w1 @ wire"] exI [of _ q'] exI [of _ fs']) simp
qed

end

section \<open>Files that end\<close>

locale finite_source = frame_source rd src for rd :: "'st reader" and src +
  assumes end_of_file: "src me [] \<Longrightarrow> \<exists>r. rd me mt = Some r \<and> rd_res r = ERR_EOF"
begin

lemma send_at_end:
  assumes "src me []" and "fresh_page e" and "session_ready s me [] 1"
  shows "\<exists>s' me' b mt r. RTP_send_packet e (Some rd) sys s me = Some (s', me', [], ERR_EOF) \<and> same_session s s' \<and>
    rd me mt = Some r \<and> me' = (rd_me r)\<lparr>pkt_buffer := Some b\<rparr>"
proof -
  from assms(3) obtain b where b: "pkt_buffer me = Some b" "chan_inv (b, cons s)" "wire_ready s" "chan_queue (b, cons s) = []"
    "0 < chan_room (b, cons s)" by (auto simp: session_ready_def)
  from chan_getreader [OF b(2), of e] chan_select_empty [OF b(2,4)] obtain c1 where
    c1: "OMSbuff_getreader e b (cons s) = Some (b, c1, None)" "chan_inv (b, c1)" by auto
  from getslot_chan [OF b(2,5) assms(2)] obtain b1 y where g: "OMSbuff_getslot e b = Some (b1, Some (int y))" by blast
  let ?mt = "mtime me - mstart me + mstart_offset me"
  from end_of_file [OF assms(1), of ?mt] obtain r where r: "rd me ?mt = Some r" "rd_res r = ERR_EOF" by blast
  have "rd (me\<lparr>pkt_buffer := Some b1\<rparr>) ?mt = Some (r\<lparr>rd_me := (rd_me r)\<lparr>pkt_buffer := Some b1\<rparr>\<rparr>)"
    using blind r(1) by (simp add: buffer_blind_def)
  then have "\<exists>b2 t. get_frame e (Some rd) (me\<lparr>pkt_buffer := Some b\<rparr>) ?mt = Some ((rd_me r)\<lparr>pkt_buffer := Some b2\<rparr>, t, ERR_EOF)"
    using g r(2)
    by (simp add: get_frame_def get_frame_loop.simps [of e rd "me\<lparr>pkt_buffer := Some b\<rparr>"] Let_def ERR_EOF_def ERR_NOERROR_def) blast
  then obtain b2 t where g: "get_frame e (Some rd) (me\<lparr>pkt_buffer := Some b\<rparr>) ?mt = Some ((rd_me r)\<lparr>pkt_buffer := Some b2\<rparr>, t, ERR_EOF)"
    by blast
  have "RTP_send_packet e (Some rd) sys s me = Some (s\<lparr>cons := c1\<rparr>, (rd_me r)\<lparr>pkt_buffer := Some b2\<rparr>, [], ERR_EOF)"
    using b(1) c1(1) g by (simp add: RTP_send_packet_def ERR_EOF_def ERR_NOERROR_def)
  moreover have "same_session s (s\<lparr>cons := c1\<rparr>)" by (simp add: same_session_def)
  ultimately show ?thesis using r(1) by blast
qed

text \<open>Enough calls send everything, and the last one reports the end.\<close>

lemma send_all:
  "src me fs \<Longrightarrow> fresh_page e \<Longrightarrow> session_ready s me q (length (concat fs) + 1) \<Longrightarrow> length q + length (concat fs) < n \<Longrightarrow>
   \<exists>s' me' wire. send_calls e (Some rd) sys n s me = Some (s', me', wire, ERR_EOF) \<and>
     map (drop 12) wire = map pkt_bytes q @ concat fs"
proof (induction n arbitrary: s me q fs)
  case 0
  then show ?case by simp
next
  case (Suc n)
  show ?case
  proof (cases "q = [] \<and> fs = []")
    case True
    then have "src me []" "session_ready s me [] 1" using Suc.prems by simp_all
    from send_at_end [OF this(1) Suc.prems(2) this(2), of sys] obtain s' me' where
      "RTP_send_packet e (Some rd) sys s me = Some (s', me', [], ERR_EOF)" by blast
    then show ?thesis using True by (simp add: ERR_EOF_def ERR_NOERROR_def)
  next
    case False
    then have "q \<noteq> [] \<or> fs \<noteq> []" by blast
    from send_one [OF Suc.prems(1-3) this, of sys] obtain s1 me1 w1 q1 fs1 where
      R: "RTP_send_packet e (Some rd) sys s me = Some (s1, me1, w1, ERR_NOERROR)" "w1 \<noteq> []"
      "map pkt_bytes q @ concat fs = map (drop 12) w1 @ map pkt_bytes q1 @ concat fs1"
      "session_ready s1 me1 q1 (length (concat fs1) + 1)" "src me1 fs1" by blast
    have "length q1 + length (concat fs1) < n"
      using arg_cong [OF R(3), of length] R(2) Suc.prems(4) by (cases w1) simp_all
    from Suc.IH [OF R(5) Suc.prems(2) R(4) this] R(1,3) show ?thesis by fastforce
  qed
qed

end

section \<open>Readers of the handler table\<close>

text \<open>The table's readers keep their states in one type.\<close>

definition raise_entry :: "('a \<Rightarrow> reader_state) \<Rightarrow> 'a media_entry \<Rightarrow> reader_state media_entry" where
  "raise_entry mk me = with_stat (map_option mk (media_stat me)) me"

definition lower_entry :: "(reader_state \<Rightarrow> 'a option) \<Rightarrow> reader_state media_entry \<Rightarrow> 'a media_entry" where
  "lower_entry un me = with_stat (Option.bind (media_stat me) un) me"

lemma lower_raise:
  assumes "\<And>x. un (mk x) = Some x"
  shows "lower_entry un (raise_entry mk me) = me"
proof -
  have "Option.bind (map_option mk x) un = x" for x by (cases x) (simp_all add: assms)
  then show ?thesis by (simp add: lower_entry_def raise_entry_def)
qed

lemma lower_description [simp]: "description (lower_entry un me) = description me"
  by (simp add: lower_entry_def)

lemma lower_kept: "lower_entry un (me\<lparr>mtime := t, pkt_buffer := b\<rparr>) = (lower_entry un me)\<lparr>mtime := t, pkt_buffer := b\<rparr>"
  by (simp add: lower_entry_def with_stat_def)

lemma lift_produces:
  assumes "\<And>x. un (mk x) = Some x"
  shows "produces rd me mt ps me' mt' \<Longrightarrow> me = lower_entry un m \<Longrightarrow>
    produces (lift_reader mk un rd) m mt ps (raise_entry mk me') mt'"
proof (induction arbitrary: m rule: produces.induct)
  case (stop me mt r d)
  let ?r = "r\<lparr>rd_me := rd_me r\<rparr>"
  from stop have "lift_reader mk un rd m mt = Some \<lparr>rd_me = raise_entry mk (rd_me r), rd_res = rd_res r, rd_data = rd_data r,
      rd_mtime = rd_mtime r, rd_recall = rd_recall r, rd_marker = rd_marker r\<rparr>" (is "_ = Some ?s")
    by (simp add: lift_reader_def lower_entry_def raise_entry_def)
  from produces.stop [of "lift_reader mk un rd", OF this, of d] stop show ?case by (simp add: read_packet_def)
next
  case (again me mt r d ps me' mt')
  from again have "lift_reader mk un rd m mt = Some \<lparr>rd_me = raise_entry mk (rd_me r), rd_res = rd_res r, rd_data = rd_data r,
      rd_mtime = rd_mtime r, rd_recall = rd_recall r, rd_marker = rd_marker r\<rparr>" (is "_ = Some ?s")
    by (simp add: lift_reader_def lower_entry_def raise_entry_def)
  from produces.again [of "lift_reader mk un rd", OF this, of d] again lower_raise [OF assms] show ?case
    by (simp add: read_packet_def)
qed

lemma lift_source:
  assumes "frame_source rd src" and u: "\<And>x. un (mk x) = Some x"
  shows "frame_source (lift_reader mk un rd) (\<lambda>me. src (lower_entry un me))"
proof
  show "buffer_blind (lift_reader mk un rd)" by (rule lift_blind [OF frame_source.blind [OF assms(1)]])
next
  fix me fs t b
  assume "src (lower_entry un me) fs"
  then show "src (lower_entry un (me\<lparr>mtime := t, pkt_buffer := b\<rparr>)) fs"
    unfolding lower_kept by (rule frame_source.kept [OF assms(1)])
next
  fix me f fs mt
  assume "src (lower_entry un me) (f # fs)"
  from frame_source.frame [OF assms(1) this, of mt] obtain ps me' mt' where
    "produces rd (lower_entry un me) mt ps me' mt'" "map pkt_bytes ps = f" "src me' fs" by blast
  with lift_produces [OF u this(1) refl] lower_raise [OF u]
  show "\<exists>ps me' mt'. produces (lift_reader mk un rd) me mt ps me' mt' \<and> map pkt_bytes ps = f \<and> src (lower_entry un me') fs"
    by metis
qed

lemma lift_finite:
  assumes "finite_source rd src" and u: "\<And>x. un (mk x) = Some x"
  shows "finite_source (lift_reader mk un rd) (\<lambda>me. src (lower_entry un me))"
proof (rule finite_source.intro [OF lift_source finite_source_axioms.intro])
  show "frame_source rd src" using assms(1) by (simp add: finite_source_def)
next
  fix me mt
  assume "src (lower_entry un me) []"
  from finite_source.end_of_file [OF assms(1) this, of mt]
  show "\<exists>r. lift_reader mk un rd me mt = Some r \<and> rd_res r = ERR_EOF"
    by (auto simp: lift_reader_def lower_entry_def)
qed (rule u)

text \<open>The first call of a reader opens the file.\<close>

definition can_open :: "string \<Rightarrow> os_files \<Rightarrow> 'st media_entry \<Rightarrow> bool" where
  "can_open rootdir os me \<longleftrightarrow> has_flag (me_flags me) ME_FD \<or> 0 \<le> snd (mediaopen rootdir os me)"

definition opened :: "string \<Rightarrow> os_files \<Rightarrow> 'st \<Rightarrow> 'st media_entry \<Rightarrow> 'st media_entry" where
  "opened rootdir os st me =
    (if has_flag (me_flags me) ME_FD then me else (fst (mediaopen rootdir os me))\<lparr>media_stat := Some st\<rparr>)"

lemma opened_flag: "can_open rootdir os me \<Longrightarrow> has_flag (me_flags (opened rootdir os st me)) ME_FD"
proof -
  have "has_flag (set_flag x ME_FD) ME_FD" for x by (rule has_set_flag) (simp add: ME_FD_def)
  then show "can_open rootdir os me \<Longrightarrow> has_flag (me_flags (opened rootdir os st me)) ME_FD"
    by (auto simp: can_open_def opened_def mediaopen_def Let_def ERR_INPUT_PARAM_def ERR_NOT_FOUND_def split: if_splits)
qed

lemma opened_id: "has_flag (me_flags me) ME_FD \<Longrightarrow> can_open rootdir os me \<and> opened rootdir os st me = me"
  by (simp add: can_open_def opened_def)

lemma opened_kept: "can_open rootdir os (me\<lparr>mtime := t, pkt_buffer := b\<rparr>) = can_open rootdir os me"
  "opened rootdir os st (me\<lparr>mtime := t, pkt_buffer := b\<rparr>) = (opened rootdir os st me)\<lparr>mtime := t, pkt_buffer := b\<rparr>"
  by (auto simp: can_open_def opened_def mediaopen_def Let_def)

lemma opened_description [simp]: "description (opened rootdir os st me) = description me"
  by (simp add: opened_def)

section \<open>MPEG audio\<close>

text \<open>The position to play from has been reached: none was asked for, or the beginning of the file.\<close>

definition at_offset :: "os_file media_entry \<Rightarrow> bool" where
  "at_offset me \<longleftrightarrow> play_offset me = - 1 \<or>
     play_offset me = 0 \<and> msource (description me) \<noteq> live \<and> (\<exists>f. media_stat me = Some f \<and> file_pos f = 0)"

definition mp3_src :: "string \<Rightarrow> os_files \<Rightarrow> uint8 list \<Rightarrow> os_file media_entry \<Rightarrow> uint8 list list list \<Rightarrow> bool" where
  "mp3_src rootdir os bytes me fss \<longleftrightarrow> can_open rootdir os me \<and>
     (\<exists>fs. fss = map (\<lambda>f. [[0, 0, 0, 0] @ f]) fs \<and> list_all (mp3_frame (description me)) fs \<and>
       at_offset (opened rootdir os \<lparr>file_bytes = bytes, file_pos = 0\<rparr> me) \<and>
       mp3_ready ((opened rootdir os \<lparr>file_bytes = bytes, file_pos = 0\<rparr> me)\<lparr>play_offset := - 1\<rparr>) (concat fs))"

lemma read_MP3_opened:
  assumes "can_open rootdir os me"
  shows "read_MP3 rootdir os junk bytes me mt =
    read_MP3 rootdir os junk bytes (opened rootdir os \<lparr>file_bytes = bytes, file_pos = 0\<rparr> me) mt"
  using opened_flag [OF assms, of "\<lparr>file_bytes = bytes, file_pos = 0\<rparr>"] assms
  by (auto simp: read_MP3_def opened_def can_open_def Let_def split: prod.split)

lemma read_MP3_offset:
  assumes "at_offset me" and "has_flag (me_flags me) ME_FD"
  shows "read_MP3 rootdir os junk bytes me mt = read_MP3 rootdir os junk bytes (me\<lparr>play_offset := - 1\<rparr>) mt"
proof (cases "play_offset me = - 1")
  case True
  then have "me\<lparr>play_offset := - 1\<rparr> = me" by (cases me) simp
  then show ?thesis by simp
next
  case False
  then obtain f where f: "play_offset me = 0" "msource (description me) \<noteq> live" "media_stat me = Some f" "file_pos f = 0"
    using assms(1) by (auto simp: at_offset_def)
  have "fd_seek 0 f = f" using f(4) by (cases f) (simp add: fd_seek_def)
  then show ?thesis using f assms(2) by (simp add: read_MP3_def mp3_packet_def c_trunc_def)
qed

lemma mp3_at_end: "mp3_ready me [] \<Longrightarrow> \<exists>r. read_MP3 rootdir os junk bytes me mt = Some r \<and> rd_res r = ERR_EOF"
  by (auto simp: mp3_ready_def read_MP3_def mp3_packet_def mp3_read_def Let_def fd_read_def)

lemma mp3_source: "finite_source (read_MP3 rootdir os junk bytes) (mp3_src rootdir os bytes)"
proof
  show "buffer_blind (read_MP3 rootdir os junk bytes)" by (rule mp3_blind)
next
  fix me fs t b
  assume "mp3_src rootdir os bytes me fs"
  then show "mp3_src rootdir os bytes (me\<lparr>mtime := t, pkt_buffer := b\<rparr>) fs"
    by (auto simp: mp3_src_def opened_kept mp3_ready_def at_offset_def)
next
  fix me f fss mt
  let ?open = "opened rootdir os \<lparr>file_bytes = bytes, file_pos = 0\<rparr>"
  assume a: "mp3_src rootdir os bytes me (f # fss)"
  then obtain g fs where g: "f = [[0, 0, 0, 0] @ g]" "fss = map (\<lambda>f. [[0, 0, 0, 0] @ f]) fs" "mp3_frame (description me) g"
    "list_all (mp3_frame (description me)) fs" "mp3_ready ((?open me)\<lparr>play_offset := - 1\<rparr>) (g @ concat fs)" "can_open rootdir os me"
    "at_offset (?open me)"
    by (auto simp: mp3_src_def map_eq_Cons_conv Cons_eq_map_conv)
  from mp3_step [OF g(5), of rootdir os junk bytes mt] g(3) obtain me' where
    r: "read_MP3 rootdir os junk bytes me mt = Some \<lparr>rd_me = me', rd_res = ERR_NOERROR, rd_data = Some ([0, 0, 0, 0] @ g),
      rd_mtime = mt, rd_recall = False, rd_marker = 0\<rparr>" "mp3_ready me' (concat fs)" "description me' = description me"
    unfolding read_MP3_opened [OF g(6)] read_MP3_offset [OF g(7) opened_flag [OF g(6)]] by auto
  have "mp3_src rootdir os bytes me' fss"
    using r(2,3) g(2,4) opened_id [of me' rootdir os] by (auto simp: mp3_src_def mp3_ready_def at_offset_def)
  moreover have "length ([0, 0, 0, 0] @ g) \<le> OMSSLOT_DATASIZE" using g(3) by (simp add: mp3_frame_def)
  then have "produces (read_MP3 rootdir os junk bytes) me mt [\<lparr>pkt_ts = word_of_int (c_trunc mt), pkt_marker = 0,
      pkt_bytes = [0, 0, 0, 0] @ g\<rparr>] me' mt"
    using produces.stop [of "read_MP3 rootdir os junk bytes", OF r(1), of "[0, 0, 0, 0] @ g"] by (simp add: read_packet_def)
  ultimately show "\<exists>ps me' mt'. produces (read_MP3 rootdir os junk bytes) me mt ps me' mt' \<and> map pkt_bytes ps = f \<and>
      mp3_src rootdir os bytes me' fss" using g(1) by fastforce
next
  fix me mt
  assume a: "mp3_src rootdir os bytes me []"
  then have o: "can_open rootdir os me" "at_offset (opened rootdir os \<lparr>file_bytes = bytes, file_pos = 0\<rparr> me)" by (auto simp: mp3_src_def)
  show "\<exists>r. read_MP3 rootdir os junk bytes me mt = Some r \<and> rd_res r = ERR_EOF"
    unfolding read_MP3_opened [OF o(1)] read_MP3_offset [OF o(2) opened_flag [OF o(1)]]
    using a by (intro mp3_at_end) (simp add: mp3_src_def)
qed

interpretation mp3_wire: finite_source "lift_reader State_MP3 state_MP3 (read_MP3 rootdir os junk bytes)"
  "\<lambda>me. mp3_src rootdir os bytes (lower_entry state_MP3 me)" for rootdir os junk bytes
  by (rule lift_finite [OF mp3_source]) simp

section \<open>H.264\<close>

text \<open>The packets of a unit with the header byte \<open>h\<close> and the payload \<open>p\<close>, in the words of RFC 6184: the unit itself, or
  fragments of 1400 bytes. The forbidden bit is always sent as zero.\<close>

definition fragment :: "uint8 \<Rightarrow> uint8 list \<Rightarrow> nat \<Rightarrow> uint8 list" where
  "fragment h p k = FU_indicator (and h 0x80) (drop_bit 5 (and h 0x60)) TYPE_FU_A
     # FU_header (of_bool (k = 0)) (of_bool (k = length p div 1400)) 0 (and h 0x1F) # take 1400 (drop (k * 1400) p)"

definition unit_packets :: "uint8 \<Rightarrow> uint8 list \<Rightarrow> uint8 list list" where
  "unit_packets h p = (if length p \<le> 1400 then [and h 0x7F # p] else map (fragment h p) [0..<Suc (length p div 1400)])"

text \<open>A receiver that follows RFC 6184, with the unit it is collecting.\<close>

fun receive :: "uint8 list option \<Rightarrow> uint8 list list \<Rightarrow> uint8 list list" where
  "receive cur [] = []"
| "receive cur (p # ps) =
     (if and (p ! 0) 0x1F = 28
      then (let cur' = (if bit (p ! 1) 7 then Some (or (and (p ! 0) 0xE0) (and (p ! 1) 0x1F) # drop 2 p)
                        else map_option (\<lambda>u. u @ drop 2 p) cur)
            in case cur' of
                 None \<Rightarrow> receive None ps
               | Some u \<Rightarrow> if bit (p ! 1) 6 then u # receive None ps else receive (Some u) ps)
      else p # receive None ps)"

lemma receive_prefix: "prefix xs ys \<Longrightarrow> prefix (receive cur xs) (receive cur ys)"
proof (induction xs arbitrary: cur ys)
  case (Cons x xs)
  then obtain zs where "ys = x # zs" "prefix xs zs" by (cases ys) auto
  with Cons.IH [of zs] show ?case by (auto simp: Let_def split: option.split)
qed simp

lemma fu_single: "FU_indicator (and h 0x80) (drop_bit 5 (and h 0x60)) (and h 0x1F) = and h 0x7F"
proof (rule bit_word_eqI)
  fix n assume "n < LENGTH(8)"
  then have "n < 8" by simp
  then show "bit (FU_indicator (and h 0x80) (drop_bit 5 (and h 0x60)) (and h 0x1F)) n = bit (and h 0x7F) n"
    using le7_cases [of n] by (auto simp: fu_defs bit_simps)
qed

lemma fu_header_type: "and (FU_header s e r (and h 0x1F)) 0x1F = and (FU_header 1 0 0 (and h 0x1F)) 0x1F"
proof (rule bit_word_eqI)
  fix n assume "n < LENGTH(8)"
  then have "n < 8" by simp
  then show "bit (and (FU_header s e r (and h 0x1F)) 0x1F) n = bit (and (FU_header 1 0 0 (and h 0x1F)) 0x1F) n"
    using le7_cases [of n] by (auto simp: fu_defs bit_simps)
qed

lemma fragment_rebuilt: "or (and (fragment h p k ! 0) 0xE0) (and (fragment h p k ! 1) 0x1F) = and h 0x7F"
proof -
  have "fragment h p k ! 1 = FU_header (of_bool (k = 0)) (of_bool (k = length p div 1400)) 0 (and h 0x1F)" by (simp add: fragment_def)
  moreover have "fragment h p k ! 0 = FU_indicator (and h 0x80) (drop_bit 5 (and h 0x60)) TYPE_FU_A" by (simp add: fragment_def)
  ultimately show ?thesis by (simp only: fu_header_type [of "of_bool (k = 0)"] fu_header_rebuilt)
qed

lemma fragment_fields [simp]:
  "and (fragment h p k ! 0) 0x1F = 28" "bit (fragment h p k ! Suc 0) 7 \<longleftrightarrow> k = 0"
  "bit (fragment h p k ! Suc 0) 6 \<longleftrightarrow> k = length p div 1400" "drop 2 (fragment h p k) = take 1400 (drop (k * 1400) p)"
  by (simp_all add: fragment_def fu_indicator_type fu_header_bits)

lemma receive_fragments:
  assumes "0 < k" and "k \<le> length p div 1400"
  shows "receive (Some (h # take (k * 1400) p)) (map (fragment g p) [k..<Suc (length p div 1400)] @ ps) = (h # p) # receive None ps"
  using assms
proof (induction "length p div 1400 - k" arbitrary: k)
  case 0
  then have k: "k = length p div 1400" by simp
  have "take (k * 1400) p @ take 1400 (drop (k * 1400) p) = take (k * 1400 + 1400) p" by (simp add: take_add)
  also have "\<dots> = p" unfolding k by (rule take_all) (use div_mult_mod_eq [of "length p" 1400] mod_less_divisor [of 1400 "length p"] in linarith)
  finally show ?case using 0 k by simp
next
  case (Suc m)
  then have lt: "k < length p div 1400" by simp
  have t: "take (k * 1400) p @ take 1400 (drop (k * 1400) p) = take (Suc k * 1400) p"
    using take_add [of "k * 1400" 1400 p] by (simp add: add.commute)
  have "[k..<Suc (length p div 1400)] = k # [Suc k..<Suc (length p div 1400)]" using lt by (simp add: upt_conv_Cons)
  then show ?case using Suc.hyps(1) [of "Suc k"] Suc.hyps(2) Suc.prems lt t by (simp del: upt_Suc mult_Suc)
qed

lemma receive_unit:
  assumes "length p \<le> 1400 \<Longrightarrow> and h 0x1F \<noteq> 28"
  shows "receive None (unit_packets h p @ ps) = (and h 0x7F # p) # receive None ps"
proof (cases "length p \<le> 1400")
  case True
  have "and (and h 0x7F) 0x1F = and h (0x1F :: uint8)" by (simp add: and.assoc)
  then show ?thesis using True assms by (simp add: unit_packets_def)
next
  case False
  then have n: "1 \<le> length p div 1400" by linarith
  then have "[0..<Suc (length p div 1400)] = 0 # [1..<Suc (length p div 1400)]" by (simp add: upt_conv_Cons)
  then show ?thesis
    using False n receive_fragments [of 1 p "and h 0x7F" h ps] fragment_rebuilt [of h p 0]
    by (simp add: unit_packets_def Let_def del: upt_Suc)
qed

subsection \<open>Units in a file\<close>

text \<open>A start code, the header byte and the payload of a unit.\<close>

type_synonym annexb_unit = "uint8 list \<times> uint8 \<times> uint8 list"

definition annexb :: "annexb_unit list \<Rightarrow> uint8 list" where
  "annexb us = concat (map (\<lambda>(sc, h, p). sc @ h # p) us)"

text \<open>A unit that is only a header byte ends the film (\<open>header_only_unit_ends\<close> below), the types from 24 on are not for files, and a unit
  and the codes around it fit into the reader's array.\<close>

definition unit_ok :: "annexb_unit \<Rightarrow> bool" where
  "unit_ok = (\<lambda>(sc, h, p). start_code sc \<and> unit_bytes (h # p) \<and> p \<noteq> [] \<and> and h 0x1F \<noteq> 28 \<and>
     length sc + length (h # p) + 4 \<le> MAX_FRAME_ZISE)"

definition units_packets :: "annexb_unit list \<Rightarrow> uint8 list list" where
  "units_packets us = concat (map (\<lambda>(sc, h, p). unit_packets h p) us)"

definition units_sent :: "annexb_unit list \<Rightarrow> uint8 list list" where
  "units_sent us = map (\<lambda>(sc, h, p). and h 0x7F # p) us"

text \<open>One \<open>get_frame\<close> reads on behind a fragmented unit, up to the next that fits into a packet.\<close>

fun unit_group :: "annexb_unit list \<Rightarrow> bool" where
  "unit_group [] = False"
| "unit_group ((sc, h, p) # us) = (if length p \<le> 1400 then us = [] else unit_group us)"

definition group_ok :: "annexb_unit list \<Rightarrow> bool" where
  "group_ok g \<longleftrightarrow> unit_group g \<and> list_all unit_ok g"

lemma receive_units: "list_all unit_ok us \<Longrightarrow> receive None (units_packets us @ ps) = units_sent us @ receive None ps"
  by (induction us) (auto simp: units_packets_def units_sent_def unit_ok_def receive_unit)

lemma annexb_code:
  assumes "list_all unit_ok us" and "start_code sc"
  shows "\<exists>sc' rest'. annexb us @ sc @ rest = sc' @ rest' \<and> start_code sc'"
proof (cases us)
  case (Cons u vs)
  obtain sc' h p where u: "u = (sc', h, p)" by (cases u)
  have "annexb us @ sc @ rest = sc' @ (h # p @ annexb vs @ sc @ rest)" by (simp add: annexb_def Cons u)
  moreover have "start_code sc'" using assms(1) Cons u by (simp add: unit_ok_def)
  ultimately show ?thesis by blast
qed (use assms(2) in \<open>auto simp: annexb_def\<close>)

subsection \<open>The reader delivers the units' packets\<close>

definition h264_ready :: "static_h264 media_entry \<Rightarrow> uint8 list \<Rightarrow> bool" where
  "h264_ready me rest \<longleftrightarrow> has_flag (me_flags me) ME_FD \<and>
     (\<exists>s. media_stat me = Some s \<and> sharding_packet s = H264_NOT_SHARDING \<and> \<not> f_eof (h264_file s) \<and>
       drop (f_pos (h264_file s)) (f_bytes (h264_file s)) = rest)"

text \<open>The reader's state when a unit has been cut out of the file.\<close>

definition unit_read_state :: "static_h264 \<Rightarrow> uint8 list \<Rightarrow> uint8 \<Rightarrow> uint8 list \<Rightarrow> static_h264" where
  "unit_read_state s sc h p = s\<lparr>h264_file := (h264_file s)\<lparr>f_pos := f_pos (h264_file s) + length sc + Suc (length p)\<rparr>,
     nalu := (nalu s)\<lparr>forbidden_bit := and h 0x80, nal_reference_idc := and h 0x60, nal_unit_type := and h 0x1F,
       nalu_len := length p, nalu_buf := p @ drop (length p) (nalu_buf (nalu s))\<rparr>\<rparr>"

lemma unit_read_fields [simp]:
  "nalu_len (nalu (unit_read_state s sc h p)) = length p" "take (length p) (nalu_buf (nalu (unit_read_state s sc h p))) = p"
  "forbidden_bit (nalu (unit_read_state s sc h p)) = and h 0x80"
  "nal_reference_idc (nalu (unit_read_state s sc h p)) = and h 0x60"
  "nal_unit_type (nalu (unit_read_state s sc h p)) = and h 0x1F"
  "f_bytes (h264_file (unit_read_state s sc h p)) = f_bytes (h264_file s)"
  "f_eof (h264_file (unit_read_state s sc h p)) = f_eof (h264_file s)"
  "sharding_packet (unit_read_state s sc h p) = sharding_packet s"
  "s\<lparr>h264_file := h264_file (unit_read_state s sc h p), nalu := nalu (unit_read_state s sc h p)\<rparr> = unit_read_state s sc h p"
  by (simp_all add: unit_read_state_def)

lemma unit_read_take:
  "1400 < length p \<Longrightarrow> take 1400 (nalu_buf (nalu (unit_read_state s sc h p))) = take 1400 p"
  by (simp add: unit_read_state_def)

lemma cut_unit:
  assumes "unit_ok (sc, h, p)" and "start_code sc2" and "\<not> f_eof (h264_file s)"
    and "drop (f_pos (h264_file s)) (f_bytes (h264_file s)) = sc @ (h # p) @ sc2 @ rest"
  shows "get_one_NALU_payload (h264_file s) (nalu s) =
      Some (h264_file (unit_read_state s sc h p), nalu (unit_read_state s sc h p), ERR_NOERROR)"
    and "drop (f_pos (h264_file (unit_read_state s sc h p))) (f_bytes (h264_file s)) = sc2 @ rest"
proof -
  show "get_one_NALU_payload (h264_file s) (nalu s) =
      Some (h264_file (unit_read_state s sc h p), nalu (unit_read_state s sc h p), ERR_NOERROR)"
  proof -
    have "length sc2 \<le> 4" using assms(2) by (auto simp: start_code_def)
    then show ?thesis using unit_read [OF _ assms(2) _ assms(3,4), of "nalu s"] assms(1) by (simp add: unit_ok_def unit_read_state_def)
  qed
  have "drop (f_pos (h264_file (unit_read_state s sc h p))) (f_bytes (h264_file s)) =
      drop (length (sc @ h # p)) (drop (f_pos (h264_file s)) (f_bytes (h264_file s)))"
    by (simp add: unit_read_state_def add.commute add.left_commute)
  also have "\<dots> = sc2 @ rest" unfolding assms(4) by simp
  finally show "drop (f_pos (h264_file (unit_read_state s sc h p))) (f_bytes (h264_file s)) = sc2 @ rest" .
qed

lemma small_unit_read:
  assumes "unit_ok (sc, h, p)" and "start_code sc2" and "h264_ready me (sc @ (h # p) @ sc2 @ rest)" and "length p \<le> 1400"
  shows "\<exists>me' t. read_h264 rootdir os raw bytes me mt False = Some \<lparr>rd_me = me', rd_res = ERR_NOERROR,
      rd_data = Some (and h 0x7F # p), rd_mtime = t, rd_recall = False, rd_marker = 1\<rparr> \<and> h264_ready me' (sc2 @ rest)"
proof -
  from assms(3) obtain s where s: "media_stat me = Some s" "sharding_packet s = H264_NOT_SHARDING" "\<not> f_eof (h264_file s)"
    "drop (f_pos (h264_file s)) (f_bytes (h264_file s)) = sc @ (h # p) @ sc2 @ rest" "has_flag (me_flags me) ME_FD"
    by (auto simp: h264_ready_def)
  note cut = cut_unit [OF assms(1,2) s(3,4)]
  have "p \<noteq> []" using assms(1) by (simp add: unit_ok_def)
  then show ?thesis using s cut assms(4)
    by (simp add: read_h264_def start_unit_def Let_def UDP_MAX_SIZE_def h264_ready_def fu_single del: drop_bit_and)
qed

definition large_unit_state :: "static_h264 \<Rightarrow> uint8 list \<Rightarrow> uint8 \<Rightarrow> uint8 list \<Rightarrow> static_h264" where
  "large_unit_state s sc h p = (unit_read_state s sc h p)\<lparr>sharding_packet := H264_SHARDING_PACKET,
     packet_num := length p div 1400, last_packet_byte := length p mod 1400, current_packet := 1\<rparr>"

lemma large_unit_read:
  assumes "unit_ok (sc, h, p)" and "start_code sc2" and "\<not> f_eof (h264_file s)" and "has_flag (me_flags me) ME_FD"
    and "media_stat me = Some s" and "sharding_packet s = H264_NOT_SHARDING"
    and "drop (f_pos (h264_file s)) (f_bytes (h264_file s)) = sc @ (h # p) @ sc2 @ rest" and "1400 < length p"
  shows "\<exists>me' t. read_h264 rootdir os raw bytes me mt False = Some \<lparr>rd_me = me', rd_res = ERR_NOERROR,
      rd_data = Some (fragment h p 0), rd_mtime = t, rd_recall = True, rd_marker = 0\<rparr> \<and>
    media_stat me' = Some (large_unit_state s sc h p) \<and> has_flag (me_flags me') ME_FD"
proof -
  note cut = cut_unit [OF assms(1,2,3,7)]
  have "0 < length p div 1400" "p \<noteq> []" using assms(8) by (linarith, auto)
  then show ?thesis using assms(4-6,8) cut(1)
    by (simp add: read_h264_def start_unit_def Let_def UDP_MAX_SIZE_def fragment_def large_unit_state_def unit_read_take
        del: drop_bit_and)
qed

text \<open>The calls that deliver the remaining fragments, and after them the unit that follows.\<close>

lemma next_fragment_read:
  assumes "media_stat me = Some ((large_unit_state s sc h p)\<lparr>current_packet := k\<rparr>)" and "has_flag (me_flags me) ME_FD"
    and "0 < k" and "k \<le> length p div 1400"
  shows "\<exists>me' t m. read_h264 rootdir os raw bytes me mt False = Some \<lparr>rd_me = me', rd_res = ERR_NOERROR,
      rd_data = Some (fragment h p k), rd_mtime = t, rd_recall = True, rd_marker = m\<rparr> \<and> has_flag (me_flags me') ME_FD \<and>
    media_stat me' = Some (if k < length p div 1400 then (large_unit_state s sc h p)\<lparr>current_packet := Suc k\<rparr>
      else (unit_read_state s sc h p)\<lparr>sharding_packet := H264_NOT_SHARDING, packet_num := length p div 1400,
        last_packet_byte := length p mod 1400, current_packet := k\<rparr>)"
proof -
  have buf: "nalu_buf (nalu (unit_read_state s sc h p)) = p @ drop (length p) (nalu_buf (nalu s))" by (simp add: unit_read_state_def)
  show ?thesis
  proof (cases "k < length p div 1400")
    case True
    then have "Suc k * 1400 \<le> length p div 1400 * 1400" by (intro mult_le_mono1) simp
    also have "\<dots> \<le> length p" by (rule div_times_less_eq_dividend)
    finally have "take 1400 (drop (k * 1400) (nalu_buf (nalu (unit_read_state s sc h p)))) = take 1400 (drop (k * 1400) p)"
      unfolding buf by simp
    then show ?thesis using assms True
      by (simp add: read_h264_def next_fragment_def Let_def UDP_MAX_SIZE_def fragment_def large_unit_state_def
          H264_SHARDING_PACKET_def H264_NOT_SHARDING_def del: drop_bit_and)
  next
    case False
    with assms(4) have k: "k = length p div 1400" by simp
    have "k * 1400 + length p mod 1400 = length p" unfolding k by (rule div_mult_mod_eq)
    then have "take (length p mod 1400) (drop (k * 1400) (nalu_buf (nalu (unit_read_state s sc h p)))) = drop (k * 1400) p"
      unfolding buf by simp
    moreover have "take 1400 (drop (k * 1400) p) = drop (k * 1400) p"
      using \<open>k * 1400 + length p mod 1400 = length p\<close> mod_less_divisor [of 1400 "length p"] by (intro take_all) simp
    ultimately show ?thesis using assms(1-3) k
      by (simp add: read_h264_def next_fragment_def Let_def UDP_MAX_SIZE_def fragment_def large_unit_state_def
          H264_SHARDING_PACKET_def H264_NOT_SHARDING_def del: drop_bit_and)
  qed
qed

lemma fragment_length: "length (fragment h p k) \<le> OMSSLOT_DATASIZE" "fragment h p k \<noteq> []"
  by (simp_all add: fragment_def OMSSLOT_DATASIZE_def)

text \<open>What a reader of this file delivers in one \<open>get_frame\<close>.\<close>

definition delivers :: "static_h264 reader \<Rightarrow> static_h264 media_entry \<Rightarrow> uint8 list list \<Rightarrow> uint8 list \<Rightarrow> bool" where
  "delivers rd me ds rest \<longleftrightarrow> (\<forall>mt. \<exists>ps me' mt'. produces rd me mt ps me' mt' \<and> map pkt_bytes ps = ds \<and> h264_ready me' rest)"

lemma delivers_again:
  assumes "\<And>mt. \<exists>me' t m. rd me mt = Some \<lparr>rd_me = me', rd_res = ERR_NOERROR, rd_data = Some d, rd_mtime = t,
      rd_recall = True, rd_marker = m\<rparr> \<and> delivers rd me' ds rest"
    and "d \<noteq> []" and "length d \<le> OMSSLOT_DATASIZE"
  shows "delivers rd me (d # ds) rest"
  unfolding delivers_def
proof
  fix mt
  from assms(1) [of mt] obtain me' t m where
    r: "rd me mt = Some \<lparr>rd_me = me', rd_res = ERR_NOERROR, rd_data = Some d, rd_mtime = t, rd_recall = True, rd_marker = m\<rparr>"
    and "delivers rd me' ds rest" by blast
  from this(2) obtain ps me2 mt2 where "produces rd me' t ps me2 mt2" "map pkt_bytes ps = ds" "h264_ready me2 rest"
    unfolding delivers_def by blast
  with produces.again [of rd, OF r, of d ps me2 mt2] assms(2,3)
  show "\<exists>ps me' mt'. produces rd me mt ps me' mt' \<and> map pkt_bytes ps = d # ds \<and> h264_ready me' rest"
    by (fastforce simp: read_packet_def)
qed

lemma delivers_fragments:
  assumes "\<not> f_eof (h264_file s)" and "drop (f_pos (h264_file (unit_read_state s sc h p))) (f_bytes (h264_file s)) = rest"
    and step: "\<And>me. h264_ready me rest \<Longrightarrow> delivers (\<lambda>me mt. read_h264 rootdir os raw bytes me mt False) me ds rest'"
  shows "media_stat me = Some ((large_unit_state s sc h p)\<lparr>current_packet := k\<rparr>) \<Longrightarrow> has_flag (me_flags me) ME_FD \<Longrightarrow>
    0 < k \<Longrightarrow> k \<le> length p div 1400 \<Longrightarrow>
    delivers (\<lambda>me mt. read_h264 rootdir os raw bytes me mt False) me (map (fragment h p) [k..<Suc (length p div 1400)] @ ds) rest'"
proof (induction "length p div 1400 - k" arbitrary: me k)
  case 0
  then have k: "k = length p div 1400" by simp
  have "delivers (\<lambda>me mt. read_h264 rootdir os raw bytes me mt False) me (fragment h p k # ds) rest'"
  proof (rule delivers_again [OF _ fragment_length(2,1)])
    fix mt
    from next_fragment_read [OF 0(2-5), of rootdir os raw bytes mt] obtain me' t m where
      r: "read_h264 rootdir os raw bytes me mt False = Some \<lparr>rd_me = me', rd_res = ERR_NOERROR,
        rd_data = Some (fragment h p k), rd_mtime = t, rd_recall = True, rd_marker = m\<rparr>" "has_flag (me_flags me') ME_FD"
      "media_stat me' = Some ((unit_read_state s sc h p)\<lparr>sharding_packet := H264_NOT_SHARDING, packet_num := length p div 1400,
        last_packet_byte := length p mod 1400, current_packet := k\<rparr>)" using k by auto
    then have "h264_ready me' rest" using assms(1,2) by (simp add: h264_ready_def)
    from r(1) step [OF this] show "\<exists>me' t m. read_h264 rootdir os raw bytes me mt False = Some \<lparr>rd_me = me', rd_res = ERR_NOERROR,
        rd_data = Some (fragment h p k), rd_mtime = t, rd_recall = True, rd_marker = m\<rparr> \<and>
      delivers (\<lambda>me mt. read_h264 rootdir os raw bytes me mt False) me' ds rest'" by blast
  qed
  then show ?case by (simp add: k)
next
  case (Suc m)
  then have lt: "k < length p div 1400" by simp
  have "delivers (\<lambda>me mt. read_h264 rootdir os raw bytes me mt False) me
      (fragment h p k # map (fragment h p) [Suc k..<Suc (length p div 1400)] @ ds) rest'"
  proof (rule delivers_again [OF _ fragment_length(2,1)])
    fix mt
    from next_fragment_read [OF Suc.prems, of rootdir os raw bytes mt] lt obtain me' t m where
      r: "read_h264 rootdir os raw bytes me mt False = Some \<lparr>rd_me = me', rd_res = ERR_NOERROR,
        rd_data = Some (fragment h p k), rd_mtime = t, rd_recall = True, rd_marker = m\<rparr>" "has_flag (me_flags me') ME_FD"
      "media_stat me' = Some ((large_unit_state s sc h p)\<lparr>current_packet := Suc k\<rparr>)" by auto
    from Suc.hyps(1) [OF _ r(3,2)] Suc.hyps(2) lt r(1) show "\<exists>me' t m. read_h264 rootdir os raw bytes me mt False =
        Some \<lparr>rd_me = me', rd_res = ERR_NOERROR, rd_data = Some (fragment h p k), rd_mtime = t, rd_recall = True, rd_marker = m\<rparr> \<and>
      delivers (\<lambda>me mt. read_h264 rootdir os raw bytes me mt False) me' (map (fragment h p) [Suc k..<Suc (length p div 1400)] @ ds) rest'"
      by (simp del: upt_Suc)
  qed
  then show ?case using lt by (simp add: upt_conv_Cons del: upt_Suc)
qed

lemma group_delivers:
  assumes "start_code sc2"
  shows "group_ok g \<Longrightarrow> h264_ready me (annexb g @ sc2 @ rest) \<Longrightarrow>
    delivers (\<lambda>me mt. read_h264 rootdir os raw bytes me mt False) me (units_packets g) (sc2 @ rest)"
proof (induction g arbitrary: me)
  case Nil
  then show ?case by (simp add: group_ok_def)
next
  case (Cons u g)
  obtain sc h p where u: "u = (sc, h, p)" by (cases u)
  have ok: "unit_ok (sc, h, p)" "list_all unit_ok g" using Cons.prems(1) by (simp_all add: u group_ok_def)
  let ?rd = "\<lambda>me mt. read_h264 rootdir os raw bytes me mt False"
  show ?case
  proof (cases "length p \<le> 1400")
    case True
    then have g: "g = []" using Cons.prems(1) by (simp add: u group_ok_def)
    have "h264_ready me (sc @ (h # p) @ sc2 @ rest)" using Cons.prems(2) by (simp add: u g annexb_def)
    note r = small_unit_read [OF ok(1) assms this True]
    have "length (and h 0x7F # p) \<le> OMSSLOT_DATASIZE" using True by (simp add: OMSSLOT_DATASIZE_def)
    show ?thesis unfolding delivers_def
    proof
      fix mt
      from r [of rootdir os raw bytes mt] obtain me' t where
        m: "?rd me mt = Some \<lparr>rd_me = me', rd_res = ERR_NOERROR, rd_data = Some (and h 0x7F # p), rd_mtime = t,
          rd_recall = False, rd_marker = 1\<rparr>" "h264_ready me' (sc2 @ rest)" by blast
      from produces.stop [of ?rd, OF m(1), of "and h 0x7F # p"] \<open>length (and h 0x7F # p) \<le> OMSSLOT_DATASIZE\<close> m(2)
      show "\<exists>ps me' mt'. produces ?rd me mt ps me' mt' \<and> map pkt_bytes ps = units_packets (u # g) \<and> h264_ready me' (sc2 @ rest)"
        using True by (fastforce simp: read_packet_def units_packets_def unit_packets_def u g)
    qed
  next
    case False
    then have gg: "group_ok g" using Cons.prems(1) ok(2) by (simp add: u group_ok_def)
    from annexb_code [OF ok(2) assms, of rest] obtain sc' rest' where tail: "annexb g @ sc2 @ rest = sc' @ rest'" "start_code sc'" by blast
    have "h264_ready me (sc @ (h # p) @ sc' @ rest')" using Cons.prems(2) by (simp add: u annexb_def tail [unfolded annexb_def])
    then obtain s where s: "media_stat me = Some s" "sharding_packet s = H264_NOT_SHARDING" "\<not> f_eof (h264_file s)"
      "drop (f_pos (h264_file s)) (f_bytes (h264_file s)) = sc @ (h # p) @ sc' @ rest'" "has_flag (me_flags me) ME_FD"
      by (auto simp: h264_ready_def)
    have n: "1 \<le> length p div 1400" using False by linarith
    then have "[0..<Suc (length p div 1400)] = 0 # [1..<Suc (length p div 1400)]" by (simp add: upt_conv_Cons)
    then have up: "units_packets (u # g) = fragment h p 0 # map (fragment h p) [1..<Suc (length p div 1400)] @ units_packets g"
      using False by (simp add: units_packets_def unit_packets_def u del: upt_Suc)
    show ?thesis unfolding up
    proof (rule delivers_again [OF _ fragment_length(2,1)])
      fix mt
      from large_unit_read [OF ok(1) tail(2) s(3,5,1,2,4), of rootdir os raw bytes mt] False obtain me' t where
        r: "?rd me mt = Some \<lparr>rd_me = me', rd_res = ERR_NOERROR, rd_data = Some (fragment h p 0), rd_mtime = t,
          rd_recall = True, rd_marker = 0\<rparr>" "media_stat me' = Some (large_unit_state s sc h p)" "has_flag (me_flags me') ME_FD"
        by auto
      have "large_unit_state s sc h p = (large_unit_state s sc h p)\<lparr>current_packet := 1\<rparr>" by (simp add: large_unit_state_def)
      then have "delivers ?rd me' (map (fragment h p) [1..<Suc (length p div 1400)] @ units_packets g) (sc2 @ rest)"
        using delivers_fragments [OF s(3) cut_unit(2) [OF ok(1) tail(2) s(3,4)] Cons.IH [OF gg, unfolded tail(1)], where k = 1] r(2,3) n
        by simp
      with r(1) show "\<exists>me' t m. ?rd me mt = Some \<lparr>rd_me = me', rd_res = ERR_NOERROR, rd_data = Some (fragment h p 0), rd_mtime = t,
          rd_recall = True, rd_marker = m\<rparr> \<and> delivers ?rd me' (map (fragment h p) [1..<Suc (length p div 1400)] @ units_packets g) (sc2 @ rest)"
        by blast
    qed
  qed
qed

text \<open>What is still to come from a file of units: whole groups, and behind them a start code.\<close>

definition h264_src :: "string \<Rightarrow> os_files \<Rightarrow> static_h264 \<Rightarrow> uint8 list \<Rightarrow> static_h264 media_entry \<Rightarrow> uint8 list list list \<Rightarrow> bool" where
  "h264_src rootdir os raw bytes me fss \<longleftrightarrow> can_open rootdir os me \<and>
     (\<exists>gs sc rest. start_code sc \<and> list_all group_ok gs \<and> fss = map units_packets gs \<and>
       h264_ready (opened rootdir os (init_static_h264 raw bytes) me) (annexb (concat gs) @ sc @ rest))"

lemma swap_buffer:
  "me\<lparr>pkt_buffer := x, media_stat := y\<rparr> = me\<lparr>media_stat := y, pkt_buffer := x\<rparr>"
  "me\<lparr>pkt_buffer := x, h264_time := t\<rparr> = me\<lparr>h264_time := t, pkt_buffer := x\<rparr>"
  by simp_all

lemma start_unit_blind: "start_unit (me\<lparr>pkt_buffer := x\<rparr>) s mt rc =
    map_option (\<lambda>r. r\<lparr>rd_me := (rd_me r)\<lparr>pkt_buffer := x\<rparr>\<rparr>) (start_unit me s mt rc)"
  unfolding start_unit_def Let_def
  by (cases "get_one_NALU_payload (h264_file s) (nalu s)") (auto split: prod.split)

lemma next_fragment_blind: "next_fragment (me\<lparr>pkt_buffer := x\<rparr>) s mt rc =
    (next_fragment me s mt rc)\<lparr>rd_me := (rd_me (next_fragment me s mt rc))\<lparr>pkt_buffer := x\<rparr>\<rparr>"
  unfolding next_fragment_def Let_def by simp

lemma read_h264_opened:
  "read_h264 rootdir os raw bytes me mt rc =
    (if can_open rootdir os me
     then (let me1 = opened rootdir os (init_static_h264 raw bytes) me
           in Option.bind (media_stat me1) (\<lambda>s. if sharding_packet s = H264_NOT_SHARDING then start_unit me1 s mt rc
                                            else Some (next_fragment me1 s mt rc)))
     else Some \<lparr>rd_me = fst (mediaopen rootdir os me), rd_res = snd (mediaopen rootdir os me), rd_data = None, rd_mtime = mt,
                rd_recall = rc, rd_marker = 1\<rparr>)"
  by (auto simp: read_h264_def can_open_def opened_def Let_def split: prod.split)

lemma h264_blind: "buffer_blind (\<lambda>me mt. read_h264 rootdir os raw bytes me mt False)"
proof -
  have o: "can_open rootdir os (me\<lparr>pkt_buffer := x\<rparr>) = can_open rootdir os me"
    "opened rootdir os st (me\<lparr>pkt_buffer := x\<rparr>) = (opened rootdir os st me)\<lparr>pkt_buffer := x\<rparr>" for me st x
    by (auto simp: can_open_def opened_def mediaopen_blind)
  show ?thesis
    by (auto simp: buffer_blind_def read_h264_opened o mediaopen_blind Let_def start_unit_blind next_fragment_blind
        split: Option.bind_split)
qed

lemma h264_source: "frame_source (\<lambda>me mt. read_h264 rootdir os raw bytes me mt False) (h264_src rootdir os raw bytes)"
proof
  show "buffer_blind (\<lambda>me mt. read_h264 rootdir os raw bytes me mt False)" by (rule h264_blind)
next
  fix me fs t b
  assume "h264_src rootdir os raw bytes me fs"
  then show "h264_src rootdir os raw bytes (me\<lparr>mtime := t, pkt_buffer := b\<rparr>) fs"
    unfolding h264_src_def opened_kept h264_ready_def by simp
next
  fix me f fss mt
  let ?open = "opened rootdir os (init_static_h264 raw bytes)"
  let ?rd = "\<lambda>me mt. read_h264 rootdir os raw bytes me mt False"
  assume "h264_src rootdir os raw bytes me (f # fss)"
  then obtain g gs sc rest where a: "can_open rootdir os me" "start_code sc" "group_ok g" "list_all group_ok gs" "f = units_packets g"
    "fss = map units_packets gs" "h264_ready (?open me) (annexb g @ annexb (concat gs) @ sc @ rest)"
    by (auto simp: h264_src_def Cons_eq_map_conv annexb_def)
  have "list_all unit_ok (concat gs)" using a(4) by (induction gs) (auto simp: group_ok_def)
  from annexb_code [OF this a(2), of rest] obtain sc' rest' where
    t: "annexb (concat gs) @ sc @ rest = sc' @ rest'" "start_code sc'" by blast
  from group_delivers [OF t(2) a(3) a(7) [unfolded t(1)], of rootdir os raw bytes] obtain ps me' mt' where
    p: "produces ?rd (?open me) mt ps me' mt'" "map pkt_bytes ps = units_packets g" "h264_ready me' (annexb (concat gs) @ sc @ rest)"
    unfolding delivers_def t(1) by blast
  have same: "?rd (?open me) mt = ?rd me mt"
    using opened_id [OF opened_flag [OF a(1)]] a(1) by (simp add: read_h264_opened)
  have "produces ?rd me mt ps me' mt'"
    using p(1) by cases (simp_all only: same, auto intro: produces.intros)
  moreover have "h264_src rootdir os raw bytes me' fss"
    using p(3) a(2,4,6) opened_id [of me' rootdir os] by (auto simp: h264_src_def h264_ready_def)
  ultimately show "\<exists>ps me' mt'. produces ?rd me mt ps me' mt' \<and> map pkt_bytes ps = f \<and> h264_src rootdir os raw bytes me' fss"
    using p(2) a(5) by blast
qed

interpretation h264_wire: frame_source "lift_reader State_h264 state_h264 (\<lambda>me mt. read_h264 rootdir os raw bytes me mt False)"
  "\<lambda>me. h264_src rootdir os raw bytes (lower_entry state_h264 me)" for rootdir os raw bytes
  by (rule lift_source [OF h264_source]) simp

section \<open>From the file to the wire\<close>

text \<open>An entry whose file is closed and can be opened.\<close>

definition closed_entry :: "reader_env \<Rightarrow> 'st media_entry \<Rightarrow> bool" where
  "closed_entry re me \<longleftrightarrow> \<not> has_flag (me_flags me) ME_FD \<and> 0 \<le> snd (mediaopen (re_root re) (re_os re) me)"

lemma closed_entry_lower: "closed_entry re me \<Longrightarrow> can_open (re_root re) (re_os re) (lower_entry un me)"
  by (auto simp: closed_entry_def can_open_def lower_entry_def mediaopen_def with_stat_def Let_def)

lemma opened_closed:
  assumes "closed_entry re me"
  shows "has_flag (me_flags (opened (re_root re) (re_os re) st (lower_entry un me))) ME_FD"
    and "media_stat (opened (re_root re) (re_os re) st (lower_entry un me)) = Some st"
    and "play_offset (opened (re_root re) (re_os re) st (lower_entry un me)) = play_offset me"
    and "buff_size (opened (re_root re) (re_os re) st (lower_entry un me)) = buff_size me"
    and "length (buff_data (opened (re_root re) (re_os re) st (lower_entry un me))) = length (buff_data me)"
  using opened_flag [OF closed_entry_lower [OF assms], of st un] assms
  by (auto simp: closed_entry_def opened_def lower_entry_def mediaopen_def with_stat_def Let_def)

lemma mp3_src_closed:
  assumes "closed_entry re me" and "re_bytes re = concat fs" and "list_all (mp3_frame (description me)) fs"
    and "sample_rate (description me) \<noteq> 0" and "play_offset me = 0" and "msource (description me) \<noteq> live" and "buff_size me = 0"
    and "length (buff_data me) = 10"
  shows "mp3_src (re_root re) (re_os re) (re_bytes re) (lower_entry state_MP3 me) (map (\<lambda>f. [[0, 0, 0, 0] @ f]) fs)"
  unfolding mp3_src_def mp3_ready_def at_offset_def
  using closed_entry_lower [OF assms(1)] opened_closed [OF assms(1), of "\<lparr>file_bytes = re_bytes re, file_pos = 0\<rparr>" state_MP3] assms(2-8)
  by (intro conjI exI [of _ fs] exI [of _ "\<lparr>file_bytes = re_bytes re, file_pos = 0\<rparr>"] disjI2) simp_all

lemma h264_src_closed:
  assumes "closed_entry re me" and "re_bytes re = annexb (concat gs) @ sc @ rest" and "start_code sc"
    and "list_all group_ok gs" and "sharding_packet (re_raw re) = H264_NOT_SHARDING"
  shows "h264_src (re_root re) (re_os re) (re_raw re) (re_bytes re) (lower_entry state_h264 me) (map units_packets gs)"
  unfolding h264_src_def h264_ready_def
  using closed_entry_lower [OF assms(1)] opened_closed [OF assms(1)] assms(2-5)
  by (intro conjI exI [of _ gs] exI [of _ sc] exI [of _ rest] exI [of _ "init_static_h264 (re_raw re) (re_bytes re)"])
    (simp_all add: init_static_h264_def)

lemma units_concat: "concat (map units_packets gs) = units_packets (concat gs)"
  by (induction gs) (simp_all add: units_packets_def)

lemma groups_ok: "list_all group_ok gs \<Longrightarrow> list_all unit_ok (concat gs)"
  by (induction gs) (auto simp: group_ok_def)

text \<open>What a receiver makes of a run of the packets.\<close>

lemma receive_run:
  assumes "list_all group_ok gs" and "units_packets (concat gs) = xs @ ys"
  shows "prefix xs (units_packets (concat gs)) \<and> prefix (receive None xs) (units_sent (concat gs))"
proof -
  have p: "prefix xs (units_packets (concat gs))" using assms(2) by simp
  from receive_prefix [OF p, of None] receive_units [OF groups_ok [OF assms(1)], of "[]"] p show ?thesis by simp
qed

text \<open>An MP3 file is played completely: repeated calls of \<open>RTP_send_packet\<close> open the file, send each of its frames in a
  datagram of its own, in order, behind the header of RFC 2250, and then report its end; nothing else is sent.\<close>

theorem mp3_file_to_wire:
  assumes "fresh_page e" and "closed_entry re me" and "re_bytes re = concat fs"
    and "list_all (mp3_frame (description me)) fs" and "sample_rate (description me) \<noteq> 0"
    and "play_offset me = 0" and "msource (description me) \<noteq> live" and "buff_size me = 0" and "length (buff_data me) = 10"
    and "session_ready s me [] (length fs + 1)" and "length fs < n"
  shows "\<exists>s' me' wire. send_calls e (media_func re FILE_MP3) sys n s me = Some (s', me', wire, ERR_EOF) \<and>
    map (drop 12) wire = map (\<lambda>f. [0, 0, 0, 0] @ f) fs"
proof -
  let ?fss = "map (\<lambda>f. [[0, 0, 0, 0] @ f]) fs"
  have "mp3_src (re_root re) (re_os re) (re_bytes re) (lower_entry state_MP3 me) ?fss"
    by (rule mp3_src_closed [OF assms(2-9)])
  moreover have c: "concat ?fss = map (\<lambda>f. [0, 0, 0, 0] @ f) fs" by (induction fs) simp_all
  ultimately show ?thesis
    using mp3_wire.send_all [of "re_root re" "re_os re" "re_bytes re" me ?fss e s "[]" n "re_held re" sys] assms(1,10,11)
    by (simp add: media_func_def)
qed

text \<open>An H.264 file reaches the client: calls of \<open>RTP_send_packet\<close> send the packets of the file's NAL units, a run
  of them from the beginning, in order and each once, at least one in each call; and a receiver that follows RFC 6184
  gets from the datagrams the units of the file, in order.\<close>

theorem h264_file_to_wire:
  assumes "fresh_page e" and "closed_entry re me" and "re_bytes re = annexb (concat gs) @ sc @ rest" and "start_code sc"
    and "list_all group_ok gs" and "sharding_packet (re_raw re) = H264_NOT_SHARDING"
    and "session_ready s me [] (length (units_packets (concat gs)))" and "n \<le> length gs"
  shows "\<exists>s' me' wire. send_calls e (media_func re FILE_H264) sys n s me = Some (s', me', wire, ERR_NOERROR) \<and>
    n \<le> length wire \<and> prefix (map (drop 12) wire) (units_packets (concat gs)) \<and>
    prefix (receive None (map (drop 12) wire)) (units_sent (concat gs))"
proof -
  obtain s' me' wire xs where
    R: "send_calls e (media_func re FILE_H264) sys n s me = Some (s', me', wire, ERR_NOERROR)" "n \<le> length wire"
    "units_packets (concat gs) = map (drop 12) wire @ xs"
    using h264_wire.send_many [OF h264_src_closed [OF assms(2-6)] assms(1), of s "[]" 0 n sys] assms(7,8)
    unfolding units_concat by (force simp: media_func_def)
  from R(1,2) receive_run [OF assms(5) R(3)] show ?thesis by blast
qed

section \<open>Where the H.264 reader goes wrong\<close>

text \<open>A unit without payload, such as an end of sequence, is taken for the end of the file.\<close>

lemma header_only_unit_ends:
  assumes "start_code sc" and "start_code sc2" and "h \<noteq> 0" and "h264_ready me (sc @ [h] @ sc2 @ rest)"
  shows "\<exists>r. read_h264 rootdir os raw bytes me mt False = Some r \<and> rd_res r = ERR_EOF"
proof -
  from assms(4) obtain s where s: "media_stat me = Some s" "sharding_packet s = H264_NOT_SHARDING" "\<not> f_eof (h264_file s)"
    "drop (f_pos (h264_file s)) (f_bytes (h264_file s)) = sc @ [h] @ sc2 @ rest" "has_flag (me_flags me) ME_FD"
    by (auto simp: h264_ready_def)
  have "\<not> sublist [0, 0, 1] [h]" by (simp add: sublist_code)
  with assms(3) have "unit_bytes [h]" by (simp add: unit_bytes_def)
  moreover have "length sc + length [h] + length sc2 \<le> MAX_FRAME_ZISE" using assms(1,2) by (auto simp: start_code_def MAX_FRAME_ZISE_def)
  ultimately show ?thesis using unit_read [OF assms(1,2) _ s(3,4), of "nalu s"] s(1,2,5)
    by (simp add: read_h264_def start_unit_def Let_def)
qed

text \<open>The new state is not initialised: what \<open>malloc\<close> found in \<open>sharding_packet\<close> decides whether the file is read at all.\<close>

lemma uninitialised_state_decides:
  assumes "\<not> has_flag (me_flags me) ME_FD" and "0 \<le> snd (mediaopen rootdir os me)"
    and "sharding_packet raw \<noteq> H264_NOT_SHARDING" and "packet_num raw < current_packet raw"
  shows "\<exists>r. read_h264 rootdir os raw bytes me mt False = Some r \<and> rd_res r = ERR_EOF"
  using assms by (auto simp: read_h264_def next_fragment_def init_static_h264_def Let_def split: prod.split)

text \<open>A file of one unit that does not fit into a packet: the reader stands at its beginning, or in the middle of its fragments.\<close>

definition in_large_unit :: "uint8 list \<Rightarrow> uint8 list \<Rightarrow> static_h264 media_entry \<Rightarrow> bool" where
  "in_large_unit sc u me \<longleftrightarrow> has_flag (me_flags me) ME_FD \<and>
     (\<exists>s. media_stat me = Some s \<and> f_bytes (h264_file s) = sc @ u \<and> f_pos (h264_file s) = 0 \<and> \<not> f_eof (h264_file s) \<and>
       (sharding_packet s = H264_NOT_SHARDING \<or>
        sharding_packet s = H264_SHARDING_PACKET \<and> current_packet s \<le> packet_num s \<and> last_packet_byte s < 1400))"

lemma large_unit_recalls:
  assumes "start_code sc" and "unit_bytes u" and "1400 < length u" and "in_large_unit sc u me"
    and "2 * length sc + length u < MAX_FRAME_ZISE"
  shows "\<exists>r d. read_h264 rootdir os raw bytes me mt False = Some r \<and> rd_res r = ERR_NOERROR \<and> rd_recall r \<and>
    rd_data r = Some d \<and> d \<noteq> [] \<and> length d \<le> OMSSLOT_DATASIZE \<and> in_large_unit sc u (rd_me r)"
proof -
  from assms(4) obtain s where s: "media_stat me = Some s" "f_bytes (h264_file s) = sc @ u" "f_pos (h264_file s) = 0"
    "\<not> f_eof (h264_file s)" "has_flag (me_flags me) ME_FD"
    "sharding_packet s = H264_NOT_SHARDING \<or>
      sharding_packet s = H264_SHARDING_PACKET \<and> current_packet s \<le> packet_num s \<and> last_packet_byte s < 1400"
    by (auto simp: in_large_unit_def)
  show ?thesis
  proof (cases "sharding_packet s = H264_NOT_SHARDING")
    case True
    have "u \<noteq> []" using assms(3) by auto
    moreover have "Suc 0 \<le> length u div 1400" using assms(3) by linarith
    moreover have "drop (f_pos (h264_file s)) (f_bytes (h264_file s)) = sc @ u" using s(2,3) by simp
    then have "get_one_NALU_payload (h264_file s) (nalu s) = Some (c_seek 0 (h264_file s),
      (nalu s)\<lparr>forbidden_bit := and (hd u) 0x80, nal_reference_idc := and (hd u) 0x60,
        nal_unit_type := and (hd u) 0x1F, nalu_len := length u,
        nalu_buf := tl u @ 255 # drop (length u) (nalu_buf (nalu s))\<rparr>, ERR_NOERROR)"
      using last_nalu_padded_and_looped [OF assms(1) s(2) assms(1,2) s(4), of "nalu s"] assms(5) by simp
    ultimately show ?thesis using True s(1-5) assms(3)
      by (simp add: read_h264_def start_unit_def Let_def UDP_MAX_SIZE_def in_large_unit_def c_seek_def OMSSLOT_DATASIZE_def)
  next
    case False
    then show ?thesis using s
      by (cases "current_packet s < packet_num s")
        (auto simp: read_h264_def next_fragment_def Let_def UDP_MAX_SIZE_def in_large_unit_def OMSSLOT_DATASIZE_def
          intro!: order_trans [OF min.cobounded2])
  qed
qed

lemma in_large_unit_buffer: "in_large_unit sc u (me\<lparr>pkt_buffer := b\<rparr>) = in_large_unit sc u me"
  by (simp add: in_large_unit_def)

lemma large_unit_no_frame:
  assumes "get_frame_loop e rd me mt = Some y" and "rd = (\<lambda>me mt. read_h264 rootdir os raw bytes me mt False)"
    and "start_code sc" and "unit_bytes u" and "1400 < length u" and "2 * length sc + length u < MAX_FRAME_ZISE"
  shows "\<not> in_large_unit sc u me"
proof (rule get_frame_loop.raw_induct [OF _ assms(1),
      of "\<lambda>e rd' me mt r. rd' = rd \<longrightarrow> \<not> in_large_unit sc u me", rule_format], goal_cases)
  case (1 loop e rd' me mt y)
  from 1(2) obtain b b1 so sl r b2 b4 where
    R: "rd' (me\<lparr>pkt_buffer := Some b1\<rparr>) mt = Some r"
    "(if rd_recall r \<and> rd_res r = ERR_NOERROR then loop e rd' ((rd_me r)\<lparr>pkt_buffer := Some b4\<rparr>) (rd_mtime r)
      else Some ((rd_me r)\<lparr>pkt_buffer := Some b4\<rparr>, rd_mtime r, rd_res r)) = Some y"
    by (auto simp: Let_def bind_eq_Some_conv)
  show ?case
  proof
    assume "in_large_unit sc u me"
    then have "in_large_unit sc u (me\<lparr>pkt_buffer := Some b1\<rparr>)" by (simp add: in_large_unit_buffer)
    from large_unit_recalls [OF assms(3-5) this assms(6), of rootdir os raw bytes mt] R(1) have
      r: "rd_res r = ERR_NOERROR" "rd_recall r" "in_large_unit sc u (rd_me r)" unfolding 1(3) assms(2) by auto
    then have "loop e rd' ((rd_me r)\<lparr>pkt_buffer := Some b4\<rparr>) (rd_mtime r) = Some y" using R(2) by simp
    from 1(1) [OF this 1(3)] r(3) show False unfolding in_large_unit_buffer by blast
  qed
qed simp_all

text \<open>C37: Of a file with one unit that does not fit into a packet (and does fit into the reader's array) \<open>get_frame\<close> never makes a
  frame: every call of the reader succeeds, asks to be called again and leaves the file in the same situation, so that
  \<open>get_frame\<close> has no result, whatever the buffer holds and whatever memory the system gives for it.\<close>

theorem large_unit_never_ends:
  assumes "start_code sc" and "unit_bytes u" and "1400 < length u" and "in_large_unit sc u me"
    and "2 * length sc + length u < MAX_FRAME_ZISE"
  shows "(\<exists>r d. read_h264 rootdir os raw bytes me mt False = Some r \<and> rd_res r = ERR_NOERROR \<and> rd_recall r \<and>
      rd_data r = Some d \<and> d \<noteq> [] \<and> in_large_unit sc u (rd_me r)) \<and>
    get_frame e (Some (\<lambda>me mt. read_h264 rootdir os raw bytes me mt False)) me mt = None"
proof
  show "\<exists>r d. read_h264 rootdir os raw bytes me mt False = Some r \<and> rd_res r = ERR_NOERROR \<and> rd_recall r \<and>
      rd_data r = Some d \<and> d \<noteq> [] \<and> in_large_unit sc u (rd_me r)"
    using large_unit_recalls [OF assms, of rootdir os raw bytes mt] by blast
  show "get_frame e (Some (\<lambda>me mt. read_h264 rootdir os raw bytes me mt False)) me mt = None"
    unfolding get_frame_def option.case using large_unit_no_frame [OF _ refl assms(1-3,5)] assms(4) by (meson not_None_eq)
qed

section \<open>Samples\<close>

definition wire_env :: "uint8 list \<Rightarrow> reader_env" where
  "wire_env bytes = \<lparr>re_root = [], re_os = \<lparr>os_open = (\<lambda>_ _. 3), os_isfifo = (\<lambda>_. False)\<rparr>, re_bytes = bytes, re_raw = sample_reader,
     re_held = [], re_heap = [], re_code = False\<rparr>"

definition wire_media :: "reader_state media_entry" where
  "wire_media = zero_media\<lparr>me_flags := ME_FILENAME,
     description := zero_descr\<lparr>frame_len := 5, bitrate := 8, sample_rate := 1\<rparr>\<rparr>"

lemma wire_media_closed: "closed_entry (wire_env bytes) (wire_media\<lparr>pkt_buffer := b\<rparr>)"
  by (simp add: closed_entry_def wire_env_def wire_media_def zero_media_def mediaopen_def Let_def has_flag_def me_flag_defs)

lemma wire_session: "\<exists>b c. session_ready (udp_session c) (wire_media\<lparr>pkt_buffer := Some b\<rparr>) [] 1000"
proof -
  obtain b0 where n: "OMSbuff_new 3 = Some b0" by (simp add: OMSbuff_new_def)
  obtain b c where r: "chan_inv (b, c)" "chan_queue (b, c) = []" "chan_room (b, c) = (2 ^ 32 - 1 - unat (3 :: 32 word)) div 9"
    by (rule ref_new [OF n])
  then have "session_ready (udp_session c) (wire_media\<lparr>pkt_buffer := Some b\<rparr>) [] 1000"
    by (simp add: session_ready_def udp_session_def zero_session_def wire_ready_def)
  then show ?thesis by blast
qed

theorem mp3_file_to_wire_witness:
  "\<exists>s me s' me' wire. send_calls page_env (media_func (wire_env [1, 2, 3, 4, 5, 0xFF, 0xE0, 2, 4, 5, 6]) FILE_MP3)
       (\<lambda>_ w. int (length w)) 3 s me = Some (s', me', wire, ERR_EOF) \<and>
     map (drop 12) wire = [[0, 0, 0, 0, 1, 2, 3, 4, 5], [0, 0, 0, 0, 0xFF, 0xE0, 2, 4, 5, 6]]"
proof -
  let ?fs = "[[1, 2, 3, 4, 5], [0xFF, 0xE0, 2, 4, 5, 6]] :: uint8 list list"
  obtain b c where r: "session_ready (udp_session c) (wire_media\<lparr>pkt_buffer := Some b\<rparr>) [] 1000" using wire_session by blast
  let ?me = "wire_media\<lparr>pkt_buffer := Some b\<rparr>"
  have "list_all (mp3_frame (description ?me)) ?fs"
    using mp3_sample_ready(2) by (simp add: wire_media_def mp3_sample_def)
  moreover have "sample_rate (description ?me) \<noteq> 0" "play_offset ?me = 0" "msource (description ?me) \<noteq> live" "buff_size ?me = 0" "length (buff_data ?me) = 10"
    by (simp_all add: wire_media_def zero_media_def zero_descr_def)
  moreover have "re_bytes (wire_env [1, 2, 3, 4, 5, 0xFF, 0xE0, 2, 4, 5, 6]) = concat ?fs" by (simp add: wire_env_def)
  moreover have "session_ready (udp_session c) ?me [] (length ?fs + 1)" using session_ready_le [OF r] by simp
  moreover have "length ?fs < 3" by simp
  ultimately have "\<exists>s' me' wire. send_calls page_env (media_func (wire_env [1, 2, 3, 4, 5, 0xFF, 0xE0, 2, 4, 5, 6]) FILE_MP3)
      (\<lambda>_ w. int (length w)) 3 (udp_session c) ?me = Some (s', me', wire, ERR_EOF) \<and> map (drop 12) wire = map (\<lambda>f. [0, 0, 0, 0] @ f) ?fs"
    using wire_media_closed page_env_fresh by (intro mp3_file_to_wire)
  moreover have "map (\<lambda>f. [0, 0, 0, 0] @ f) ?fs = [[0, 0, 0, 0, 1, 2, 3, 4, 5], [0, 0, 0, 0, 0xFF, 0xE0, 2, 4, 5, 6]]" by simp
  ultimately show ?thesis by metis
qed

theorem h264_file_to_wire_witness:
  "\<exists>s me s' me' wire. send_calls page_env (media_func (wire_env [0, 0, 0, 1, 0x67, 7, 0, 0, 1, 0x65, 8, 9, 0, 0, 1]) FILE_H264)
       (\<lambda>_ w. int (length w)) 2 s me = Some (s', me', wire, ERR_NOERROR) \<and> map (drop 12) wire = [[0x67, 7], [0x65, 8, 9]]"
proof -
  let ?gs = "[[([0, 0, 0, 1], 0x67, [7])], [([0, 0, 1], 0x65, [8, 9])]] :: annexb_unit list list"
  let ?re = "wire_env [0, 0, 0, 1, 0x67, 7, 0, 0, 1, 0x65, 8, 9, 0, 0, 1]"
  obtain b c where r: "session_ready (udp_session c) (wire_media\<lparr>pkt_buffer := Some b\<rparr>) [] 1000" using wire_session by blast
  let ?me = "wire_media\<lparr>pkt_buffer := Some b\<rparr>"
  have "re_bytes ?re = annexb (concat ?gs) @ [0, 0, 1] @ []" by (simp add: wire_env_def annexb_def)
  moreover have "start_code [0, 0, 1]" by (simp add: start_code_def)
  moreover have "list_all group_ok ?gs"
    by (simp add: group_ok_def unit_ok_def start_code_def unit_bytes_def sublist_code MAX_FRAME_ZISE_def)
  moreover have "sharding_packet (re_raw ?re) = H264_NOT_SHARDING" by (simp add: wire_env_def sample_reader_def H264_NOT_SHARDING_def)
  moreover have up: "units_packets (concat ?gs) = [[0x67, 7], [0x65, 8, 9]]" by (simp add: units_packets_def unit_packets_def)
  moreover have "session_ready (udp_session c) ?me [] (length (units_packets (concat ?gs)))"
    unfolding up using session_ready_le [OF r] by simp
  moreover have "2 \<le> length ?gs" by simp
  ultimately have "\<exists>s' me' wire. send_calls page_env (media_func ?re FILE_H264) (\<lambda>_ w. int (length w)) 2 (udp_session c) ?me =
      Some (s', me', wire, ERR_NOERROR) \<and> 2 \<le> length wire \<and> prefix (map (drop 12) wire) (units_packets (concat ?gs)) \<and>
      prefix (receive None (map (drop 12) wire)) (units_sent (concat ?gs))"
    using wire_media_closed page_env_fresh by (intro h264_file_to_wire)
  then obtain s' me' wire where w: "send_calls page_env (media_func ?re FILE_H264) (\<lambda>_ w. int (length w)) 2 (udp_session c) ?me =
      Some (s', me', wire, ERR_NOERROR)" "2 \<le> length wire" "prefix (map (drop 12) wire) [[0x67, 7], [0x65, 8, 9]]"
    unfolding up by blast
  from w(3) obtain zs where z: "[[0x67, 7], [0x65, 8, 9]] = map (drop 12) wire @ zs" by (rule prefixE)
  have "2 = length wire + length zs" using arg_cong [OF z, of length] by simp
  then have "length zs = 0" using w(2) by linarith
  then have "zs = []" by simp
  then have "map (drop 12) wire = [[0x67, 7], [0x65, 8, 9]]" using z by simp
  with w(1) show ?thesis by metis
qed

text \<open>A file of one such unit.\<close>

theorem large_unit_never_ends_witness:
  "\<exists>me. in_large_unit [0, 0, 1] (0x65 # replicate 1401 7) me \<and>
     get_frame page_env (Some (\<lambda>me mt. read_h264 [] \<lparr>os_open = (\<lambda>_ _. 3), os_isfifo = (\<lambda>_. False)\<rparr> sample_reader [] me mt False)) me 0 = None"
proof -
  let ?u = "0x65 # replicate 1401 7 :: uint8 list"
  let ?me = "sample_media\<lparr>media_stat := Some (sample_reader\<lparr>h264_file := \<lparr>f_bytes = [0, 0, 1] @ ?u, f_pos = 0, f_eof = False\<rparr>\<rparr>)\<rparr>"
  have u: "unit_bytes ?u"
    by (auto simp: unit_bytes_def sublist_def Cons_eq_append_conv dest!: arg_cong [of _ _ set])
  have m: "in_large_unit [0, 0, 1] ?u ?me"
    by (simp add: in_large_unit_def sample_media_def sample_reader_def has_flag_def ME_FD_def H264_NOT_SHARDING_def)
  have "start_code [0, 0, 1]" "1400 < length ?u" "2 * length [0 :: uint8, 0, 1] + length ?u < MAX_FRAME_ZISE"
    by (simp_all add: start_code_def MAX_FRAME_ZISE_def)
  from large_unit_never_ends [OF this(1) u this(2) m this(3), of "[]"
      "\<lparr>os_open = (\<lambda>_ _. 3), os_isfifo = (\<lambda>_. False)\<rparr>" sample_reader "[]" 0 page_env] m
  show ?thesis by blast
qed

end
