(* ===== verification/Playing.thy ===== *)
theory Playing
  imports File_To_Wire
begin

text \<open>
  A session plays its file: the visits of the scheduler (\<^verbatim>\<open>schedule/schedule_do.c\<close>) to the session's entry of the table,
  with the reports of RTCP, the rate adaptation, which has nothing to do as long as the client sends no report, and
  the clock, over the path of a medium in \<^verbatim>\<open>File_To_Wire\<close>.
\<close>

section \<open>Visits\<close>

fun visits :: "(nat \<Rightarrow> 'st sched_env) \<Rightarrow> nat \<Rightarrow> nat \<Rightarrow> 'st server \<Rightarrow> ('st server \<times> uint8 list list list) option" where
  "visits ev i 0 sv = Some (sv, [])"
| "visits ev i (Suc n) sv =
    do {
      (sv1, w) \<leftarrow> schedule_visit (ev 0) i sv;
      (sv2, ws) \<leftarrow> visits (\<lambda>k. ev (Suc k)) i n sv1;
      Some (sv2, w # ws)
    }"

text \<open>The entry \<open>i\<close> of the table belongs to the session at \<open>a\<close>, which plays a medium of its own. The client has sent no report
  that was not looked at.\<close>

definition playing :: "'st server \<Rightarrow> nat \<Rightarrow> nat \<Rightarrow> RTP_session \<Rightarrow> 'st media_entry \<Rightarrow> bool" where
  "playing sv i a s m \<longleftrightarrow> in_table (int i) \<and> valid (sched sv ! i) \<and> play_action (sched sv ! i) \<and> sched_session (sched sv ! i) = Some a \<and>
     (\<exists>c k b. rtp_heap sv a = Some c \<and> rtp c = s \<and> media_at c = Own k \<and> buf_of sv (Own k) = Some b \<and> cons_buf c = Some b \<and>
        load_medium (Own k) sv = Some m) \<and>
     \<not> paused s \<and> RR_received (client_stats s) = PreviousCount s"

text \<open>The session has been stopped.\<close>

definition stopped :: "'st server \<Rightarrow> nat \<Rightarrow> nat \<Rightarrow> bool" where
  "stopped sv i a \<longleftrightarrow> valid (sched sv ! i) \<and> sched_session (sched sv ! i) = Some a \<and> (\<exists>c. rtp_heap sv a = Some c \<and> paused (rtp c))"

text \<open>The clock allows the next packet.\<close>

definition due :: "'st sched_env \<Rightarrow> cdouble \<Rightarrow> cdouble \<Rightarrow> cdouble \<Rightarrow> bool" where
  "due env start len prev \<longleftrightarrow> start \<le> msec (env_clock env) \<and> len \<le> msec (env_clock env) - prev"

lemma visit_stopped: "stopped sv i a \<Longrightarrow> schedule_visit env i sv = Some (sv, [])"
  by (auto simp: stopped_def schedule_visit_def Let_def)

lemma visits_stopped: "stopped sv i a \<Longrightarrow> visits ev i n sv = Some (sv, replicate n [])"
  by (induction n arbitrary: ev) (simp_all add: visit_stopped)

lemma load_own: "buf_of sv (Own k) = Some b \<Longrightarrow> pkt_buffer m = Some bf \<Longrightarrow> load_medium (Own k) (save_medium (Own k) m sv) = Some m"
  by (simp add: load_medium_def save_medium_def get_entry_def put_entry_def Let_def)

lemma own_put_cell: "load_medium (Own k) (put_cell a c sv) = load_medium (Own k) sv" "buf_of (put_cell a c sv) = buf_of sv"
    "get_entry (Own k) (put_cell a c sv) = get_entry (Own k) sv" "sched (put_cell a c sv) = sched sv"
  by (simp_all add: load_medium_def put_cell_def get_entry_def cong: option.case_cong)

lemma save_own: "buf_of sv (Own k) = Some b \<Longrightarrow> pkt_buffer m = Some bf \<Longrightarrow>
    buf_of (save_medium (Own k) m sv) = buf_of sv \<and> get_entry (Own k) (save_medium (Own k) m sv) = Some (m\<lparr>pkt_buffer := None\<rparr>)"
  by (simp add: save_medium_def get_entry_def put_entry_def Let_def)

lemma medium_put_cell:
  "get_entry (Own k) sv = Some m \<Longrightarrow> media_at c = Own k \<Longrightarrow> session_medium a (put_cell a c sv) = Some (c, m)"
proof -
  have "rtp_heap (put_cell a c sv) a = Some c" by (simp add: put_cell_def)
  then show "get_entry (Own k) sv = Some m \<Longrightarrow> media_at c = Own k \<Longrightarrow> session_medium a (put_cell a c sv) = Some (c, m)"
    by (simp add: session_medium_def own_put_cell(3))
qed

text \<open>RTCP changes only its own buffer.\<close>

definition rtcp_same :: "RTP_session \<Rightarrow> RTP_session \<Rightarrow> bool" where
  "rtcp_same s s' \<longleftrightarrow> transport s' = transport s \<and> cons s' = cons s \<and> client_stats s' = client_stats s \<and>
     PreviousCount s' = PreviousCount s \<and> paused s' = paused s \<and> mprev_tx_time s' = mprev_tx_time s"

lemma rtcp_send_same: "rtcp_same s (fst (RTCP_send_packet now h j rate s t))"
  by (simp add: rtcp_same_def RTCP_send_packet_def append_out_def Let_def split: option.split)

lemma handler_same:
  assumes "RTCP_handler now h j rate sys w s = (s', out, r)"
  shows "rtcp_same s s' \<and> length out \<le> 1"
proof -
  define s2 where "s2 = fst (RTCP_send_packet now h j rate
      (fst (RTCP_send_packet now h j rate s (if pkt_count (server_stats s) = 0 then RR else SR))) SDES)"
  have "rtcp_same s s2"
    using rtcp_send_same [of s now h j rate] rtcp_send_same [of _ now h j rate SDES] unfolding s2_def rtcp_same_def by metis
  moreover have "length o1 \<le> 1" if "RTP_sendto sys x rtcp_proto p = (r1, o1)" for x p r1 o1
    using that by (auto simp: RTP_sendto_def Let_def split: if_splits transport_type.splits)
  ultimately show ?thesis using assms
    by (auto simp: RTCP_handler_def Let_def s2_def rtcp_same_def split: if_splits option.splits prod.splits)
qed

lemma handler_ready: "rtcp_same s s' \<Longrightarrow> session_ready s m q room \<Longrightarrow> session_ready s' m q room"
  by (auto simp: rtcp_same_def session_ready_def wire_ready_def)

section \<open>A visit of a playing session\<close>

text \<open>What the reader leaves alone: the start of the medium, its handler and its description.\<close>

locale steady_source = frame_source rd src for rd :: "'st reader" and src +
  fixes f :: media_file_type and ms :: cdouble and d :: media_descr
  assumes steady: "src me fs \<Longrightarrow> mstart me = ms \<and> media_handler me = Some f \<and> description me = d"
begin

text \<open>The visit up to the call of \<open>RTP_send_packet\<close>.\<close>

lemma visit_starts:
  assumes "playing sv i a s m" and "src m fs" and "readers env f = Some rd" and "due env ms (pkt_len d) (mprev_tx_time s)"
    and "session_ready s m q room"
  shows "\<exists>c k b s2 w1. rtp_heap sv a = Some c \<and> media_at c = Own k \<and> buf_of sv (Own k) = Some b \<and> cons_buf c = Some b \<and> rtcp_same s s2 \<and>
    length w1 \<le> 1 \<and> session_ready s2 m q room \<and>
    schedule_visit env i sv = do {
        (s3, m3, w2, res) \<leftarrow> RTP_send_packet (shm env) (Some rd) (send_sys env) s2 m;
        sv4 \<leftarrow> after_packet env i res m3 (put_cell a (c\<lparr>rtp := s3\<rparr>) (save_medium (Own k) m3 sv));
        (c4, m4) \<leftarrow> session_medium a sv4;
        Some (put_cell a (c4\<lparr>rtp := (rtp c4)\<lparr>mprev_tx_time := mprev_tx_time (rtp c4) + pkt_len (description m4)\<rparr>\<rparr>) sv4, w1 @ w2)
      }"
proof -
  from assms(1) obtain c k b where c: "rtp_heap sv a = Some c" "rtp c = s" "media_at c = Own k" "buf_of sv (Own k) = Some b"
    "cons_buf c = Some b" "load_medium (Own k) sv = Some m"
    and e: "valid (sched sv ! i)" "play_action (sched sv ! i)" "sched_session (sched sv ! i) = Some a" "\<not> paused s"
      "RR_received (client_stats s) = PreviousCount s"
    unfolding playing_def by blast
  from load_medium_entry [OF c(6)] obtain m0 where m0: "get_entry (Own k) sv = Some m0" "description m = description m0" by blast
  have m0s: "mstart m0 = mstart m" using c(6) m0(1) c(4) by (auto simp: load_medium_def bind_eq_Some_conv)
  have st: "mstart m = ms" "media_handler m = Some f" "description m = d" using steady [OF assms(2)] by simp_all
  have cc: "change_check s = (s, 0)" using e(5) by (simp add: change_check_def RTCP_get_RR_received_def)
  have same: "put_cell a (c\<lparr>rtp := s\<rparr>) sv = sv"
    using c(1,2) by (auto simp: put_cell_def fun_upd_idem)
  have change: "stream_change (cat_env env) (cat_scan env) a 0 sv = Some (sv, ERR_NOERROR)"
    using c(1,3) m0(1) by (simp add: stream_change_def session_medium_def)
  obtain s2 w1 r where h: "RTCP_handler (env_clock env) (host_name (rtcp_out env)) (pad_junk (rtcp_out env))
      (clock_rate (description m)) (send_sys env) (can_write env) s = (s2, w1, r)" by (metis prod_cases3)
  have play: "schedule_visit env i sv = play_entry env i a sv"
    using e c(1-3) m0 m0s st assms(4) by (simp add: schedule_visit_def due_def)
  have ro: "reader_of env m = Some rd" using st(2) assms(3) by (simp add: reader_of_def)
  have "play_entry env i a sv = do {
        (s3, m3, w2, res) \<leftarrow> RTP_send_packet (shm env) (Some rd) (send_sys env) s2 m;
        sv4 \<leftarrow> after_packet env i res m3 (put_cell a (c\<lparr>rtp := s3\<rparr>) (save_medium (Own k) m3 sv));
        (c4, m4) \<leftarrow> session_medium a sv4;
        Some (put_cell a (c4\<lparr>rtp := (rtp c4)\<lparr>mprev_tx_time := mprev_tx_time (rtp c4) + pkt_len (description m4)\<rparr>\<rparr>) sv4, w1 @ w2)
      }"
    using c e(2) by (simp add: play_entry_def cc same change h ro)
  with play c handler_same [OF h] handler_ready [OF _ assms(5)] show ?thesis by auto
qed

lemma ready_tx [simp]: "session_ready (s\<lparr>mprev_tx_time := t\<rparr>) m q room = session_ready s m q room"
  by (simp add: session_ready_def wire_ready_def)

text \<open>A visit that is due, while packets wait or frames are to come, sends packets.\<close>

lemma visit_sends:
  assumes "playing sv i a s m" and "src m fs" and "readers env f = Some rd" and "due env ms (pkt_len d) (mprev_tx_time s)"
    and "session_ready s m q (length (concat fs) + room)" and "fresh_page (shm env)" and "q \<noteq> [] \<or> fs \<noteq> []"
  shows "\<exists>sv' w1 w2 s' m' q' fs'. schedule_visit env i sv = Some (sv', w1 @ w2) \<and> length w1 \<le> 1 \<and> w2 \<noteq> [] \<and>
    map pkt_bytes q @ concat fs = map (drop 12) w2 @ map pkt_bytes q' @ concat fs' \<and> length fs \<le> Suc (length fs') \<and>
    playing sv' i a s' m' \<and> src m' fs' \<and> session_ready s' m' q' (length (concat fs') + room) \<and>
    mprev_tx_time s' = mprev_tx_time s + pkt_len d"
proof -
  from visit_starts [OF assms(1-5)] obtain c k b s2 w1 where
    v: "rtp_heap sv a = Some c" "media_at c = Own k" "buf_of sv (Own k) = Some b" "cons_buf c = Some b" "rtcp_same s s2" "length w1 \<le> 1"
      "session_ready s2 m q (length (concat fs) + room)"
    and visit: "schedule_visit env i sv = do {
        (s3, m3, w2, res) \<leftarrow> RTP_send_packet (shm env) (Some rd) (send_sys env) s2 m;
        sv4 \<leftarrow> after_packet env i res m3 (put_cell a (c\<lparr>rtp := s3\<rparr>) (save_medium (Own k) m3 sv));
        (c4, m4) \<leftarrow> session_medium a sv4;
        Some (put_cell a (c4\<lparr>rtp := (rtp c4)\<lparr>mprev_tx_time := mprev_tx_time (rtp c4) + pkt_len (description m4)\<rparr>\<rparr>) sv4, w1 @ w2)
      }" by blast
  from send_one [OF assms(2,6) v(7) assms(7), of "send_sys env"] obtain s3 m3 w2 q' fs' where
    R: "RTP_send_packet (shm env) (Some rd) (send_sys env) s2 m = Some (s3, m3, w2, ERR_NOERROR)" "w2 \<noteq> []"
    "map pkt_bytes q @ concat fs = map (drop 12) w2 @ map pkt_bytes q' @ concat fs'" "length fs \<le> Suc (length fs')"
    "session_ready s3 m3 q' (length (concat fs') + room)" "src m3 fs'" "same_session s2 s3" by blast
  from R(5) obtain bf where bf: "pkt_buffer m3 = Some bf" by (auto simp: session_ready_def)
  note fields = same_session_fields [OF R(7)]
  define s4 where "s4 = s3\<lparr>mprev_tx_time := mprev_tx_time s3 + pkt_len d\<rparr>"
  define sv4 where "sv4 = put_cell a (c\<lparr>rtp := s3\<rparr>) (save_medium (Own k) m3 sv)"
  define sv' where "sv' = put_cell a (c\<lparr>rtp := s4\<rparr>) sv4"
  have sm: "session_medium a sv4 = Some (c\<lparr>rtp := s3\<rparr>, m3\<lparr>pkt_buffer := None\<rparr>)"
    unfolding sv4_def using v(2) save_own [OF v(3) bf] by (intro medium_put_cell) simp_all
  have "schedule_visit env i sv = Some (sv', w1 @ w2)"
    using R(1) sm steady [OF R(6)]
    by (simp add: visit after_packet_def ERR_EOF_def ERR_NOERROR_def ERR_ALLOC_def sv4_def [symmetric] sv'_def s4_def)
  moreover have "playing sv' i a s4 m3"
  proof -
    have "load_medium (Own k) sv' = Some m3" "buf_of sv' = buf_of sv" "sched sv' = sched sv" "rtp_heap sv' a = Some (c\<lparr>rtp := s4\<rparr>)"
      using load_own [OF v(3) bf] save_own [OF v(3) bf] by (simp_all add: sv'_def sv4_def own_put_cell) (simp add: put_cell_def)
    moreover have "\<not> paused s4" "RR_received (client_stats s4) = PreviousCount s4"
      using assms(1) v(5) fields by (simp_all add: s4_def rtcp_same_def playing_def)
    ultimately show ?thesis using assms(1) v(2-4) by (auto simp: playing_def)
  qed
  moreover have "session_ready s4 m3 q' (length (concat fs') + room)" "mprev_tx_time s4 = mprev_tx_time s + pkt_len d"
    using R(5) v(5) fields by (simp_all add: s4_def rtcp_same_def)
  ultimately show ?thesis using v(6) R(2-4,6) by blast
qed

text \<open>As many visits as there are frames to come.\<close>

lemma visits_send:
  "playing sv i a s m \<Longrightarrow> src m fs \<Longrightarrow> session_ready s m q (length (concat fs) + room) \<Longrightarrow> n \<le> length fs \<Longrightarrow>
   (\<And>k. k < n \<Longrightarrow> readers (ev k) f = Some rd \<and> fresh_page (shm (ev k)) \<and>
      due (ev k) ms (pkt_len d) (mprev_tx_time s + real k * pkt_len d)) \<Longrightarrow>
   \<exists>sv' rs ws s' m' q' fs'. visits ev i n sv = Some (sv', map2 (@) rs ws) \<and> length rs = n \<and> length ws = n \<and>
     list_all (\<lambda>r. length r \<le> 1) rs \<and> n \<le> length (concat ws) \<and>
     map pkt_bytes q @ concat fs = map (drop 12) (concat ws) @ map pkt_bytes q' @ concat fs' \<and>
     playing sv' i a s' m' \<and> src m' fs' \<and> session_ready s' m' q' (length (concat fs') + room)"
proof (induction n arbitrary: sv s m q fs ev)
  case 0
  then show ?case by fastforce
next
  case (Suc n)
  have e0: "readers (ev 0) f = Some rd" "fresh_page (shm (ev 0))" "due (ev 0) ms (pkt_len d) (mprev_tx_time s)"
    using Suc.prems(5) [of 0] by simp_all
  have "q \<noteq> [] \<or> fs \<noteq> []" using Suc.prems(4) by auto
  from visit_sends [OF Suc.prems(1,2) e0(1,3) Suc.prems(3) e0(2) this] obtain sv1 w1 w2 s1 m1 q1 fs1 where
    R: "schedule_visit (ev 0) i sv = Some (sv1, w1 @ w2)" "length w1 \<le> 1" "w2 \<noteq> []"
    "map pkt_bytes q @ concat fs = map (drop 12) w2 @ map pkt_bytes q1 @ concat fs1" "length fs \<le> Suc (length fs1)"
    "playing sv1 i a s1 m1" "src m1 fs1" "session_ready s1 m1 q1 (length (concat fs1) + room)"
    "mprev_tx_time s1 = mprev_tx_time s + pkt_len d" by blast
  have n: "n \<le> length fs1" using R(5) Suc.prems(4) by simp
  have ev: "readers (ev (Suc k)) f = Some rd \<and> fresh_page (shm (ev (Suc k))) \<and>
      due (ev (Suc k)) ms (pkt_len d) (mprev_tx_time s1 + real k * pkt_len d)" if "k < n" for k
    using Suc.prems(5) [of "Suc k"] that by (simp add: R(9) distrib_right add.assoc)
  from Suc.IH [OF R(6,7,8) n, of "\<lambda>k. ev (Suc k)"] ev obtain sv' rs ws s' m' q' fs' where
    I: "visits (\<lambda>k. ev (Suc k)) i n sv1 = Some (sv', map2 (@) rs ws)" "length rs = n" "length ws = n"
    "list_all (\<lambda>r. length r \<le> 1) rs" "n \<le> length (concat ws)"
    "map pkt_bytes q1 @ concat fs1 = map (drop 12) (concat ws) @ map pkt_bytes q' @ concat fs'"
    "playing sv' i a s' m'" "src m' fs'" "session_ready s' m' q' (length (concat fs') + room)" by blast
  have "Suc n \<le> length (concat (w2 # ws))" using R(3) I(5) by (cases w2) simp_all
  then show ?case
    by - (rule exI [of _ sv'], rule exI [of _ "w1 # rs"], rule exI [of _ "w2 # ws"], rule exI [of _ s'], rule exI [of _ m'],
        rule exI [of _ q'], rule exI [of _ fs'], use R(1,2,4) I in simp)
qed

text \<open>Visits until nothing waits and nothing is to come: each of them sends at least one packet.\<close>

lemma visits_drain:
  "playing sv i a s m \<Longrightarrow> src m fs \<Longrightarrow> session_ready s m q (length (concat fs) + room) \<Longrightarrow> length q + length (concat fs) \<le> n \<Longrightarrow>
   (\<And>k. k < n \<Longrightarrow> readers (ev k) f = Some rd \<and> fresh_page (shm (ev k)) \<and>
      due (ev k) ms (pkt_len d) (mprev_tx_time s + real k * pkt_len d)) \<Longrightarrow>
   \<exists>k sv' rs ws. k \<le> n \<and> visits ev i k sv = Some (sv', map2 (@) rs ws) \<and> length rs = k \<and> length ws = k \<and>
     list_all (\<lambda>r. length r \<le> 1) rs \<and> list_all (\<lambda>w. w \<noteq> []) ws \<and> map (drop 12) (concat ws) = map pkt_bytes q @ concat fs"
proof (induction n arbitrary: sv s m q fs ev)
  case 0
  then show ?case by fastforce
next
  case (Suc n)
  show ?case
  proof (cases "q = [] \<and> concat fs = []")
    case True
    then show ?thesis by fastforce
  next
    case False
    then have todo: "q \<noteq> [] \<or> fs \<noteq> []" by auto
    have e0: "readers (ev 0) f = Some rd" "fresh_page (shm (ev 0))" "due (ev 0) ms (pkt_len d) (mprev_tx_time s)"
      using Suc.prems(5) [of 0] by simp_all
    from visit_sends [OF Suc.prems(1,2) e0(1,3) Suc.prems(3) e0(2) todo] obtain sv1 w1 w2 s1 m1 q1 fs1 where
      R: "schedule_visit (ev 0) i sv = Some (sv1, w1 @ w2)" "length w1 \<le> 1" "w2 \<noteq> []"
      "map pkt_bytes q @ concat fs = map (drop 12) w2 @ map pkt_bytes q1 @ concat fs1"
      "playing sv1 i a s1 m1" "src m1 fs1" "session_ready s1 m1 q1 (length (concat fs1) + room)"
      "mprev_tx_time s1 = mprev_tx_time s + pkt_len d" by blast
    have "length q + length (concat fs) = length w2 + length q1 + length (concat fs1)"
      using arg_cong [OF R(4), of length] by (simp del: length_concat)
    moreover have "0 < length w2" using R(3) by simp
    ultimately have n: "length q1 + length (concat fs1) \<le> n" using Suc.prems(4) by linarith
    have ev: "readers (ev (Suc k)) f = Some rd \<and> fresh_page (shm (ev (Suc k))) \<and>
        due (ev (Suc k)) ms (pkt_len d) (mprev_tx_time s1 + real k * pkt_len d)" if "k < n" for k
      using Suc.prems(5) [of "Suc k"] that by (simp add: R(8) distrib_right add.assoc)
    from Suc.IH [OF R(5,6,7) n, of "\<lambda>k. ev (Suc k)"] ev obtain k sv' rs ws where
      I: "k \<le> n" "visits (\<lambda>k. ev (Suc k)) i k sv1 = Some (sv', map2 (@) rs ws)" "length rs = k" "length ws = k"
      "list_all (\<lambda>r. length r \<le> 1) rs" "list_all (\<lambda>w. w \<noteq> []) ws" "map (drop 12) (concat ws) = map pkt_bytes q1 @ concat fs1" by blast
    show ?thesis
      by - (rule exI [of _ "Suc k"], rule exI [of _ sv'], rule exI [of _ "w1 # rs"], rule exI [of _ "w2 # ws"], use R(1-4) I in simp)
  qed
qed

end

section \<open>The end of the file\<close>

locale steady_finite = finite_source rd src + steady_source rd src f ms d
  for rd :: "'st reader" and src and f :: media_file_type and ms :: cdouble and d :: media_descr +
  assumes stored: "src me [] \<Longrightarrow> rd me mt = Some r \<Longrightarrow> msource (description (rd_me r)) \<noteq> live"
begin

text \<open>The visit that meets the end of the file stops the session.\<close>

lemma visit_ends:
  assumes "playing sv i a s m" and "src m []" and "readers env f = Some rd" and "due env ms (pkt_len d) (mprev_tx_time s)"
    and "session_ready s m [] 1" and "fresh_page (shm env)"
  shows "\<exists>sv' w1. schedule_visit env i sv = Some (sv', w1) \<and> length w1 \<le> 1 \<and> stopped sv' i a"
proof -
  from visit_starts [OF assms(1-5)] obtain c k b s2 w1 where
    v: "rtp_heap sv a = Some c" "media_at c = Own k" "buf_of sv (Own k) = Some b" "cons_buf c = Some b" "rtcp_same s s2" "length w1 \<le> 1"
      "session_ready s2 m [] 1"
    and visit: "schedule_visit env i sv = do {
        (s3, m3, w2, res) \<leftarrow> RTP_send_packet (shm env) (Some rd) (send_sys env) s2 m;
        sv4 \<leftarrow> after_packet env i res m3 (put_cell a (c\<lparr>rtp := s3\<rparr>) (save_medium (Own k) m3 sv));
        (c4, m4) \<leftarrow> session_medium a sv4;
        Some (put_cell a (c4\<lparr>rtp := (rtp c4)\<lparr>mprev_tx_time := mprev_tx_time (rtp c4) + pkt_len (description m4)\<rparr>\<rparr>) sv4, w1 @ w2)
      }" by blast
  from send_at_end [OF assms(2,6) v(7), of "send_sys env"] obtain s3 m3 bf mt r where
    R: "RTP_send_packet (shm env) (Some rd) (send_sys env) s2 m = Some (s3, m3, [], ERR_EOF)" "rd m mt = Some r"
      "m3 = (rd_me r)\<lparr>pkt_buffer := Some bf\<rparr>" by blast
  have live: "msource (description m3) \<noteq> live" using stored [OF assms(2) R(2)] by (simp add: R(3))
  have bf: "pkt_buffer m3 = Some bf" by (simp add: R(3))
  define sv4 where "sv4 = put_cell a (c\<lparr>rtp := s3\<rparr>) (save_medium (Own k) m3 sv)"
  have e: "in_table (int i)" "valid (sched sv ! i)" "sched_session (sched sv ! i) = Some a" using assms(1) by (simp_all add: playing_def)
  have m4: "get_entry (Own k) sv4 = Some (m3\<lparr>pkt_buffer := None\<rparr>)" "sched sv4 = sched sv" "rtp_heap sv4 a = Some (c\<lparr>rtp := s3\<rparr>)"
    using save_own [OF v(3) bf] by (simp_all add: sv4_def own_put_cell) (simp add: put_cell_def)
  have ec: "entry_cell (int i) sv4 = Some (a, c\<lparr>rtp := s3\<rparr>)" using e m4 by (simp add: entry_cell_def)
  define s5 where "s5 = rtcp_queue (rtcp_out env) (m3\<lparr>pkt_buffer := None\<rparr>) (rtcp_queue (rtcp_out env) (m3\<lparr>pkt_buffer := None\<rparr>)
      (s3\<lparr>paused := True, started := False\<rparr>) SR) BYE"
  define sv5 where "sv5 = put_cell a (c\<lparr>rtp := s5\<rparr>) sv4"
  have st: "schedule_stop (rtcp_out env) (int i) sv4 = Some sv5"
    using v(2) m4 by (simp add: schedule_stop_def ec sv5_def s5_def)
  have q: "paused (rtcp_queue env x s t) = paused s" for env s t and x :: "'st media_entry"
    using rtcp_send_same [of s] by (simp add: rtcp_queue_def rtcp_same_def)
  then have p5: "paused s5" by (simp add: s5_def)
  have sm: "session_medium a sv5 = Some (c\<lparr>rtp := s5\<rparr>, m3\<lparr>pkt_buffer := None\<rparr>)"
    unfolding sv5_def using v(2) m4(1) by (intro medium_put_cell) simp_all
  define sv6 where "sv6 = put_cell a (c\<lparr>rtp := s5\<lparr>mprev_tx_time := mprev_tx_time s5 + pkt_len (description m3)\<rparr>\<rparr>) sv5"
  have "schedule_visit env i sv = Some (sv6, w1)"
    using R(1) sm live st by (simp add: visit after_packet_def sv4_def [symmetric] sv6_def)
  moreover have "stopped sv6 i a" using e m4(2) p5 by (simp add: stopped_def sv6_def sv5_def put_cell_def)
  ultimately show ?thesis using v(6) by blast
qed

lemma visits_play:
  "playing sv i a s m \<Longrightarrow> src m fs \<Longrightarrow> session_ready s m q (length (concat fs) + 1) \<Longrightarrow> length q + length (concat fs) < n \<Longrightarrow>
   (\<And>k. k < n \<Longrightarrow> readers (ev k) f = Some rd \<and> fresh_page (shm (ev k)) \<and>
      due (ev k) ms (pkt_len d) (mprev_tx_time s + real k * pkt_len d)) \<Longrightarrow>
   \<exists>sv' rs ws. visits ev i n sv = Some (sv', map2 (@) rs ws) \<and> length rs = n \<and> length ws = n \<and> list_all (\<lambda>r. length r \<le> 1) rs \<and>
     map (drop 12) (concat ws) = map pkt_bytes q @ concat fs \<and> stopped sv' i a"
proof (induction n arbitrary: sv s m q fs ev)
  case 0
  then show ?case by simp
next
  case (Suc n)
  have e0: "readers (ev 0) f = Some rd" "fresh_page (shm (ev 0))" "due (ev 0) ms (pkt_len d) (mprev_tx_time s)"
    using Suc.prems(5) [of 0] by simp_all
  show ?case
  proof (cases "q = [] \<and> fs = []")
    case True
    then have "src m []" "session_ready s m [] 1" using Suc.prems by simp_all
    from visit_ends [OF Suc.prems(1) this(1) e0(1,3) this(2) e0(2)] obtain sv1 w1 where
      R: "schedule_visit (ev 0) i sv = Some (sv1, w1)" "length w1 \<le> 1" "stopped sv1 i a" by blast
    have z: "map2 (@) (replicate n []) (replicate n []) = replicate n ([] :: uint8 list list)" by (induction n) simp_all
    have "concat (replicate n []) = ([] :: uint8 list list)" by (induction n) simp_all
    then show ?thesis
      by - (rule exI [of _ sv1], rule exI [of _ "w1 # replicate n []"], rule exI [of _ "[] # replicate n []"],
          use R visits_stopped [OF R(3), of "\<lambda>k. ev (Suc k)" n] True in \<open>simp add: z list_all_iff\<close>)
  next
    case False
    then have "q \<noteq> [] \<or> fs \<noteq> []" by blast
    from visit_sends [OF Suc.prems(1,2) e0(1,3) Suc.prems(3) e0(2) this] obtain sv1 w1 w2 s1 m1 q1 fs1 where
      R: "schedule_visit (ev 0) i sv = Some (sv1, w1 @ w2)" "length w1 \<le> 1" "w2 \<noteq> []"
      "map pkt_bytes q @ concat fs = map (drop 12) w2 @ map pkt_bytes q1 @ concat fs1"
      "playing sv1 i a s1 m1" "src m1 fs1" "session_ready s1 m1 q1 (length (concat fs1) + 1)"
      "mprev_tx_time s1 = mprev_tx_time s + pkt_len d" by blast
    have n: "length q1 + length (concat fs1) < n"
      using arg_cong [OF R(4), of length] R(3) Suc.prems(4) by (cases w2) simp_all
    have ev: "readers (ev (Suc k)) f = Some rd \<and> fresh_page (shm (ev (Suc k))) \<and>
        due (ev (Suc k)) ms (pkt_len d) (mprev_tx_time s1 + real k * pkt_len d)" if "k < n" for k
      using Suc.prems(5) [of "Suc k"] that by (simp add: R(8) distrib_right add.assoc)
    from Suc.IH [OF R(5,6,7) n, of "\<lambda>k. ev (Suc k)"] ev obtain sv' rs ws where
      I: "visits (\<lambda>k. ev (Suc k)) i n sv1 = Some (sv', map2 (@) rs ws)" "length rs = n" "length ws = n"
      "list_all (\<lambda>r. length r \<le> 1) rs" "map (drop 12) (concat ws) = map pkt_bytes q1 @ concat fs1" "stopped sv' i a" by blast
    then show ?thesis
      by - (rule exI [of _ sv'], rule exI [of _ "w1 # rs"], rule exI [of _ "w2 # ws"], use R(1,2,4) I in simp)
  qed
qed

end

section \<open>The readers are steady\<close>

definition steady_reader :: "'st reader \<Rightarrow> bool" where
  "steady_reader rd \<longleftrightarrow> (\<forall>me mt r. rd me mt = Some r \<longrightarrow> mstart (rd_me r) = mstart me \<and> media_handler (rd_me r) = media_handler me \<and>
     description (rd_me r) = description me)"

definition steady_entry :: "media_file_type \<Rightarrow> cdouble \<Rightarrow> media_descr \<Rightarrow> 'st media_entry \<Rightarrow> bool" where
  "steady_entry f ms d me \<longleftrightarrow> mstart me = ms \<and> media_handler me = Some f \<and> description me = d \<and> msource d \<noteq> live"

lemma produces_steady:
  assumes "steady_reader rd"
  shows "produces rd me mt ps me' mt' \<Longrightarrow> steady_entry f ms d me \<Longrightarrow> steady_entry f ms d me'"
  by (induction rule: produces.induct) (use assms in \<open>simp_all add: steady_reader_def steady_entry_def\<close>)

lemma steady_source_reader:
  assumes "frame_source rd src" and "steady_reader rd"
  shows "steady_source rd (\<lambda>me fs. src me fs \<and> steady_entry f ms d me) f ms d"
proof
  show "buffer_blind rd" by (rule frame_source.blind [OF assms(1)])
next
  fix me fs t b
  assume "src me fs \<and> steady_entry f ms d me"
  with frame_source.kept [OF assms(1), of me fs b t]
  show "src (me\<lparr>mtime := t, pkt_buffer := b\<rparr>) fs \<and> steady_entry f ms d (me\<lparr>mtime := t, pkt_buffer := b\<rparr>)" by (simp add: steady_entry_def)
next
  fix me g fs mt
  assume a: "src me (g # fs) \<and> steady_entry f ms d me"
  from frame_source.frame [OF assms(1), of me g fs mt] a obtain ps me' mt' where
    "produces rd me mt ps me' mt'" "map pkt_bytes ps = g" "src me' fs" by blast
  with produces_steady [OF assms(2) this(1), of f ms d] a
  show "\<exists>ps me' mt'. produces rd me mt ps me' mt' \<and> map pkt_bytes ps = g \<and> src me' fs \<and> steady_entry f ms d me'" by blast
qed (simp add: steady_entry_def)

lemma steady_finite_reader:
  assumes "finite_source rd src" and "steady_reader rd"
  shows "steady_finite rd (\<lambda>me fs. src me fs \<and> steady_entry f ms d me) f ms d"
proof -
  have fr: "frame_source rd src" using assms(1) by (simp add: finite_source_def)
  note st = steady_source_reader [OF fr assms(2), of f ms d]
  show ?thesis
  proof (rule steady_finite.intro [OF finite_source.intro [OF steady_source.axioms(1) [OF st] finite_source_axioms.intro] st
        steady_finite_axioms.intro])
    fix me mt
    assume "src me [] \<and> steady_entry f ms d me"
    then show "\<exists>r. rd me mt = Some r \<and> rd_res r = ERR_EOF" using finite_source.end_of_file [OF assms(1)] by blast
  next
    fix me mt r
    assume "src me [] \<and> steady_entry f ms d me" and "rd me mt = Some r"
    then show "msource (description (rd_me r)) \<noteq> live" using assms(2) by (simp add: steady_reader_def steady_entry_def)
  qed
qed

lemma with_stat_steady [simp]:
  "mstart (with_stat x me) = mstart me" "media_handler (with_stat x me) = media_handler me"
  by (simp_all add: with_stat_def)

lemma lift_steady:
  assumes "steady_reader rd"
  shows "steady_reader (lift_reader mk un rd)"
  unfolding steady_reader_def
proof (intro allI impI)
  fix me mt r
  assume "lift_reader mk un rd me mt = Some r"
  then obtain z where z: "rd (with_stat (Option.bind (media_stat me) un) me) mt = Some z"
    "rd_me r = with_stat (map_option mk (media_stat (rd_me z))) (rd_me z)" by (auto simp: lift_reader_def)
  with assms show "mstart (rd_me r) = mstart me \<and> media_handler (rd_me r) = media_handler me \<and> description (rd_me r) = description me"
    by (simp add: steady_reader_def)
qed

lemma mediaopen_steady: "mediaopen r os me = (me1, k) \<Longrightarrow> mstart me1 = mstart me \<and> media_handler me1 = media_handler me \<and> description me1 = description me"
  by (auto simp: mediaopen_def Let_def split: if_splits)

lemma mp3_packet_steady:
  "mp3_packet junk me mt = Some r \<Longrightarrow>
    mstart (rd_me r) = mstart me \<and> media_handler (rd_me r) = media_handler me \<and> description (rd_me r) = description me"
proof -
  have "mp3_read junk m f mt = Some r \<Longrightarrow>
      mstart (rd_me r) = mstart m \<and> media_handler (rd_me r) = media_handler m \<and> description (rd_me r) = description m" for m f
    unfolding mp3_read_def Let_def by (auto split: prod.split_asm if_split_asm)
  then show "mp3_packet junk me mt = Some r \<Longrightarrow>
      mstart (rd_me r) = mstart me \<and> media_handler (rd_me r) = media_handler me \<and> description (rd_me r) = description me"
    by (fastforce simp: mp3_packet_def Let_def split: Option.bind_split_asm if_split_asm)
qed

lemma mp3_steady: "steady_reader (read_MP3 rootdir os junk bytes)"
  by (auto simp: steady_reader_def read_MP3_def Let_def split: if_splits prod.splits dest!: mp3_packet_steady mediaopen_steady)

lemma start_unit_steady:
  "start_unit me s mt rc = Some r \<Longrightarrow>
    mstart (rd_me r) = mstart me \<and> media_handler (rd_me r) = media_handler me \<and> description (rd_me r) = description me"
  unfolding start_unit_def Let_def by (auto split: Option.bind_split_asm prod.split_asm if_split_asm)

lemma next_fragment_steady:
  "mstart (rd_me (next_fragment me s mt rc)) = mstart me \<and> media_handler (rd_me (next_fragment me s mt rc)) = media_handler me \<and>
    description (rd_me (next_fragment me s mt rc)) = description me"
  by (simp add: next_fragment_def Let_def)

lemma h264_steady: "steady_reader (\<lambda>me mt. read_h264 rootdir os raw bytes me mt False)"
  by (auto simp: steady_reader_def read_h264_def Let_def next_fragment_steady split: if_splits prod.splits Option.bind_split_asm
      dest!: start_unit_steady mediaopen_steady)

interpretation mp3_play: steady_finite "lift_reader State_MP3 state_MP3 (read_MP3 rootdir os junk bytes)"
  "\<lambda>me fs. mp3_src rootdir os bytes (lower_entry state_MP3 me) fs \<and> steady_entry FILE_MP3 ms d me" FILE_MP3 ms d
  for rootdir os junk bytes ms d
  by (rule steady_finite_reader [OF lift_finite [OF mp3_source] lift_steady [OF mp3_steady]]) simp

interpretation h264_play: steady_source "lift_reader State_h264 state_h264 (\<lambda>me mt. read_h264 rootdir os raw bytes me mt False)"
  "\<lambda>me fs. h264_src rootdir os raw bytes (lower_entry state_h264 me) fs \<and> steady_entry FILE_H264 ms d me" FILE_H264 ms d
  for rootdir os raw bytes ms d
  by (rule steady_source_reader [OF lift_source [OF h264_source] lift_steady [OF h264_steady]]) simp

section \<open>Starting a session\<close>

text \<open>The session of entry \<open>i\<close> has been set up: its medium is its own copy, with a buffer nobody has used yet, of \<open>sz\<close> slots.\<close>

definition ready_to_play :: "'st server \<Rightarrow> nat \<Rightarrow> nat \<Rightarrow> 'st media_entry \<Rightarrow> uint32 \<Rightarrow> bool" where
  "ready_to_play sv i a m sz \<longleftrightarrow> in_table (int i) \<and> valid (sched sv ! i) \<and> play_action (sched sv ! i) \<and> sched_session (sched sv ! i) = Some a \<and>
     (\<exists>c k b b0. rtp_heap sv a = Some c \<and> wire_ready (rtp c) \<and> media_at c = Own k \<and> own_media sv k = Some m \<and> buf_of sv (Own k) = Some b \<and>
        buffers sv b = Some b0 \<and> OMSbuff_new sz = Some b0)"

definition room_of :: "uint32 \<Rightarrow> nat" where
  "room_of sz = (2 ^ 32 - 1 - unat sz) div 9"

text \<open>PLAY from the beginning, at once.\<close>

definition from_start :: "play_args \<Rightarrow> bool" where
  "from_start args \<longleftrightarrow> start_time args = 0 \<and> \<not> playback_time_valid args"

lemma ref_first:
  assumes "OMSbuff_new sz = Some b0" and "OMSbuff_ref b0 = Some (b, c)"
  shows "ctl_refs (control b) = 1"
proof -
  note N = new_slots [OF assms(1)]
  have "slot_seq (slot_at b0 0) = 0" using N(3) N(4) [of 0] by (simp add: slot_at_def)
  then show ?thesis using assms(2) N(2) by (auto simp: OMSbuff_ref_def lock_Some OMSbuff_unlock_def)
qed

lemma start_playing:
  assumes "ready_to_play sv i a m sz" and "from_start args"
  shows "\<exists>sv1 s1 m1. schedule_start mktime now (int i) args sv = Some (sv1, ERR_NOERROR) \<and> playing sv1 i a s1 m1 \<and>
    session_ready s1 m1 [] (room_of sz) \<and> mprev_tx_time s1 = msec now \<and>
    m1 = m\<lparr>pkt_buffer := pkt_buffer m1, mstart := msec now, mtime := msec now, mstart_offset := 0, play_offset := 0\<rparr>"
proof -
  from assms(1) obtain c k b b0 where c: "rtp_heap sv a = Some c" "wire_ready (rtp c)" "media_at c = Own k" "own_media sv k = Some m"
    "buf_of sv (Own k) = Some b" "buffers sv b = Some b0" "OMSbuff_new sz = Some b0"
    and e: "in_table (int i)" "valid (sched sv ! i)" "play_action (sched sv ! i)" "sched_session (sched sv ! i) = Some a"
    unfolding ready_to_play_def by blast
  obtain b1 cs where r: "OMSbuff_ref b0 = Some (b1, cs)" "chan_inv (b1, cs)" "chan_queue (b1, cs) = []" "chan_room (b1, cs) = room_of sz"
    by (rule ref_new [OF c(7)]) (simp add: room_of_def)
  have one: "ctl_refs (control b1) = 1" by (rule ref_first [OF c(7) r(1)])
  define m1 where "m1 = m\<lparr>pkt_buffer := Some b1, mstart := msec now, mtime := msec now, mstart_offset := 0, play_offset := 0\<rparr>"
  define c1 where "c1 = zero_clock (c\<lparr>rtp := (rtp c)\<lparr>cons := cs\<rparr>, cons_buf := Some b\<rparr>) (msec now)"
  define sv1 where "sv1 = put_cell a c1 (save_medium (Own k) m1 sv)"
  have lm: "load_medium (Own k) sv = Some (m\<lparr>pkt_buffer := Some b0\<rparr>)" using c by (simp add: load_medium_def get_entry_def)
  have ec: "entry_cell (int i) sv = Some (a, c)" using e c(1) by (simp add: entry_cell_def)
  have "schedule_start mktime now (int i) args sv = Some (sv1, ERR_NOERROR)"
    using assms(2) c(3,5) r(1) by (simp add: schedule_start_def Let_def ec lm one from_start_def sv1_def c1_def m1_def)
  moreover have "pkt_buffer m1 = Some b1" by (simp add: m1_def)
  note l = load_own [OF c(5) this] save_own [OF c(5) this]
  have "playing sv1 i a (rtp c1) m1"
    using e l c(3,5) by (simp add: playing_def sv1_def own_put_cell c1_def zero_clock_def) (simp add: put_cell_def)
  moreover have "session_ready (rtp c1) m1 [] (room_of sz)"
    using r(2-4) c(2) by (simp add: session_ready_def m1_def c1_def zero_clock_def wire_ready_def)
  moreover have "mprev_tx_time (rtp c1) = msec now" by (simp add: c1_def zero_clock_def)
  moreover have "m1 = m\<lparr>pkt_buffer := pkt_buffer m1, mstart := msec now, mtime := msec now, mstart_offset := 0, play_offset := 0\<rparr>"
    by (simp add: m1_def)
  ultimately show ?thesis by blast
qed

section \<open>From PLAY to the end\<close>

text \<open>The visits find the clock advanced by a packet's length each, with the readers of the handler table.\<close>

definition timely :: "reader_env \<Rightarrow> timeval \<Rightarrow> cdouble \<Rightarrow> (nat \<Rightarrow> reader_state sched_env) \<Rightarrow> nat \<Rightarrow> bool" where
  "timely re now len ev n \<longleftrightarrow> 0 \<le> len \<and> (\<forall>k<n. readers (ev k) = media_func re \<and> fresh_page (shm (ev k)) \<and>
     real (Suc k) * len \<le> msec (env_clock (ev k)) - msec now)"

lemma timely_due:
  assumes "timely re now len ev n" and "k < n"
  shows "readers (ev k) = media_func re" and "fresh_page (shm (ev k))" and "due (ev k) (msec now) len (msec now + real k * len)"
proof -
  have *: "real (Suc k) * len \<le> msec (env_clock (ev k)) - msec now" "0 \<le> real (Suc k) * len" using assms by (auto simp: timely_def)
  then show "due (ev k) (msec now) len (msec now + real k * len)" by (simp add: due_def distrib_right)
  show "readers (ev k) = media_func re" "fresh_page (shm (ev k))" using assms by (auto simp: timely_def)
qed

lemma steady_start: "m1 = m\<lparr>pkt_buffer := b, mstart := t, mtime := t, mstart_offset := 0, play_offset := 0\<rparr> \<Longrightarrow>
    media_handler m = Some f \<Longrightarrow> msource (description m) \<noteq> live \<Longrightarrow> steady_entry f t (description m) m1"
  by (simp add: steady_entry_def)

lemma closed_start: "m1 = m\<lparr>pkt_buffer := b, mstart := t, mtime := t, mstart_offset := 0, play_offset := 0\<rparr> \<Longrightarrow>
    closed_entry re m1 = closed_entry re m"
  by (simp add: closed_entry_def mediaopen_def Let_def)

text \<open>C3: After PLAY from the beginning, visits of the scheduler at the pace of the medium send an MP3 file completely: the RTP packets of
  all visits together carry its frames, each once and in order behind the header of RFC 2250, at most one report of RTCP goes
  with a visit, and at the end of the file the session is stopped and sends nothing more.\<close>

theorem mp3_played:
  assumes "ready_to_play sv i a m sz" and "from_start args" and "closed_entry re m" and "re_bytes re = concat fs"
    and "list_all (mp3_frame (description m)) fs" and "sample_rate (description m) \<noteq> 0" and "media_handler m = Some FILE_MP3"
    and "msource (description m) \<noteq> live" and "buff_size m = 0" and "length (buff_data m) = 10"
    and "length fs < room_of sz" and "length fs < n" and "timely re now (pkt_len (description m)) ev n"
  shows "\<exists>sv1 sv2 rs ws. schedule_start mktime now (int i) args sv = Some (sv1, ERR_NOERROR) \<and>
    visits ev i n sv1 = Some (sv2, map2 (@) rs ws) \<and> length rs = n \<and> length ws = n \<and> list_all (\<lambda>r. length r \<le> 1) rs \<and>
    map (drop 12) (concat ws) = map (\<lambda>f. [0, 0, 0, 0] @ f) fs \<and> stopped sv2 i a"
proof -
  let ?fss = "map (\<lambda>f. [[0, 0, 0, 0] @ f]) fs" and ?d = "description m"
  from start_playing [OF assms(1,2), of mktime now] obtain sv1 s1 m1 where
    st: "schedule_start mktime now (int i) args sv = Some (sv1, ERR_NOERROR)" "playing sv1 i a s1 m1"
      "session_ready s1 m1 [] (room_of sz)" "mprev_tx_time s1 = msec now"
    and m1: "m1 = m\<lparr>pkt_buffer := pkt_buffer m1, mstart := msec now, mtime := msec now, mstart_offset := 0, play_offset := 0\<rparr>" by blast
  have f1: "description m1 = ?d" "play_offset m1 = 0" "buff_size m1 = buff_size m" "buff_data m1 = buff_data m"
    by (subst m1, simp)+
  have "mp3_src (re_root re) (re_os re) (re_bytes re) (lower_entry state_MP3 m1) ?fss"
    using assms(3-10) closed_start [OF m1, of re] f1 by (intro mp3_src_closed) simp_all
  then have src: "mp3_src (re_root re) (re_os re) (re_bytes re) (lower_entry state_MP3 m1) ?fss \<and> steady_entry FILE_MP3 (msec now) ?d m1"
    using steady_start [OF m1 assms(7,8)] by blast
  have c: "concat ?fss = map (\<lambda>f. [0, 0, 0, 0] @ f) fs" by (induction fs) simp_all
  have ready: "session_ready s1 m1 [] (length (concat ?fss) + 1)" using session_ready_le [OF st(3)] assms(11) by (simp add: c)
  have n: "length ([] :: packet list) + length (concat ?fss) < n" using assms(12) by (simp add: c)
  have ev: "readers (ev k) FILE_MP3 = Some (lift_reader State_MP3 state_MP3 (read_MP3 (re_root re) (re_os re) (re_held re) (re_bytes re))) \<and>
      fresh_page (shm (ev k)) \<and> due (ev k) (msec now) (pkt_len ?d) (mprev_tx_time s1 + real k * pkt_len ?d)" if "k < n" for k
    using timely_due [OF assms(13) that] by (simp add: media_func_def st(4))
  from mp3_play.visits_play [OF st(2) src ready n ev] obtain sv2 rs ws where
    "visits ev i n sv1 = Some (sv2, map2 (@) rs ws)" "length rs = n" "length ws = n" "list_all (\<lambda>r. length r \<le> 1) rs"
    "map (drop 12) (concat ws) = map (\<lambda>f. [0, 0, 0, 0] @ f) fs" "stopped sv2 i a"
    unfolding c list.map append_Nil by blast
  with st(1) show ?thesis by blast
qed

text \<open>C4: After PLAY from the beginning, visits of the scheduler at the pace of the medium send the whole of an H.264 file up to its last
  start code: after some number of visits, at most one for each packet, the RTP packets they sent are exactly the packets of the file's
  NAL units, each once and in order, every visit sent one at least, and a receiver that follows RFC 6184 gets from them the units of
  the file. Each unit must fit into the reader's array (\<open>group_ok\<close>), the memory \<open>malloc\<close> found for the reader's state must hold a zero
  where the code reads \<open>sharding_packet\<close> before it has written it, and the buffer must have room for the packets.\<close>

theorem h264_played:
  assumes "ready_to_play sv i a m sz" and "from_start args" and "closed_entry re m" and "re_bytes re = annexb (concat gs) @ sc @ rest"
    and "start_code sc" and "list_all group_ok gs" and "sharding_packet (re_raw re) = H264_NOT_SHARDING"
    and "media_handler m = Some FILE_H264" and "msource (description m) \<noteq> live" and "length (units_packets (concat gs)) \<le> room_of sz"
    and "timely re now (pkt_len (description m)) ev (length (units_packets (concat gs)))"
  shows "\<exists>n sv1 sv2 rs ws. n \<le> length (units_packets (concat gs)) \<and>
    schedule_start mktime now (int i) args sv = Some (sv1, ERR_NOERROR) \<and>
    visits ev i n sv1 = Some (sv2, map2 (@) rs ws) \<and> length rs = n \<and> length ws = n \<and> list_all (\<lambda>r. length r \<le> 1) rs \<and>
    list_all (\<lambda>w. w \<noteq> []) ws \<and> map (drop 12) (concat ws) = units_packets (concat gs) \<and>
    receive None (map (drop 12) (concat ws)) = units_sent (concat gs)"
proof -
  let ?fss = "map units_packets gs" and ?d = "description m"
  from start_playing [OF assms(1,2), of mktime now] obtain sv1 s1 m1 where
    st: "schedule_start mktime now (int i) args sv = Some (sv1, ERR_NOERROR)" "playing sv1 i a s1 m1"
      "session_ready s1 m1 [] (room_of sz)" "mprev_tx_time s1 = msec now"
    and m1: "m1 = m\<lparr>pkt_buffer := pkt_buffer m1, mstart := msec now, mtime := msec now, mstart_offset := 0, play_offset := 0\<rparr>" by blast
  have "h264_src (re_root re) (re_os re) (re_raw re) (re_bytes re) (lower_entry state_h264 m1) ?fss"
    using assms(3-7) closed_start [OF m1, of re] by (intro h264_src_closed) simp_all
  then have src: "h264_src (re_root re) (re_os re) (re_raw re) (re_bytes re) (lower_entry state_h264 m1) ?fss \<and>
      steady_entry FILE_H264 (msec now) ?d m1"
    using steady_start [OF m1 assms(8,9)] by blast
  have ready: "session_ready s1 m1 [] (length (concat ?fss) + 0)" using session_ready_le [OF st(3)] assms(10) by (simp add: units_concat)
  have n: "length ([] :: packet list) + length (concat ?fss) \<le> length (units_packets (concat gs))" by (simp add: units_concat)
  have ev: "readers (ev k) FILE_H264 = Some (lift_reader State_h264 state_h264
        (\<lambda>me mt. read_h264 (re_root re) (re_os re) (re_raw re) (re_bytes re) me mt False)) \<and>
      fresh_page (shm (ev k)) \<and> due (ev k) (msec now) (pkt_len ?d) (mprev_tx_time s1 + real k * pkt_len ?d)"
    if "k < length (units_packets (concat gs))" for k
    using timely_due [OF assms(11) that] by (simp add: media_func_def st(4))
  from h264_play.visits_drain [OF st(2) src ready n ev] obtain n sv2 rs ws where
    R: "n \<le> length (units_packets (concat gs))" "visits ev i n sv1 = Some (sv2, map2 (@) rs ws)" "length rs = n" "length ws = n"
      "list_all (\<lambda>r. length r \<le> 1) rs" "list_all (\<lambda>w. w \<noteq> []) ws" "map (drop 12) (concat ws) = units_packets (concat gs)"
    unfolding units_concat list.map append_Nil by blast
  have "receive None (units_packets (concat gs) @ []) = units_sent (concat gs) @ receive None []"
    by (rule receive_units [OF groups_ok [OF assms(6)]])
  then have "receive None (map (drop 12) (concat ws)) = units_sent (concat gs)" by (simp add: R(7))
  with st(1) R show ?thesis by blast
qed

section \<open>Samples\<close>

text \<open>A server whose table holds one session, of a medium with a buffer of three slots, and the scheduler's environment at its visit \<open>k\<close>.\<close>

definition play_media :: "media_file_type \<Rightarrow> reader_state media_entry" where
  "play_media f = wire_media\<lparr>media_handler := Some f, description := (description wire_media)\<lparr>pkt_len := 26\<rparr>\<rparr>"

definition play_cell :: rtp_cell where
  "play_cell = one_cell\<lparr>rtp := udp_session sample_consumer\<rparr>"

definition play_server :: "media_file_type \<Rightarrow> reader_state server" where
  "play_server f = empty_server\<lparr>rtp_heap := [0 \<mapsto> play_cell], sched := one_table, client_count := 1, next_addr := 1,
     own_media := [0 \<mapsto> play_media f], buf_of := [Own 0 \<mapsto> 0], buffers := [0 \<mapsto> the (OMSbuff_new 3)]\<rparr>"

definition play_env :: "reader_env \<Rightarrow> nat \<Rightarrow> reader_state sched_env" where
  "play_env re k = \<lparr>rtcp_out = \<lparr>clock = \<lparr>tv_sec = k + 1, tv_usec = 0\<rparr>, host_name = [], pad_junk = []\<rparr>, shm = page_env,
     send_sys = (\<lambda>_ w. int (length w)), can_write = Some True, readers = media_func re,
     cat_env = \<lparr>ce_root = [], ce_port = 0, ce_aton = (\<lambda>_. None), 
       ce_fs = \<lparr>fs_os = re_os re, fs_bytes = (\<lambda>_. re_bytes re), fs_ctime = (\<lambda>_. None), fs_text = (\<lambda>_. None)\<rparr>\<rparr>,
     cat_scan = \<lparr>sd_eof = False, keyword = [], sd_line = [], sparam = []\<rparr>, close_ret = 0\<rparr>"

definition play_now :: play_args where
  "play_now = \<lparr>playback_time = zero_tm, playback_time_valid = False, start_time = 0, start_time_valid = True, end_time = 0\<rparr>"

lemma play_server_ready: "ready_to_play (play_server f) 0 0 (play_media f) 3"
proof -
  obtain b0 where "OMSbuff_new 3 = Some b0" by (simp add: OMSbuff_new_def)
  then show ?thesis
    by (simp add: ready_to_play_def play_server_def play_cell_def one_cell_def one_table_def in_table_def ONE_FORK_MAX_CONNECTION_def
        udp_session_def zero_session_def wire_ready_def)
qed

lemma play_env_timely: "timely re \<lparr>tv_sec = 0, tv_usec = 0\<rparr> 26 (play_env re) n"
  by (simp add: timely_def play_env_def msec_def)

lemma play_media_fields: "description (play_media f) = (description wire_media)\<lparr>pkt_len := 26\<rparr>" "media_handler (play_media f) = Some f"
    "buff_size (play_media f) = 0" "length (buff_data (play_media f)) = 10" "pkt_len (description (play_media f)) = 26"
    "msource (description (play_media f)) \<noteq> live" "sample_rate (description (play_media f)) \<noteq> 0" "closed_entry (wire_env bytes) (play_media f)"
  by (simp_all add: play_media_def wire_media_def zero_media_def zero_descr_def closed_entry_def wire_env_def mediaopen_def Let_def
      has_flag_def me_flag_defs)

theorem mp3_played_witness:
  "\<exists>sv1 sv2 rs ws. schedule_start (\<lambda>_. 0) \<lparr>tv_sec = 0, tv_usec = 0\<rparr> (int 0) play_now (play_server FILE_MP3) = Some (sv1, ERR_NOERROR) \<and>
     visits (play_env (wire_env [1, 2, 3, 4, 5, 0xFF, 0xE0, 2, 4, 5, 6])) 0 4 sv1 = Some (sv2, map2 (@) rs ws) \<and>
     map (drop 12) (concat ws) = [[0, 0, 0, 0, 1, 2, 3, 4, 5], [0, 0, 0, 0, 0xFF, 0xE0, 2, 4, 5, 6]] \<and> stopped sv2 0 0"
proof -
  let ?fs = "[[1, 2, 3, 4, 5], [0xFF, 0xE0, 2, 4, 5, 6]] :: uint8 list list"
  let ?re = "wire_env [1, 2, 3, 4, 5, 0xFF, 0xE0, 2, 4, 5, 6]"
  have "from_start play_now" by (simp add: from_start_def play_now_def)
  moreover have "re_bytes ?re = concat ?fs" by (simp add: wire_env_def)
  moreover have "list_all (mp3_frame (description (play_media FILE_MP3))) ?fs"
    using mp3_sample_ready(2) by (simp add: play_media_fields wire_media_def mp3_sample_def mp3_frame_def mp3_len_def)
  moreover have "length ?fs < room_of 3" "length ?fs < 4" by (simp_all add: room_of_def)
  moreover have "timely ?re \<lparr>tv_sec = 0, tv_usec = 0\<rparr> (pkt_len (description (play_media FILE_MP3))) (play_env ?re) 4"
    by (simp add: play_media_fields play_env_timely)
  ultimately have "\<exists>sv1 sv2 rs ws. schedule_start (\<lambda>_. 0) \<lparr>tv_sec = 0, tv_usec = 0\<rparr> (int 0) play_now (play_server FILE_MP3) = Some (sv1, ERR_NOERROR) \<and>
      visits (play_env ?re) 0 4 sv1 = Some (sv2, map2 (@) rs ws) \<and> length rs = 4 \<and> length ws = 4 \<and> list_all (\<lambda>r. length r \<le> 1) rs \<and>
      map (drop 12) (concat ws) = map (\<lambda>f. [0, 0, 0, 0] @ f) ?fs \<and> stopped sv2 0 0"
    using play_server_ready play_media_fields by (intro mp3_played)
  then obtain sv1 sv2 rs ws where w: "schedule_start (\<lambda>_. 0) \<lparr>tv_sec = 0, tv_usec = 0\<rparr> (int 0) play_now (play_server FILE_MP3) = Some (sv1, ERR_NOERROR)"
    "visits (play_env ?re) 0 4 sv1 = Some (sv2, map2 (@) rs ws)" "map (drop 12) (concat ws) = map (\<lambda>f. [0, 0, 0, 0] @ f) ?fs" "stopped sv2 0 0"
    by blast
  from w(3) have "map (drop 12) (concat ws) = [[0, 0, 0, 0, 1, 2, 3, 4, 5], [0, 0, 0, 0, 0xFF, 0xE0, 2, 4, 5, 6]]" by simp
  with w(1,2,4) show ?thesis by - (rule exI [of _ sv1], rule exI [of _ sv2], rule exI [of _ rs], rule exI [of _ ws], intro conjI)
qed

theorem h264_played_witness:
  "\<exists>n sv1 sv2 rs ws. schedule_start (\<lambda>_. 0) \<lparr>tv_sec = 0, tv_usec = 0\<rparr> (int 0) play_now (play_server FILE_H264) = Some (sv1, ERR_NOERROR) \<and>
     visits (play_env (wire_env [0, 0, 0, 1, 0x67, 7, 0, 0, 1, 0x65, 8, 9, 0, 0, 1])) 0 n sv1 = Some (sv2, map2 (@) rs ws) \<and>
     map (drop 12) (concat ws) = [[0x67, 7], [0x65, 8, 9]]"
proof -
  let ?gs = "[[([0, 0, 0, 1], 0x67, [7])], [([0, 0, 1], 0x65, [8, 9])]] :: annexb_unit list list"
  let ?re = "wire_env [0, 0, 0, 1, 0x67, 7, 0, 0, 1, 0x65, 8, 9, 0, 0, 1]"
  have "from_start play_now" by (simp add: from_start_def play_now_def)
  moreover have "re_bytes ?re = annexb (concat ?gs) @ [0, 0, 1] @ []" by (simp add: wire_env_def annexb_def)
  moreover have "start_code [0, 0, 1]" by (simp add: start_code_def)
  moreover have "list_all group_ok ?gs" by (simp add: group_ok_def unit_ok_def start_code_def unit_bytes_def sublist_code MAX_FRAME_ZISE_def)
  moreover have "sharding_packet (re_raw ?re) = H264_NOT_SHARDING" by (simp add: wire_env_def sample_reader_def H264_NOT_SHARDING_def)
  moreover have up: "units_packets (concat ?gs) = [[0x67, 7], [0x65, 8, 9]]" by (simp add: units_packets_def unit_packets_def)
  moreover have "length (units_packets (concat ?gs)) \<le> room_of 3" unfolding up by (simp add: room_of_def)
  moreover have "timely ?re \<lparr>tv_sec = 0, tv_usec = 0\<rparr> (pkt_len (description (play_media FILE_H264))) (play_env ?re) (length (units_packets (concat ?gs)))"
    by (simp add: play_media_fields play_env_timely)
  ultimately have "\<exists>n sv1 sv2 rs ws. n \<le> length (units_packets (concat ?gs)) \<and>
      schedule_start (\<lambda>_. 0) \<lparr>tv_sec = 0, tv_usec = 0\<rparr> (int 0) play_now (play_server FILE_H264) = Some (sv1, ERR_NOERROR) \<and>
      visits (play_env ?re) 0 n sv1 = Some (sv2, map2 (@) rs ws) \<and> length rs = n \<and> length ws = n \<and> list_all (\<lambda>r. length r \<le> 1) rs \<and>
      list_all (\<lambda>w. w \<noteq> []) ws \<and> map (drop 12) (concat ws) = units_packets (concat ?gs) \<and>
      receive None (map (drop 12) (concat ws)) = units_sent (concat ?gs)"
    using play_server_ready play_media_fields by (intro h264_played)
  then obtain n sv1 sv2 rs ws where w: "schedule_start (\<lambda>_. 0) \<lparr>tv_sec = 0, tv_usec = 0\<rparr> (int 0) play_now (play_server FILE_H264) = Some (sv1, ERR_NOERROR)"
    "visits (play_env ?re) 0 n sv1 = Some (sv2, map2 (@) rs ws)" "map (drop 12) (concat ws) = [[0x67, 7], [0x65, 8, 9]]"
    unfolding up by (elim exE conjE)
  then show ?thesis by - (rule exI [of _ n], rule exI [of _ sv1], rule exI [of _ sv2], rule exI [of _ rs], rule exI [of _ ws], intro conjI)
qed

end
