(* ===== verification/Reader_Release.thy ===== *)
theory Reader_Release
  imports Media_Readers Mpeg4_Video
begin

text \<open>
  What the readers' states leave behind when a medium is closed: the functions \<open>free_media\<close> of the handler table and the
  others of \<^verbatim>\<open>mediainfo/free_*.c\<close>, over the set of the live blocks of memory. Giving \<open>free\<close> the address of a block that is
  not live is no result; \<open>NULL\<close> is 0.
\<close>

section \<open>Blocks\<close>

type_synonym live_blocks = "nat set"

definition free_block :: "nat \<Rightarrow> live_blocks \<Rightarrow> live_blocks option" where
  "free_block a h = (if a = 0 then Some h else if a \<in> h then Some (h - {a}) else None)"

lemma free_live [simp]: "a \<noteq> 0 \<Longrightarrow> a \<in> h \<Longrightarrow> free_block a h = Some (h - {a})" "free_block 0 h = Some h"
  by (simp_all add: free_block_def)

section \<open>H.264\<close>

text \<open>The blocks \<open>init_static_h264\<close> allocates; \<open>fdopen\<close> allocates the stream.\<close>

record h264_blocks =
  blk_state :: nat
  blk_stream :: nat
  blk_nalu :: nat
  blk_buf :: nat

definition init_h264_blocks :: "h264_blocks \<Rightarrow> live_blocks \<Rightarrow> live_blocks" where
  "init_h264_blocks p h = h \<union> {blk_state p, blk_stream p, blk_nalu p, blk_buf p}"

definition free_h264 :: "h264_blocks option \<Rightarrow> live_blocks \<Rightarrow> (live_blocks \<times> int) option" where
  "free_h264 stat h =
    (case stat of
       None \<Rightarrow> Some (h, ERR_NOERROR)
     | Some p \<Rightarrow>
         do {
           h1 \<leftarrow> free_block (blk_buf p) h;
           h2 \<leftarrow> free_block (blk_nalu p) h1;
           h3 \<leftarrow> free_block (blk_state p) h2;
           Some (h3, ERR_NOERROR)
         })"

text \<open>The blocks \<open>malloc\<close> returns are new and differ from each other.\<close>

definition new_blocks :: "nat list \<Rightarrow> live_blocks \<Rightarrow> bool" where
  "new_blocks as h \<longleftrightarrow> distinct as \<and> 0 \<notin> set as \<and> set as \<inter> h = {}"

text \<open>Each time an H.264 medium is opened and closed the stream of \<open>fdopen\<close> is left behind.\<close>

theorem h264_stream_leaks:
  assumes "new_blocks [blk_state p, blk_stream p, blk_nalu p, blk_buf p] h"
  shows "free_h264 (Some p) (init_h264_blocks p h) = Some (insert (blk_stream p) h, ERR_NOERROR)"
proof -
  have "h - {blk_buf p} - {blk_nalu p} - {blk_state p} = h" using assms by (auto simp: new_blocks_def)
  moreover have "(h \<union> {blk_state p, blk_stream p, blk_nalu p, blk_buf p}) - {blk_buf p} - {blk_nalu p} - {blk_state p} = insert (blk_stream p) h"
    using assms by (auto simp: new_blocks_def)
  ultimately show ?thesis using assms by (auto simp: free_h264_def init_h264_blocks_def new_blocks_def)
qed

section \<open>The other readers\<close>

text \<open>The readers of MPEG audio, L16, GSM and transport streams allocate nothing.\<close>

definition free_MPA :: "nat \<Rightarrow> live_blocks \<Rightarrow> (live_blocks \<times> int) option" where "free_MPA stat h = Some (h, ERR_NOERROR)"
definition free_L16 :: "nat \<Rightarrow> live_blocks \<Rightarrow> (live_blocks \<times> int) option" where "free_L16 stat h = Some (h, ERR_NOERROR)"
definition free_GSM :: "nat \<Rightarrow> live_blocks \<Rightarrow> (live_blocks \<times> int) option" where "free_GSM stat h = Some (h, ERR_NOERROR)"
definition free_MP2T :: "nat \<Rightarrow> live_blocks \<Rightarrow> (live_blocks \<times> int) option" where "free_MP2T stat h = Some (h, ERR_NOERROR)"

definition free_MPV :: "nat \<Rightarrow> live_blocks \<Rightarrow> (live_blocks \<times> int) option" where
  "free_MPV stat h = map_option (\<lambda>h'. (h', ERR_NOERROR)) (free_block stat h)"

definition free_H26L :: "nat \<Rightarrow> live_blocks \<Rightarrow> (live_blocks \<times> int) option" where
  "free_H26L stat h = (if stat = 0 then Some (h, ERR_ALLOC) else map_option (\<lambda>h'. (h', ERR_NOERROR)) (free_block stat h))"

text \<open>The blocks of an MPEG-4 reader. Its state itself is not freed.\<close>

record mp4_blocks =
  blk_self :: nat
  blk_more :: nat
  blk_ref1 :: nat
  blk_ref2 :: nat

definition free_MP4ES ::
    "(static_MPEG4_video_es \<times> mp4_blocks) option \<Rightarrow> live_blocks \<Rightarrow>
     ((static_MPEG4_video_es \<times> mp4_blocks) option \<times> live_blocks \<times> int) option" where
  "free_MP4ES stat h =
    (case stat of
       None \<Rightarrow> Some (None, h, ERR_ALLOC)
     | Some (s, p) \<Rightarrow>
         do {
           h1 \<leftarrow> free_block (blk_more p) h;
           h2 \<leftarrow> free_block (blk_ref1 p) h1;
           h3 \<leftarrow> free_block (blk_ref2 p) h2;
           Some (Some (s\<lparr>more_data := None, ref1 := None, ref2 := None, fragmented4 := False, final_byte4 := 0, data_read := 0,
                         remained_data_size := 0, vop_coding_type := 0, vtir_bitlen := 0\<rparr>,
                       p\<lparr>blk_more := 0, blk_ref1 := 0, blk_ref2 := 0\<rparr>),
                 h3, ERR_NOERROR)
         })"

text \<open>Releasing twice is harmless, and what is left of the state is its block.\<close>

theorem mp4_release_twice:
  assumes "new_blocks [blk_self p, blk_more p, blk_ref1 p, blk_ref2 p] h"
  shows "\<exists>st. free_MP4ES (Some (s, p)) (h \<union> {blk_self p, blk_more p, blk_ref1 p, blk_ref2 p}) = Some (st, insert (blk_self p) h, ERR_NOERROR) \<and>
    free_MP4ES st (insert (blk_self p) h) = Some (st, insert (blk_self p) h, ERR_NOERROR)"
proof -
  have "h \<union> {blk_self p, blk_more p, blk_ref1 p, blk_ref2 p} - {blk_more p} - {blk_ref1 p} - {blk_ref2 p} = insert (blk_self p) h"
    using assms by (auto simp: new_blocks_def)
  then show ?thesis using assms by (auto simp: free_MP4ES_def new_blocks_def)
qed

section \<open>The handler table\<close>

text \<open>Releasing through the table; the entry of \<open>FILE_NONE\<close> has no function to call.\<close>

datatype reader_blocks = No_blocks | One_block nat | H264_blocks h264_blocks

fun free_media :: "media_file_type \<Rightarrow> reader_blocks \<Rightarrow> live_blocks \<Rightarrow> (live_blocks \<times> int) option" where
  "free_media FILE_NONE bs h = None"
| "free_media FILE_MP3 bs h = free_MPA 0 h"
| "free_media FILE_MPEG bs h = free_MPV (case bs of One_block a \<Rightarrow> a | _ \<Rightarrow> 0) h"
| "free_media FILE_H264 bs h = free_h264 (case bs of H264_blocks p \<Rightarrow> Some p | _ \<Rightarrow> None) h"

text \<open>Closing an MPEG video gives its state back.\<close>

lemma mpeg_release: "a \<noteq> 0 \<Longrightarrow> a \<notin> h \<Longrightarrow> free_media FILE_MPEG (One_block a) (insert a h) = Some (h, ERR_NOERROR)"
  by (simp add: free_MPV_def)

end
