(* ===== verification/Diagnostics.thy ===== *)
theory Diagnostics
  imports CString Bufferpool Xmalloc
begin

text \<open>
  The output for debugging: the dump of payloads to files (\<^verbatim>\<open>src/dump_payload.c\<close>), and the texts of
  \<^verbatim>\<open>src/dump_buffer.c\<close>, \<^verbatim>\<open>src/fncheader.c\<close>, \<^verbatim>\<open>bufferpool/OMSbuff_dump.c\<close> and the report of the allocation table
  in \<^verbatim>\<open>src/en_xmalloc.c\<close>.
\<close>

section \<open>Texts\<close>

text \<open>What is handed to the log, and what is printed at the start.\<close>

definition dump_buffer :: "string \<Rightarrow> string" where
  "dump_buffer buffer = ''BUFFER_START'' @ [LF] @ buffer @ [LF] @ ''-BUFFER_END-'' @ [LF]"

definition fncheader :: "string \<Rightarrow> string \<Rightarrow> string" where
  "fncheader package version = [LF] @ package @ '' '' @ version @ '' - Open Media Streaming'' @ [LF, LF]"

section \<open>The state of a buffer\<close>

text \<open>\<open>f2\<close> is the conversion \<^verbatim>\<open>%3.2f\<close> of \<open>printf\<close>. A consumer's last line is of his reading; the letters tell where the writer and
  the consumer stand.\<close>

definition pointer_letters :: "OMSConsumer option \<Rightarrow> OMSBuffer \<Rightarrow> nat \<Rightarrow> string" where
  "pointer_letters cs b i =
    [if write_pos (control b) = int i then CHR ''W'' else CHR '' '',
     if (case cs of Some c \<Rightarrow> read_pos c = int i | None \<Rightarrow> False) then CHR ''R'' else CHR '' '',
     if (case cs of Some c \<Rightarrow> last_read_pos c = int i | None \<Rightarrow> False) then CHR ''L'' else CHR '' '']"

definition slot_line :: "(cdouble \<Rightarrow> string) \<Rightarrow> OMSConsumer option \<Rightarrow> OMSBuffer \<Rightarrow> nat \<Rightarrow> string" where
  "slot_line f2 cs b i =
    (let sl = slots b ! i
     in ''refs: '' @ dec (uint (refs sl)) @ [TAB] @ ''seq: '' @ dec (uint (slot_seq sl)) @ ''   '' @ [TAB] @ ''time: '' @ f2 (timestamp sl) @ [TAB]
        @ ''slot: '' @ dec (int i) @ ''   '' @ [TAB] @ ''next: '' @ dec (next_slot sl) @ ''  '' @ [TAB] @ pointer_letters cs b i @ [LF])"

definition consumer_lines :: "(cdouble \<Rightarrow> string) \<Rightarrow> OMSConsumer \<Rightarrow> string" where
  "consumer_lines f2 c =
     ''Consumer'' @ [LF] @ '' last_seq:            '' @ dec (uint (last_seq c)) @ [LF]
     @ '' firstts:             '' @ f2 (firstts c) @ [LF] @ '' frames:              '' @ dec (sint (frames c)) @ [LF]"

definition buffer_lines :: "OMSBuffer \<Rightarrow> string" where
  "buffer_lines b =
     ''********* BUFFERPOOL DUMP *********'' @ [LF] @ ''Buffer'' @ [LF] @ '' refs:            '' @ dec (uint (ctl_refs (control b))) @ [LF]
     @ '' number of slots: '' @ dec (uint (nslots (control b))) @ [LF] @ '' known slots:     '' @ dec (uint (known_slots b)) @ [LF]"

text \<open>The file is opened by the first call (\<open>opened\<close> tells whether there was one), which writes the date; the result is whether it is open, and what was
  written. Reading a slot the memory does not hold is no result.\<close>

definition OMSbuff_dump ::
    "(cdouble \<Rightarrow> string) \<Rightarrow> string \<Rightarrow> bool \<Rightarrow> bool \<Rightarrow> OMSConsumer option \<Rightarrow> OMSBuffer option \<Rightarrow> (bool \<times> string) option" where
  "OMSbuff_dump f2 date can_open opened cs buffer =
    (case buffer of
       None \<Rightarrow> Some (opened, [])
     | Some b \<Rightarrow>
         if \<not> opened \<and> \<not> can_open then Some (False, [])
         else if length (slots b) < unat (known_slots b) then None
         else Some (True,
           (if opened then [] else ''['' @ date @ ''] [new dump]'' @ [LF] @ '' '')
           @ buffer_lines b @ (case cs of Some c \<Rightarrow> consumer_lines f2 c | None \<Rightarrow> [])
           @ concat (map (slot_line f2 cs b) [0..<unat (known_slots b)])
           @ ''--------- BUFFERPOOL DUMP ---------'' @ [LF]))"

section \<open>Payloads\<close>

text \<open>The static variables of the function: the names of the files, and their descriptors.\<close>

definition MAX_FILE_DUMP :: nat where "MAX_FILE_DUMP = 6"

record dump_table =
  dump_names :: "string list"
  dump_fins :: "int list"

definition dump_start :: dump_table where
  "dump_start = \<lparr>dump_names = [], dump_fins = replicate MAX_FILE_DUMP 0\<rparr>"

text \<open>\<open>opn\<close> is the result of \<open>open\<close>; the result also has what is written to a descriptor. A name longer than 254 does not fit
  into the table.\<close>

definition dump_payload ::
    "(string \<Rightarrow> int) \<Rightarrow> dump_table \<Rightarrow> uint8 list \<Rightarrow> string \<Rightarrow> (dump_table \<times> (int \<times> uint8 list) list \<times> int) option" where
  "dump_payload opn t data_slot fname =
    (let i = length (takeWhile (\<lambda>n. n \<noteq> fname) (dump_names t));
         found = (i < length (dump_names t))
     in if \<not> found \<and> MAX_FILE_DUMP \<le> length (dump_names t) then Some (t, [], - 1)
        else if \<not> found \<and> 255 \<le> length fname then None
        else
          (let t1 = (if found then t else t\<lparr>dump_names := dump_names t @ [fname]\<rparr>);
               f = (if dump_fins t1 ! i \<le> 0 then opn fname else dump_fins t1 ! i);
               t2 = t1\<lparr>dump_fins := (dump_fins t1)[i := f]\<rparr>
           in Some (t2, if f < 0 then [] else [(f, data_slot)], f)))"

fun dump_calls :: "(string \<Rightarrow> int) \<Rightarrow> dump_table \<Rightarrow> (string \<times> uint8 list) list \<Rightarrow> (dump_table \<times> (int \<times> uint8 list) list) option" where
  "dump_calls opn t [] = Some (t, [])"
| "dump_calls opn t ((n, d) # cs) =
    do {
      (t1, w, _) \<leftarrow> dump_payload opn t d n;
      (t2, ws) \<leftarrow> dump_calls opn t1 cs;
      Some (t2, w @ ws)
    }"

text \<open>The bytes that went to a descriptor, and those that were dumped under a name.\<close>

definition bytes_of :: "'k \<Rightarrow> ('k \<times> uint8 list) list \<Rightarrow> uint8 list" where
  "bytes_of k ws = concat (map snd (filter (\<lambda>w. fst w = k) ws))"

lemma bytes_of_simps [simp]:
  "bytes_of k [] = []" "bytes_of k (w # ws) = (if fst w = k then snd w else []) @ bytes_of k ws"
  "bytes_of k (ws @ vs) = bytes_of k ws @ bytes_of k vs"
  by (simp_all add: bytes_of_def)

definition dump_ok :: "(string \<Rightarrow> int) \<Rightarrow> dump_table \<Rightarrow> bool" where
  "dump_ok opn t \<longleftrightarrow> length (dump_fins t) = MAX_FILE_DUMP \<and> length (dump_names t) \<le> MAX_FILE_DUMP \<and>
     (\<forall>i < MAX_FILE_DUMP. dump_fins t ! i = (if i < length (dump_names t) then opn (dump_names t ! i) else 0))"

lemma name_place: "i = length (takeWhile (\<lambda>n. n \<noteq> f) ns) \<Longrightarrow> (i < length ns \<longleftrightarrow> f \<in> set ns) \<and> (i < length ns \<longrightarrow> ns ! i = f) \<and> i \<le> length ns"
  by (induction ns arbitrary: i) auto

lemma dump_one:
  assumes "dump_ok opn t" and "\<And>n. 0 < opn n" and "length f < 255"
  shows "dump_payload opn t d f =
    (if f \<in> set (dump_names t) then Some (t, [(opn f, d)], opn f)
     else if length (dump_names t) < MAX_FILE_DUMP
     then Some (t\<lparr>dump_names := dump_names t @ [f], dump_fins := (dump_fins t)[length (dump_names t) := opn f]\<rparr>, [(opn f, d)], opn f)
     else Some (t, [], - 1))"
proof -
  define i where "i = length (takeWhile (\<lambda>n. n \<noteq> f) (dump_names t))"
  note p = name_place [OF i_def]
  have neg: "\<not> opn n < 0" "\<not> opn n \<le> 0" for n using assms(2) [of n] by simp_all
  show ?thesis
  proof (cases "f \<in> set (dump_names t)")
    case True
    then have i: "i < length (dump_names t)" "dump_names t ! i = f" using p by auto
    then have "dump_fins t ! i = opn f" using assms(1) by (simp add: dump_ok_def)
    then have "t\<lparr>dump_fins := (dump_fins t)[i := opn f]\<rparr> = t" by (metis list_update_id dump_table.surjective dump_table.update_convs(2))
    then show ?thesis using True i \<open>dump_fins t ! i = opn f\<close> neg by (simp add: dump_payload_def Let_def i_def [symmetric])
  next
    case False
    then have i: "i = length (dump_names t)" using p by (metis le_neq_implies_less)
    show ?thesis
    proof (cases "length (dump_names t) < MAX_FILE_DUMP")
      case True
      then have "dump_fins t ! i = 0" using assms(1) i by (simp add: dump_ok_def)
      then show ?thesis using False True i assms(3) neg by (simp add: dump_payload_def Let_def i_def [symmetric])
    next
      case full: False
      then show ?thesis using False i by (simp add: dump_payload_def Let_def i_def [symmetric])
    qed
  qed
qed

text \<open>When \<open>open\<close> succeeds and gives each name a descriptor of its own, each of the first six names gets all the bytes that were dumped under it, in
  order and nothing else, and the other names get nothing.\<close>

theorem dump_files:
  assumes "\<And>n. 0 < opn n" and "inj opn"
  shows "dump_ok opn t \<Longrightarrow> list_all (\<lambda>(n, d). length n < 255) cs \<Longrightarrow>
    \<exists>t' ws. dump_calls opn t cs = Some (t', ws) \<and> dump_ok opn t' \<and> set (dump_names t) \<subseteq> set (dump_names t') \<and>
      (MAX_FILE_DUMP \<le> length (dump_names t) \<longrightarrow> dump_names t' = dump_names t) \<and>
      (\<forall>f. bytes_of (opn f) ws = (if f \<in> set (dump_names t') then bytes_of f cs else []))"
proof (induction cs arbitrary: t)
  case Nil
  then show ?case by auto
next
  case (Cons c cs)
  obtain n d where c: "c = (n, d)" by (cases c)
  have n: "length n < 255" "list_all (\<lambda>(n, d). length n < 255) cs" using Cons.prems(2) by (simp_all add: c)
  have same: "opn f = opn n \<longleftrightarrow> f = n" for f using assms(2) by (auto dest: injD)
  note one = dump_one [OF Cons.prems(1) assms(1) n(1), of d]
  consider (old) "n \<in> set (dump_names t)" | (new) "n \<notin> set (dump_names t)" "length (dump_names t) < MAX_FILE_DUMP"
    | (full) "n \<notin> set (dump_names t)" "\<not> length (dump_names t) < MAX_FILE_DUMP" by blast
  then show ?case
  proof cases
    case old
    from Cons.IH [OF Cons.prems(1) n(2)] old one same show ?thesis by (fastforce simp: c)
  next
    case new
    let ?t = "t\<lparr>dump_names := dump_names t @ [n], dump_fins := (dump_fins t)[length (dump_names t) := opn n]\<rparr>"
    have "dump_ok opn ?t" using Cons.prems(1) new(2) by (auto simp: dump_ok_def nth_list_update nth_append)
    from Cons.IH [OF this n(2)] new one same show ?thesis by (fastforce simp: c)
  next
    case full
    from Cons.IH [OF Cons.prems(1) n(2)] full one show ?thesis by (fastforce simp: c)
  qed
qed

section \<open>The report of the allocation table\<close>

text \<open>What the server prints when it ends. The conversion for a block that is still live has six places and only five arguments:
  \<^verbatim>\<open>%s\<close> gets the number of a line. Following that pointer is no result.\<close>

definition stats_text :: "alloc_state \<Rightarrow> string" where
  "stats_text s =
     [LF] @ ''Malloc Size(bytes): '' @ [TAB] @ dec (sint (malloc_size s)) @ [LF]
     @ ''Free size(bytes):'' @ [TAB] @ dec (sint (free_size s)) @ [LF]
     @ ''Balance size(bytes):'' @ [TAB] @ dec (sint (malloc_size s - free_size s)) @ [LF]
     @ ''Malloc count:'' @ [TAB] @ dec (sint (malloc_count s)) @ [LF]
     @ ''Free count:'' @ [TAB] @ dec (sint (free_count s)) @ [LF]
     @ ''Balance count:'' @ [TAB] @ dec (sint (malloc_count s - free_count s)) @ [LF, LF]"

definition xmalloc_debug_stats :: "alloc_state \<Rightarrow> string option" where
  "xmalloc_debug_stats s =
    (if list_all (\<lambda>i. mp_ptr (table s i) = 0) [0..<SZ] then Some (stats_text s) else None)"

text \<open>After calls that the table follows exactly, the report is printed if and only if every block was given back; then its balances
  are zero. A single block that is left makes the server crash at its end.\<close>

theorem stats_need_no_leak:
  assumes "calls_ok cs []"
  shows "\<exists>s. alloc_run cs alloc_start = Some (Inr s) \<and>
    xmalloc_debug_stats s = (if fold live_step cs [] = [] then Some (stats_text s) else None) \<and>
    (fold live_step cs [] = [] \<longrightarrow> malloc_count s = free_count s \<and> malloc_size s = free_size s)"
proof -
  let ?L = "fold live_step cs []"
  from run_holds [OF start_holds assms] obtain s where s: "alloc_run cs alloc_start = Some (Inr s)" "holds_blocks ?L s" by blast
  have "list_all (\<lambda>i. mp_ptr (table s i) = 0) [0..<SZ] \<longleftrightarrow> ?L = []"
  proof
    assume "list_all (\<lambda>i. mp_ptr (table s i) = 0) [0..<SZ]"
    then have z: "mp_ptr (table s i) = 0" if "i < SZ" for i using that by (simp add: list_all_iff)
    then have "(p, n) \<notin> set ?L" for p n using s(2) z [OF home_less, of p] unfolding holds_blocks_def by metis
    then show "?L = []" by (metis list.set_intros(1) neq_Nil_conv surj_pair)
  next
    assume L: "?L = []"
    have "mp_ptr (table s i) = 0" if "i < SZ" for i
    proof (rule ccontr)
      assume n: "mp_ptr (table s i) \<noteq> 0"
      then have "home (mp_ptr (table s i)) = i" using s(2) that by (simp add: holds_blocks_def at_home_def)
      with n s(2) have "(mp_ptr (table s i), mp_size (table s i)) \<in> set ?L" unfolding holds_blocks_def by metis
      with L show False by simp
    qed
    then show "list_all (\<lambda>i. mp_ptr (table s i) = 0) [0..<SZ]" by (simp add: list_all_iff)
  qed
  with s show ?thesis by (auto simp: xmalloc_debug_stats_def holds_blocks_def)
qed

end
