(* ===== verification/Sockets.thy ===== *)
theory Sockets
  imports CString
begin

text \<open>
  The functions of \<^verbatim>\<open>socket/\<close> that pass a call on to the system (\<^verbatim>\<open>tcp_read.c\<close>, \<^verbatim>\<open>tcp_write.c\<close>, \<^verbatim>\<open>tcp_accept.c\<close>,
  \<^verbatim>\<open>tcp_close.c\<close>, \<^verbatim>\<open>udp_close.c\<close>) and the text of an address (\<^verbatim>\<open>sock_ntop_host.c\<close>). The system is a record of its calls.
  The sockets the server opens are in \<^verbatim>\<open>Startup\<close> and \<^verbatim>\<open>Rtsp_Setup\<close>.
\<close>

section \<open>Calls of the system\<close>

text \<open>\<open>None\<close> stands for the result \<open>-1\<close>, otherwise the bytes received; the others are the results of the calls.\<close>

record socket_os =
  sys_recv :: "int \<Rightarrow> nat \<Rightarrow> uint8 list option"
  sys_write :: "int \<Rightarrow> uint8 list \<Rightarrow> int"
  sys_accept :: "int \<Rightarrow> int"
  sys_close :: "int \<Rightarrow> int"

definition tcp_read :: "socket_os \<Rightarrow> int \<Rightarrow> nat \<Rightarrow> uint8 list \<times> int" where
  "tcp_read os s nbytes = (case sys_recv os s nbytes of None \<Rightarrow> ([], - 1) | Some d \<Rightarrow> (d, int (length d)))"

definition tcp_write :: "socket_os \<Rightarrow> int \<Rightarrow> uint8 list \<Rightarrow> int" where
  "tcp_write os s data_bytes = sys_write os s data_bytes"

definition tcp_accept :: "socket_os \<Rightarrow> int \<Rightarrow> int" where
  "tcp_accept os s = sys_accept os s"

definition udp_close :: "socket_os \<Rightarrow> int \<Rightarrow> int" where
  "udp_close os s = sys_close os s"

text \<open>The result of \<open>close\<close> is not looked at.\<close>

definition tcp_close :: "socket_os \<Rightarrow> int \<Rightarrow> unit" where
  "tcp_close os s = (let _ = sys_close os s in ())"

section \<open>Addresses\<close>

text \<open>An address as text. \<open>ntop6\<close> is \<open>inet_ntop\<close> for the addresses of IP version 6. Without a pathname the text is copied
  without a look at the size of the buffer: \<open>None\<close> is a write past its end; \<open>Some None\<close> the result \<open>NULL\<close>.\<close>

datatype socket_address = Inet uint8 uint8 uint8 uint8 | Inet6 "uint8 list" | Unix_path string | Other_family int

definition inet_ntop :: "uint8 \<Rightarrow> uint8 \<Rightarrow> uint8 \<Rightarrow> uint8 \<Rightarrow> string" where
  "inet_ntop a b c d = dec (uint a) @ ''.'' @ dec (uint b) @ ''.'' @ dec (uint c) @ ''.'' @ dec (uint d)"

definition sock_ntop_host :: "(uint8 list \<Rightarrow> string) \<Rightarrow> socket_address \<Rightarrow> nat \<Rightarrow> nat \<Rightarrow> string option option" where
  "sock_ntop_host ntop6 sa salen len =
    (case sa of
       Inet a b c d \<Rightarrow> (let s = inet_ntop a b c d in Some (if length s < len then Some s else None))
     | Inet6 bs \<Rightarrow> (let s = ntop6 bs in Some (if length s < len then Some s else None))
     | Unix_path p \<Rightarrow>
         if p = [] then (let s = ''(no pathname bound)'' in if length s < len then Some (Some s) else None)
         else Some (Some (take (len - 1) p))
     | Other_family f \<Rightarrow>
         Some (Some (take (len - 1) (''sock_ntop_host: unknown AF_xxx: '' @ dec f @ '', len '' @ dec (int salen)))))"

text \<open>Except for the fixed text of a path that is not bound, the buffer is never overrun.\<close>

lemma ntop_fits: "sock_ntop_host ntop6 sa salen len = Some (Some s) \<Longrightarrow> 0 < len \<Longrightarrow> length s < len"
  by (auto simp: sock_ntop_host_def Let_def split: socket_address.splits if_splits)

end
