(* ===== verification/Spec2Isabelle.thy ===== *)
theory Spec2Isabelle
  imports Bufferpool_Safety H264 Md5 Media_Readers Mpeg4_Video Mpeg_System Shm_Buffer Xmalloc Startup Connection_Types
    Playing Reader_Release Diagnostics Sockets
begin

text \<open>
  Fenice 1.12 with H.264: a streaming server that reads MP3, MPEG video and H.264 files, announces them by
  RTSP and SDP and sends them by RTP, with RTCP reports. This development models the server from the bytes a
  client sends to the datagrams it gets.

  \<^bold>\<open>The parts and how they interact.\<close> The main thread waits for descriptors, reads the requests of the
  connections and answers them (\<^verbatim>\<open>eventloop/\<close>, \<^verbatim>\<open>rtsp/\<close>). DESCRIBE and SETUP read the
  description file of a presentation into the catalogue (\<^verbatim>\<open>mediainfo/\<close>) and SETUP makes an RTP session
  with a pair of ports from the pool (\<^verbatim>\<open>rtp/\<close>) and an entry in the scheduler's table
  (\<^verbatim>\<open>schedule/\<close>). The scheduler's thread visits the entries: it adapts the rate
  (\<^verbatim>\<open>intnet/\<close>), sends reports (\<^verbatim>\<open>rtcp/\<close>) and sends the packets that wait in the
  medium's buffer (\<^verbatim>\<open>bufferpool/\<close>); when the buffer is empty, \<^verbatim>\<open>get_frame\<close> lets
  the reader of the medium produce the packets of the next frame.

  \<^bold>\<open>The theories.\<close>
  \<^item> \<open>Fenice_Prelude\<close>: integer types, error codes, locks, the locale \<open>step_system\<close> of an
    invariant of a step relation, which every machine of the development interprets, and shared lemmas.
  \<^item> \<open>CString\<close>: the functions of the C library on strings (\<open>strstr\<close>, \<open>strtok\<close>,
    \<open>sscanf\<close>, \<open>printf\<close> of numbers). \<open>Fenice_Util\<close>: \<^verbatim>\<open>src/\<close>, the
    paths, supported files and time stamps.
  \<^item> \<open>Bufferpool\<close>: the ring of slots with all operations of the producer and the consumers, and the
    shared-memory variants. \<open>Bufferpool_Ring\<close> proves the ring invariant of every operation,
    \<open>Bufferpool_Fifo\<close> the refinement of a queue for one consumer (locale of a queue, interpreted on the
    buffer), \<open>Bufferpool_Safety\<close> the invariant for any number of consumers and the ways the code breaks its
    contract. \<open>Shm_Buffer\<close>: creation, mapping and removal of shared buffers.
  \<^item> \<open>Media_Types\<close>, \<open>Media_Catalog\<close>: media entries, the parser of description files, validation,
    selection and copies; every catalogue a client can bring about is playable.
  \<^item> \<open>Port_Pool\<close>, \<open>Rtp\<close>, \<open>Rtcp\<close>: port pairs, RTP sessions and packets, the loop that
    sends what waits, \<^verbatim>\<open>get_frame\<close>, the reports in both directions.
  \<^item> \<open>H264\<close>, \<open>Mp3_Reader\<close>, \<open>Mpeg_Video\<close>: the readers, with the round trip of
    RFC 6184 fragmentation and the losslessness of RFC 2250 packets; \<open>Media_Readers\<close> is the table of
    handlers, which instantiates the reader the scheduler takes as a parameter, and the composition of reader,
    \<^verbatim>\<open>get_frame\<close> and buffer.
  \<^item> \<open>Other_Readers\<close> (PCM, GSM, H.26L, transport streams), \<open>Mpeg4_Video\<close>, \<open>Mpeg_System\<close>: the readers the table
    does not name, with the bit fields and the clocks they decode.
  \<^item> \<open>Md5\<close>: the digest at both widths of its word type, and the random numbers made from it.
  \<^item> \<open>Server_State\<close>: the heap of RTP sessions, the scheduler's table and the catalogue as one state.
    \<open>Adaptation\<close>: the chains of bit rates. \<open>Scheduler\<close>: one visit of an entry. \<open>Sdp\<close>: the
    description text.
  \<^item> \<open>Rtsp_Msg\<close> (framing, recognition, input and output buffer), \<open>Rtsp_Url\<close>, \<open>Rtsp_Reply\<close>,
    \<open>Rtsp_Methods\<close>, \<open>Rtsp_Setup\<close>, \<open>Rtsp_Machine\<close>: the connection, one definition for every
    function under \<^verbatim>\<open>rtsp/\<close>.
  \<^item> \<open>Event_Loop\<close>: one round of the main thread, and the step relation in which the two threads take
    turns. \<open>Table_Safety\<close> proves that table, connections and sessions agree in every reachable state, and how many connections
    a process serves,
    \<open>Connection_Types\<close> that every connection stays in the three states of the protocol and within its buffer.
    \<open>Startup\<close>: preferences, options, listening.
  \<^item> \<open>File_To_Wire\<close> composes reader, handler table, \<^verbatim>\<open>get_frame\<close>, buffer and \<^verbatim>\<open>RTP_send_packet\<close>: the locale
    \<open>frame_source\<close> is what a reader promises of the frames to come, \<open>finite_source\<close> that it reports the end, and their
    lemmas are about any sequence of calls; both are interpreted on the readers of the table. \<open>Playing\<close> carries this through
    PLAY, the clock, RTCP and the visits of the scheduler (locales \<open>steady_source\<close> and \<open>steady_finite\<close>): what the bytes of a file
    become at the client.
  \<^item> \<open>Reader_Release\<close>: what remains of a reader's memory when its medium is closed. \<open>Diagnostics\<close>: the dumps, and
    the report of the allocation table. \<open>Sockets\<close>: the
    calls that are passed on to the system, and the text of an address.
  \<^item> \<open>Xmalloc\<close>: the table in which the server's allocator keeps the live blocks; the other theories take
    allocation as a call that succeeds or not.

  \<^bold>\<open>How the code is represented.\<close> Structures are records with the names of the fields, integers words of their
  width, \<open>double\<close> is \<open>cdouble\<close>, an exact number: rounding is not modelled. An option around a result is
  a call that does not return, because it waits for a mutex for ever, follows a null or dangling pointer, or loops; the
  theorems that a call returns are stated as an existence of the result. A pointer to an RTP session is an address
  of the heap, a slot of a buffer an index, the slot's data are addressed by the slot. System calls, the clock, the
  file system and random numbers are fields of environment records, so that a theorem speaks of all their answers.
  The mutexes of the buffer are fields of its state; the two threads otherwise take turns at the granularity
  of one connection and of one entry of the table. Finer interleavings, in which the threads race on fields that no lock
  protects, are not modelled.

  \<^bold>\<open>Arrays.\<close> An array is a list of its length or a text below its bound. Where the code writes behind the end of one
  the result is \<open>None\<close>: the reader's array of a NAL unit (100000 bytes), the text of the reply to DESCRIBE (3560), the
  description (4096), and the values of a description file that are read into shorter arrays than a line is long. The terminator that
  \<^verbatim>\<open>bwrite\<close> puts behind a reply that ends exactly with the output buffer falls on the low byte of \<^verbatim>\<open>out_size\<close>, the next
  field of the structure in a little-endian layout, and is modelled there. Slots that are used through a pointer after their shared memory has moved are \<open>None\<close>, too. A theorem about such
  a function names the bound among its hypotheses; \<open>large_unit_overflows\<close> and \<open>exact_fit_loses\<close> show what happens beyond.

  \<^bold>\<open>Loops.\<close> Loops over lists and texts are structural or have a termination proof by a measure. Loops that can run for ever
  in the code (the reception of RTCP packets, the loop over the requests of a connection, the headers of an MPEG stream, the
  search for a slot that a new reader may start with, the description of an aggregate) are partial functions into the
  option type, and theorems show where they end and where they do not. No fuel is used.

  \<^bold>\<open>What the theorems show.\<close> Functional correctness of the data path: what a reader takes from a file reaches the
  client's datagrams in order, unchanged, with right headers. The theory \<open>Playing\<close> states it
  from PLAY to the datagrams, for H.264 against a receiver that follows RFC 6184. Safety of the control path: ports, table entries,
  sessions and catalogue agree whatever clients send. Framing: requests and replies are delimited as the protocol
  demands. And, where the code fails, the exact failure: the calls that hang, crash, or lose data.

  \<^bold>\<open>Not modelled.\<close> The log library, which is third-party code that only prints, and libev, which is vendored and which the
  server never calls; the headers no source file uses; the build files. The log lines are left out of every operation, except
  where writing one dereferences a pointer.
\<close>

end
